(* ===== verification/K2N_Prelude.thy ===== *)
theory K2N_Prelude
  imports Main "HOL-Library.Signed_Division" "HOL-Library.List_Lexorder" "HOL-Library.Char_ord"
begin

text \<open>
  Shared vocabulary of the development: the 64-bit arithmetic of \<^verbatim>\<open>std::chrono\<close>, C++
  exceptions as values, the ordered \<^verbatim>\<open>std::map\<close> as a sorted association list, and the
  generic list facts the component theories use.

  A \<^verbatim>\<open>time_point\<close> or \<^verbatim>\<open>duration\<close> is the signed 64-bit count of nanoseconds that
  \<^verbatim>\<open>std::chrono::system_clock\<close> keeps in libstdc++. Values are \<^typ>\<open>int\<close> and every sum,
  difference or product that the code forms is written through \<open>s64\<close>, the two's complement
  value of the result. Signed overflow is undefined behaviour in C++; the theorems that matter show
  that the sums concerned stay in range, so that \<open>s64\<close> is the identity there.
\<close>

section \<open>Signed 64-bit arithmetic\<close>

named_theorems wrap64 \<open>facts that remove the 64-bit wrap-around from sums that stay in range\<close>
named_theorems keeps \<open>invariant preservation, one fact per operation\<close>

type_synonym time_point = int
type_synonym duration = int

abbreviation tp_max :: time_point where
  "tp_max \<equiv> 9223372036854775807"

abbreviation tp_min :: time_point where
  "tp_min \<equiv> - 9223372036854775808"

definition s64 :: "int \<Rightarrow> int" where
  "s64 x = (x + 9223372036854775808) mod 18446744073709551616 - 9223372036854775808"

definition in_s64 :: "int \<Rightarrow> bool" where
  "in_s64 x \<longleftrightarrow> tp_min \<le> x \<and> x \<le> tp_max"

lemma s64_id [wrap64]: "tp_min \<le> x \<Longrightarrow> x \<le> tp_max \<Longrightarrow> s64 x = x"
  by (simp add: s64_def)

lemma s64_in_s64: "in_s64 (s64 x)"
proof -
  have "(x + 9223372036854775808) mod 18446744073709551616 < (18446744073709551616 :: int)"
    and "0 \<le> (x + 9223372036854775808) mod (18446744073709551616 :: int)"
    by simp_all
  then show ?thesis unfolding in_s64_def s64_def by linarith
qed

lemma s64_eq_iff: "s64 x = x \<longleftrightarrow> in_s64 x"
  using s64_in_s64 [of x] s64_id [of x] by (auto simp: in_s64_def)

lemma s64_above:
  assumes "tp_max < x" and "x \<le> 2 * tp_max"
  shows "s64 x = x - 18446744073709551616"
proof -
  have "(x + 9223372036854775808) mod 18446744073709551616 =
      (x + 9223372036854775808 - 18446744073709551616) mod 18446744073709551616"
    by (metis minus_mod_self2)
  also have "\<dots> = x + 9223372036854775808 - 18446744073709551616"
    using assms by (intro mod_pos_pos_trivial) simp_all
  finally show ?thesis by (simp add: s64_def)
qed

text \<open>The 32-bit \<^verbatim>\<open>int\<close>.\<close>

definition s32 :: "int \<Rightarrow> int" where
  "s32 x = (x + 2147483648) mod 4294967296 - 2147483648"

lemma s32_id [wrap64]: "- 2147483648 \<le> x \<Longrightarrow> x \<le> 2147483647 \<Longrightarrow> s32 x = x"
  by (simp add: s32_def)

text \<open>Milliseconds and seconds as \<^verbatim>\<open>duration\<close> literals, and \<^verbatim>\<open>duration_cast\<close>, which
  truncates towards zero.\<close>

definition millis :: "int \<Rightarrow> duration" where
  "millis n = s64 (n * 1000000)"

definition seconds :: "int \<Rightarrow> duration" where
  "seconds n = s64 (n * 1000000000)"

lemma sdiv_pos_bounds:
  fixes a d :: int
  assumes "0 \<le> a" and "0 < d"
  shows "a sdiv d * d \<le> a" and "a < a sdiv d * d + d" and "0 \<le> a sdiv d"
proof -
  have eq: "a sdiv d = a div d"
    using assms by (auto simp: signed_divide_int_def sgn_if)
  have m: "a = a div d * d + a mod d" by simp
  have "0 \<le> a mod d" and "a mod d < d" using assms by simp_all
  with m show "a sdiv d * d \<le> a" and "a < a sdiv d * d + d" unfolding eq by linarith+
  show "0 \<le> a sdiv d" unfolding eq using assms by (simp add: pos_imp_zdiv_nonneg_iff)
qed

section \<open>Exceptions as values\<close>

text \<open>The exception classes the modelled code throws or tells apart in its \<^verbatim>\<open>catch\<close> clauses.
  \<^verbatim>\<open>WriterException\<close> derives from \<^verbatim>\<open>std::runtime_error\<close>, \<^verbatim>\<open>MetadataException\<close>
  directly from \<^verbatim>\<open>std::exception\<close>, as do the exceptions of the JSON library.\<close>

datatype exn =
    Runtime_Error (exn_what: string)
  | Writer_Exception (exn_what: string)
  | Metadata_Exception (exn_what: string)
  | Out_Of_Range (exn_what: string)
  | Json_Parse_Error (exn_what: string)
  | Json_Type_Error (exn_what: string)
  | Std_Exception (exn_what: string)

fun is_runtime_error :: "exn \<Rightarrow> bool" where
  "is_runtime_error (Runtime_Error _) = True"
| "is_runtime_error (Writer_Exception _) = True"
| "is_runtime_error _ = False"

section \<open>The ordered map\<close>

text \<open>\<^verbatim>\<open>std::map\<close> keeps its entries in ascending key order, and the code iterates over them in
  that order. The model is the list of entries.\<close>

fun smap_insert :: "'k::linorder \<Rightarrow> 'v \<Rightarrow> ('k \<times> 'v) list \<Rightarrow> ('k \<times> 'v) list" where
  "smap_insert k v [] = [(k, v)]"
| "smap_insert k v ((k', v') # m) =
     (if k < k' then (k, v) # (k', v') # m
      else if k = k' then (k, v) # m
      else (k', v') # smap_insert k v m)"

definition smap_ok :: "('k::linorder \<times> 'v) list \<Rightarrow> bool" where
  "smap_ok m \<longleftrightarrow> sorted_wrt (<) (map fst m)"

locale std_map =
  fixes empty :: 'm
    and insert :: "'k \<Rightarrow> 'v \<Rightarrow> 'm \<Rightarrow> 'm"
    and find :: "'m \<Rightarrow> 'k \<Rightarrow> 'v option"
    and invar :: "'m \<Rightarrow> bool"
  assumes find_empty: "find empty k = None"
    and find_insert: "find (insert k v m) k' = (if k' = k then Some v else find m k')"
    and invar_empty: "invar empty"
    and invar_insert: "invar m \<Longrightarrow> invar (insert k v m)"
begin

lemma invar_fold: "invar m \<Longrightarrow> invar (fold (\<lambda>x. insert (f x) (g x)) xs m)"
  by (induction xs arbitrary: m) (auto intro: invar_insert)

text \<open>Assigning \<open>m[f x] = g x\<close> for every element leaves, at each key, the value of the last
  element with that key.\<close>

lemma find_fold_insert:
  "find (fold (\<lambda>x. insert (f x) (g x)) xs m) k =
     (case filter (\<lambda>x. f x = k) xs of [] \<Rightarrow> find m k | ys \<Rightarrow> Some (g (last ys)))"
proof (induction xs rule: rev_induct)
  case Nil
  then show ?case by simp
next
  case (snoc x xs)
  then show ?case
    by (cases "filter (\<lambda>x. f x = k) xs") (auto simp: find_insert split: list.splits)
qed

end

lemma map_of_smap_insert: "map_of (smap_insert k v m) k' = (if k' = k then Some v else map_of m k')"
  by (induction k v m rule: smap_insert.induct) auto

lemma set_keys_smap_insert: "fst ` set (smap_insert k v m) = insert k (fst ` set m)"
  by (induction k v m rule: smap_insert.induct) auto

lemma smap_ok_insert: "smap_ok m \<Longrightarrow> smap_ok (smap_insert k v m)"
proof (induction k v m rule: smap_insert.induct)
  case (2 k v k' v' m)
  have keys: "set (map fst (smap_insert k v m)) = insert k (fst ` set m)"
    by (simp add: set_keys_smap_insert)
  show ?case
    using 2 keys by (auto simp: smap_ok_def)
qed (simp add: smap_ok_def)

interpretation smap: std_map "[] :: ('k::linorder \<times> 'v) list" smap_insert map_of smap_ok
  by unfold_locales (auto simp: map_of_smap_insert smap_ok_insert, simp add: smap_ok_def)

lemma smap_ok_distinct: "smap_ok m \<Longrightarrow> distinct (map fst m)"
  by (simp add: smap_ok_def strict_sorted_iff)

lemma smap_ok_in_set: "smap_ok m \<Longrightarrow> (k, v) \<in> set m \<longleftrightarrow> map_of m k = Some v"
  using map_of_eq_Some_iff smap_ok_distinct by fastforce

text \<open>The entries of an ordered map are determined by its keys and its lookup function.\<close>

lemma smap_ok_entries:
  assumes "smap_ok m"
  shows "m = map (\<lambda>k. (k, the (map_of m k))) (sorted_list_of_set (fst ` set m))"
proof -
  have keys: "sorted_list_of_set (fst ` set m) = map fst m"
    using sorted_list_of_set.idem_if_sorted_distinct [of "map fst m"] assms
    by (simp add: smap_ok_def strict_sorted_iff)
  have "map (\<lambda>k. (k, the (map_of m k))) (map fst m) = m"
    using smap_ok_in_set [OF assms] by (auto simp del: map_map simp: map_map intro!: map_idI)
  with keys show ?thesis by simp
qed

section \<open>Lists\<close>

text \<open>\<^verbatim>\<open>v.erase(std::remove_if(v.begin(), v.end(), p), v.end())\<close> for a predicate that does not
  throw: the elements that fail \<open>p\<close>, in their order.\<close>

definition erase_remove_if :: "('a \<Rightarrow> bool) \<Rightarrow> 'a list \<Rightarrow> 'a list" where
  "erase_remove_if p xs = filter (\<lambda>x. \<not> p x) xs"

lemma takeWhile_append_all: "\<forall>x \<in> set xs. P x \<Longrightarrow> takeWhile P (xs @ ys) = xs @ takeWhile P ys"
  by (induction xs) auto

end
