(* ===== verification/Flatbuffer.thy ===== *)
theory Flatbuffer
  imports K2N_Prelude
begin

text \<open>
  \<^verbatim>\<open>src/Msg.h\<close>, \<^verbatim>\<open>src/FlatbufferReader.{h,cpp}\<close>, \<^verbatim>\<open>src/FlatbufferMessage.{h,cpp}\<close> and
  \<^verbatim>\<open>src/Source.{h,cpp}\<close>: Kafka messages, the registry of flatbuffer readers, and the validated
  message the rest of the program passes around.

  Bytes are \<^typ>\<open>char\<close>s, so a flatbuffer id is the string of bytes 4 to 7. The generated
  flatbuffers code behind a reader is an argument: a reader is the record of its three functions.
  \<^verbatim>\<open>std::hash<std::string>\<close> is implementation defined and is the argument \<open>h\<close>.
\<close>

type_synonym bytes = "char list"
type_synonym hash = nat

datatype MessageTimestampType =
    MSG_TIMESTAMP_NOT_AVAILABLE
  | MSG_TIMESTAMP_CREATE_TIME
  | MSG_TIMESTAMP_LOG_APPEND_TIME

record MessageMetaData =
  md_Timestamp :: int
  md_TimestampType :: MessageTimestampType
  md_Offset :: int
  md_Partition :: int
  md_topic :: string

record Msg =
  msg_Data :: bytes
  msg_MetaData :: MessageMetaData

definition empty_MetaData :: MessageMetaData where
  "empty_MetaData = \<lparr>md_Timestamp = 0, md_TimestampType = MSG_TIMESTAMP_NOT_AVAILABLE, md_Offset = 0, md_Partition = 0, md_topic = []\<rparr>"

definition empty_Msg :: Msg where
  "empty_Msg = \<lparr>msg_Data = [], msg_MetaData = empty_MetaData\<rparr>"

text \<open>\<^verbatim>\<open>MessageMetaData::timestamp()\<close>: milliseconds to a \<^verbatim>\<open>time_point\<close>.\<close>

definition md_timestamp :: "MessageMetaData \<Rightarrow> time_point" where
  "md_timestamp m = millis (md_Timestamp m)"

section \<open>Readers\<close>

record fb_reader =
  fbr_verify :: "bytes \<Rightarrow> bool"
  fbr_source_name :: "bytes \<Rightarrow> string"
  fbr_timestamp :: "bytes \<Rightarrow> nat"

type_synonym readers = "(string \<times> fb_reader) list"

definition find_reader :: "readers \<Rightarrow> string \<Rightarrow> exn + fb_reader" where
  "find_reader items Key =
     (case map_of items Key of
        Some r \<Rightarrow> Inr r
      | None \<Rightarrow> Inl (Out_Of_Range (''No such Reader in registry: \"'' @ ''map::at'' @ ''\"'')))"

definition addReader :: "readers \<Rightarrow> string \<Rightarrow> fb_reader \<Rightarrow> exn + readers" where
  "addReader m FlatbufferID Item =
     (if length FlatbufferID \<noteq> 4 then
        Inl (Runtime_Error ''FlatbufferReader ID must be a 4 character string.'')
      else if map_of m FlatbufferID \<noteq> None then
        Inl (Runtime_Error (''ERROR FlatbufferReader for ID ['' @ FlatbufferID @ ''] exists already''))
      else Inr (smap_insert FlatbufferID Item m))"

lemma addReader_find:
  assumes "addReader m i r = Inr m'"
  shows "find_reader m' i = Inr r" and "j \<noteq> i \<Longrightarrow> find_reader m' j = find_reader m j"
  using assms by (auto simp: addReader_def find_reader_def map_of_smap_insert split: if_splits)

section \<open>Validated messages\<close>

datatype fb_error =
    BufferTooSmallError
  | UnknownFlatbufferID
  | InvalidFlatbufferTimestamp
  | NotValidFlatbuffer

record FlatbufferMessage =
  fm_Data :: bytes
  fm_SourceNameIDHash :: hash
  fm_Sourcename :: string
  fm_ID :: string
  fm_Timestamp :: int
  fm_Valid :: bool

definition empty_FlatbufferMessage :: FlatbufferMessage where
  "empty_FlatbufferMessage =
     \<lparr>fm_Data = [], fm_SourceNameIDHash = 0, fm_Sourcename = [], fm_ID = [],
      fm_Timestamp = 0, fm_Valid = False\<rparr>"

definition calcSourceHash :: "(string \<Rightarrow> hash) \<Rightarrow> string \<Rightarrow> string \<Rightarrow> hash" where
  "calcSourceHash h ID Name = h (ID @ Name)"

text \<open>\<^verbatim>\<open>extractPacketInfo\<close>: the reader's timestamp is unsigned and stored as \<^verbatim>\<open>int64_t\<close>. The
  object under construction is discarded when an exception leaves the constructor, so the error
  branches return only the exception.\<close>

definition extractPacketInfo ::
  "(string \<Rightarrow> hash) \<Rightarrow> readers \<Rightarrow> FlatbufferMessage \<Rightarrow> fb_error + FlatbufferMessage" where
  "extractPacketInfo h items m =
     (let d = fm_Data m in
      if length d < 8 then Inl BufferTooSmallError
      else
        let FlatbufferID = take 4 (drop 4 d) in
        case find_reader items FlatbufferID of
          Inl _ \<Rightarrow> Inl UnknownFlatbufferID
        | Inr Reader \<Rightarrow>
            if \<not> fbr_verify Reader d then Inl NotValidFlatbuffer
            else
              let Sourcename = fbr_source_name Reader d;
                  Timestamp = s64 (int (fbr_timestamp Reader d))
              in if Timestamp = 0 then Inl InvalidFlatbufferTimestamp
                 else Inr (m\<lparr>fm_Sourcename := Sourcename, fm_Timestamp := Timestamp,
                            fm_SourceNameIDHash := calcSourceHash h FlatbufferID Sourcename,
                            fm_ID := FlatbufferID, fm_Valid := True\<rparr>))"

definition FlatbufferMessage_of_Msg ::
  "(string \<Rightarrow> hash) \<Rightarrow> readers \<Rightarrow> Msg \<Rightarrow> fb_error + FlatbufferMessage" where
  "FlatbufferMessage_of_Msg h items KafkaMessage =
     extractPacketInfo h items (empty_FlatbufferMessage\<lparr>fm_Data := msg_Data KafkaMessage\<rparr>)"

text \<open>The facts about a message that leaves the constructor normally, which the filters rely on.\<close>

definition fm_ok :: "(string \<Rightarrow> hash) \<Rightarrow> readers \<Rightarrow> FlatbufferMessage \<Rightarrow> bool" where
  "fm_ok h items m \<longleftrightarrow>
     fm_Valid m \<and> 8 \<le> length (fm_Data m) \<and> length (fm_ID m) = 4 \<and>
     fm_Timestamp m \<noteq> 0 \<and> in_s64 (fm_Timestamp m) \<and>
     fm_SourceNameIDHash m = calcSourceHash h (fm_ID m) (fm_Sourcename m) \<and>
     (\<exists>r. map_of items (fm_ID m) = Some r \<and> fbr_verify r (fm_Data m) \<and>
          fbr_source_name r (fm_Data m) = fm_Sourcename m)"

lemma fm_okD:
  assumes "fm_ok h items m"
  shows "fm_Valid m" and "in_s64 (fm_Timestamp m)" and "fm_Timestamp m \<noteq> 0"
  using assms by (simp_all add: fm_ok_def)

lemma extractPacketInfo_ok:
  "extractPacketInfo h items m = Inr m' \<Longrightarrow> fm_ok h items m' \<and> fm_Data m' = fm_Data m"
  by (auto simp: extractPacketInfo_def Let_def fm_ok_def find_reader_def s64_in_s64
      split: if_splits option.splits sum.splits)

lemma FlatbufferMessage_of_Msg_ok:
  "FlatbufferMessage_of_Msg h items k = Inr m \<Longrightarrow> fm_ok h items m \<and> fm_Data m = msg_Data k"
  by (auto simp: FlatbufferMessage_of_Msg_def dest!: extractPacketInfo_ok)

section \<open>Sources\<close>

record 'w Source =
  src_SourceName :: string
  src_SchemaID :: string
  src_WriterModuleID :: string
  src_TopicName :: string
  src_SrcHash :: hash
  src_ModuleHash :: hash
  src_WriterModule :: 'w

definition make_Source ::
  "(string \<Rightarrow> hash) \<Rightarrow> string \<Rightarrow> string \<Rightarrow> string \<Rightarrow> string \<Rightarrow> 'w \<Rightarrow> 'w Source" where
  "make_Source h Name FlatbufferID ModuleID Topic Writer =
     \<lparr>src_SourceName = Name, src_SchemaID = FlatbufferID, src_WriterModuleID = ModuleID,
      src_TopicName = Topic, src_SrcHash = calcSourceHash h FlatbufferID Name,
      src_ModuleHash = calcSourceHash h ModuleID Name, src_WriterModule = Writer\<rparr>"

text \<open>A message carries the hash of a source exactly when schema and name agree, as far as the hash
  separates the strings formed from them: schema ids have four characters, so the concatenation
  is unambiguous.\<close>

lemma src_hash_matches_iff:
  assumes "inj h" and "fm_ok h items m" and "length (src_SchemaID s) = 4"
    and "s = make_Source h n f i t w"
  shows "fm_SourceNameIDHash m = src_SrcHash s \<longleftrightarrow>
         fm_ID m = src_SchemaID s \<and> fm_Sourcename m = src_SourceName s"
  using assms by (auto simp: fm_ok_def make_Source_def calcSourceHash_def inj_eq)

end
