(* ===== verification/Filter_Interfaces.thy ===== *)
theory Filter_Interfaces
  imports Flatbuffer
begin

text \<open>
  The two interfaces a partition consumes: \<^verbatim>\<open>ISourceFilter\<close> (\<^verbatim>\<open>src/Stream/SourceFilter.h\<close>)
  and \<^verbatim>\<open>IPartitionFilter\<close> (\<^verbatim>\<open>src/Stream/PartitionFilter.h\<close>), each as a locale with the laws a
  partition relies on, and the partition's loops over its filters, written over any filter.
\<close>

section \<open>Poll outcomes\<close>

datatype PollStatus = PS_Message | PS_Error | PS_EndOfPartition | PS_TimedOut

datatype PartitionState = PST_DEFAULT | PST_END_OF_PARTITION | PST_ERROR | PST_TIMEOUT

section \<open>The loop over the source filters\<close>

text \<open>One round of the \<^verbatim>\<open>for (auto const &filter : _source_filters)\<close> loop of
  \<^verbatim>\<open>Partition::processMessage\<close>. A filter call returns its verdict, the changed filter and the
  messages it handed to the writer.\<close>

fun filter_all ::
  "('m \<Rightarrow> 'f \<Rightarrow> bool \<times> 'f \<times> 'o list) \<Rightarrow> 'm \<Rightarrow> 'f list \<Rightarrow> bool \<times> 'f list \<times> 'o list" where
  "filter_all flt m [] = (False, [], [])"
| "filter_all flt m (f # fs) =
     (let (b, f', out) = flt m f; (b', fs', out') = filter_all flt m fs
      in (b \<or> b', f' # fs', out @ out'))"

lemma filter_all_length: "filter_all flt m fs = (b, fs', out) \<Longrightarrow> length fs' = length fs"
  by (induction fs arbitrary: b fs' out) (auto split: prod.splits)

lemma filter_all_in_set:
  assumes "filter_all flt m fs = (b, fs', out)" and "f' \<in> set fs'"
  shows "\<exists>f \<in> set fs. \<exists>b o'. flt m f = (b, f', o')"
  using assms by (induction fs arbitrary: b fs' out) (fastforce split: prod.splits)+

lemma filter_all_out:
  assumes "filter_all flt m fs = (b, fs', out)" and "x \<in> set out"
  shows "\<exists>f \<in> set fs. \<exists>b f' o'. flt m f = (b, f', o') \<and> x \<in> set o'"
  using assms by (induction fs arbitrary: b fs' out) (fastforce split: prod.splits)+

lemma filter_all_verdict:
  "fst (filter_all flt m fs) \<longleftrightarrow> (\<exists>f \<in> set fs. fst (flt m f))"
  by (induction fs) (auto split: prod.splits)

section \<open>ISourceFilter\<close>

locale source_filter =
  fixes filter_message :: "'m \<Rightarrow> 'f \<Rightarrow> bool \<times> 'f \<times> 'o list"
    and has_finished :: "'f \<Rightarrow> bool"
    and set_stop_time :: "time_point \<Rightarrow> 'f \<Rightarrow> 'f"
    and destroy :: "'f \<Rightarrow> 'o list"
    and addressed :: "'m \<Rightarrow> 'f \<Rightarrow> bool"
    and invar :: "'f \<Rightarrow> bool"
  assumes not_addressed: "\<not> addressed m f \<Longrightarrow> filter_message m f = (False, f, [])"
    and finished_silent: "has_finished f \<Longrightarrow> filter_message m f = (b, f', out) \<Longrightarrow>
          has_finished f' \<and> \<not> b \<and> out = []"
    and finished_destroy: "invar f \<Longrightarrow> has_finished f \<Longrightarrow> destroy f = []"
    and invar_filter: "invar f \<Longrightarrow> filter_message m f = (b, f', out) \<Longrightarrow> invar f'"
    and invar_stop_time: "invar f \<Longrightarrow> invar (set_stop_time t f)"
    and finished_stop_time: "has_finished (set_stop_time t f) = has_finished f"
    and addressed_filter: "filter_message m f = (b, f', out) \<Longrightarrow> addressed m' f' = addressed m' f"
    and addressed_stop_time: "addressed m (set_stop_time t f) = addressed m f"
begin

lemma all_invar: "\<forall>f \<in> set fs. invar f \<Longrightarrow> filter_all filter_message m fs = (b, fs', out) \<Longrightarrow>
    \<forall>f \<in> set fs'. invar f"
  by (meson filter_all_in_set invar_filter)

text \<open>A message no filter is registered for changes nothing and is not counted as processed.\<close>

lemma unaddressed_all:
  "\<forall>f \<in> set fs. \<not> addressed m f \<Longrightarrow> filter_all filter_message m fs = (False, fs, [])"
  by (induction fs) (auto simp: not_addressed)

text \<open>Erasing the finished filters runs their destructors, which hand nothing to the writer; the
  filters that stay are those that had not finished.\<close>

lemma erase_finished_silent:
  "\<forall>f \<in> set fs. invar f \<Longrightarrow> concat (map destroy (filter has_finished fs)) = []"
  using finished_destroy by (induction fs) auto

lemma invar_erase: "\<forall>f \<in> set fs. invar f \<Longrightarrow> \<forall>f \<in> set (erase_remove_if has_finished fs). invar f"
  by (simp add: erase_remove_if_def)

end

section \<open>IPartitionFilter\<close>

text \<open>The clock is read once by \<^verbatim>\<open>updateStatusOccurrenceTime\<close> and once more by the comparison;
  both readings are arguments.\<close>

locale partition_filter =
  fixes should_stop :: "time_point \<Rightarrow> time_point \<Rightarrow> PollStatus \<Rightarrow> 'p \<Rightarrow> bool \<times> 'p"
    and state :: "'p \<Rightarrow> PartitionState"
    and set_stop_time :: "time_point \<Rightarrow> 'p \<Rightarrow> 'p"
  assumes message_continues: "fst (should_stop t t' PS_Message p) = False"
    and eop_continues: "fst (should_stop t t' PS_EndOfPartition p) = False"
    and state_message: "state (snd (should_stop t t' PS_Message p)) = PST_DEFAULT"
    and state_eop: "state (snd (should_stop t t' PS_EndOfPartition p)) = PST_END_OF_PARTITION"
    and state_timeout: "state (snd (should_stop t t' PS_TimedOut p)) = PST_TIMEOUT"
    and state_error: "state (snd (should_stop t t' PS_Error p)) = PST_ERROR"
    and state_stop_time: "state (set_stop_time t p) = state p"
begin

lemma stop_only_on_timeout_or_error:
  "fst (should_stop t t' s p) \<Longrightarrow> s = PS_TimedOut \<or> s = PS_Error"
  by (cases s) (auto simp: message_continues eop_continues)

lemma stop_state:
  "should_stop t t' s p = (True, p') \<Longrightarrow> state p' = PST_TIMEOUT \<or> state p' = PST_ERROR"
  by (cases s)
    (metis fst_conv message_continues, metis snd_conv state_error,
      metis fst_conv eop_continues, metis snd_conv state_timeout)

end

end
