(* ===== verification/Time_Utility.thy ===== *)
theory Time_Utility
  imports K2N_Prelude
begin

text \<open>
  \<^verbatim>\<open>src/TimeUtility.h\<close>: reading a \<^verbatim>\<open>time_point\<close> at other resolutions, and
  \<^verbatim>\<open>to_timepoint\<close> of \<^verbatim>\<open>Stream/SourceFilter.cpp\<close>, which turns the nanosecond timestamp of a
  flatbuffer into a \<^verbatim>\<open>time_point\<close> through microseconds.
\<close>

definition toNanoSeconds :: "time_point \<Rightarrow> int" where
  "toNanoSeconds t = t"

definition toMicroSeconds :: "time_point \<Rightarrow> int" where
  "toMicroSeconds t = t sdiv 1000"

definition toMilliSeconds :: "time_point \<Rightarrow> int" where
  "toMilliSeconds t = t sdiv 1000000"

definition toMilliSeconds_duration :: "duration \<Rightarrow> int" where
  "toMilliSeconds_duration d = d sdiv 1000000"

definition toSeconds :: "time_point \<Rightarrow> int" where
  "toSeconds t = t sdiv 1000000000"

definition to_timepoint :: "int \<Rightarrow> time_point" where
  "to_timepoint timestamp = s64 (timestamp sdiv 1000 * 1000)"

lemma sdiv_mono_pos:
  fixes a b d :: int
  assumes "a \<le> b" and "0 < d"
  shows "a sdiv d \<le> b sdiv d"
proof (cases "0 \<le> a")
  case True
  with assms show ?thesis
    by (auto simp: signed_divide_int_def sgn_if zdiv_mono1 pos_imp_zdiv_nonneg_iff)
next
  case neg: False
  show ?thesis
  proof (cases "0 \<le> b")
    case True
    have "a sdiv d \<le> 0" using neg assms
      by (auto simp: signed_divide_int_def sgn_if pos_imp_zdiv_nonneg_iff)
    moreover have "0 \<le> b sdiv d" using True assms(2) by (rule sdiv_pos_bounds)
    ultimately show ?thesis by linarith
  next
    case False
    with neg assms have "- b div d \<le> - a div d" by (simp add: zdiv_mono1)
    with neg False assms show ?thesis
      by (auto simp: signed_divide_int_def sgn_if)
  qed
qed

lemma sdiv_times_range:
  fixes a d :: int
  assumes "in_s64 a" and "0 < d"
  shows "in_s64 (a sdiv d * d)"
proof (cases "0 \<le> a")
  case True
  note b = sdiv_pos_bounds [OF True assms(2)]
  have "0 \<le> a sdiv d * d" using b(3) assms(2) by (intro mult_nonneg_nonneg) simp_all
  with b(1) assms(1) show ?thesis unfolding in_s64_def by linarith
next
  case False
  have eq: "a sdiv d = - ((- a) sdiv d)"
    using False assms(2) by (auto simp: signed_divide_int_def sgn_if)
  have "0 \<le> - a" using False by simp
  note b = sdiv_pos_bounds [OF this assms(2)]
  have "0 \<le> (- a) sdiv d * d" using b(3) assms(2) by (intro mult_nonneg_nonneg) simp_all
  with b(1) assms(1) show ?thesis unfolding eq in_s64_def by simp
qed

lemma to_timepoint_eq: "in_s64 ts \<Longrightarrow> to_timepoint ts = ts sdiv 1000 * 1000"
  using sdiv_times_range [of ts 1000] by (simp add: to_timepoint_def s64_eq_iff)

lemma to_timepoint_mono:
  assumes "a \<le> b" and "in_s64 a" and "in_s64 b"
  shows "to_timepoint a \<le> to_timepoint b"
  using sdiv_mono_pos [OF assms(1), of 1000] assms(2,3) by (simp add: to_timepoint_eq)

lemma to_timepoint_bounds:
  assumes "0 \<le> ts" and "ts \<le> tp_max"
  shows "to_timepoint ts \<le> ts" and "ts < to_timepoint ts + 1000"
proof -
  have "in_s64 ts" using assms by (simp add: in_s64_def)
  then show "to_timepoint ts \<le> ts" and "ts < to_timepoint ts + 1000"
    using sdiv_pos_bounds [OF assms(1), of 1000] by (simp_all add: to_timepoint_eq)
qed

end
