(* ===== verification/Source_Filter.thy ===== *)
theory Source_Filter
  imports Filter_Interfaces Time_Utility
begin

text \<open>
  \<^verbatim>\<open>src/Stream/SourceFilter.{h,cpp}\<close> and \<^verbatim>\<open>src/Stream/Message.h\<close>. A source filter passes the
  messages of one source to the writer thread. It keeps the newest message from before the start
  time, hands it over when the first message at or after the start time arrives (or when it is
  destroyed), and finishes at the first message after the stop time.

  A call to \<^verbatim>\<open>MessageWriter::addMessage\<close> is an element of the returned list: the message with
  its destination, and the flag that marks a buffered message.
\<close>

record 'd Message =
  message_DestPtr :: 'd
  message_FbMsg :: FlatbufferMessage

type_synonym 'd add_message = "'d Message \<times> bool"

record 'd SourceFilter =
  sf_start_time :: time_point
  sf_stop_time :: time_point
  sf_allow_repeated_timestamps :: bool
  sf_last_seen_timestamp :: int
  sf_is_finished :: bool
  sf_buffered_message :: FlatbufferMessage
  sf_destination_writer_modules :: "'d list"
  sf_source_hash :: hash
  sf_FlatbufferInvalid :: int
  sf_UnorderedTimestamp :: int
  sf_RepeatedTimestamp :: int
  sf_MessagesReceived :: int
  sf_MessagesTransmitted :: int
  sf_MessagesDiscarded :: int

definition make_SourceFilter :: "time_point \<Rightarrow> time_point \<Rightarrow> bool \<Rightarrow> 'd SourceFilter" where
  "make_SourceFilter start_time stop_time allow_repeated_timestamps =
     \<lparr>sf_start_time = start_time, sf_stop_time = stop_time,
      sf_allow_repeated_timestamps = allow_repeated_timestamps, sf_last_seen_timestamp = 0,
      sf_is_finished = False, sf_buffered_message = empty_FlatbufferMessage,
      sf_destination_writer_modules = [], sf_source_hash = 0, sf_FlatbufferInvalid = 0,
      sf_UnorderedTimestamp = 0, sf_RepeatedTimestamp = 0, sf_MessagesReceived = 0,
      sf_MessagesTransmitted = 0, sf_MessagesDiscarded = 0\<rparr>"

definition add_writer_module_for_message :: "'d \<Rightarrow> 'd SourceFilter \<Rightarrow> 'd SourceFilter" where
  "add_writer_module_for_message writer_module f =
     f\<lparr>sf_destination_writer_modules := sf_destination_writer_modules f @ [writer_module]\<rparr>"

definition set_source_hash :: "hash \<Rightarrow> 'd SourceFilter \<Rightarrow> 'd SourceFilter" where
  "set_source_hash source_hash f = f\<lparr>sf_source_hash := source_hash\<rparr>"

definition sf_set_stop_time :: "time_point \<Rightarrow> 'd SourceFilter \<Rightarrow> 'd SourceFilter" where
  "sf_set_stop_time stop_time f = f\<lparr>sf_stop_time := stop_time\<rparr>"

definition has_finished :: "'d SourceFilter \<Rightarrow> bool" where
  "has_finished f = sf_is_finished f"

definition forward_message ::
  "FlatbufferMessage \<Rightarrow> bool \<Rightarrow> 'd SourceFilter \<Rightarrow> 'd SourceFilter \<times> 'd add_message list" where
  "forward_message message is_buffered_message f =
     (f\<lparr>sf_MessagesTransmitted := sf_MessagesTransmitted f + 1\<rparr>,
      map (\<lambda>w. (\<lparr>message_DestPtr = w, message_FbMsg = message\<rparr>, is_buffered_message))
        (sf_destination_writer_modules f))"

definition forward_buffered_message ::
  "'d SourceFilter \<Rightarrow> 'd SourceFilter \<times> 'd add_message list" where
  "forward_buffered_message f =
     (if fm_Valid (sf_buffered_message f) then
        let (f', out) = forward_message (sf_buffered_message f) True f
        in (f'\<lparr>sf_buffered_message := empty_FlatbufferMessage\<rparr>, out)
      else (f, []))"

definition destroy_SourceFilter :: "'d SourceFilter \<Rightarrow> 'd add_message list" where
  "destroy_SourceFilter f = snd (forward_buffered_message f)"

definition filter_message ::
  "FlatbufferMessage \<Rightarrow> 'd SourceFilter \<Rightarrow> bool \<times> 'd SourceFilter \<times> 'd add_message list" where
  "filter_message message f =
     (if fm_SourceNameIDHash message \<noteq> sf_source_hash f then (False, f, [])
      else
        let f = f\<lparr>sf_MessagesReceived := sf_MessagesReceived f + 1\<rparr> in
        if sf_is_finished f then
          (False, f\<lparr>sf_MessagesDiscarded := sf_MessagesDiscarded f + 1\<rparr>, [])
        else if \<not> fm_Valid message then
          (False, f\<lparr>sf_MessagesDiscarded := sf_MessagesDiscarded f + 1,
                    sf_FlatbufferInvalid := sf_FlatbufferInvalid f + 1\<rparr>, [])
        else
          let repeated = (fm_Timestamp message = sf_last_seen_timestamp f);
              f = (if repeated then f\<lparr>sf_RepeatedTimestamp := sf_RepeatedTimestamp f + 1\<rparr>
                   else if fm_Timestamp message < sf_last_seen_timestamp f
                   then f\<lparr>sf_UnorderedTimestamp := sf_UnorderedTimestamp f + 1\<rparr> else f)
          in
          if repeated \<and> \<not> sf_allow_repeated_timestamps f then
            (False, f\<lparr>sf_MessagesDiscarded := sf_MessagesDiscarded f + 1\<rparr>, [])
          else
            let f = f\<lparr>sf_last_seen_timestamp := fm_Timestamp message\<rparr>;
                message_time = to_timepoint (fm_Timestamp message)
            in
            if message_time < sf_start_time f then
              (if fm_Valid (sf_buffered_message f) \<and>
                  message_time < to_timepoint (fm_Timestamp (sf_buffered_message f))
               then (False, f\<lparr>sf_MessagesDiscarded := sf_MessagesDiscarded f + 1\<rparr>, [])
               else (False, f\<lparr>sf_buffered_message := message\<rparr>, []))
            else if message_time > sf_stop_time f then
              let (f, out) = forward_buffered_message (f\<lparr>sf_is_finished := True\<rparr>)
              in (False, f, out)
            else
              let (f, out) = forward_buffered_message f;
                  (f, out') = forward_message message False f
              in (True, f, out @ out'))"

section \<open>Invariant and the filter interface\<close>

definition sf_inv :: "'d SourceFilter \<Rightarrow> bool" where
  "sf_inv f \<longleftrightarrow>
     (fm_Valid (sf_buffered_message f) \<longrightarrow>
        to_timepoint (fm_Timestamp (sf_buffered_message f)) < sf_start_time f) \<and>
     (sf_is_finished f \<longrightarrow> \<not> fm_Valid (sf_buffered_message f))"

lemmas sf_step_defs = filter_message_def forward_buffered_message_def forward_message_def Let_def

lemma empty_FlatbufferMessage_invalid [simp]: "\<not> fm_Valid empty_FlatbufferMessage"
  by (simp add: empty_FlatbufferMessage_def)

lemma sf_inv_make [keeps]: "sf_inv (make_SourceFilter a b c)"
  by (simp add: sf_inv_def make_SourceFilter_def)

lemma sf_inv_setters [keeps]:
  "sf_inv f \<Longrightarrow> sf_inv (sf_set_stop_time t f)"
  "sf_inv f \<Longrightarrow> sf_inv (set_source_hash h f)"
  "sf_inv f \<Longrightarrow> sf_inv (add_writer_module_for_message d f)"
  by (simp_all add: sf_inv_def sf_set_stop_time_def set_source_hash_def
      add_writer_module_for_message_def)

lemma sf_inv_filter [keeps]: "sf_inv f \<Longrightarrow> filter_message m f = (b, f', out) \<Longrightarrow> sf_inv f'"
  by (auto simp: sf_step_defs sf_inv_def split: if_splits prod.splits)

lemma filter_message_frame:
  assumes "filter_message m f = (b, f', out)"
  shows "sf_start_time f' = sf_start_time f" and "sf_stop_time f' = sf_stop_time f"
    and "sf_source_hash f' = sf_source_hash f"
    and "sf_allow_repeated_timestamps f' = sf_allow_repeated_timestamps f"
    and "sf_destination_writer_modules f' = sf_destination_writer_modules f"
  using assms by (auto simp: sf_step_defs split: if_splits prod.splits)

lemma filter_message_other:
  "fm_SourceNameIDHash m \<noteq> sf_source_hash f \<Longrightarrow> filter_message m f = (False, f, [])"
  by (simp add: filter_message_def)

lemma filter_message_finished:
  "has_finished f \<Longrightarrow> filter_message m f = (b, f', out) \<Longrightarrow>
     has_finished f' \<and> \<not> b \<and> out = []"
  by (auto simp: filter_message_def has_finished_def Let_def split: if_splits)

lemma destroy_finished: "sf_inv f \<Longrightarrow> has_finished f \<Longrightarrow> destroy_SourceFilter f = []"
  by (simp add: destroy_SourceFilter_def forward_buffered_message_def sf_inv_def has_finished_def)

interpretation sf: source_filter filter_message has_finished sf_set_stop_time destroy_SourceFilter
  "\<lambda>m f. fm_SourceNameIDHash m = sf_source_hash f" sf_inv
  by unfold_locales
    (auto simp: filter_message_other destroy_finished sf_inv_setters filter_message_frame(3)
      dest: filter_message_finished sf_inv_filter,
     simp_all add: has_finished_def sf_set_stop_time_def)

section \<open>What is handed to the writer\<close>

text \<open>Every message handed over is either the one just received, inside the time window, or the
  buffered one, from before the start time; it goes to every destination of the filter.\<close>

definition in_window :: "'d SourceFilter \<Rightarrow> FlatbufferMessage \<Rightarrow> bool" where
  "in_window f m \<longleftrightarrow> sf_start_time f \<le> to_timepoint (fm_Timestamp m) \<and>
                     to_timepoint (fm_Timestamp m) \<le> sf_stop_time f"

definition deliver :: "'d list \<Rightarrow> bool \<Rightarrow> FlatbufferMessage \<Rightarrow> 'd add_message list" where
  "deliver ds b m = map (\<lambda>w. (\<lparr>message_DestPtr = w, message_FbMsg = m\<rparr>, b)) ds"

lemma forward_message_eq:
  "forward_message m b f =
     (f\<lparr>sf_MessagesTransmitted := sf_MessagesTransmitted f + 1\<rparr>,
      deliver (sf_destination_writer_modules f) b m)"
  by (simp add: forward_message_def deliver_def)

definition flushed :: "'d SourceFilter \<Rightarrow> 'd add_message list" where
  "flushed f = (if fm_Valid (sf_buffered_message f)
                then deliver (sf_destination_writer_modules f) True (sf_buffered_message f) else [])"

lemma destroy_eq_flushed: "destroy_SourceFilter f = flushed f"
  by (simp add: destroy_SourceFilter_def forward_buffered_message_def forward_message_eq flushed_def
      Let_def)

lemma snd_forward_buffered: "snd (forward_buffered_message f) = flushed f"
  by (simp add: destroy_eq_flushed [symmetric] destroy_SourceFilter_def)

lemma filter_message_output:
  assumes "filter_message m f = (b, f', out)" and "x \<in> set out" and "sf_inv f"
  shows "message_DestPtr (fst x) \<in> set (sf_destination_writer_modules f)"
    and "fm_SourceNameIDHash m = sf_source_hash f"
    and "(snd x \<and> message_FbMsg (fst x) = sf_buffered_message f \<and> fm_Valid (sf_buffered_message f) \<and>
            to_timepoint (fm_Timestamp (sf_buffered_message f)) < sf_start_time f) \<or>
         (\<not> snd x \<and> message_FbMsg (fst x) = m \<and> b \<and> fm_Valid m \<and> in_window f m)"
  using assms
  by (auto simp: sf_step_defs sf_inv_def in_window_def split: if_splits prod.splits)

text \<open>What a filter buffers is addressed to it.\<close>

lemma filter_message_buffered:
  assumes "filter_message m f = (b, f', out)"
    and "fm_Valid (sf_buffered_message f) \<longrightarrow>
         fm_SourceNameIDHash (sf_buffered_message f) = sf_source_hash f"
  shows "fm_Valid (sf_buffered_message f') \<longrightarrow>
         fm_SourceNameIDHash (sf_buffered_message f') = sf_source_hash f'"
  using assms by (auto simp: sf_step_defs split: if_splits prod.splits)

section \<open>A whole run over the messages of one source\<close>

fun sf_run :: "FlatbufferMessage list \<Rightarrow> 'd SourceFilter \<Rightarrow> 'd SourceFilter \<times> 'd add_message list" where
  "sf_run [] f = (f, [])"
| "sf_run (m # ms) f =
     (let (_, f', out) = filter_message m f; (f'', out') = sf_run ms f' in (f'', out @ out'))"

lemma sf_run_finished:
  "has_finished f \<Longrightarrow> sf_inv f \<Longrightarrow> sf_run ms f = (f', out) \<Longrightarrow> out = [] \<and> destroy_SourceFilter f' = []"
proof (induction ms arbitrary: f f' out)
  case Nil
  then show ?case by (simp add: destroy_finished)
next
  case (Cons m ms)
  obtain b g o1 o2 where step: "filter_message m f = (b, g, o1)" and rest: "sf_run ms g = (f', o2)"
    and out: "out = o1 @ o2"
    using Cons.prems(3) by (auto split: prod.splits)
  from filter_message_finished [OF Cons.prems(1) step] have "has_finished g" and "o1 = []" by auto
  with Cons.IH [OF _ sf_inv_filter [OF Cons.prems(2) step] rest] out show ?case by simp
qed

text \<open>One accepted message, by the position of its time relative to the window.\<close>

definition accepted :: "FlatbufferMessage \<Rightarrow> 'd SourceFilter \<Rightarrow> bool" where
  "accepted m f \<longleftrightarrow> fm_SourceNameIDHash m = sf_source_hash f \<and> \<not> sf_is_finished f \<and> fm_Valid m \<and>
     (sf_allow_repeated_timestamps f \<or> fm_Timestamp m \<noteq> sf_last_seen_timestamp f)"

lemma accepted_early:
  assumes "accepted m f" and "to_timepoint (fm_Timestamp m) < sf_start_time f"
    and "fm_Valid (sf_buffered_message f) \<longrightarrow>
         to_timepoint (fm_Timestamp (sf_buffered_message f)) \<le> to_timepoint (fm_Timestamp m)"
  shows "\<exists>f'. filter_message m f = (False, f', []) \<and> sf_buffered_message f' = m \<and>
      \<not> sf_is_finished f' \<and> sf_last_seen_timestamp f' = fm_Timestamp m"
  using assms by (auto simp: filter_message_def accepted_def Let_def)

lemma accepted_late:
  assumes "accepted m f" and "sf_start_time f \<le> to_timepoint (fm_Timestamp m)"
    and "sf_stop_time f < to_timepoint (fm_Timestamp m)"
  shows "\<exists>f'. filter_message m f = (False, f', flushed f) \<and> has_finished f'"
  using assms
  by (auto simp: sf_step_defs accepted_def has_finished_def flushed_def deliver_def)

lemma accepted_inside:
  assumes "accepted m f" and "in_window f m"
  shows "\<exists>f'. filter_message m f =
           (True, f', flushed f @ deliver (sf_destination_writer_modules f) False m) \<and>
      \<not> fm_Valid (sf_buffered_message f') \<and> \<not> sf_is_finished f' \<and>
      sf_last_seen_timestamp f' = fm_Timestamp m"
  using assms
  by (auto simp: sf_step_defs accepted_def in_window_def flushed_def deliver_def)

text \<open>What a filter hands over for a chronological sequence: the newest message from before the
  start time, marked as buffered, and then the messages of the window in order.\<close>

definition early :: "'d SourceFilter \<Rightarrow> FlatbufferMessage \<Rightarrow> bool" where
  "early f m \<longleftrightarrow> to_timepoint (fm_Timestamp m) < sf_start_time f"

definition handed_over :: "'d SourceFilter \<Rightarrow> FlatbufferMessage list \<Rightarrow> 'd add_message list" where
  "handed_over f ms =
     (case filter (early f) ms of
        [] \<Rightarrow> flushed f
      | bs \<Rightarrow> deliver (sf_destination_writer_modules f) True (last bs)) @
     concat (map (deliver (sf_destination_writer_modules f) False) (filter (in_window f) ms))"

definition run_ready :: "FlatbufferMessage list \<Rightarrow> 'd SourceFilter \<Rightarrow> bool" where
  "run_ready ms f \<longleftrightarrow>
     \<not> sf_is_finished f \<and> sf_inv f \<and> sorted (map fm_Timestamp ms) \<and>
     (\<forall>m \<in> set ms. fm_SourceNameIDHash m = sf_source_hash f \<and> fm_Valid m \<and> in_s64 (fm_Timestamp m)) \<and>
     (sf_allow_repeated_timestamps f \<or>
        distinct (map fm_Timestamp ms) \<and> sf_last_seen_timestamp f \<notin> fm_Timestamp ` set ms) \<and>
     (fm_Valid (sf_buffered_message f) \<longrightarrow> in_s64 (fm_Timestamp (sf_buffered_message f)) \<and>
        (\<forall>m \<in> set ms. fm_Timestamp (sf_buffered_message f) \<le> fm_Timestamp m))"

lemma run_ready_accepted: "run_ready (m # ms) f \<Longrightarrow> accepted m f"
  by (auto simp: run_ready_def accepted_def)

lemma run_ready_later:
  assumes "run_ready (m # ms) f" and "m' \<in> set ms"
  shows "to_timepoint (fm_Timestamp m) \<le> to_timepoint (fm_Timestamp m')"
  using assms by (auto simp: run_ready_def intro!: to_timepoint_mono)

lemma run_ready_step:
  assumes "run_ready (m # ms) f" and "filter_message m f = (b, f', out)"
    and "\<not> sf_is_finished f'" and "sf_last_seen_timestamp f' = fm_Timestamp m"
    and "sf_buffered_message f' = m \<or> \<not> fm_Valid (sf_buffered_message f')"
  shows "run_ready ms f'"
  using assms sf_inv_filter [OF _ assms(2)] filter_message_frame [OF assms(2)]
  by (auto simp: run_ready_def)

lemma handed_over_cong:
  assumes "filter_message m f = (b, f', out)"
  shows "early f' = early f" and "in_window f' = in_window f"
  using filter_message_frame [OF assms] by (auto simp: fun_eq_iff early_def in_window_def)

lemma sf_run_handed_over:
  "run_ready ms f \<Longrightarrow> sf_run ms f = (f', out) \<Longrightarrow> out @ destroy_SourceFilter f' = handed_over f ms"
proof (induction ms arbitrary: f out)
  case Nil
  then show ?case by (simp add: handed_over_def destroy_eq_flushed)
next
  case (Cons m ms)
  let ?t = "to_timepoint (fm_Timestamp m)"
  let ?ds = "sf_destination_writer_modules f"
  note acc = run_ready_accepted [OF Cons.prems(1)]
  note later = run_ready_later [OF Cons.prems(1)]
  obtain b g o1 o2 where step: "filter_message m f = (b, g, o1)" and rest: "sf_run ms g = (f', o2)"
    and out: "out = o1 @ o2"
    using Cons.prems(2) by (auto split: prod.splits)
  note frame = filter_message_frame [OF step] and cong = handed_over_cong [OF step]
  consider (early) "?t < sf_start_time f"
    | (late) "sf_start_time f \<le> ?t" "sf_stop_time f < ?t"
    | (inside) "in_window f m" by (fastforce simp: in_window_def)
  then show ?case
  proof cases
    case early
    have "fm_Valid (sf_buffered_message f) \<longrightarrow>
        to_timepoint (fm_Timestamp (sf_buffered_message f)) \<le> ?t"
      using Cons.prems(1) by (auto simp: run_ready_def intro!: to_timepoint_mono)
    from accepted_early [OF acc early this] step have g: "o1 = []" "sf_buffered_message g = m"
      "\<not> sf_is_finished g" "sf_last_seen_timestamp g = fm_Timestamp m" by auto
    from run_ready_step [OF Cons.prems(1) step] g have "run_ready ms g" by simp
    from Cons.IH [OF this rest] have "o2 @ destroy_SourceFilter f' = handed_over g ms" .
    moreover have "handed_over g ms = handed_over f (m # ms)"
      using early acc g(2) frame cong
      by (auto simp: handed_over_def accepted_def flushed_def early_def in_window_def
          split: list.splits)
    ultimately show ?thesis using out g(1) by simp
  next
    case late
    from accepted_late [OF acc late] step have g: "o1 = flushed f" "has_finished g" by auto
    have "sf_inv g" using Cons.prems(1) step by (auto simp: run_ready_def intro: sf_inv_filter)
    from sf_run_finished [OF g(2) this rest] have "o2 = []" "destroy_SourceFilter f' = []" by auto
    moreover have "filter (early f) (m # ms) = []" "filter (in_window f) (m # ms) = []"
      using late later by (fastforce simp: early_def in_window_def filter_empty_conv)+
    ultimately show ?thesis using out g(1) by (simp add: handed_over_def)
  next
    case inside
    from accepted_inside [OF acc inside] step have g: "o1 = flushed f @ deliver ?ds False m"
      "\<not> fm_Valid (sf_buffered_message g)" "\<not> sf_is_finished g"
      "sf_last_seen_timestamp g = fm_Timestamp m" by auto
    from run_ready_step [OF Cons.prems(1) step] g have "run_ready ms g" by simp
    from Cons.IH [OF this rest] have "o2 @ destroy_SourceFilter f' = handed_over g ms" .
    moreover have "\<not> early f m" and "filter (early f) ms = []"
      using inside later by (fastforce simp: early_def in_window_def filter_empty_conv)+
    ultimately show ?thesis using out g(1,2) frame cong inside
      by (simp add: handed_over_def flushed_def)
  qed
qed

section \<open>Properties\<close>

text \<open>A filter as \<^verbatim>\<open>create_filters\<close> builds it: constructed, given its destinations, given the hash.\<close>

definition new_filter :: "time_point \<Rightarrow> time_point \<Rightarrow> bool \<Rightarrow> hash \<Rightarrow> 'd list \<Rightarrow> 'd SourceFilter" where
  "new_filter start_time stop_time allow hsh ds =
     set_source_hash hsh
       (fold add_writer_module_for_message ds (make_SourceFilter start_time stop_time allow))"

lemma new_filter_eq:
  "new_filter start_time stop_time allow hsh ds =
     (make_SourceFilter start_time stop_time allow)
       \<lparr>sf_destination_writer_modules := ds, sf_source_hash := hsh\<rparr>"
proof -
  have "fold add_writer_module_for_message ds f =
      f\<lparr>sf_destination_writer_modules := sf_destination_writer_modules f @ ds\<rparr>" for f :: "'a SourceFilter"
    by (induction ds arbitrary: f) (simp_all add: add_writer_module_for_message_def)
  then show ?thesis by (simp add: new_filter_def set_source_hash_def make_SourceFilter_def)
qed

lemma sf_run_output:
  assumes "sf_run ms f = (f', out)" and "sf_inv f" and "x \<in> set out"
  shows "(snd x \<and> to_timepoint (fm_Timestamp (message_FbMsg (fst x))) < sf_start_time f) \<or>
         (\<not> snd x \<and> message_FbMsg (fst x) \<in> set ms \<and> in_window f (message_FbMsg (fst x)))"
  using assms
proof (induction ms arbitrary: f out)
  case (Cons m ms)
  obtain b g o1 o2 where step: "filter_message m f = (b, g, o1)" and rest: "sf_run ms g = (f', o2)"
    and out: "out = o1 @ o2"
    using Cons.prems(1) by (auto split: prod.splits)
  note frame = filter_message_frame [OF step] and cong = handed_over_cong [OF step]
  show ?case
  proof (cases "x \<in> set o1")
    case True
    from filter_message_output(3) [OF step this Cons.prems(2)] show ?thesis by auto
  next
    case False
    with Cons.prems(3) out have "x \<in> set o2" by simp
    from Cons.IH [OF rest sf_inv_filter [OF Cons.prems(2) step] this] frame cong show ?thesis
      by auto
  qed
qed simp

text \<open>C2: For the messages of one source in chronological order (without repeated timestamps unless
  the filter accepts them), the calls a filter makes over its whole life, destructor included, are
  exactly: the newest message from before the start time, once, marked as buffered, to every
  destination, and then every message of the closed window from start to stop time, in order, each
  to every destination.\<close>

theorem source_filter_delivers_window:
  assumes "sorted (map fm_Timestamp msgs)"
    and "allow \<or> distinct (map fm_Timestamp msgs)"
    and "\<And>m. m \<in> set msgs \<Longrightarrow> fm_ok h items m \<and> fm_SourceNameIDHash m = hsh"
  shows "(let (f', out) = sf_run msgs (new_filter start_time stop_time allow hsh ds)
          in out @ destroy_SourceFilter f') =
         (case filter (\<lambda>m. to_timepoint (fm_Timestamp m) < start_time) msgs of
            [] \<Rightarrow> [] | bs \<Rightarrow> deliver ds True (last bs)) @
         concat (map (deliver ds False)
           (filter (\<lambda>m. start_time \<le> to_timepoint (fm_Timestamp m) \<and>
                        to_timepoint (fm_Timestamp m) \<le> stop_time) msgs))"
proof -
  let ?f = "new_filter start_time stop_time allow hsh ds"
  have "run_ready msgs ?f"
    using assms(1,2)
    by (auto simp: run_ready_def new_filter_eq make_SourceFilter_def sf_inv_def
        dest!: assms(3) dest: fm_okD)
  moreover obtain f' out where "sf_run msgs ?f = (f', out)" by fastforce
  ultimately show ?thesis
    using sf_run_handed_over [of msgs ?f f' out]
    by (simp add: handed_over_def early_def [abs_def] in_window_def [abs_def] flushed_def
        new_filter_eq make_SourceFilter_def split: list.splits)
qed

text \<open>Witness: three messages around the window from 1 to 2 milliseconds, two destinations.\<close>

definition sample_fm :: "int \<Rightarrow> FlatbufferMessage" where
  "sample_fm t = \<lparr>fm_Data = ''....f144'', fm_SourceNameIDHash = 7, fm_Sourcename = ''src'',
     fm_ID = ''f144'', fm_Timestamp = t, fm_Valid = True\<rparr>"

definition sample_readers :: readers where
  "sample_readers = [(''f144'', \<lparr>fbr_verify = (\<lambda>_. True), fbr_source_name = (\<lambda>_. ''src''),
     fbr_timestamp = (\<lambda>_. 5)\<rparr>)]"

lemma sample_fm_ok: "in_s64 t \<Longrightarrow> t \<noteq> 0 \<Longrightarrow> fm_ok (\<lambda>_. 7) sample_readers (sample_fm t)"
  by (simp add: fm_ok_def sample_fm_def sample_readers_def calcSourceHash_def)

theorem source_filter_delivers_window_witness:
  "(let (f', out) = sf_run [sample_fm 500000, sample_fm 900000, sample_fm 1500000, sample_fm 2500000]
      (new_filter 1000000 2000000 False 7 [''A'', ''B''])
    in out @ destroy_SourceFilter f') =
   deliver [''A'', ''B''] True (sample_fm 900000) @ deliver [''A'', ''B''] False (sample_fm 1500000)"
proof -
  let ?ms = "[sample_fm 500000, sample_fm 900000, sample_fm 1500000, sample_fm 2500000]"
  have "sorted (map fm_Timestamp ?ms)" and "False \<or> distinct (map fm_Timestamp ?ms)"
    by (simp_all add: sample_fm_def)
  moreover have "fm_ok (\<lambda>_. 7) sample_readers m \<and> fm_SourceNameIDHash m = 7" if "m \<in> set ?ms" for m
    using that sample_fm_ok by (auto simp: in_s64_def) (simp_all add: sample_fm_def)
  ultimately show ?thesis
    using source_filter_delivers_window [of ?ms False "\<lambda>_. 7" sample_readers 7 1000000 2000000
        "[''A'', ''B'']"]
    by (simp add: sample_fm_def to_timepoint_def s64_def signed_divide_int_def)
qed

text \<open>Whatever the order and validity of the incoming messages, a filter hands over unbuffered only
  messages it received whose time lies in the closed window from start to stop time, and buffered
  only messages from before the start time.\<close>

theorem source_filter_window_safety:
  assumes "sf_run msgs (new_filter start_time stop_time allow hsh ds) = (f', out)" and "x \<in> set out"
  shows "let t = to_timepoint (fm_Timestamp (message_FbMsg (fst x))) in
         if snd x then t < start_time
         else message_FbMsg (fst x) \<in> set msgs \<and> start_time \<le> t \<and> t \<le> stop_time"
proof -
  have "sf_inv (new_filter start_time stop_time allow hsh ds)"
    by (simp add: sf_inv_def new_filter_eq make_SourceFilter_def)
  from sf_run_output [OF assms(1) this assms(2)] show ?thesis
    by (auto simp: in_window_def new_filter_eq make_SourceFilter_def)
qed

theorem source_filter_window_safety_witness:
  "(\<exists>f'. sf_run [sample_fm 1500000, sample_fm 900000] (new_filter 1000000 2000000 False 7 [''A'']) =
      (f', [(\<lparr>message_DestPtr = ''A'', message_FbMsg = sample_fm 1500000\<rparr>, False)])) \<and>
   (1000000::int) \<le> to_timepoint 1500000 \<and> to_timepoint 1500000 \<le> 2000000"
proof -
  let ?run = "sf_run [sample_fm 1500000, sample_fm 900000] (new_filter 1000000 2000000 False 7 [''A''])"
  let ?out = "[(\<lparr>message_DestPtr = ''A'', message_FbMsg = sample_fm 1500000\<rparr>, False)]"
  have "snd ?run = ?out"
    by (simp add: new_filter_eq make_SourceFilter_def sf_step_defs sample_fm_def to_timepoint_def
        s64_def signed_divide_int_def)
  then have run: "?run = (fst ?run, ?out)" by (metis prod.collapse)
  have "(1000000::int) \<le> to_timepoint 1500000 \<and> to_timepoint 1500000 \<le> 2000000"
    using source_filter_window_safety [OF run, of "hd ?out"] by (simp add: sample_fm_def Let_def)
  with run show ?thesis by blast
qed

end
