(* ===== verification/Work_Queue.thy ===== *)
theory Work_Queue
  imports K2N_Prelude "HOL-Library.Multiset"
begin

text \<open>
  The lock-free queue that connects the threads, and \<^verbatim>\<open>src/ThreadedExecutor.h\<close>, a worker thread
  with a high and a low priority queue.

  \<^verbatim>\<open>moodycamel::ConcurrentQueue\<close> is a third-party package: its operations are a parameter, the
  record \<open>cqueue\<close>. What the program relies on are the laws of the locale \<open>concurrent_queue\<close>: a
  dequeue returns some queued element, once, and fails only on an empty queue. For the elements of one
  producer the package documents first-in first-out order, the locale \<open>fifo_queue\<close>.
\<close>

record ('q, 'j) cqueue =
  cq_new :: 'q
  cq_enqueue :: "'j \<Rightarrow> 'q \<Rightarrow> 'q"
  cq_try_dequeue :: "'q \<Rightarrow> ('j \<times> 'q) option"
  cq_size_approx :: "'q \<Rightarrow> nat"

locale concurrent_queue =
  fixes Q :: "('q, 'j) cqueue"
    and bag :: "'q \<Rightarrow> 'j multiset"
  assumes bag_new: "bag (cq_new Q) = {#}"
    and bag_enqueue: "bag (cq_enqueue Q j q) = add_mset j (bag q)"
    and dequeue_None: "cq_try_dequeue Q q = None \<longleftrightarrow> bag q = {#}"
    and dequeue_Some: "cq_try_dequeue Q q = Some (j, q') \<Longrightarrow> bag q = add_mset j (bag q')"
begin

lemma bag_fold_enqueue: "bag (fold (cq_enqueue Q) js q) = bag q + mset js"
  by (induction js arbitrary: q) (simp_all add: bag_enqueue)

lemma dequeue_size: "cq_try_dequeue Q q = Some (j, q') \<Longrightarrow> size (bag q') < size (bag q)"
  by (auto dest: dequeue_Some)

end

locale fifo_queue =
  fixes Q :: "('q, 'j) cqueue"
    and jobs :: "'q \<Rightarrow> 'j list"
  assumes jobs_new: "jobs (cq_new Q) = []"
    and jobs_enqueue: "jobs (cq_enqueue Q j q) = jobs q @ [j]"
    and dequeue_empty: "jobs q = [] \<Longrightarrow> cq_try_dequeue Q q = None"
    and dequeue_first: "jobs q = j # js \<Longrightarrow> \<exists>q'. cq_try_dequeue Q q = Some (j, q') \<and> jobs q' = js"
begin

lemma fifo_dequeue_Some: "cq_try_dequeue Q q = Some (j, q') \<Longrightarrow> jobs q = j # jobs q'"
  using dequeue_empty dequeue_first by (cases "jobs q") force+

lemma fifo_dequeue_None: "cq_try_dequeue Q q = None \<longleftrightarrow> jobs q = []"
  using dequeue_empty dequeue_first by (cases "jobs q") force+

lemma jobs_fold_enqueue: "jobs (fold (cq_enqueue Q) js q) = jobs q @ js"
  by (induction js arbitrary: q) (simp_all add: jobs_enqueue)

end

sublocale fifo_queue \<subseteq> concurrent_queue Q "\<lambda>q. mset (jobs q)"
  by unfold_locales
    (auto simp: jobs_new jobs_enqueue fifo_dequeue_None dest: fifo_dequeue_Some)

text \<open>A list with insertion at the end meets the laws; the witnesses of the properties use it.\<close>

definition list_queue :: "('j list, 'j) cqueue" where
  "list_queue =
     \<lparr>cq_new = [], cq_enqueue = (\<lambda>j q. q @ [j]),
      cq_try_dequeue = (\<lambda>q. case q of [] \<Rightarrow> None | j # q' \<Rightarrow> Some (j, q')),
      cq_size_approx = length\<rparr>"

interpretation listq: fifo_queue list_queue "\<lambda>q. q"
  by unfold_locales (simp_all add: list_queue_def)

section \<open>ThreadedExecutor\<close>

text \<open>A task changes the state of the object that owns the executor and may send further work, each
  item with the flag that tells high priority from low. \<open>None\<close> is the exit task of the destructor,
  \<^verbatim>\<open>RunThread = false\<close>.\<close>

type_synonym 'j task = "'j option"

record 'q ThreadedExecutor =
  ex_RunThread :: bool
  ex_TaskQueue :: 'q
  ex_LowPriorityTaskQueue :: 'q
  ex_LowPriorityExit :: bool

definition make_ThreadedExecutor :: "('q, 'j task) cqueue \<Rightarrow> bool \<Rightarrow> 'q ThreadedExecutor" where
  "make_ThreadedExecutor Q LowPriorityThreadExit =
     \<lparr>ex_RunThread = True, ex_TaskQueue = cq_new Q, ex_LowPriorityTaskQueue = cq_new Q,
      ex_LowPriorityExit = LowPriorityThreadExit\<rparr>"

definition sendWork ::
  "('q, 'j task) cqueue \<Rightarrow> 'j task \<Rightarrow> 'q ThreadedExecutor \<Rightarrow> 'q ThreadedExecutor" where
  "sendWork Q Task e = e\<lparr>ex_TaskQueue := cq_enqueue Q Task (ex_TaskQueue e)\<rparr>"

definition sendLowPriorityWork ::
  "('q, 'j task) cqueue \<Rightarrow> 'j task \<Rightarrow> 'q ThreadedExecutor \<Rightarrow> 'q ThreadedExecutor" where
  "sendLowPriorityWork Q Task e =
     e\<lparr>ex_LowPriorityTaskQueue := cq_enqueue Q Task (ex_LowPriorityTaskQueue e)\<rparr>"

definition destroy_send_exit ::
  "('q, 'j task) cqueue \<Rightarrow> 'q ThreadedExecutor \<Rightarrow> 'q ThreadedExecutor" where
  "destroy_send_exit Q e =
     (if ex_LowPriorityExit e then sendLowPriorityWork Q None e else sendWork Q None e)"

definition send ::
  "('q, 'j task) cqueue \<Rightarrow> bool \<times> 'j \<Rightarrow> 'q ThreadedExecutor \<Rightarrow> 'q ThreadedExecutor" where
  "send Q w e = (if fst w then sendWork Q (Some (snd w)) e else sendLowPriorityWork Q (Some (snd w)) e)"

text \<open>What a task does, on the executor and on its owner's state.\<close>

definition run_task ::
  "('q, 'j task) cqueue \<Rightarrow> ('j \<Rightarrow> 's \<Rightarrow> 's \<times> (bool \<times> 'j) list) \<Rightarrow> 'j task
     \<Rightarrow> 'q ThreadedExecutor \<times> 's \<Rightarrow> 'q ThreadedExecutor \<times> 's" where
  "run_task Q run t es =
     (case t of
        None \<Rightarrow> ((fst es)\<lparr>ex_RunThread := False\<rparr>, snd es)
      | Some j \<Rightarrow> let (s', ws) = run j (snd es) in (fold (send Q) ws (fst es), s'))"

text \<open>One pass through the loop of the worker thread; \<open>None\<close> in the first component means that the
  thread slept because both queues were empty.\<close>

definition executor_step ::
  "('q, 'j task) cqueue \<Rightarrow> ('j \<Rightarrow> 's \<Rightarrow> 's \<times> (bool \<times> 'j) list)
     \<Rightarrow> 'q ThreadedExecutor \<times> 's \<Rightarrow> 'j task option \<times> 'q ThreadedExecutor \<times> 's" where
  "executor_step Q run es =
     (case cq_try_dequeue Q (ex_TaskQueue (fst es)) of
        Some (t, q) \<Rightarrow> (Some t, run_task Q run t ((fst es)\<lparr>ex_TaskQueue := q\<rparr>, snd es))
      | None \<Rightarrow>
          (case cq_try_dequeue Q (ex_LowPriorityTaskQueue (fst es)) of
             Some (t, q) \<Rightarrow> (Some t, run_task Q run t ((fst es)\<lparr>ex_LowPriorityTaskQueue := q\<rparr>, snd es))
           | None \<Rightarrow> (None, es)))"

text \<open>The loop for at most \<open>n\<close> passes, and the tasks it ran.\<close>

fun executor_loop ::
  "('q, 'j task) cqueue \<Rightarrow> ('j \<Rightarrow> 's \<Rightarrow> 's \<times> (bool \<times> 'j) list) \<Rightarrow> nat
     \<Rightarrow> 'q ThreadedExecutor \<times> 's \<Rightarrow> 'j task list \<times> 'q ThreadedExecutor \<times> 's" where
  "executor_loop Q run 0 es = ([], es)"
| "executor_loop Q run (Suc n) es =
     (if \<not> ex_RunThread (fst es) then ([], es)
      else
        let (t, es') = executor_step Q run es; (ts, es'') = executor_loop Q run n es'
        in ((case t of None \<Rightarrow> [] | Some x \<Rightarrow> [x]) @ ts, es''))"

section \<open>The executor as a bag of pending tasks\<close>

text \<open>The view the owners of an executor take: some pending task runs, and what it sends becomes
  pending.\<close>

inductive bag_step ::
  "('j \<Rightarrow> 's \<Rightarrow> 's \<times> (bool \<times> 'j) list) \<Rightarrow> 's \<times> 'j multiset \<Rightarrow> 's \<times> 'j multiset \<Rightarrow> bool"
  for run where
  run_pending: "j \<in># M \<Longrightarrow> run j s = (s', ws) \<Longrightarrow>
     bag_step run (s, M) (s', M - {#j#} + mset (map snd ws))"

inductive_cases bag_stepE: "bag_step run (s, M) (s', M')"

definition pending :: "('q \<Rightarrow> 'j task multiset) \<Rightarrow> 'q ThreadedExecutor \<Rightarrow> 'j multiset" where
  "pending bag e =
     image_mset the (filter_mset (\<lambda>t. t \<noteq> None) (bag (ex_TaskQueue e) + bag (ex_LowPriorityTaskQueue e)))"

lemma pending_add_high:
  "pending bag (e\<lparr>ex_TaskQueue := q\<rparr>) =
     image_mset the (filter_mset (\<lambda>t. t \<noteq> None) (bag q)) +
     image_mset the (filter_mset (\<lambda>t. t \<noteq> None) (bag (ex_LowPriorityTaskQueue e)))"
  by (simp add: pending_def)

lemma pending_add_low:
  "pending bag (e\<lparr>ex_LowPriorityTaskQueue := q\<rparr>) =
     image_mset the (filter_mset (\<lambda>t. t \<noteq> None) (bag (ex_TaskQueue e))) +
     image_mset the (filter_mset (\<lambda>t. t \<noteq> None) (bag q))"
  by (simp add: pending_def)

locale task_queue = concurrent_queue Q bag
  for Q :: "('q, 'j option) cqueue" and bag :: "'q \<Rightarrow> 'j option multiset"
begin

lemma pending_send: "pending bag (send Q w e) = add_mset (snd w) (pending bag e)"
  by (simp add: send_def sendWork_def sendLowPriorityWork_def pending_def bag_enqueue)

lemma pending_fold_send: "pending bag (fold (send Q) ws e) = pending bag e + mset (map snd ws)"
  by (induction ws arbitrary: e) (simp_all add: pending_send)

lemma pending_dequeue_high:
  "cq_try_dequeue Q (ex_TaskQueue e) = Some (Some j, q) \<Longrightarrow>
     pending bag e = add_mset j (pending bag (e\<lparr>ex_TaskQueue := q\<rparr>))"
  by (drule dequeue_Some) (simp add: pending_def)

lemma pending_dequeue_low:
  "cq_try_dequeue Q (ex_LowPriorityTaskQueue e) = Some (Some j, q) \<Longrightarrow>
     pending bag e = add_mset j (pending bag (e\<lparr>ex_LowPriorityTaskQueue := q\<rparr>))"
  by (drule dequeue_Some) (simp add: pending_def)

lemma run_task_bag_step:
  assumes "run_task Q run (Some j) (e', s) = (e'', s')" and "M = add_mset j (pending bag e')"
  shows "bag_step run (s, M) (s', pending bag e'')"
proof -
  obtain ws where r: "run j s = (s', ws)" and e: "e'' = fold (send Q) ws e'"
    using assms(1) by (auto simp: run_task_def split: prod.splits)
  from bag_step.run_pending [of j M run s s' ws] r assms(2)
  show ?thesis by (simp add: e pending_fold_send)
qed

lemma executor_step_refines:
  assumes "executor_step Q run (e, s) = (Some (Some j), e', s')"
  shows "bag_step run (s, pending bag e) (s', pending bag e')"
  using assms
  by (auto simp: executor_step_def split: option.splits
      intro!: run_task_bag_step pending_dequeue_high pending_dequeue_low)

lemma executor_step_idle:
  "fst (executor_step Q run (e, s)) = None \<longleftrightarrow>
     bag (ex_TaskQueue e) = {#} \<and> bag (ex_LowPriorityTaskQueue e) = {#}"
  by (auto simp: executor_step_def dequeue_None [symmetric] split: option.splits)

lemma executor_step_high_first:
  assumes "executor_step Q run (e, s) = (Some t, e', s')" and "bag (ex_TaskQueue e) \<noteq> {#}"
  shows "t \<in># bag (ex_TaskQueue e)"
  using assms by (auto simp: executor_step_def dequeue_None [symmetric] dest!: dequeue_Some
      split: option.splits)

end

interpretation listtq: task_queue list_queue mset
  by unfold_locales

section \<open>The order in which an executor runs its tasks\<close>

locale fifo_task_queue = fifo_queue Q jobs
  for Q :: "('q, 'j option) cqueue" and jobs :: "'q \<Rightarrow> 'j option list"
begin

lemma quiet_task:
  "(\<And>j s. snd (run j s) = []) \<Longrightarrow> run_task Q run (Some j) (e, s) = (e, fst (run j s))"
  by (simp add: run_task_def split: prod.splits) (metis fold_simps(1) id_apply snd_conv)

lemma loop_high_exit:
  assumes quiet: "\<And>j s. snd (run j s) = []"
  shows "ex_RunThread e \<Longrightarrow> jobs (ex_TaskQueue e) = map Some hs @ [None] \<Longrightarrow> length hs < n \<Longrightarrow>
    fst (executor_loop Q run n (e, s)) = map Some hs @ [None]"
proof (induction hs arbitrary: n e s)
  case Nil
  then obtain m where n: "n = Suc m" by (cases n) auto
  from dequeue_first [of "ex_TaskQueue e" None "[]"] Nil
  obtain q where q: "cq_try_dequeue Q (ex_TaskQueue e) = Some (None, q)" by auto
  show ?case using Nil(1) by (cases m) (simp_all add: n q executor_step_def run_task_def)
next
  case (Cons h hs)
  then obtain m where n: "n = Suc m" by (cases n) auto
  from dequeue_first [of "ex_TaskQueue e" "Some h" "map Some hs @ [None]"] Cons.prems(2)
  obtain q where q: "cq_try_dequeue Q (ex_TaskQueue e) = Some (Some h, q)"
    "jobs q = map Some hs @ [None]" by auto
  from Cons.IH [of "e\<lparr>ex_TaskQueue := q\<rparr>" m "fst (run h s)"] Cons.prems q(2) n
  have "fst (executor_loop Q run m (e\<lparr>ex_TaskQueue := q\<rparr>, fst (run h s))) = map Some hs @ [None]"
    by simp
  then show ?case using Cons.prems(1)
    by (auto simp: n q(1) executor_step_def quiet_task [OF quiet] split: prod.splits)
qed

lemma loop_low_exit:
  assumes quiet: "\<And>j s. snd (run j s) = []"
  shows "ex_RunThread e \<Longrightarrow> jobs (ex_TaskQueue e) = map Some hs \<Longrightarrow>
    jobs (ex_LowPriorityTaskQueue e) = map Some ls @ [None] \<Longrightarrow> length hs + length ls < n \<Longrightarrow>
    fst (executor_loop Q run n (e, s)) = map Some (hs @ ls) @ [None]"
proof (induction "hs @ ls" arbitrary: n hs ls e s)
  case Nil
  then obtain m where n: "n = Suc m" by (cases n) auto
  from Nil have "cq_try_dequeue Q (ex_TaskQueue e) = None" by (simp add: dequeue_empty)
  moreover from dequeue_first [of "ex_LowPriorityTaskQueue e" None "[]"] Nil
  obtain q where "cq_try_dequeue Q (ex_LowPriorityTaskQueue e) = Some (None, q)" by auto
  ultimately show ?case using Nil by (cases m) (simp_all add: n executor_step_def run_task_def)
next
  case (Cons h rest)
  then obtain m where n: "n = Suc m" by (cases n) auto
  show ?case
  proof (cases hs)
    case Nil
    with Cons(2) have ls: "ls = h # rest" by simp
    have "cq_try_dequeue Q (ex_TaskQueue e) = None" using Cons.prems(2) Nil by (simp add: dequeue_empty)
    moreover from dequeue_first [of "ex_LowPriorityTaskQueue e" "Some h" "map Some rest @ [None]"]
      Cons.prems(3) ls
    obtain q where "cq_try_dequeue Q (ex_LowPriorityTaskQueue e) = Some (Some h, q)"
      "jobs q = map Some rest @ [None]" by auto
    moreover from Cons.hyps(1) [of "[]" rest "e\<lparr>ex_LowPriorityTaskQueue := q\<rparr>" m "fst (run h s)"]
      calculation Cons.prems n ls Nil
    have "fst (executor_loop Q run m (e\<lparr>ex_LowPriorityTaskQueue := q\<rparr>, fst (run h s))) =
        map Some rest @ [None]" by simp
    ultimately show ?thesis using Cons.prems(1) ls Nil
      by (auto simp: n executor_step_def quiet_task [OF quiet] split: prod.splits)
  next
    case (Cons h' hs')
    with Cons.hyps(2) have h: "hs = h # hs'" "rest = hs' @ ls" by auto
    from dequeue_first [of "ex_TaskQueue e" "Some h" "map Some hs'"] Cons.prems(2) h
    obtain q where q: "cq_try_dequeue Q (ex_TaskQueue e) = Some (Some h, q)"
      "jobs q = map Some hs'" by auto
    from Cons.hyps(1) [of hs' ls "e\<lparr>ex_TaskQueue := q\<rparr>" m "fst (run h s)"] q Cons.prems n h
    have "fst (executor_loop Q run m (e\<lparr>ex_TaskQueue := q\<rparr>, fst (run h s))) = map Some rest @ [None]"
      by simp
    then show ?thesis using Cons.prems(1) h
      by (auto simp: n q(1) executor_step_def quiet_task [OF quiet] split: prod.splits)
  qed
qed

end

interpretation listftq: fifo_task_queue list_queue "\<lambda>q. q"
  by unfold_locales

text \<open>C27: The worker thread of an executor implements a bag of pending tasks: one pass runs one pending
  task and makes what it sends pending; a pass runs a low priority task only when no high priority
  task is queued, and sleeps only when both queues are empty. The queue is any that meets the laws of
  \<open>concurrent_queue\<close>.\<close>

theorem executor_refines_bag:
  assumes laws: "concurrent_queue Q bag" and step: "executor_step Q run (e, s) = (t, e', s')"
  shows "(t = None \<longleftrightarrow> bag (ex_TaskQueue e) = {#} \<and> bag (ex_LowPriorityTaskQueue e) = {#}) \<and>
         (\<forall>x. t = Some x \<longrightarrow> bag (ex_TaskQueue e) \<noteq> {#} \<longrightarrow> x \<in># bag (ex_TaskQueue e)) \<and>
         (\<forall>j. t = Some (Some j) \<longrightarrow> bag_step run (s, pending bag e) (s', pending bag e'))"
proof -
  have tq: "task_queue Q bag" using laws by (simp add: task_queue_def)
  show ?thesis
    using task_queue.executor_step_idle [OF tq, of run e s]
      task_queue.executor_step_high_first [OF tq, of run e s _ e' s']
      task_queue.executor_step_refines [OF tq, of run e s _ e' s'] step
    by auto
qed

theorem executor_refines_bag_witness:
  "concurrent_queue (list_queue :: (nat option list, nat option) cqueue) mset \<and>
   bag_step (\<lambda>j s. (s + j, [])) (0 :: nat, {#4, 3#}) (3, {#4#})"
proof -
  let ?e = "\<lparr>ex_RunThread = True, ex_TaskQueue = [Some 3], ex_LowPriorityTaskQueue = [Some 4],
    ex_LowPriorityExit = False\<rparr> :: nat option list ThreadedExecutor"
  let ?run = "\<lambda>j s. (s + j :: nat, [] :: (bool \<times> nat) list)"
  have l: "concurrent_queue (list_queue :: (nat option list, nat option) cqueue) mset"
    by (rule listq.concurrent_queue_axioms)
  have "executor_step list_queue ?run (?e, 0) = (Some (Some 3), ?e\<lparr>ex_TaskQueue := []\<rparr>, 3)"
    by (simp add: executor_step_def list_queue_def run_task_def)
  from executor_refines_bag [OF l this] l show ?thesis by (simp add: pending_def)
qed

text \<open>When an executor is destroyed, its exit task takes its place in the queue that the constructor
  argument selects. With the high priority queue the thread ends after the high priority tasks that
  were queued, and the low priority tasks are never run; with the low priority queue every queued
  task runs first. (Tasks that send no further work, a first-in first-out queue, and enough passes.)\<close>

theorem executor_exit_order:
  assumes laws: "fifo_queue Q jobs"
    and quiet: "\<And>j s. snd (run j s) = []"
    and "ex_RunThread e" and "jobs (ex_TaskQueue e) = map Some hs"
    and "jobs (ex_LowPriorityTaskQueue e) = map Some ls" and "length hs + length ls < n"
  shows "fst (executor_loop Q run n (destroy_send_exit Q e, s)) =
         (if ex_LowPriorityExit e then map Some (hs @ ls) @ [None] else map Some hs @ [None])"
proof -
  have ftq: "fifo_task_queue Q jobs" using laws by (simp add: fifo_task_queue_def)
  note enq = fifo_queue.jobs_enqueue [OF laws]
  show ?thesis
  proof (cases "ex_LowPriorityExit e")
    case True
    then show ?thesis
      using fifo_task_queue.loop_low_exit [OF ftq quiet, where e = "destroy_send_exit Q e" and hs = hs
          and ls = ls and n = n and s = s] assms
      by (simp add: destroy_send_exit_def sendLowPriorityWork_def enq)
  next
    case False
    then show ?thesis
      using fifo_task_queue.loop_high_exit [OF ftq quiet, where e = "destroy_send_exit Q e" and hs = hs
          and n = n and s = s] assms
      by (simp add: destroy_send_exit_def sendWork_def enq)
  qed
qed

theorem executor_exit_order_witness:
  "fst (executor_loop list_queue (\<lambda>j s. (s, [])) 5
      (destroy_send_exit list_queue
        \<lparr>ex_RunThread = True, ex_TaskQueue = [Some ''a''], ex_LowPriorityTaskQueue = [Some ''b''],
         ex_LowPriorityExit = False\<rparr>, ())) = [Some ''a'', None]"
proof -
  have l: "fifo_queue (list_queue :: (string option list, string option) cqueue) (\<lambda>q. q)"
    by (rule listq.fifo_queue_axioms)
  show ?thesis
    using executor_exit_order [OF l, where run = "\<lambda>j s. (s :: unit, [])" and hs = "[''a'']"
        and ls = "[''b'']" and n = 5 and s = "()" and
        e = "\<lparr>ex_RunThread = True, ex_TaskQueue = [Some ''a''], ex_LowPriorityTaskQueue = [Some ''b''],
             ex_LowPriorityExit = False\<rparr>"]
    by simp
qed

end
