(* ===== verification/Message_Writer.thy ===== *)
theory Message_Writer
  imports Source_Filter Work_Queue
begin

text \<open>
  \<^verbatim>\<open>src/Stream/MessageWriter.{h,cpp}\<close>: the single thread that writes to the HDF5 file. Partition
  threads enqueue write jobs; the writer thread takes them out, lets the destination module write,
  counts failures per source, and flushes the file at fixed intervals.

  Arguments of the model: the queue operations \<open>Q\<close>, \<open>h\<close> for \<^verbatim>\<open>std::hash\<close>, \<open>wr\<close> for the virtual
  \<^verbatim>\<open>WriterModule::Base::write\<close> (it may raise), \<open>flush\<close> for the flush function given to the
  constructor, and \<open>clk\<close>, the sequence of readings of the system clock. The state of file and writer
  modules is the component \<open>mw_world\<close>. A result \<open>None\<close> is a crash of the process: a null pointer
  dereference or a division by zero.
\<close>

datatype ('d, 'w) job =
    Write_Msg "'d Message" bool
  | Run_Job "'w \<Rightarrow> 'w"

record Metric =
  metric_Name :: string
  metric_Counter :: int

record ('q, 'w) MessageWriter =
  mw_WriteJobs :: 'q
  mw_RunThread :: bool
  mw_WritesDone :: int
  mw_WriteErrors :: int
  mw_ApproxQueuedWrites :: int
  mw_ModuleErrorCounters :: "(hash \<times> Metric) list"
  mw_FlushInterval :: duration
  mw_CheckTimeCounter :: int
  mw_NextFlushTime :: time_point
  mw_clock_reads :: nat
  mw_world :: 'w

abbreviation MaxTimeCheckCounter :: int where
  "MaxTimeCheckCounter \<equiv> 200"

definition generateSrcHash :: "(string \<Rightarrow> hash) \<Rightarrow> string \<Rightarrow> string \<Rightarrow> hash" where
  "generateSrcHash h Source FlatbufferId = h (Source @ FlatbufferId)"

definition UnknownModuleHash :: "(string \<Rightarrow> hash) \<Rightarrow> hash" where
  "UnknownModuleHash h = generateSrcHash h ''Unknown source'' ''Unknown fb-id''"

text \<open>The constructor, and the thread's local variables at its start: the first flush is due one
  interval after the first reading of the clock.\<close>

definition make_MessageWriter ::
  "('q, ('d, 'w) job) cqueue \<Rightarrow> (string \<Rightarrow> hash) \<Rightarrow> (nat \<Rightarrow> time_point) \<Rightarrow> duration \<Rightarrow> 'w
     \<Rightarrow> ('q, 'w) MessageWriter" where
  "make_MessageWriter Q h clk FlushIntervalTime w =
     \<lparr>mw_WriteJobs = cq_new Q, mw_RunThread = True, mw_WritesDone = 0, mw_WriteErrors = 0,
      mw_ApproxQueuedWrites = 0,
      mw_ModuleErrorCounters =
        [(UnknownModuleHash h, \<lparr>metric_Name = ''error_unknown'', metric_Counter = 0\<rparr>)],
      mw_FlushInterval = FlushIntervalTime, mw_CheckTimeCounter = 0,
      mw_NextFlushTime = s64 (clk 0 + FlushIntervalTime), mw_clock_reads = 1, mw_world = w\<rparr>"

definition addMessage ::
  "('q, ('d, 'w) job) cqueue \<Rightarrow> 'd add_message \<Rightarrow> ('q, 'w) MessageWriter \<Rightarrow> ('q, 'w) MessageWriter" where
  "addMessage Q msg s = s\<lparr>mw_WriteJobs := cq_enqueue Q (Write_Msg (fst msg) (snd msg)) (mw_WriteJobs s)\<rparr>"

definition runJob ::
  "('q, ('d, 'w) job) cqueue \<Rightarrow> ('w \<Rightarrow> 'w) \<Rightarrow> ('q, 'w) MessageWriter \<Rightarrow> ('q, 'w) MessageWriter" where
  "runJob Q f s = s\<lparr>mw_WriteJobs := cq_enqueue Q (Run_Job f) (mw_WriteJobs s)\<rparr>"

definition mw_stop :: "('q, 'w) MessageWriter \<Rightarrow> ('q, 'w) MessageWriter" where
  "mw_stop s = s\<lparr>mw_RunThread := False\<rparr>"

definition nrOfWritesQueued :: "('q, ('d, 'w) job) cqueue \<Rightarrow> ('q, 'w) MessageWriter \<Rightarrow> nat" where
  "nrOfWritesQueued Q s = cq_size_approx Q (mw_WriteJobs s)"

definition nrOfWriterModulesWithErrors :: "('q, 'w) MessageWriter \<Rightarrow> nat" where
  "nrOfWriterModulesWithErrors s = length (mw_ModuleErrorCounters s)"

definition metric_incr :: "Metric \<Rightarrow> Metric" where
  "metric_incr c = c\<lparr>metric_Counter := metric_Counter c + 1\<rparr>"

definition writeMsgImpl ::
  "(string \<Rightarrow> hash) \<Rightarrow> ('d \<Rightarrow> FlatbufferMessage \<Rightarrow> bool \<Rightarrow> 'w \<Rightarrow> exn option \<times> 'w) \<Rightarrow> 'd
     \<Rightarrow> FlatbufferMessage \<Rightarrow> bool \<Rightarrow> ('q, 'w) MessageWriter \<Rightarrow> ('q, 'w) MessageWriter option" where
  "writeMsgImpl h wr ModulePtr Msg is_buffered_message s =
     (let (r, w) = wr ModulePtr Msg is_buffered_message (mw_world s); s = s\<lparr>mw_world := w\<rparr> in
      case r of
        None \<Rightarrow> Some (s\<lparr>mw_WritesDone := mw_WritesDone s + 1\<rparr>)
      | Some (Writer_Exception _) \<Rightarrow>
          let s = s\<lparr>mw_WriteErrors := mw_WriteErrors s + 1\<rparr>;
              UsedHash = (if fm_Valid Msg then generateSrcHash h (fm_Sourcename Msg) (fm_ID Msg)
                          else UnknownModuleHash h);
              Counters = mw_ModuleErrorCounters s;
              Counters = (if fm_Valid Msg \<and> map_of Counters UsedHash = None
                          then smap_insert UsedHash
                                 \<lparr>metric_Name = ''error_'' @ fm_Sourcename Msg @ ''_'' @ fm_ID Msg,
                                  metric_Counter = 0\<rparr> Counters
                          else Counters)
          in (case map_of Counters UsedHash of
                None \<Rightarrow> None
              | Some c \<Rightarrow>
                  Some (s\<lparr>mw_ModuleErrorCounters := smap_insert UsedHash (metric_incr c) Counters\<rparr>))
      | Some _ \<Rightarrow> Some (s\<lparr>mw_WriteErrors := mw_WriteErrors s + 1\<rparr>))"

definition execute_job ::
  "(string \<Rightarrow> hash) \<Rightarrow> ('d \<Rightarrow> FlatbufferMessage \<Rightarrow> bool \<Rightarrow> 'w \<Rightarrow> exn option \<times> 'w) \<Rightarrow> ('d, 'w) job
     \<Rightarrow> ('q, 'w) MessageWriter \<Rightarrow> ('q, 'w) MessageWriter option" where
  "execute_job h wr j s =
     (case j of
        Write_Msg m b \<Rightarrow> writeMsgImpl h wr (message_DestPtr m) (message_FbMsg m) b s
      | Run_Job f \<Rightarrow> Some (s\<lparr>mw_world := f (mw_world s)\<rparr>))"

definition FlushOperation ::
  "('q, ('d, 'w) job) cqueue \<Rightarrow> (nat \<Rightarrow> time_point) \<Rightarrow> ('w \<Rightarrow> 'w)
     \<Rightarrow> ('q, 'w) MessageWriter \<Rightarrow> ('q, 'w) MessageWriter option" where
  "FlushOperation Q clk flush s =
     (let Now = clk (mw_clock_reads s);
          s = s\<lparr>mw_clock_reads := Suc (mw_clock_reads s)\<rparr> in
      if Now \<ge> mw_NextFlushTime s then
        let s = s\<lparr>mw_ApproxQueuedWrites := int (cq_size_approx Q (mw_WriteJobs s)),
                  mw_world := flush (mw_world s)\<rparr> in
        if mw_FlushInterval s = 0 then None
        else
          let FlushPeriods =
                s32 (s32 (s64 (Now - mw_NextFlushTime s) sdiv mw_FlushInterval s) + 1)
          in Some (s\<lparr>mw_NextFlushTime :=
                        s64 (mw_NextFlushTime s + s64 (FlushPeriods * mw_FlushInterval s))\<rparr>)
      else Some s)"

text \<open>The loop of \<^verbatim>\<open>WriteOperation\<close>, which ends when a dequeue fails.\<close>

partial_function (option) write_loop ::
  "('q, ('d, 'w) job) cqueue \<Rightarrow> (string \<Rightarrow> hash)
     \<Rightarrow> ('d \<Rightarrow> FlatbufferMessage \<Rightarrow> bool \<Rightarrow> 'w \<Rightarrow> exn option \<times> 'w) \<Rightarrow> (nat \<Rightarrow> time_point) \<Rightarrow> ('w \<Rightarrow> 'w)
     \<Rightarrow> ('q, 'w) MessageWriter \<Rightarrow> ('q, 'w) MessageWriter option" where
  "write_loop Q h wr clk flush s =
     (case cq_try_dequeue Q (mw_WriteJobs s) of
        None \<Rightarrow> Some s
      | Some (CurrentJob, q) \<Rightarrow>
          Option.bind (execute_job h wr CurrentJob (s\<lparr>mw_WriteJobs := q\<rparr>)) (\<lambda>s.
          let s = s\<lparr>mw_CheckTimeCounter := mw_CheckTimeCounter s + 1\<rparr> in
          if mw_CheckTimeCounter s > MaxTimeCheckCounter then
            Option.bind (FlushOperation Q clk flush s) (\<lambda>s.
              write_loop Q h wr clk flush (s\<lparr>mw_CheckTimeCounter := 0\<rparr>))
          else write_loop Q h wr clk flush s))"

definition WriteOperation ::
  "('q, ('d, 'w) job) cqueue \<Rightarrow> (string \<Rightarrow> hash)
     \<Rightarrow> ('d \<Rightarrow> FlatbufferMessage \<Rightarrow> bool \<Rightarrow> 'w \<Rightarrow> exn option \<times> 'w) \<Rightarrow> (nat \<Rightarrow> time_point) \<Rightarrow> ('w \<Rightarrow> 'w)
     \<Rightarrow> ('q, 'w) MessageWriter \<Rightarrow> ('q, 'w) MessageWriter option" where
  "WriteOperation Q h wr clk flush s = write_loop Q h wr clk flush (s\<lparr>mw_CheckTimeCounter := 0\<rparr>)"

text \<open>The thread function. Between two passes of its loop the other threads act: each element of the
  list holds the jobs they enqueue in that time and whether one of them calls \<^verbatim>\<open>stop\<close>. When the list
  is exhausted the destructor has been called, which stops the loop as well.\<close>

definition others_act ::
  "('q, ('d, 'w) job) cqueue \<Rightarrow> ('d, 'w) job list \<Rightarrow> bool \<Rightarrow> ('q, 'w) MessageWriter
     \<Rightarrow> ('q, 'w) MessageWriter" where
  "others_act Q js stop s =
     (let s = s\<lparr>mw_WriteJobs := fold (cq_enqueue Q) js (mw_WriteJobs s)\<rparr>
      in if stop then mw_stop s else s)"

fun threadFunction ::
  "('q, ('d, 'w) job) cqueue \<Rightarrow> (string \<Rightarrow> hash)
     \<Rightarrow> ('d \<Rightarrow> FlatbufferMessage \<Rightarrow> bool \<Rightarrow> 'w \<Rightarrow> exn option \<times> 'w) \<Rightarrow> (nat \<Rightarrow> time_point) \<Rightarrow> ('w \<Rightarrow> 'w)
     \<Rightarrow> (('d, 'w) job list \<times> bool) list \<Rightarrow> ('q, 'w) MessageWriter \<Rightarrow> ('q, 'w) MessageWriter option" where
  "threadFunction Q h wr clk flush [] s = WriteOperation Q h wr clk flush s"
| "threadFunction Q h wr clk flush ((js, stop) # envs) s =
     (if mw_RunThread s then
        Option.bind (WriteOperation Q h wr clk flush s) (\<lambda>s.
        Option.bind (FlushOperation Q clk flush s) (\<lambda>s.
          threadFunction Q h wr clk flush envs (others_act Q js stop s)))
      else WriteOperation Q h wr clk flush s)"

section \<open>The thread performs every job\<close>

definition mw_inv :: "(string \<Rightarrow> hash) \<Rightarrow> ('q, 'w) MessageWriter \<Rightarrow> bool" where
  "mw_inv h s \<longleftrightarrow>
     map_of (mw_ModuleErrorCounters s) (UnknownModuleHash h) \<noteq> None \<and> mw_FlushInterval s \<noteq> 0"

definition job_world ::
  "('d \<Rightarrow> FlatbufferMessage \<Rightarrow> bool \<Rightarrow> 'w \<Rightarrow> exn option \<times> 'w) \<Rightarrow> ('d, 'w) job \<Rightarrow> 'w \<Rightarrow> 'w" where
  "job_world wr j w =
     (case j of Write_Msg m b \<Rightarrow> snd (wr (message_DestPtr m) (message_FbMsg m) b w) | Run_Job f \<Rightarrow> f w)"

definition is_write :: "('d, 'w) job \<Rightarrow> bool" where
  "is_write j = (case j of Write_Msg _ _ \<Rightarrow> True | Run_Job _ \<Rightarrow> False)"

definition handled :: "('q, 'w) MessageWriter \<Rightarrow> int" where
  "handled s = mw_WritesDone s + mw_WriteErrors s"

text \<open>One job: it never crashes, acts on the file as the module's write does, and is counted once.\<close>

lemma writeMsgImpl_ok:
  assumes "mw_inv h s"
  shows "\<exists>s'. writeMsgImpl h wr d m b s = Some s' \<and> mw_inv h s' \<and>
     mw_world s' = snd (wr d m b (mw_world s)) \<and> handled s' = handled s + 1 \<and>
     mw_WriteJobs s' = mw_WriteJobs s \<and> mw_RunThread s' = mw_RunThread s \<and>
     mw_CheckTimeCounter s' = mw_CheckTimeCounter s"
proof (cases "wr d m b (mw_world s)")
  case (Pair r w)
  show ?thesis
  proof (cases r)
    case None
    with Pair assms show ?thesis by (simp add: writeMsgImpl_def mw_inv_def handled_def)
  next
    case (Some e)
    with Pair assms show ?thesis
      by (cases e) (auto simp: writeMsgImpl_def mw_inv_def handled_def Let_def map_of_smap_insert
          split: option.splits)
  qed
qed

lemma execute_job_ok:
  assumes "mw_inv h s"
  shows "\<exists>s'. execute_job h wr j s = Some s' \<and> mw_inv h s' \<and>
     mw_world s' = job_world wr j (mw_world s) \<and>
     handled s' = handled s + (if is_write j then 1 else 0) \<and>
     mw_WriteJobs s' = mw_WriteJobs s \<and> mw_RunThread s' = mw_RunThread s \<and>
     mw_CheckTimeCounter s' = mw_CheckTimeCounter s"
proof (cases j)
  case (Write_Msg m b)
  then show ?thesis
    using writeMsgImpl_ok [OF assms] by (simp add: execute_job_def job_world_def is_write_def)
next
  case (Run_Job f)
  then show ?thesis
    using assms by (simp add: execute_job_def job_world_def is_write_def mw_inv_def handled_def)
qed

lemma FlushOperation_ok:
  assumes "mw_inv h s" and "\<And>w. flush w = w"
  shows "\<exists>s'. FlushOperation Q clk flush s = Some s' \<and> mw_inv h s' \<and> mw_world s' = mw_world s \<and>
     handled s' = handled s \<and> mw_WriteJobs s' = mw_WriteJobs s \<and> mw_RunThread s' = mw_RunThread s"
  using assms by (auto simp: FlushOperation_def mw_inv_def handled_def Let_def)

text \<open>What a stretch of the thread's work amounts to.\<close>

definition performed ::
  "(string \<Rightarrow> hash) \<Rightarrow> ('d \<Rightarrow> FlatbufferMessage \<Rightarrow> bool \<Rightarrow> 'w \<Rightarrow> exn option \<times> 'w) \<Rightarrow> ('d, 'w) job list
     \<Rightarrow> ('q, 'w) MessageWriter \<Rightarrow> ('q, 'w) MessageWriter \<Rightarrow> bool" where
  "performed h wr js s s' \<longleftrightarrow>
     mw_inv h s' \<and> mw_world s' = fold (job_world wr) js (mw_world s) \<and>
     handled s' = handled s + int (length (filter is_write js)) \<and> mw_RunThread s' = mw_RunThread s"

locale writer_queue = fifo_queue Q jobs
  for Q :: "('q, ('d, 'w) job) cqueue" and jobs :: "'q \<Rightarrow> ('d, 'w) job list"
begin

lemma write_loop_performs:
  assumes flush: "\<And>w. flush w = w"
  shows "mw_inv h s \<Longrightarrow> jobs (mw_WriteJobs s) = js \<Longrightarrow>
    \<exists>s'. write_loop Q h wr clk flush s = Some s' \<and> performed h wr js s s' \<and>
         jobs (mw_WriteJobs s') = []"
proof (induction js arbitrary: s)
  case Nil
  then show ?case by (subst write_loop.simps) (simp add: dequeue_empty performed_def)
next
  case (Cons j js)
  from dequeue_first [OF Cons.prems(2)]
  obtain q where q: "cq_try_dequeue Q (mw_WriteJobs s) = Some (j, q)" "jobs q = js" by blast
  have "mw_inv h (s\<lparr>mw_WriteJobs := q\<rparr>)" using Cons.prems(1) by (simp add: mw_inv_def)
  from execute_job_ok [OF this, of wr j] obtain s1 where
    s1: "execute_job h wr j (s\<lparr>mw_WriteJobs := q\<rparr>) = Some s1" "mw_inv h s1"
    "mw_world s1 = job_world wr j (mw_world s)" "mw_WriteJobs s1 = q"
    "handled s1 = handled s + (if is_write j then 1 else 0)" "mw_RunThread s1 = mw_RunThread s"
    by (auto simp: handled_def)
  let ?s2 = "s1\<lparr>mw_CheckTimeCounter := mw_CheckTimeCounter s1 + 1\<rparr>"
  have s2: "mw_inv h ?s2" using s1(2) by (simp add: mw_inv_def)
  from FlushOperation_ok [OF s2 flush, of Q clk] obtain s3 where
    s3: "FlushOperation Q clk flush ?s2 = Some s3" "mw_inv h s3" "mw_world s3 = mw_world s1"
    "handled s3 = handled s1" "mw_WriteJobs s3 = q" "mw_RunThread s3 = mw_RunThread s"
    using s1 by (auto simp: handled_def)
  let ?next = "if mw_CheckTimeCounter s1 + 1 > MaxTimeCheckCounter
               then s3\<lparr>mw_CheckTimeCounter := 0\<rparr> else ?s2"
  have n: "mw_inv h ?next" "jobs (mw_WriteJobs ?next) = js" "mw_RunThread ?next = mw_RunThread s"
    "mw_world ?next = job_world wr j (mw_world s)"
    "handled ?next = handled s + (if is_write j then 1 else 0)"
    using s1 s2 s3 q(2) by (auto simp: mw_inv_def handled_def)
  have "write_loop Q h wr clk flush s = write_loop Q h wr clk flush ?next"
    by (subst write_loop.simps) (simp add: q s1(1) s3(1) Let_def)
  with Cons.IH [OF n(1,2)] n show ?case by (auto simp: performed_def)
qed

lemma WriteOperation_performs:
  assumes "\<And>w. flush w = w" and "mw_inv h s"
  shows "\<exists>s'. WriteOperation Q h wr clk flush s = Some s' \<and>
    performed h wr (jobs (mw_WriteJobs s)) s s' \<and> jobs (mw_WriteJobs s') = []"
proof -
  let ?s = "s\<lparr>mw_CheckTimeCounter := 0\<rparr>"
  have "mw_inv h ?s" using assms(2) by (simp add: mw_inv_def)
  from write_loop_performs [OF assms(1) this refl, of wr clk] show ?thesis
    by (auto simp: WriteOperation_def performed_def handled_def)
qed

end

interpretation listwq: writer_queue list_queue "\<lambda>q. q"
  by unfold_locales

text \<open>The jobs that reach the thread before it ends: those enqueued up to and including the pause in
  which it is stopped.\<close>

fun until_stop :: "(('d, 'w) job list \<times> bool) list \<Rightarrow> ('d, 'w) job list" where
  "until_stop [] = []"
| "until_stop ((js, stop) # envs) = js @ (if stop then [] else until_stop envs)"

context writer_queue
begin

lemma threadFunction_performs:
  assumes flush: "\<And>w. flush w = w"
  shows "mw_inv h s \<Longrightarrow>
    \<exists>s'. threadFunction Q h wr clk flush envs s = Some s' \<and> mw_inv h s' \<and> jobs (mw_WriteJobs s') = [] \<and>
      (let js = jobs (mw_WriteJobs s) @ (if mw_RunThread s then until_stop envs else [])
       in mw_world s' = fold (job_world wr) js (mw_world s) \<and>
          handled s' = handled s + int (length (filter is_write js)))"
proof (induction envs arbitrary: s)
  case Nil
  then show ?case
    using WriteOperation_performs [OF flush, of h s wr clk] by (auto simp: performed_def)
next
  case (Cons e envs)
  obtain js stop where e: "e = (js, stop)" by (cases e)
  from WriteOperation_performs [OF flush Cons.prems, of wr clk] obtain s1 where
    s1: "WriteOperation Q h wr clk flush s = Some s1" "performed h wr (jobs (mw_WriteJobs s)) s s1"
    "jobs (mw_WriteJobs s1) = []" by blast
  show ?case
  proof (cases "mw_RunThread s")
    case False
    with s1 show ?thesis by (simp add: e performed_def)
  next
    case True
    from s1(2) have "mw_inv h s1" by (simp add: performed_def)
    from FlushOperation_ok [OF this flush, of Q clk] obtain s2 where
      s2: "FlushOperation Q clk flush s1 = Some s2" "mw_inv h s2" "mw_world s2 = mw_world s1"
      "handled s2 = handled s1" "mw_WriteJobs s2 = mw_WriteJobs s1" "mw_RunThread s2"
      using s1(2) True by (auto simp: performed_def)
    let ?s3 = "others_act Q js stop s2"
    have s3: "mw_inv h ?s3" "jobs (mw_WriteJobs ?s3) = js" "mw_world ?s3 = mw_world s1"
      "handled ?s3 = handled s1" "mw_RunThread ?s3 \<longleftrightarrow> \<not> stop"
      using s1(3) s2 by (simp_all add: others_act_def mw_stop_def mw_inv_def handled_def
          jobs_fold_enqueue Let_def)
    have eq: "threadFunction Q h wr clk flush (e # envs) s =
        threadFunction Q h wr clk flush envs ?s3"
      using True by (simp add: e s1(1) s2(1))
    from Cons.IH [OF s3(1)] s3 s1(2) True show ?thesis
      unfolding eq by (auto simp: e performed_def Let_def fold_append)
  qed
qed

end



section \<open>When the file is flushed\<close>

text \<open>A flush that is due moves the next flush time to the first point after the current time on
  the grid of whole flush intervals, so a late flush does not shift the later ones. The number of
  missed intervals and the new time must fit the integer types used.\<close>

theorem flush_keeps_grid:
  assumes "0 < mw_FlushInterval s" and "mw_NextFlushTime s \<le> clk (mw_clock_reads s)"
    and "(clk (mw_clock_reads s) - mw_NextFlushTime s) div mw_FlushInterval s < 2147483647"
    and "0 \<le> mw_NextFlushTime s" and "clk (mw_clock_reads s) + mw_FlushInterval s \<le> tp_max"
  shows "\<exists>s'. FlushOperation Q clk flush s = Some s' \<and> mw_world s' = flush (mw_world s) \<and>
     clk (mw_clock_reads s) < mw_NextFlushTime s' \<and>
     mw_NextFlushTime s' \<le> clk (mw_clock_reads s) + mw_FlushInterval s \<and>
     mw_FlushInterval s dvd mw_NextFlushTime s' - mw_NextFlushTime s"
proof -
  define now nxt fi where "now = clk (mw_clock_reads s)" and "nxt = mw_NextFlushTime s"
    and "fi = mw_FlushInterval s"
  define k where "k = (now - nxt) div fi"
  note a = assms [folded now_def nxt_def fi_def, folded k_def]
  have "0 \<le> now - nxt" using a(2) by simp
  note b = sdiv_pos_bounds [OF this a(1)]
  have k: "(now - nxt) sdiv fi = k"
    using \<open>0 \<le> now - nxt\<close> a(1) by (auto simp: k_def signed_divide_int_def sgn_if)
  have r: "s64 (now - nxt) = now - nxt" using a by (intro s64_id) auto
  have p: "s32 (s32 k + 1) = k + 1" using a(3) b(3) unfolding k by (simp add: wrap64)
  have ub: "now < nxt + (k + 1) * fi" and lb: "nxt + (k + 1) * fi \<le> now + fi"
    using b(1,2) unfolding k by (simp_all add: algebra_simps)
  have "0 \<le> (k + 1) * fi" using b(3) a(1) unfolding k by simp
  with lb a have "s64 ((k + 1) * fi) = (k + 1) * fi" "s64 (nxt + (k + 1) * fi) = nxt + (k + 1) * fi"
    by (auto intro!: s64_id)
  then show ?thesis
    using a ub lb r p k
    by (auto simp: FlushOperation_def Let_def now_def [symmetric] nxt_def [symmetric]
        fi_def [symmetric])
qed

theorem flush_keeps_grid_witness:
  "\<exists>s'. FlushOperation list_queue (\<lambda>_. 35) (\<lambda>w. w)
     (make_MessageWriter (list_queue :: ((string, nat) job list, (string, nat) job) cqueue)
        (\<lambda>_. 0) (\<lambda>_. 0) 10 0) = Some s' \<and>
     35 < mw_NextFlushTime s' \<and> mw_NextFlushTime s' \<le> 45 \<and> 10 dvd mw_NextFlushTime s' - 10"
proof -
  let ?s = "make_MessageWriter (list_queue :: ((string, nat) job list, (string, nat) job) cqueue)
    (\<lambda>_. 0) (\<lambda>_. 0) 10 0"
  have "mw_FlushInterval ?s = 10" "mw_NextFlushTime ?s = 10"
    by (simp_all add: make_MessageWriter_def s64_def)
  then show ?thesis
    using flush_keeps_grid [of ?s "\<lambda>_. 35" list_queue "\<lambda>w. w"] by auto
qed

end
