(* ===== verification/Multi_Vector.thy ===== *)
theory Multi_Vector
  imports K2N_Prelude
begin

text \<open>
  \<^verbatim>\<open>src/MultiVector.h\<close>, the multi-dimensional arrays that are written to datasets and attributes, and
  their construction from nested JSON arrays in \<^verbatim>\<open>src/HDFOperations.{h,cpp}\<close>
  (\<^verbatim>\<open>determineArrayDimensions\<close>, \<^verbatim>\<open>populateMultiVector\<close>, \<^verbatim>\<open>jsonArrayToMultiArray\<close>).

  JSON values are those of the format; \<^verbatim>\<open>nlohmann::json\<close> keeps the members of an object ordered by
  key. Floating point numbers are kept as their text. The conversion of an element to the element type,
  \<^verbatim>\<open>json::get<T>\<close>, is an argument and may raise.
\<close>

datatype json =
    J_null
  | J_bool bool
  | J_int int
  | J_uint nat
  | J_float string
  | J_string string
  | J_array "json list"
  | J_object "(string \<times> json) list"

fun is_array :: "json \<Rightarrow> bool" where
  "is_array (J_array _) = True"
| "is_array _ = False"

fun is_string :: "json \<Rightarrow> bool" where
  "is_string (J_string _) = True"
| "is_string _ = False"

fun is_object :: "json \<Rightarrow> bool" where
  "is_object (J_object _) = True"
| "is_object _ = False"

text \<open>Iteration over a JSON value: the elements of an array, the values of an object, nothing for null,
  and the value itself for a scalar.\<close>

fun json_elements :: "json \<Rightarrow> json list" where
  "json_elements (J_array xs) = xs"
| "json_elements (J_object ms) = map snd ms"
| "json_elements J_null = []"
| "json_elements v = [v]"

section \<open>MultiVector\<close>

type_synonym Shape = "nat list"

definition u64 :: "int \<Rightarrow> nat" where
  "u64 x = nat (x mod 18446744073709551616)"

lemma u64_id: "0 \<le> x \<Longrightarrow> x < 18446744073709551616 \<Longrightarrow> u64 x = nat x"
  by (simp add: u64_def)

definition extentToSize :: "Shape \<Rightarrow> exn + nat" where
  "extentToSize S =
     (case S of
        [] \<Rightarrow> Inl (Out_Of_Range ''vector::_M_range_check'')
      | d # ds \<Rightarrow> Inr (foldl (\<lambda>a b. u64 (int (a * b))) d ds))"

text \<open>The products of \<^verbatim>\<open>posToIndex\<close> are accumulated in the type of the initial value \<^verbatim>\<open>1\<close>, a 32-bit
  \<^verbatim>\<open>int\<close>.\<close>

definition int_product :: "nat list \<Rightarrow> int" where
  "int_product ds = foldl (\<lambda>a d. s32 (int (u64 a * d))) 1 ds"

definition posToIndex :: "Shape \<Rightarrow> Shape \<Rightarrow> nat" where
  "posToIndex Dimensions Pos =
     (let D = rev Dimensions; P = rev Pos
      in fold (\<lambda>i r. u64 (int (r + u64 (int_product (take i D)) * P ! i))) [0..<length P] 0)"

record 'a MultiVector =
  mv_Data :: "'a list"
  mv_shape :: Shape

text \<open>\<open>z\<close> is the value of a default-constructed element.\<close>

definition make_MultiVector :: "'a \<Rightarrow> Shape \<Rightarrow> exn + 'a MultiVector" where
  "make_MultiVector z extent =
     map_sum id (\<lambda>n. \<lparr>mv_Data = replicate n z, mv_shape = extent\<rparr>) (extentToSize extent)"

definition check_index :: "Shape \<Rightarrow> 'a MultiVector \<Rightarrow> exn option" where
  "check_index index m =
     (if length index \<noteq> length (mv_shape m) then Some (Out_Of_Range ''Shape dimensions are not equal.'')
      else if \<exists>i < length (mv_shape m). index ! i \<ge> mv_shape m ! i then Some (Out_Of_Range ''Outside of range.'')
      else None)"

definition set_value :: "Shape \<Rightarrow> 'a \<Rightarrow> 'a MultiVector \<Rightarrow> exn + 'a MultiVector" where
  "set_value index v m =
     (case check_index index m of
        Some e \<Rightarrow> Inl e
      | None \<Rightarrow> Inr (m\<lparr>mv_Data := (mv_Data m)[posToIndex (mv_shape m) index := v]\<rparr>))"

definition get_value :: "Shape \<Rightarrow> 'a MultiVector \<Rightarrow> exn + 'a" where
  "get_value index m =
     (case check_index index m of
        Some e \<Rightarrow> Inl e
      | None \<Rightarrow> Inr (mv_Data m ! posToIndex (mv_shape m) index))"

section \<open>From JSON\<close>

fun findInnerSize :: "json \<Rightarrow> Shape \<Rightarrow> nat \<Rightarrow> Shape"
  and findInnerSizes :: "json list \<Rightarrow> Shape \<Rightarrow> nat \<Rightarrow> Shape" where
  "findInnerSize (J_array xs) Dimensions CurrentLevel =
     (let D = (if length Dimensions < CurrentLevel + 1 then Dimensions @ [0] else Dimensions);
          D = (if length xs > D ! CurrentLevel then D[CurrentLevel := length xs] else D)
      in findInnerSizes xs D (CurrentLevel + 1))"
| "findInnerSize _ Dimensions CurrentLevel = Dimensions"
| "findInnerSizes [] Dimensions CurrentLevel = Dimensions"
| "findInnerSizes (x # xs) Dimensions CurrentLevel =
     findInnerSizes xs (findInnerSize x Dimensions CurrentLevel) CurrentLevel"

definition determineArrayDimensions :: "json \<Rightarrow> Shape" where
  "determineArrayDimensions Values = (if \<not> is_array Values then [1] else findInnerSize Values [] 0)"

fun populateMultiVector ::
  "(json \<Rightarrow> exn + 'a) \<Rightarrow> json list \<Rightarrow> Shape \<Rightarrow> nat \<Rightarrow> 'a MultiVector \<Rightarrow> exn + 'a MultiVector" where
  "populateMultiVector conv [] CurrentPosition CurrentLevel m = Inr m"
| "populateMultiVector conv (x # xs) CurrentPosition CurrentLevel m =
     (case (case x of
              J_array ys \<Rightarrow> populateMultiVector conv ys CurrentPosition (CurrentLevel + 1) m
            | _ \<Rightarrow> (case conv x of Inl e \<Rightarrow> Inl e | Inr v \<Rightarrow> set_value CurrentPosition v m)) of
        Inl e \<Rightarrow> Inl e
      | Inr m \<Rightarrow> populateMultiVector conv xs
          (CurrentPosition[CurrentLevel := Suc (CurrentPosition ! CurrentLevel)]) CurrentLevel m)"

definition jsonArrayToMultiArray :: "'a \<Rightarrow> (json \<Rightarrow> exn + 'a) \<Rightarrow> json \<Rightarrow> exn + 'a MultiVector" where
  "jsonArrayToMultiArray z conv ValueJson =
     (let ArraySize = determineArrayDimensions ValueJson in
      case make_MultiVector z ArraySize of
        Inl e \<Rightarrow> Inl e
      | Inr m \<Rightarrow> populateMultiVector conv (json_elements ValueJson) (replicate (length ArraySize) 0) 0 m)"

section \<open>Row-major order\<close>

fun row_major :: "Shape \<Rightarrow> Shape \<Rightarrow> nat" where
  "row_major (d # ds) (p # ps) = p * prod_list ds + row_major ds ps"
| "row_major _ _ = 0"

definition valid_index :: "Shape \<Rightarrow> Shape \<Rightarrow> bool" where
  "valid_index ds ps \<longleftrightarrow> list_all2 (\<lambda>p d. p < d) ps ds"

lemma row_major_bound: "valid_index ds ps \<Longrightarrow> row_major ds ps < prod_list ds"
  unfolding valid_index_def
proof (induction ps ds rule: list_all2_induct)
  case (Cons p ps d ds)
  have "p * prod_list ds + row_major ds ps < p * prod_list ds + prod_list ds" using Cons by simp
  also have "\<dots> = (p + 1) * prod_list ds" by simp
  also have "\<dots> \<le> d * prod_list ds" using Cons(1) by (intro mult_right_mono) auto
  finally show ?case by simp
qed simp

lemma row_major_inj:
  assumes "valid_index ds ps" and "valid_index ds qs" and "row_major ds ps = row_major ds qs"
  shows "ps = qs"
proof -
  have "list_all2 (\<lambda>p d. p < d) ps ds \<Longrightarrow> list_all2 (\<lambda>p d. p < d) qs ds \<Longrightarrow>
      row_major ds ps = row_major ds qs \<Longrightarrow> ps = qs" for ps qs
  proof (induction ps ds arbitrary: qs rule: list_all2_induct)
    case Nil
    then show ?case by simp
  next
    case (Cons p ps d ds)
    then obtain q qs' where qs: "qs = q # qs'" "q < d" "list_all2 (\<lambda>p d. p < d) qs' ds"
      by (auto simp: list_all2_Cons2)
    have b: "row_major ds ps < prod_list ds" "row_major ds qs' < prod_list ds"
      using row_major_bound Cons(2) qs(3) by (auto simp: valid_index_def)
    have eq: "p * prod_list ds + row_major ds ps = q * prod_list ds + row_major ds qs'"
      using Cons.prems(2) qs(1) by simp
    then have "(p * prod_list ds + row_major ds ps) div prod_list ds = (q * prod_list ds + row_major ds qs') div prod_list ds"
      by simp
    with b have "p = q" by simp
    moreover from this eq have "row_major ds ps = row_major ds qs'" by simp
    ultimately show ?case using Cons.IH qs by auto
  qed
  with assms show ?thesis by (simp add: valid_index_def)
qed

lemma prod_list_pos: "\<forall>d \<in> set ds. 0 < d \<Longrightarrow> 0 < prod_list (ds :: nat list)"
  by (induction ds) auto

lemma prod_list_take_le:
  assumes "\<forall>d \<in> set ds. 0 < d"
  shows "prod_list (take k ds) \<le> prod_list (ds :: nat list)"
proof -
  have "0 < prod_list (drop k ds)" using assms by (intro prod_list_pos) (auto dest: in_set_dropD)
  then have "prod_list (take k ds) * 1 \<le> prod_list (take k ds) * prod_list (drop k ds)"
    by (intro mult_le_mono2) simp
  also have "\<dots> = prod_list ds" by (metis append_take_drop_id prod_list.append)
  finally show ?thesis by simp
qed

lemma int_product_exact:
  "\<forall>d \<in> set ds. 0 < d \<Longrightarrow> prod_list ds \<le> 2147483647 \<Longrightarrow> int_product ds = int (prod_list ds)"
proof (induction ds rule: rev_induct)
  case (snoc d ds)
  have "prod_list ds * 1 \<le> prod_list ds * d" using snoc.prems(1) by (intro mult_le_mono2) auto
  then have "prod_list ds \<le> prod_list (ds @ [d])" by simp
  with snoc.prems(2) have le: "prod_list ds \<le> 2147483647" by (rule order_trans [rotated])
  with snoc have IH: "int_product ds = int (prod_list ds)" by simp
  then have "u64 (int_product ds) = prod_list ds" using le by (simp add: u64_id)
  moreover have "s32 (int (prod_list ds * d)) = int (prod_list ds * d)"
  proof (rule s32_id)
    have "int (prod_list ds * d) \<le> int 2147483647"
      using snoc.prems(2) by (intro of_nat_mono) simp
    then show "int (prod_list ds * d) \<le> 2147483647" by simp
    have "0 \<le> int (prod_list ds * d)" by (rule of_nat_0_le_iff)
    then show "- 2147483648 \<le> int (prod_list ds * d)" by linarith
  qed
  ultimately show ?case by (simp add: int_product_def)
qed (simp add: int_product_def)

lemma valid_index_rev_take:
  "valid_index ds ps \<Longrightarrow> valid_index (rev (take k (rev ds))) (rev (take k (rev ps)))"
  unfolding valid_index_def by (intro list_all2_rev [THEN iffD2] list_all2_takeI) simp

lemma valid_index_pos: "valid_index ds ps \<Longrightarrow> \<forall>d \<in> set ds. 0 < d"
  unfolding valid_index_def by (auto simp: list_all2_conv_all_nth in_set_conv_nth) (metis gr_zeroI not_less0)

text \<open>As long as an array has fewer than 2^31 elements, the index computation, with its 32-bit
  intermediate products and 64-bit wrap-around, is the row-major position; it is in range and different
  for different positions.\<close>

lemma pos_to_index_exact:
  assumes "valid_index ds ps" and "prod_list ds \<le> 2147483647"
  shows "posToIndex ds ps = row_major ds ps"
proof -
  let ?D = "rev ds" and ?P = "rev ps"
  let ?f = "\<lambda>i r. u64 (int (r + u64 (int_product (take i ?D)) * ?P ! i))"
  have len: "length ps = length ds" using assms(1) by (auto simp: valid_index_def dest: list_all2_lengthD)
  have pos: "\<forall>d \<in> set ?D. 0 < d" using valid_index_pos [OF assms(1)] by simp
  have small: "prod_list (take k ?D) \<le> 2147483647" for k
    using prod_list_take_le [OF pos, of k] assms(2) by (simp add: prod_list.rev)
  have "k \<le> length ds \<Longrightarrow> fold ?f [0..<k] 0 = row_major (rev (take k ?D)) (rev (take k ?P))" for k
  proof (induction k)
    case (Suc k)
    have k: "k < length ?D" "k < length ?P" using Suc.prems len by simp_all
    have prod: "u64 (int_product (take k ?D)) = prod_list (take k ?D)"
    proof -
      have "\<forall>d \<in> set (take k ?D). 0 < d" using pos by (auto dest: in_set_takeD)
      from int_product_exact [OF this small] have e: "int_product (take k ?D) = int (prod_list (take k ?D))" .
      have "int (prod_list (take k ?D)) \<le> int 2147483647" using small [of k] by (rule of_nat_mono)
      then show ?thesis unfolding e by (subst u64_id) simp_all
    qed
    have eq: "row_major (rev (take (Suc k) ?D)) (rev (take (Suc k) ?P)) =
        ?P ! k * prod_list (take k ?D) + row_major (rev (take k ?D)) (rev (take k ?P))"
      using k by (simp add: take_Suc_conv_app_nth prod_list.rev)
    have bound: "row_major (rev (take (Suc k) ?D)) (rev (take (Suc k) ?P)) < 18446744073709551616"
      using row_major_bound [OF valid_index_rev_take [OF assms(1), of "Suc k"]] small [of "Suc k"]
      by (simp add: prod_list.rev)
    have "fold ?f [0..<Suc k] 0 = ?f k (fold ?f [0..<k] 0)" by simp
    also have "\<dots> = u64 (int (row_major (rev (take k ?D)) (rev (take k ?P)) + prod_list (take k ?D) * ?P ! k))"
      by (simp only: Suc.IH [OF Suc_leD [OF Suc.prems]] prod)
    also have "\<dots> = u64 (int (row_major (rev (take (Suc k) ?D)) (rev (take (Suc k) ?P))))"
      unfolding eq by (simp only: mult.commute add.commute)
    also have "\<dots> = row_major (rev (take (Suc k) ?D)) (rev (take (Suc k) ?P))"
      using bound by (subst u64_id) simp_all
    finally show ?case .
  qed simp
  from this [of "length ps"] len show ?thesis by (simp add: posToIndex_def Let_def)
qed

lemma check_index_None: "check_index ix m = None \<longleftrightarrow> valid_index (mv_shape m) ix"
  by (auto simp: check_index_def valid_index_def list_all2_conv_all_nth not_le)

definition mv_ok :: "'a MultiVector \<Rightarrow> bool" where
  "mv_ok m \<longleftrightarrow> length (mv_Data m) = prod_list (mv_shape m) \<and> prod_list (mv_shape m) \<le> 2147483647"

lemma check_index_error: "check_index k m = Some e \<Longrightarrow> \<not> valid_index (mv_shape m) k \<and> (\<exists>s. e = Out_Of_Range s)"
  using check_index_None [of k m] by (auto simp: check_index_def split: if_splits)

lemma set_value_facts:
  assumes "mv_ok m" and "set_value i v m = Inr m'"
  shows "mv_ok m'" and "mv_shape m' = mv_shape m"
    and "get_value j m' = (if j = i then Inr v else get_value j m)"
proof -
  have ix: "valid_index (mv_shape m) k \<Longrightarrow> posToIndex (mv_shape m) k = row_major (mv_shape m) k" for k
    using assms pos_to_index_exact by (simp add: mv_ok_def)
  have in_range: "valid_index (mv_shape m) k \<Longrightarrow> row_major (mv_shape m) k < length (mv_Data m)" for k
    using assms row_major_bound by (simp add: mv_ok_def)
  have shape: "check_index k (m\<lparr>mv_Data := d\<rparr>) = check_index k m" for k d by (simp add: check_index_def)
  have i: "valid_index (mv_shape m) i" and m': "m' = m\<lparr>mv_Data := (mv_Data m)[posToIndex (mv_shape m) i := v]\<rparr>"
    using assms(2) check_index_None [of i m] by (auto simp: set_value_def split: option.splits)
  show "mv_ok m'" "mv_shape m' = mv_shape m" using assms(1) by (simp_all add: m' mv_ok_def)
  show "get_value j m' = (if j = i then Inr v else get_value j m)"
  proof (cases "check_index j m")
    case None
    then have "valid_index (mv_shape m) j" by (simp add: check_index_None)
    with i show ?thesis using ix in_range row_major_inj [of "mv_shape m" i j] None
      by (auto simp: m' get_value_def shape nth_list_update)
  next
    case (Some e)
    with i have "j \<noteq> i" using check_index_None [of i m] by auto
    with Some show ?thesis by (simp add: m' get_value_def shape)
  qed
qed

text \<open>C33: In an array of fewer than 2^31 elements, \<^verbatim>\<open>set_value\<close> followed by \<^verbatim>\<open>get_value\<close> returns the value at
  the position that was set and leaves every other position as it was; both raise \<^verbatim>\<open>std::out_of_range\<close> for
  exactly the positions that have the wrong number of dimensions or lie outside.\<close>

theorem multivector_get_set:
  assumes "mv_ok m"
  shows "(case set_value i v m of
            Inl e \<Rightarrow> \<not> valid_index (mv_shape m) i \<and> (\<exists>s. e = Out_Of_Range s)
          | Inr m' \<Rightarrow> valid_index (mv_shape m) i \<and> mv_shape m' = mv_shape m \<and> mv_ok m' \<and>
              get_value j m' = (if j = i then Inr v else get_value j m)) \<and>
         (case get_value j m of
            Inl e \<Rightarrow> \<not> valid_index (mv_shape m) j \<and> (\<exists>s. e = Out_Of_Range s)
          | Inr _ \<Rightarrow> valid_index (mv_shape m) j)"
proof (cases "check_index i m")
  case None
  then obtain m' where m': "set_value i v m = Inr m'" by (simp add: set_value_def)
  show ?thesis using None set_value_facts(1,2) [OF assms m'] set_value_facts(3) [OF assms m', of j] check_index_error [of j m] check_index_None [of _ m]
    by (auto simp: m' get_value_def split: option.splits)
next
  case (Some e)
  then show ?thesis using check_index_error check_index_None [of _ m]
    by (auto simp: set_value_def get_value_def split: option.splits)
qed

theorem multivector_get_set_witness:
  "get_value [1, 0] (projr (set_value [1, 0] (7::nat) \<lparr>mv_Data = [0, 0, 0, 0, 0, 0], mv_shape = [2, 3]\<rparr>)) = Inr 7"
proof -
  let ?m = "\<lparr>mv_Data = [0, 0, 0, 0, 0, 0], mv_shape = [2, 3]\<rparr> :: nat MultiVector"
  have "mv_ok ?m" by (simp add: mv_ok_def)
  moreover have "check_index [1, 0] ?m = None" by (simp add: check_index_None valid_index_def)
  ultimately show ?thesis
    using multivector_get_set [of ?m "[1, 0]" "[1, 0]" 7] by (simp add: set_value_def)
qed

section \<open>Arrays from nested JSON arrays\<close>

text \<open>The scalars of nested arrays with the indices that lead to them.\<close>

fun leaves :: "json list \<Rightarrow> nat \<Rightarrow> (nat list \<times> json) list" where
  "leaves [] k = []"
| "leaves (x # xs) k =
     (case x of J_array ys \<Rightarrow> map (\<lambda>(p, v). (k # p, v)) (leaves ys 0) | _ \<Rightarrow> [([k], x)]) @ leaves xs (Suc k)"

definition pad :: "nat \<Rightarrow> nat list \<Rightarrow> nat list" where
  "pad n p = p @ replicate (n - length p) 0"

fun nesting :: "json list \<Rightarrow> nat" where
  "nesting [] = 0"
| "nesting (x # xs) = max (case x of J_array ys \<Rightarrow> Suc (nesting ys) | _ \<Rightarrow> 0) (nesting xs)"

fun set_all :: "(json \<Rightarrow> exn + 'a) \<Rightarrow> (nat list \<times> json) list \<Rightarrow> 'a MultiVector \<Rightarrow> exn + 'a MultiVector" where
  "set_all conv [] m = Inr m"
| "set_all conv ((p, v) # ls) m =
     (case conv v of
        Inl e \<Rightarrow> Inl e
      | Inr a \<Rightarrow> (case set_value p a m of Inl e \<Rightarrow> Inl e | Inr m \<Rightarrow> set_all conv ls m))"

lemma set_all_append:
  "set_all conv (ls @ ks) m = (case set_all conv ls m of Inl e \<Rightarrow> Inl e | Inr m \<Rightarrow> set_all conv ks m)"
  by (induction conv ls m rule: set_all.induct) (auto split: sum.splits)

lemma leaves_length: "(p, v) \<in> set (leaves xs k) \<Longrightarrow> 0 < length p \<and> length p \<le> Suc (nesting xs)"
proof (induction xs k arbitrary: p v rule: leaves.induct)
  case (2 x xs k)
  show ?case
  proof (cases "(p, v) \<in> set (leaves xs (Suc k))")
    case True
    with 2 show ?thesis by fastforce
  next
    case False
    with 2 show ?thesis by (cases x) (fastforce simp: le_max_iff_disj)+
  qed
qed simp

text \<open>\<^verbatim>\<open>populateMultiVector\<close> sets the scalars one after the other.\<close>

lemma populate_sets_leaves:
  assumes "nesting xs \<le> r"
  shows "populateMultiVector conv xs (pre @ k # replicate r 0) (length pre) m =
    set_all conv (map (\<lambda>(p, v). (pre @ pad (Suc r) p, v)) (leaves xs k)) m"
  using assms
proof (induction xs arbitrary: pre k r m rule: nesting.induct)
  case (2 x xs)
  have step: "(pre @ k # replicate r 0)[length pre := Suc ((pre @ k # replicate r 0) ! length pre)] =
      pre @ Suc k # replicate r 0" by simp
  have rest: "populateMultiVector conv xs (pre @ Suc k # replicate r 0) (length pre) m' =
      set_all conv (map (\<lambda>(p, v). (pre @ pad (Suc r) p, v)) (leaves xs (Suc k))) m'" for m'
    using 2 by simp
  show ?case
  proof (cases "is_array x")
    case True
    then obtain ys where x: "x = J_array ys" by (cases x) auto
    with 2(3) obtain r' where r: "r = Suc r'" "nesting ys \<le> r'" by (cases r) auto
    let ?here = "map (\<lambda>(p, v). (pre @ pad (Suc r) p, v)) (map (\<lambda>(p, v). (k # p, v)) (leaves ys 0))"
    have eq: "map (\<lambda>(p, v). ((pre @ [k]) @ pad (Suc r') p, v)) (leaves ys 0) = ?here"
      by (simp add: pad_def r(1) case_prod_unfold)
    have "populateMultiVector conv ys ((pre @ [k]) @ 0 # replicate r' 0) (length (pre @ [k])) m =
        set_all conv (map (\<lambda>(p, v). ((pre @ [k]) @ pad (Suc r') p, v)) (leaves ys 0)) m"
      using 2(1) [OF x r(2)] by blast
    then have here: "populateMultiVector conv ys (pre @ k # replicate r 0) (length pre + 1) m = set_all conv ?here m"
      unfolding eq by (simp add: r(1))
    have l: "leaves (x # xs) k = map (\<lambda>(p, v). (k # p, v)) (leaves ys 0) @ leaves xs (Suc k)"
      by (simp add: x)
    have "populateMultiVector conv (x # xs) (pre @ k # replicate r 0) (length pre) m =
        (case populateMultiVector conv ys (pre @ k # replicate r 0) (length pre + 1) m of
           Inl e \<Rightarrow> Inl e
         | Inr m \<Rightarrow> populateMultiVector conv xs (pre @ Suc k # replicate r 0) (length pre) m)"
      using step by (simp add: x cong: sum.case_cong)
    then show ?thesis unfolding here rest l map_append set_all_append .
  next
    case False
    then have l: "leaves (x # xs) k = ([k], x) # leaves xs (Suc k)" by (cases x) auto
    have p: "pre @ pad (Suc r) [k] = pre @ k # replicate r 0" by (simp add: pad_def)
    have "populateMultiVector conv (x # xs) (pre @ k # replicate r 0) (length pre) m =
        (case (case conv x of Inl e \<Rightarrow> Inl e | Inr v \<Rightarrow> set_value (pre @ k # replicate r 0) v m) of
           Inl e \<Rightarrow> Inl e
         | Inr m \<Rightarrow> populateMultiVector conv xs (pre @ Suc k # replicate r 0) (length pre) m)"
      using False step by (cases x) (simp_all cong: sum.case_cong)
    then show ?thesis unfolding l by (simp add: p rest split: sum.splits)
  qed
qed simp

text \<open>Different scalars go to different positions.\<close>

lemma leaves_first: "(p, v) \<in> set (leaves xs k) \<Longrightarrow> \<exists>i q. p = i # q \<and> k \<le> i \<and> i < k + length xs"
proof (induction xs k arbitrary: p v rule: leaves.induct)
  case (2 x xs k)
  show ?case
  proof (cases "(p, v) \<in> set (leaves xs (Suc k))")
    case True
    from 2(2) [OF this] show ?thesis by fastforce
  next
    case False
    with 2(3) show ?thesis by (cases x) auto
  qed
qed simp

lemma leaves_distinct:
  "nesting xs \<le> r \<Longrightarrow> distinct (map (\<lambda>(p, v). pad (Suc r) p) (leaves xs k))"
proof (induction xs arbitrary: k r rule: nesting.induct)
  case (2 x xs)
  let ?pads = "\<lambda>ls. map (\<lambda>(p, v). pad (Suc r) p) ls"
  have rest: "distinct (?pads (leaves xs (Suc k)))" using 2 by simp
  have hd_rest: "y \<in> set (?pads (leaves xs (Suc k))) \<Longrightarrow> Suc k \<le> hd y" for y
    using leaves_first by (fastforce simp: pad_def)
  show ?case
  proof (cases "is_array x")
    case True
    then obtain ys where x: "x = J_array ys" by (cases x) auto
    with 2(3) obtain r' where r: "r = Suc r'" "nesting ys \<le> r'" by (cases r) auto
    have eq: "?pads (map (\<lambda>(p, v). (k # p, v)) (leaves ys 0)) = map ((#) k) (map (\<lambda>(p, v). pad (Suc r') p) (leaves ys 0))"
      by (simp add: pad_def r(1) case_prod_unfold)
    have "distinct (map (\<lambda>(p, v). pad (Suc r') p) (leaves ys 0))" using 2(1) [OF x r(2)] .
    then have "distinct (?pads (map (\<lambda>(p, v). (k # p, v)) (leaves ys 0)))"
      unfolding eq by (simp add: distinct_map inj_on_def)
    moreover have "y \<in> set (?pads (map (\<lambda>(p, v). (k # p, v)) (leaves ys 0))) \<Longrightarrow> hd y = k" for y
      by (auto simp: pad_def)
    ultimately show ?thesis using rest hd_rest by (fastforce simp: x)
  next
    case False
    then have l: "leaves (x # xs) k = ([k], x) # leaves xs (Suc k)" by (cases x) auto
    have "hd (pad (Suc r) [k]) = k" by (simp add: pad_def)
    with rest hd_rest show ?thesis unfolding l by fastforce
  qed
qed simp

text \<open>The dimensions that \<^verbatim>\<open>findInnerSize\<close> finds have room for every array.\<close>

fun fits :: "json list \<Rightarrow> Shape \<Rightarrow> bool" where
  "fits xs [] = False"
| "fits xs (d # ds) = (length xs \<le> d \<and> (\<forall>x \<in> set xs. case x of J_array ys \<Rightarrow> fits ys ds | _ \<Rightarrow> True))"

definition grows :: "Shape \<Rightarrow> Shape \<Rightarrow> bool" where
  "grows D E \<longleftrightarrow> length D \<le> length E \<and> (\<forall>i < length D. D ! i \<le> E ! i)"

lemma grows_refl: "grows D D"
  by (simp add: grows_def)

lemma grows_trans: "grows D E \<Longrightarrow> grows E F \<Longrightarrow> grows D F"
  unfolding grows_def by (meson le_trans less_le_trans)

lemma fits_grows: "fits xs D \<Longrightarrow> grows D E \<Longrightarrow> fits xs E"
proof (induction xs D arbitrary: E rule: fits.induct)
  case (2 xs d ds)
  then obtain e es where E: "E = e # es" by (cases E) (auto simp: grows_def)
  with 2(3) have "d \<le> e" "grows ds es" by (auto simp: grows_def nth_Cons split: nat.splits)
  with 2(1,2) show ?case by (auto simp: E split: json.splits)
qed simp

lemma grows_drop: "grows D E \<Longrightarrow> grows (drop l D) (drop l E)"
  by (auto simp: grows_def)

lemma level_grows:
  fixes D l n
  defines "E \<equiv> if length D < l + 1 then D @ [0] else D"
  defines "F \<equiv> if n > E ! l then E[l := n] else E"
  assumes "l \<le> length D"
  shows "l + 1 \<le> length F" and "n \<le> F ! l" and "grows D F"
proof -
  have E: "l < length E" "grows D E" using assms(3) by (auto simp: E_def grows_def nth_append)
  then show "l + 1 \<le> length F" "n \<le> F ! l" by (auto simp: F_def)
  have "grows E F" using E(1) by (auto simp: F_def grows_def nth_list_update)
  with E(2) show "grows D F" by (rule grows_trans)
qed

lemma inner_size_grows:
  "l \<le> length D \<Longrightarrow> grows D (findInnerSize x D l)"
  "l \<le> length D \<Longrightarrow> grows D (findInnerSizes xs D l)"
proof (induction x D l and xs D l rule: findInnerSize_findInnerSizes.induct)
  case (1 xs D l)
  let ?D1 = "if length D < l + 1 then D @ [0] else D"
  let ?D2 = "if length xs > ?D1 ! l then ?D1[l := length xs] else ?D1"
  note level = level_grows [OF 1(2), of "length xs"]
  have "grows ?D2 (findInnerSizes xs ?D2 (l + 1))" using "1.IH" [OF refl refl level(1)] .
  with level(3) have "grows D (findInnerSizes xs ?D2 (l + 1))" by (rule grows_trans)
  then show ?case by (simp only: findInnerSize.simps Let_def)
next
  case (4 x xs D l)
  have "l \<le> length (findInnerSize x D l)" using 4 by (auto simp: grows_def)
  with 4 show ?case by (auto intro: grows_trans)
qed (auto simp: grows_refl)

lemma inner_size_fits:
  "l \<le> length D \<Longrightarrow> x = J_array ys \<Longrightarrow> fits ys (drop l (findInnerSize x D l))"
  "l \<le> length D \<Longrightarrow> J_array ys \<in> set xs \<Longrightarrow> fits ys (drop l (findInnerSizes xs D l))"
proof (induction x D l and xs D l arbitrary: ys and ys rule: findInnerSize_findInnerSizes.induct)
  case (1 xs D l)
  let ?D1 = "if length D < l + 1 then D @ [0] else D"
  let ?D2 = "if length xs > ?D1 ! l then ?D1[l := length xs] else ?D1"
  let ?E = "findInnerSizes xs ?D2 (l + 1)"
  note l = level_grows(1) [OF 1(2), of "length xs"] and d = level_grows(2) [OF 1(2), of "length xs"]
  have g: "length ?D2 \<le> length ?E" "\<And>i. i < length ?D2 \<Longrightarrow> ?D2 ! i \<le> ?E ! i"
    using inner_size_grows(2) [OF l] unfolding grows_def by blast+
  have "length xs \<le> ?E ! l" using le_trans [OF d g(2)] l by simp
  moreover have len: "l < length ?E" using less_le_trans [OF _ g(1)] l by simp
  moreover have "J_array zs \<in> set xs \<Longrightarrow> fits zs (drop (l + 1) ?E)" for zs
    using "1.IH" [OF refl refl l] .
  moreover have "drop l ?E = ?E ! l # drop (l + 1) ?E" using len by (simp add: Cons_nth_drop_Suc)
  ultimately have "fits xs (drop l ?E)" by (simp only: fits.simps) (auto split: json.splits)
  then show ?case using 1(3) by (simp only: findInnerSize.simps Let_def json.inject)
next
  case (4 x xs D l)
  have g: "grows D (findInnerSize x D l)" using inner_size_grows(1) 4(3) .
  then have l: "l \<le> length (findInnerSize x D l)" using 4(3) by (auto simp: grows_def)
  show ?case
  proof (cases "x = J_array ys")
    case True
    have "fits ys (drop l (findInnerSize x D l))" using 4(1) [OF 4(3) True] .
    from fits_grows [OF this grows_drop [OF inner_size_grows(2) [OF l]]] show ?thesis by simp
  next
    case False
    with 4(2) [OF l] 4(4) show ?thesis by simp
  qed
qed simp_all

lemma fits_nesting: "fits xs D \<Longrightarrow> nesting xs < length D"
proof (induction xs arbitrary: D rule: nesting.induct)
  case (1 D)
  then show ?case by (cases D) auto
next
  case (2 x xs)
  then obtain d ds where D: "D = d # ds" by (cases D) auto
  with 2(3) have "fits xs D" by auto
  then have "nesting xs < length D" by (rule 2(2))
  moreover have "x = J_array ys \<Longrightarrow> nesting ys < length ds" for ys using 2(1,3) D by auto
  ultimately show ?case using D by (auto split: json.splits)
qed

lemma leaves_valid:
  assumes "fits xs D" and "\<forall>d \<in> set D. 0 < d" and "k + length xs \<le> hd D" and "(p, v) \<in> set (leaves xs k)"
  shows "valid_index D (pad (length D) p)"
  using assms
proof (induction xs k arbitrary: D p rule: leaves.induct)
  case (2 x xs k)
  then obtain d ds where D: "D = d # ds" by (cases D) auto
  show ?case
  proof (cases "(p, v) \<in> set (leaves xs (Suc k))")
    case True
    have "fits xs D" using 2(3) D by auto
    then show ?thesis using 2(2) [OF _ 2(4) _ True] 2(5) by simp
  next
    case False
    have zeros: "valid_index ds (replicate (length ds) 0)"
      using 2(4) D by (auto simp: valid_index_def list_all2_conv_all_nth)
    have k: "k < d" using 2(5) D by simp
    show ?thesis
    proof (cases "is_array x")
      case True
      then obtain ys where x: "x = J_array ys" by (cases x) auto
      with False 2(6) obtain q where p: "p = k # q" "(q, v) \<in> set (leaves ys 0)" by auto
      have f: "fits ys ds" using 2(3) D x by auto
      then have "length ys \<le> hd ds" by (cases ds) auto
      then have "valid_index ds (pad (length ds) q)" using 2(1) [OF x f _ _ p(2)] 2(4) D by simp
      then show ?thesis using k by (simp add: D p(1) pad_def valid_index_def)
    next
      case 3: False
      with False 2(6) have "p = [k]" by (cases x) auto
      then show ?thesis using k zeros by (simp add: D pad_def valid_index_def)
    qed
  qed
qed simp

text \<open>Setting distinct valid positions one after the other.\<close>

lemma set_all_values:
  assumes "mv_ok m" and "\<forall>(p, v) \<in> set ls. valid_index (mv_shape m) p \<and> (\<exists>a. conv v = Inr a)"
    and "distinct (map fst ls)"
  shows "\<exists>m'. set_all conv ls m = Inr m' \<and> mv_ok m' \<and> mv_shape m' = mv_shape m \<and>
    (\<forall>j. get_value j m' = (case map_of ls j of Some v \<Rightarrow> conv v | None \<Rightarrow> get_value j m))"
  using assms
proof (induction ls arbitrary: m)
  case (Cons l ls)
  obtain p v where l: "l = (p, v)" by (cases l)
  with Cons.prems(2) obtain a where a: "conv v = Inr a" and p: "valid_index (mv_shape m) p" by auto
  obtain m1 where m1: "set_value p a m = Inr m1"
    using p by (auto simp: set_value_def check_index_None [symmetric])
  note gs = set_value_facts [OF Cons.prems(1) m1]
  have "\<exists>m'. set_all conv ls m1 = Inr m' \<and> mv_ok m' \<and> mv_shape m' = mv_shape m1 \<and>
      (\<forall>j. get_value j m' = (case map_of ls j of Some v \<Rightarrow> conv v | None \<Rightarrow> get_value j m1))"
    using Cons.prems gs by (intro Cons.IH) auto
  then obtain m' where m': "set_all conv ls m1 = Inr m'" "mv_ok m'" "mv_shape m' = mv_shape m1"
    "\<And>j. get_value j m' = (case map_of ls j of Some v \<Rightarrow> conv v | None \<Rightarrow> get_value j m1)" by blast
  have "map_of ls p = None" using Cons.prems(3) l by (auto simp: map_of_eq_None_iff)
  then have "get_value j m' = (case map_of (l # ls) j of Some v \<Rightarrow> conv v | None \<Rightarrow> get_value j m)" for j
    using m'(4) [of j] gs(3) [of j] by (auto simp: l a split: option.splits)
  with m' gs show ?case by (auto simp: l a m1)
qed simp

lemma make_MultiVector_ok:
  assumes "D \<noteq> []" and "\<forall>d \<in> set D. 0 < d" and "prod_list D \<le> 2147483647"
  shows "\<exists>m. make_MultiVector z D = Inr m \<and> mv_ok m \<and> mv_shape m = D \<and>
    (\<forall>j. valid_index D j \<longrightarrow> get_value j m = Inr z)"
proof -
  obtain d ds where D: "D = d # ds" using assms(1) by (cases D) auto
  have "foldl (\<lambda>a b. u64 (int (a * b))) d (take k ds) = prod_list (d # take k ds)" for k
  proof (induction k)
    case (Suc k)
    show ?case
    proof (cases "k < length ds")
      case True
      have "prod_list (take (Suc (Suc k)) D) \<le> 2147483647"
        using prod_list_take_le [OF assms(2)] assms(3) by (rule order_trans)
      then have "prod_list (d # take (Suc k) ds) \<le> 2147483647" by (simp add: D)
      then have le: "prod_list (d # take k ds) * ds ! k \<le> 2147483647"
        using True by (simp add: take_Suc_conv_app_nth mult.assoc)
      have "int (prod_list (d # take k ds) * ds ! k) \<le> int 2147483647" using le by (rule of_nat_mono)
      then have "u64 (int (prod_list (d # take k ds) * ds ! k)) = prod_list (d # take k ds) * ds ! k"
        by (subst u64_id) (simp_all del: of_nat_mult)
      then show ?thesis using True Suc by (simp add: take_Suc_conv_app_nth mult.assoc)
    qed (use Suc in simp)
  qed simp
  from this [of "length ds"] have n: "extentToSize D = Inr (prod_list D)" by (simp add: extentToSize_def D)
  let ?m = "\<lparr>mv_Data = replicate (prod_list D) z, mv_shape = D\<rparr>"
  have "valid_index D j \<Longrightarrow> get_value j ?m = Inr z" for j
    using check_index_None [of j ?m] pos_to_index_exact [OF _ assms(3)] row_major_bound [of D j]
    by (simp add: get_value_def)
  moreover have "make_MultiVector z D = Inr ?m" by (simp add: make_MultiVector_def n)
  moreover have "mv_ok ?m" using assms(3) by (simp add: mv_ok_def)
  ultimately show ?thesis by fastforce
qed

text \<open>C19: A JSON array, nested to any depth and as ragged as it may be, becomes an array whose shape has
  room for the longest array of each level. Every scalar ends up, converted, at the indices that lead to
  it in the JSON, followed by zeros where it stands less deep than the deepest array, and every other
  element keeps the default value. (A level at which all arrays are empty, and an array of 2^31 or more
  elements, are excluded.)\<close>

theorem json_array_to_multi_array:
  assumes "D = determineArrayDimensions (J_array xs)"
    and "\<forall>d \<in> set D. 0 < d" and "prod_list D \<le> 2147483647"
    and "\<forall>(p, v) \<in> set (leaves xs 0). \<exists>a. conv v = Inr a"
  shows "\<exists>m. jsonArrayToMultiArray z conv (J_array xs) = Inr m \<and> mv_shape m = D \<and> fits xs D \<and>
    (\<forall>(p, v) \<in> set (leaves xs 0). get_value (pad (length D) p) m = conv v) \<and>
    (\<forall>j. valid_index D j \<and> j \<notin> (\<lambda>(p, v). pad (length D) p) ` set (leaves xs 0) \<longrightarrow> get_value j m = Inr z)"
proof -
  have fits: "fits xs D" using inner_size_fits(1) [of 0 "[]" "J_array xs" xs] assms(1)
    by (simp add: determineArrayDimensions_def del: findInnerSize.simps)
  then have ne: "D \<noteq> []" and hd: "length xs \<le> hd D" by (cases D; auto)+
  obtain r where r: "length D = Suc r" using ne by (cases D) auto
  have nest: "nesting xs \<le> r" using fits_nesting [OF fits] r by simp
  obtain m where m: "make_MultiVector z D = Inr m" "mv_ok m" "mv_shape m = D"
    "\<And>j. valid_index D j \<Longrightarrow> get_value j m = Inr z"
    using make_MultiVector_ok [OF ne assms(2,3), of z] by auto
  let ?ls = "map (\<lambda>(p, v). ([] @ pad (Suc r) p, v)) (leaves xs 0)"
  have valid: "\<forall>(p, v) \<in> set ?ls. valid_index (mv_shape m) p \<and> (\<exists>a. conv v = Inr a)"
  proof -
    have "valid_index D (pad (Suc r) p)" if "(p, v) \<in> set (leaves xs 0)" for p v
      using leaves_valid [OF fits assms(2) _ that] hd r by simp
    then show ?thesis using assms(4) unfolding m(3) by auto
  qed
  have dist: "distinct (map fst ?ls)"
    using leaves_distinct [OF nest, of 0] by (simp add: comp_def case_prod_unfold)
  obtain m' where m': "set_all conv ?ls m = Inr m'" "mv_shape m' = D"
    "\<And>j. get_value j m' = (case map_of ?ls j of Some v \<Rightarrow> conv v | None \<Rightarrow> get_value j m)"
    using set_all_values [OF m(2) valid dist] m(3) by blast
  have "jsonArrayToMultiArray z conv (J_array xs) = Inr m'"
  proof -
    have "populateMultiVector conv xs (replicate (length D) 0) 0 m = set_all conv ?ls m"
      using populate_sets_leaves [OF nest, of conv "[]" 0 m] unfolding r by simp
    then show ?thesis unfolding jsonArrayToMultiArray_def Let_def assms(1) [symmetric] m(1) using m'(1) by simp
  qed
  moreover have "get_value (pad (length D) p) m' = conv v" if "(p, v) \<in> set (leaves xs 0)" for p v
  proof -
    have "(pad (length D) p, v) \<in> set ?ls" using that r by force
    then have "map_of ?ls (pad (length D) p) = Some v" using dist by (simp only: map_of_is_SomeI)
    then show ?thesis using m'(3) by simp
  qed
  moreover have "get_value j m' = Inr z"
    if "valid_index D j" "j \<notin> (\<lambda>(p, v). pad (length D) p) ` set (leaves xs 0)" for j
  proof -
    have "j \<notin> fst ` set ?ls" using that(2) r by (auto simp: image_iff)
    then have "map_of ?ls j = None" by (simp only: map_of_eq_None_iff not_False_eq_True)
    then show ?thesis using m'(3) m(4) that(1) by simp
  qed
  ultimately show ?thesis using m'(2) fits by blast
qed

theorem json_array_to_multi_array_witness:
  "\<exists>m. jsonArrayToMultiArray 0 (\<lambda>v. case v of J_int i \<Rightarrow> Inr i | _ \<Rightarrow> Inl (Runtime_Error ''type''))
       (J_array [J_array [J_int 1, J_int 2], J_int 3]) = Inr m \<and> mv_shape m = [2, 2] \<and> get_value [1, 0] m = Inr 3"
  using json_array_to_multi_array [where D = "[2, 2]" and xs = "[J_array [J_int 1, J_int 2], J_int 3]" and
      conv = "\<lambda>v. case v of J_int i \<Rightarrow> Inr i | _ \<Rightarrow> Inl (Runtime_Error ''type'')" and z = 0]
  by (auto simp: determineArrayDimensions_def pad_def)

end
