(* ===== verification/Json_Config.thy ===== *)
theory Json_Config
  imports Multi_Vector
begin

text \<open>
  \<^verbatim>\<open>src/JsonConfig\<close> and \<^verbatim>\<open>src/json.h\<close>: fields that are filled from a JSON object. A field registers itself
  under each of its keys with a \<^verbatim>\<open>FieldHandler\<close>; the handler's map from keys to pointers is modelled as a
  map from keys to positions in the list of fields.

  \<open>FT_other get\<close> is a field of a type other than \<^verbatim>\<open>std::string\<close>, with the library's \<^verbatim>\<open>json::get<T>\<close> as
  \<open>get\<close>, \<open>None\<close> when it raises \<^verbatim>\<open>json::type_error\<close>. Values are kept as JSON. Serialisation
  (\<^verbatim>\<open>json::dump\<close>) is the argument \<open>dump\<close>.
\<close>

section \<open>Access to the members of an object\<close>

fun json_find :: "string \<Rightarrow> json \<Rightarrow> json option" where
  "json_find Key (J_object ms) = map_of ms Key"
| "json_find Key _ = None"

fun json_get_string :: "json \<Rightarrow> exn + string" where
  "json_get_string (J_string s) = Inr s"
| "json_get_string _ = Inl (Json_Type_Error ''type must be string'')"

text \<open>\<^verbatim>\<open>find<T>\<close>: absent, or present and converted, or the exception of the conversion.\<close>

definition find_value :: "(json \<Rightarrow> exn + 'a) \<Rightarrow> string \<Rightarrow> json \<Rightarrow> exn + 'a option" where
  "find_value get Key Json =
     (case json_find Key Json of None \<Rightarrow> Inr None | Some v \<Rightarrow> map_sum id Some (get v))"

definition getRequiredValue :: "(json \<Rightarrow> exn + 'a) \<Rightarrow> string \<Rightarrow> json \<Rightarrow> exn + 'a" where
  "getRequiredValue get Key JSONCommand =
     (case find_value get Key JSONCommand of
        Inl e \<Rightarrow> Inl e
      | Inr (Some x) \<Rightarrow> Inr x
      | Inr None \<Rightarrow> Inl (Runtime_Error (''Missing key '' @ Key @ '' from command JSON'')))"

definition getOptionalValue :: "(json \<Rightarrow> exn + 'a) \<Rightarrow> string \<Rightarrow> json \<Rightarrow> 'a \<Rightarrow> exn + 'a" where
  "getOptionalValue get Key JSONCommand Default =
     (case find_value get Key JSONCommand of
        Inl e \<Rightarrow> Inl e
      | Inr (Some x) \<Rightarrow> Inr x
      | Inr None \<Rightarrow> Inr Default)"

section \<open>Fields\<close>

datatype field_type = FT_string | FT_other "json \<Rightarrow> json option"

record field =
  fd_keys :: "string list"
  fd_required :: bool
  fd_obsolete :: bool
  fd_type :: field_type
  fd_value :: json
  fd_used_key :: string
  fd_got_default :: bool

definition Field :: "string list \<Rightarrow> field_type \<Rightarrow> json \<Rightarrow> field" where
  "Field keys t v =
     \<lparr>fd_keys = keys, fd_required = False, fd_obsolete = False, fd_type = t, fd_value = v,
      fd_used_key = [], fd_got_default = True\<rparr>"

definition RequiredField :: "string list \<Rightarrow> field_type \<Rightarrow> json \<Rightarrow> field" where
  "RequiredField keys t v = (Field keys t v)\<lparr>fd_required := True\<rparr>"

definition ObsoleteField :: "string list \<Rightarrow> field" where
  "ObsoleteField keys = (Field keys FT_string J_null)\<lparr>fd_obsolete := True\<rparr>"

definition set_value_internal :: "string \<Rightarrow> json \<Rightarrow> field \<Rightarrow> field" where
  "set_value_internal key value f = f\<lparr>fd_used_key := key, fd_got_default := False, fd_value := value\<rparr>"

definition set_value_impl :: "(json \<Rightarrow> string) \<Rightarrow> string \<Rightarrow> json \<Rightarrow> field \<Rightarrow> field option" where
  "set_value_impl dump key j f =
     (case fd_type f of
        FT_string \<Rightarrow>
          Some (set_value_internal key (case json_get_string j of Inr s \<Rightarrow> J_string s | Inl _ \<Rightarrow> J_string (dump j)) f)
      | FT_other get \<Rightarrow> map_option (\<lambda>v. set_value_internal key v f) (get j))"

text \<open>\<open>None\<close> is \<^verbatim>\<open>json::type_error\<close>. The overload for strings parses its argument first and takes it as
  it is when that fails or does not fit.\<close>

definition field_setValue :: "(json \<Rightarrow> string) \<Rightarrow> string \<Rightarrow> json \<Rightarrow> field \<Rightarrow> field option" where
  "field_setValue dump key value f = (if fd_obsolete f then Some f else set_value_impl dump key value f)"

definition field_setValue_string ::
  "(json \<Rightarrow> string) \<Rightarrow> (string \<Rightarrow> exn + json) \<Rightarrow> string \<Rightarrow> string \<Rightarrow> field \<Rightarrow> field option" where
  "field_setValue_string dump parse key value f =
     (if fd_obsolete f then Some f
      else case parse value of
        Inl _ \<Rightarrow> set_value_impl dump key (J_string value) f
      | Inr j \<Rightarrow> (case set_value_impl dump key j f of
            Some f \<Rightarrow> Some f | None \<Rightarrow> set_value_impl dump key (J_string value) f))"

section \<open>The handler\<close>

record FieldHandler =
  fh_fields :: "field list"
  fh_FieldMap :: "(string \<times> nat) list"

definition empty_FieldHandler :: FieldHandler where
  "empty_FieldHandler = \<lparr>fh_fields = [], fh_FieldMap = []\<rparr>"

definition registerField :: "field \<Rightarrow> FieldHandler \<Rightarrow> FieldHandler" where
  "registerField f h =
     (let i = length (fh_fields h) in
      \<lparr>fh_fields = fh_fields h @ [f],
       fh_FieldMap = fold (\<lambda>k. smap_insert k i) (fd_keys f) (fh_FieldMap h)\<rparr>)"

text \<open>One iteration of the loop over the members of the object.\<close>

definition process_member :: "(json \<Rightarrow> string) \<Rightarrow> string \<times> json \<Rightarrow> FieldHandler \<Rightarrow> FieldHandler" where
  "process_member dump kv h =
     (case map_of (fh_FieldMap h) (fst kv) of
        None \<Rightarrow> h
      | Some i \<Rightarrow>
          (case field_setValue dump (fst kv) (snd kv) (fh_fields h ! i) of
             None \<Rightarrow> h
           | Some f \<Rightarrow> h\<lparr>fh_fields := (fh_fields h)[i := f]\<rparr>))"

text \<open>The fields in the map that are required and still have their default, each once, in the order of
  the fields.\<close>

definition missing_fields :: "FieldHandler \<Rightarrow> field list" where
  "missing_fields h =
     map ((!) (fh_fields h))
       (filter (\<lambda>i. i \<in> snd ` set (fh_FieldMap h) \<and> fd_required (fh_fields h ! i) \<and>
          fd_got_default (fh_fields h ! i)) [0..<length (fh_fields h)])"

text \<open>An iterator over anything but an object has no keys: the first access raises
  \<^verbatim>\<open>json::invalid_iterator\<close>. Null and empty arrays have no elements.\<close>

definition processConfigData ::
  "(json \<Rightarrow> string) \<Rightarrow> (field list \<Rightarrow> string) \<Rightarrow> json \<Rightarrow> FieldHandler \<Rightarrow> exn option \<times> FieldHandler" where
  "processConfigData dump list_keys JsonObj h =
     (case JsonObj of
        J_object ms \<Rightarrow>
          let h = fold (process_member dump) ms h in
          (if missing_fields h \<noteq> []
           then Some (Runtime_Error (''Missing (required) json config field(s) with key(s): '' @
                  list_keys (missing_fields h)))
           else None, h)
      | _ \<Rightarrow>
          if json_elements JsonObj \<noteq> [] then
            (Some (Std_Exception ''cannot use key() for non-object iterators''), h)
          else
            (if missing_fields h \<noteq> []
             then Some (Runtime_Error (''Missing (required) json config field(s) with key(s): '' @
                    list_keys (missing_fields h)))
             else None, h))"

definition processConfigData_string ::
  "(json \<Rightarrow> string) \<Rightarrow> (field list \<Rightarrow> string) \<Rightarrow> (string \<Rightarrow> exn + json) \<Rightarrow> string \<Rightarrow> FieldHandler
     \<Rightarrow> exn option \<times> FieldHandler" where
  "processConfigData_string dump list_keys parse ConfigJsonStr h =
     (case parse ConfigJsonStr of
        Inl e \<Rightarrow> (Some e, h)
      | Inr j \<Rightarrow> processConfigData dump list_keys j h)"

section \<open>What a configuration sets\<close>

definition handler_ok :: "FieldHandler \<Rightarrow> bool" where
  "handler_ok h \<longleftrightarrow> (\<forall>i \<in> snd ` set (fh_FieldMap h). i < length (fh_fields h)) \<and> smap_ok (fh_FieldMap h)"

lemma handler_ok_empty: "handler_ok empty_FieldHandler"
  by (simp add: handler_ok_def empty_FieldHandler_def smap_ok_def)

lemma smap_insert_values: "snd ` set (smap_insert k v m) \<subseteq> insert v (snd ` set m)"
  by (induction k v m rule: smap_insert.induct) auto

lemma handler_ok_register [keeps]:
  assumes "handler_ok h"
  shows "handler_ok (registerField f h)"
proof -
  let ?i = "length (fh_fields h)"
  have "(\<forall>j \<in> snd ` set m. j \<le> ?i) \<and> smap_ok m \<Longrightarrow>
      (\<forall>j \<in> snd ` set (fold (\<lambda>k. smap_insert k ?i) ks m). j \<le> ?i) \<and> smap_ok (fold (\<lambda>k. smap_insert k ?i) ks m)"
    for ks and m :: "(string \<times> nat) list"
  proof (induction ks arbitrary: m)
    case (Cons k ks)
    have "(\<forall>j \<in> snd ` set (smap_insert k ?i m). j \<le> ?i)"
      using Cons.prems smap_insert_values [of k ?i m] by fastforce
    with Cons.IH [of "smap_insert k ?i m"] Cons.prems show ?case by (simp add: smap_ok_insert)
  qed simp
  from this [of "fh_FieldMap h" "fd_keys f"] assms show ?thesis
    by (auto simp: handler_ok_def registerField_def Let_def less_Suc_eq_le intro: less_imp_le)
qed

text \<open>The value a field takes from a member, if it takes any.\<close>

definition accepted :: "(json \<Rightarrow> string) \<Rightarrow> field \<Rightarrow> json \<Rightarrow> json option" where
  "accepted dump f v =
     (if fd_obsolete f then None
      else case fd_type f of
        FT_string \<Rightarrow> Some (if is_string v then v else J_string (dump v))
      | FT_other get \<Rightarrow> get v)"

definition members_of :: "(json \<Rightarrow> string) \<Rightarrow> FieldHandler \<Rightarrow> nat \<Rightarrow> (string \<times> json) list \<Rightarrow> (string \<times> json) list" where
  "members_of dump h i ms =
     filter (\<lambda>(k, v). map_of (fh_FieldMap h) k = Some i \<and> accepted dump (fh_fields h ! i) v \<noteq> None) ms"

definition assigned :: "(json \<Rightarrow> string) \<Rightarrow> field \<Rightarrow> (string \<times> json) list \<Rightarrow> field" where
  "assigned dump f ms =
     (case rev ms of
        [] \<Rightarrow> f
      | (k, v) # _ \<Rightarrow> f\<lparr>fd_used_key := k, fd_got_default := False, fd_value := the (accepted dump f v)\<rparr>)"

lemma setValue_accepted:
  "field_setValue dump k v f =
     (if fd_obsolete f then Some f
      else map_option (\<lambda>x. f\<lparr>fd_used_key := k, fd_got_default := False, fd_value := x\<rparr>) (accepted dump f v))"
proof (cases "fd_type f")
  case FT_string
  then show ?thesis
    by (cases v) (simp_all add: field_setValue_def set_value_impl_def set_value_internal_def accepted_def)
qed (simp add: field_setValue_def set_value_impl_def set_value_internal_def accepted_def)

lemma accepted_update [simp]:
  "accepted dump (f\<lparr>fd_used_key := k, fd_got_default := b, fd_value := x\<rparr>) v = accepted dump f v"
  by (simp add: accepted_def)

lemma accepted_assigned [simp]: "accepted dump (assigned dump f ms) v = accepted dump f v"
  by (simp add: assigned_def accepted_def split: list.splits)

lemma process_members:
  assumes "handler_ok h"
  shows "fold (process_member dump) ms h =
    h\<lparr>fh_fields := map (\<lambda>i. assigned dump (fh_fields h ! i) (members_of dump h i ms)) [0..<length (fh_fields h)]\<rparr>"
proof (induction ms rule: rev_induct)
  case Nil
  show ?case by (simp add: members_of_def assigned_def map_nth)
next
  case (snoc kv ms)
  obtain k v where kv: "kv = (k, v)" by fastforce
  let ?g = "\<lambda>ms i. assigned dump (fh_fields h ! i) (members_of dump h i ms)"
  let ?n = "length (fh_fields h)"
  have step: "fold (process_member dump) (ms @ [kv]) h = process_member dump kv (h\<lparr>fh_fields := map (?g ms) [0..<?n]\<rparr>)"
    using snoc by simp
  have other: "?g (ms @ [kv]) j = ?g ms j" if "map_of (fh_FieldMap h) k \<noteq> Some j" for j
    using that by (simp add: members_of_def kv)
  show ?case
  proof (cases "map_of (fh_FieldMap h) k")
    case None
    then show ?thesis unfolding step using other by (simp add: process_member_def kv)
  next
    case (Some i)
    then have i: "i < ?n" using assms by (force simp: handler_ok_def dest: map_of_SomeD)
    have at_i: "field_setValue dump k v (?g ms i) =
        (if fd_obsolete (fh_fields h ! i) then Some (?g ms i)
         else map_option (\<lambda>x. ?g (ms @ [kv]) i) (accepted dump (fh_fields h ! i) v))"
      using Some by (auto simp: setValue_accepted members_of_def kv assigned_def map_option_case
          split: list.splits option.splits)
    have same: "accepted dump (fh_fields h ! i) v = None \<Longrightarrow> ?g (ms @ [kv]) i = ?g ms i"
      by (simp add: members_of_def kv)
    have upd: "(map (?g ms) [0..<?n])[i := ?g (ms @ [kv]) i] = map (?g (ms @ [kv])) [0..<?n]"
      using i other Some by (intro nth_equalityI) (auto simp: nth_list_update)
    have keep: "?g (ms @ [kv]) i = ?g ms i \<Longrightarrow> map (?g ms) [0..<?n] = map (?g (ms @ [kv])) [0..<?n]"
      using other Some by (intro map_cong refl) (metis option.inject)
    show ?thesis
    proof (cases "accepted dump (fh_fields h ! i) v")
      case None
      note eq = keep [OF same [OF None]]
      show ?thesis unfolding step using Some i None at_i upd same [OF None]
        by (simp add: process_member_def kv eq [unfolded kv])
    next
      case 2: (Some x)
      then have "\<not> fd_obsolete (fh_fields h ! i)" by (auto simp: accepted_def)
      then show ?thesis unfolding step using Some i 2 at_i upd by (simp add: process_member_def kv)
    qed
  qed
qed

lemma missing_after:
  assumes "handler_ok h"
  shows "missing_fields (fold (process_member dump) ms h) \<noteq> [] \<longleftrightarrow>
    (\<exists>i \<in> snd ` set (fh_FieldMap h). fd_required (fh_fields h ! i) \<and> fd_got_default (fh_fields h ! i) \<and>
       members_of dump h i ms = [])"
proof -
  have g: "fd_got_default (assigned dump f xs) = (fd_got_default f \<and> xs = [])" for f xs
    by (auto simp: assigned_def split: list.splits)
  have r: "fd_required (assigned dump f xs) = fd_required f" for f xs
    by (simp add: assigned_def split: list.splits)
  show ?thesis
    using assms unfolding missing_fields_def process_members [OF assms]
    by (auto simp: filter_empty_conv g r handler_ok_def) force+
qed

text \<open>C31: Filling the fields of a handler from a JSON object. Each field takes the last member, in the
  object's order, that is stored under one of its keys and fits its type (anything fits a string
  field), remembers the key it was set by, and keeps its default when there is none; unknown keys,
  members that do not fit and members for obsolete fields change nothing. An exception is raised
  exactly when a required field got no value, and the other fields are set even then.\<close>

theorem config_fields_assigned:
  assumes "handler_ok h"
  shows "let (e, h') = processConfigData dump list_keys (J_object ms) h in
    fh_FieldMap h' = fh_FieldMap h \<and> length (fh_fields h') = length (fh_fields h) \<and>
    (\<forall>i < length (fh_fields h). fh_fields h' ! i = assigned dump (fh_fields h ! i)
       (filter (\<lambda>(k, v). map_of (fh_FieldMap h) k = Some i \<and> accepted dump (fh_fields h ! i) v \<noteq> None) ms)) \<and>
    (e \<noteq> None \<longleftrightarrow> (\<exists>i \<in> snd ` set (fh_FieldMap h). fd_required (fh_fields h ! i) \<and>
       fd_got_default (fh_fields h ! i) \<and>
       (\<forall>(k, v) \<in> set ms. map_of (fh_FieldMap h) k = Some i \<longrightarrow> accepted dump (fh_fields h ! i) v = None)))"
proof -
  have "(members_of dump h i ms = []) \<longleftrightarrow>
      (\<forall>(k, v) \<in> set ms. map_of (fh_FieldMap h) k = Some i \<longrightarrow> accepted dump (fh_fields h ! i) v = None)" for i
    by (auto simp: members_of_def filter_empty_conv)
  moreover have "fst (processConfigData dump list_keys (J_object ms) h) \<noteq> None \<longleftrightarrow>
      missing_fields (fold (process_member dump) ms h) \<noteq> []"
    by (simp add: processConfigData_def Let_def)
  moreover have "snd (processConfigData dump list_keys (J_object ms) h) = fold (process_member dump) ms h"
    by (simp add: processConfigData_def Let_def)
  ultimately show ?thesis
    using missing_after [OF assms, of dump ms] process_members [OF assms, of dump ms]
    by (simp add: case_prod_unfold Let_def members_of_def)
qed

definition sample_fields :: FieldHandler where
  "sample_fields = registerField (Field [''type'', ''dtype''] FT_string (J_string ''double''))
     (registerField (RequiredField [''name''] FT_string (J_string [])) empty_FieldHandler)"

theorem config_fields_assigned_witness:
  "\<exists>e h'. processConfigData (\<lambda>j. []) (\<lambda>fs. []) (J_object [(''dtype'', J_string ''int''), (''x'', J_null)]) sample_fields =
       (e, h') \<and> e \<noteq> None \<and> fd_value (fh_fields h' ! 1) = J_string ''int'' \<and> fd_got_default (fh_fields h' ! 0)"
proof -
  have ok: "handler_ok sample_fields"
    unfolding sample_fields_def by (intro handler_ok_register handler_ok_empty)
  have f: "fh_fields sample_fields = [RequiredField [''name''] FT_string (J_string []),
      Field [''type'', ''dtype''] FT_string (J_string ''double'')]"
    by (simp add: sample_fields_def registerField_def empty_FieldHandler_def Let_def)
  have m: "fh_FieldMap sample_fields = [(''dtype'', 1), (''name'', 0), (''type'', 1)]" by code_simp
  show ?thesis
    using config_fields_assigned [OF ok, of "\<lambda>j. []" "\<lambda>fs. []" "[(''dtype'', J_string ''int''), (''x'', J_null)]"]
    by (auto simp: f m assigned_def accepted_def RequiredField_def Field_def split: prod.splits)
qed

end
