(* ===== verification/Hdf_Attributes.thy ===== *)
theory Hdf_Attributes
  imports Json_Config
begin

text \<open>
  The first half of \<^verbatim>\<open>src/HDFOperations.cpp\<close>, with \<^verbatim>\<open>src/HDFAttributes.h\<close>: attributes and datasets from
  their JSON description.

  The HDF5 library is the record \<open>hdf5\<close> of functions on a file of type \<open>'h\<close>. A node is the list of link
  names that lead to it from the root. A query that raises is an \<open>Inl\<close>; an operation that changes the
  file returns the exception, if any, together with the file. The JSON library is the record
  \<open>json_lib\<close>; \<open>jl_get T\<close> is \<^verbatim>\<open>json::get<T>\<close> for the type with the given name.
\<close>

section \<open>The libraries\<close>

type_synonym node = "string list"

text \<open>A scalar or an array with the name of its element type.\<close>

datatype h5_data = H5_scalar string json | H5_array string "json MultiVector"

record 'h hdf5 =
  h5_has_group :: "'h \<Rightarrow> node \<Rightarrow> string \<Rightarrow> exn + bool"
  h5_create_group :: "node \<Rightarrow> string \<Rightarrow> 'h \<Rightarrow> exn option \<times> 'h"
  h5_get_group :: "'h \<Rightarrow> node \<Rightarrow> string \<Rightarrow> exn option"
  h5_has_dataset :: "'h \<Rightarrow> node \<Rightarrow> string \<Rightarrow> exn + bool"
  h5_get_dataset :: "'h \<Rightarrow> node \<Rightarrow> string \<Rightarrow> exn option"
  h5_create_dataset :: "node \<Rightarrow> string \<Rightarrow> h5_data \<Rightarrow> 'h \<Rightarrow> exn option \<times> 'h"
  h5_attr_exists :: "'h \<Rightarrow> node \<Rightarrow> string \<Rightarrow> bool"
  h5_attr_remove :: "node \<Rightarrow> string \<Rightarrow> 'h \<Rightarrow> exn option \<times> 'h"
  h5_attr_create :: "node \<Rightarrow> string \<Rightarrow> h5_data \<Rightarrow> 'h \<Rightarrow> exn option \<times> 'h"

record json_lib =
  jl_dump :: "json \<Rightarrow> string"
  jl_parse :: "string \<Rightarrow> exn + json"
  jl_get :: "string \<Rightarrow> json \<Rightarrow> exn + json"
  jl_list_keys :: "field list \<Rightarrow> string"

text \<open>\<^verbatim>\<open>std::string(Node.link().path())\<close>, and the accumulation over the path in \<^verbatim>\<open>createHDFStructures\<close>.\<close>

definition path_string :: "string list \<Rightarrow> string" where
  "path_string p = concat (map (\<lambda>n. CHR ''/'' # n) p)"

text \<open>Running an operation after another one, unless that raised.\<close>

definition and_then :: "exn option \<times> 'h \<Rightarrow> ('h \<Rightarrow> exn option \<times> 'h) \<Rightarrow> exn option \<times> 'h" where
  "and_then r f = (case r of (Some e, h) \<Rightarrow> (Some e, h) | (None, h) \<Rightarrow> f h)"

definition with_message :: "string \<Rightarrow> exn option \<times> 'h \<Rightarrow> exn option \<times> 'h" where
  "with_message msg r = (map_option (\<lambda>e. Runtime_Error (msg @ exn_what e)) (fst r), snd r)"

section \<open>Converting elements\<close>

fun is_number_integer :: "json \<Rightarrow> bool" where
  "is_number_integer (J_int _) = True"
| "is_number_integer (J_uint _) = True"
| "is_number_integer _ = False"

fun is_number_float :: "json \<Rightarrow> bool" where
  "is_number_float (J_float _) = True"
| "is_number_float _ = False"

fun is_number_unsigned :: "json \<Rightarrow> bool" where
  "is_number_unsigned (J_uint _) = True"
| "is_number_unsigned _ = False"

definition is_number :: "json \<Rightarrow> bool" where
  "is_number v \<longleftrightarrow> is_number_integer v \<or> is_number_float v"

definition jsonElementConverter :: "json_lib \<Rightarrow> string \<Rightarrow> json \<Rightarrow> exn + json" where
  "jsonElementConverter jl T JsonObj =
     (if T = ''string'' then Inr (if is_string JsonObj then JsonObj else J_string (jl_dump jl JsonObj))
      else jl_get jl T JsonObj)"

definition default_element :: "string \<Rightarrow> json" where
  "default_element T =
     (if T = ''string'' then J_string [] else if T \<in> {''float'', ''double''} then J_float ''0'' else J_int 0)"

section \<open>Attributes\<close>

definition writeAttr ::
  "json_lib \<Rightarrow> 'h hdf5 \<Rightarrow> string \<Rightarrow> node \<Rightarrow> string \<Rightarrow> json \<Rightarrow> 'h \<Rightarrow> exn option \<times> 'h" where
  "writeAttr jl lib T Node Name Value h =
     with_message (''Failed write for numeric attribute '' @ Name @ '' in '' @ path_string Node @ '': '')
       (if is_array Value then
          (case jsonArrayToMultiArray (default_element T) (jsonElementConverter jl T) Value of
             Inl e \<Rightarrow> (Some e, h)
           | Inr m \<Rightarrow> h5_attr_create lib Node Name (H5_array T m) h)
        else
          (case jl_get jl T Value of
             Inl e \<Rightarrow> (Some e, h)
           | Inr v \<Rightarrow> h5_attr_create lib Node Name (H5_scalar T v) h))"

definition attribute_types :: "string list" where
  "attribute_types = [''uint8'', ''uint16'', ''uint32'', ''uint64'', ''int8'', ''int16'', ''int32'', ''int64'',
     ''float'', ''double'', ''string'']"

definition writeAttrOfSpecifiedType ::
  "json_lib \<Rightarrow> 'h hdf5 \<Rightarrow> string \<Rightarrow> node \<Rightarrow> string \<Rightarrow> json \<Rightarrow> 'h \<Rightarrow> exn option \<times> 'h" where
  "writeAttrOfSpecifiedType jl lib DType Node Name Values h =
     with_message (''Failed attribute write in '' @ path_string Node @ ''/'' @ Name @ '' with data type '' @
         DType @ ''. Message was: '')
       (if DType \<in> set attribute_types then writeAttr jl lib DType Node Name Values h
        else (Some (Out_Of_Range ''map::at''), h))"

definition writeScalarAttribute ::
  "json_lib \<Rightarrow> 'h hdf5 \<Rightarrow> node \<Rightarrow> string \<Rightarrow> json \<Rightarrow> 'h \<Rightarrow> exn option \<times> 'h" where
  "writeScalarAttribute jl lib Node Name Values h =
     (let write = (\<lambda>T. case jl_get jl T Values of
            Inl e \<Rightarrow> (Some e, h) | Inr v \<Rightarrow> h5_attr_create lib Node Name (H5_scalar T v) h) in
      if is_string Values then write ''string''
      else if is_number_integer Values then write ''int64''
      else if is_number_unsigned Values then write ''uint64''
      else if is_number_float Values then write ''double''
      else (None, h))"

definition remove_existing :: "'h hdf5 \<Rightarrow> node \<Rightarrow> string \<Rightarrow> 'h \<Rightarrow> exn option \<times> 'h" where
  "remove_existing lib Node Name h =
     (if h5_attr_exists lib h Node Name then h5_attr_remove lib Node Name h else (None, h))"

definition json_field_type :: field_type where
  "json_field_type = FT_other Some"

fun text_value :: "json \<Rightarrow> string" where
  "text_value (J_string s) = s"
| "text_value _ = []"

definition field_text :: "field \<Rightarrow> string" where
  "field_text f = text_value (fd_value f)"

definition attribute_fields :: FieldHandler where
  "attribute_fields =
     fold registerField
       [RequiredField [''name''] FT_string (J_string []),
        RequiredField [''value'', ''values''] json_field_type J_null,
        Field [''type'', ''dtype''] FT_string (J_string ''double''),
        ObsoleteField [''size''],
        ObsoleteField [''string_size'']] empty_FieldHandler"

definition fill_fields :: "json_lib \<Rightarrow> json \<Rightarrow> FieldHandler \<Rightarrow> exn + FieldHandler" where
  "fill_fields jl j fh =
     (case processConfigData (jl_dump jl) (jl_list_keys jl) j fh of
        (Some e, _) \<Rightarrow> Inl e
      | (None, h) \<Rightarrow> Inr h)"

definition JSONAttribute :: "json_lib \<Rightarrow> json \<Rightarrow> exn + FieldHandler" where
  "JSONAttribute jl JsonObj = fill_fields jl JsonObj attribute_fields"

text \<open>One iteration of the loop over an array of attributes, and the loop; every exception is caught and
  logged there.\<close>

definition write_described_attribute ::
  "json_lib \<Rightarrow> 'h hdf5 \<Rightarrow> node \<Rightarrow> json \<Rightarrow> 'h \<Rightarrow> exn option \<times> 'h" where
  "write_described_attribute jl lib Node Attribute h =
     (case JSONAttribute jl Attribute of
        Inl e \<Rightarrow> (Some e, h)
      | Inr CurrentAttribute \<Rightarrow>
          let Name = field_text (fh_fields CurrentAttribute ! 0);
              CValue = fd_value (fh_fields CurrentAttribute ! 1);
              Type = fh_fields CurrentAttribute ! 2 in
          and_then (remove_existing lib Node Name h) (\<lambda>h.
            if fd_got_default Type \<and> \<not> is_array CValue then writeScalarAttribute jl lib Node Name CValue h
            else
              let Type = (if fd_got_default Type \<and> is_array CValue \<and> (\<exists>A \<in> set (json_elements CValue). is_string A)
                    then (case field_setValue_string (jl_dump jl) (jl_parse jl) ''dtype'' ''string'' Type of
                            Some f \<Rightarrow> f | None \<Rightarrow> Type)
                    else Type)
              in writeAttrOfSpecifiedType jl lib (field_text Type) Node Name CValue h))"

fun writeArrayOfAttributes :: "json_lib \<Rightarrow> 'h hdf5 \<Rightarrow> node \<Rightarrow> json list \<Rightarrow> 'h \<Rightarrow> 'h" where
  "writeArrayOfAttributes jl lib Node [] h = h"
| "writeArrayOfAttributes jl lib Node (a # as) h =
     writeArrayOfAttributes jl lib Node as (snd (write_described_attribute jl lib Node a h))"

fun writeObjectOfAttributes ::
  "json_lib \<Rightarrow> 'h hdf5 \<Rightarrow> node \<Rightarrow> (string \<times> json) list \<Rightarrow> 'h \<Rightarrow> exn option \<times> 'h" where
  "writeObjectOfAttributes jl lib Node [] h = (None, h)"
| "writeObjectOfAttributes jl lib Node ((Name, v) # ms) h =
     and_then (and_then (remove_existing lib Node Name h) (writeScalarAttribute jl lib Node Name v))
       (writeObjectOfAttributes jl lib Node ms)"

definition writeAttributes :: "json_lib \<Rightarrow> 'h hdf5 \<Rightarrow> node \<Rightarrow> json \<Rightarrow> 'h \<Rightarrow> exn option \<times> 'h" where
  "writeAttributes jl lib Node Value h =
     (case Value of
        J_array as \<Rightarrow> (None, writeArrayOfAttributes jl lib Node as h)
      | J_object ms \<Rightarrow> writeObjectOfAttributes jl lib Node ms h
      | _ \<Rightarrow> (None, h))"

definition writeAttributesIfPresent :: "json_lib \<Rightarrow> 'h hdf5 \<Rightarrow> node \<Rightarrow> json \<Rightarrow> 'h \<Rightarrow> exn option \<times> 'h" where
  "writeAttributesIfPresent jl lib Node Values h =
     (case json_find ''attributes'' Values of
        None \<Rightarrow> (None, h)
      | Some Attributes \<Rightarrow> writeAttributes jl lib Node Attributes h)"

section \<open>Datasets\<close>

definition writeNumericDataset ::
  "json_lib \<Rightarrow> 'h hdf5 \<Rightarrow> string \<Rightarrow> node \<Rightarrow> string \<Rightarrow> json \<Rightarrow> 'h \<Rightarrow> exn option \<times> 'h" where
  "writeNumericDataset jl lib DT Node Name Values h =
     with_message (''Failed write for numeric attribute '' @ Name @ '' in '' @ path_string Node @ '': '')
       (if is_number Values then
          (case jl_get jl DT Values of
             Inl e \<Rightarrow> (Some e, h)
           | Inr v \<Rightarrow> h5_create_dataset lib Node Name (H5_scalar DT v) h)
        else
          (case jsonArrayToMultiArray (default_element DT) (jsonElementConverter jl DT) Values of
             Inl e \<Rightarrow> (Some e, h)
           | Inr m \<Rightarrow> h5_create_dataset lib Node Name (H5_array DT m) h))"

definition writeStringDataset_scalar ::
  "'h hdf5 \<Rightarrow> node \<Rightarrow> string \<Rightarrow> json \<Rightarrow> 'h \<Rightarrow> exn option \<times> 'h" where
  "writeStringDataset_scalar lib parent name v h =
     with_message (''Failed to write dataset for string value '' @ path_string parent @ ''/'' @ name @
         ''. Message was: '')
       (h5_create_dataset lib parent name (H5_scalar ''string'' v) h)"

definition writeStringDataset ::
  "'h hdf5 \<Rightarrow> node \<Rightarrow> string \<Rightarrow> json MultiVector \<Rightarrow> 'h \<Rightarrow> exn option \<times> 'h" where
  "writeStringDataset lib parent name vs h =
     with_message (''Failed to write variable-size string dataset '' @ path_string parent @ ''/'' @ name @
         ''. Message was: '')
       (h5_create_dataset lib parent name (H5_array ''string'' vs) h)"

definition writeStringDatasetFromJson ::
  "json_lib \<Rightarrow> 'h hdf5 \<Rightarrow> node \<Rightarrow> string \<Rightarrow> json \<Rightarrow> 'h \<Rightarrow> exn option \<times> 'h" where
  "writeStringDatasetFromJson jl lib Parent Name Values h =
     (if is_array Values then
        (case jsonArrayToMultiArray (default_element ''string'') (jsonElementConverter jl ''string'') Values of
           Inl e \<Rightarrow> (Some e, h)
         | Inr m \<Rightarrow> writeStringDataset lib Parent Name m h)
      else
        (case jl_get jl ''string'' Values of
           Inl e \<Rightarrow> (Some e, h)
         | Inr v \<Rightarrow> writeStringDataset_scalar lib Parent Name v h))"

definition numeric_dataset_types :: "(string \<times> string) list" where
  "numeric_dataset_types = [(''uint8'', ''uint8''), (''uint16'', ''uint16''), (''uint32'', ''uint32''),
     (''uint64'', ''uint64''), (''int8'', ''int8''), (''int16'', ''int16''), (''int32'', ''int32''),
     (''int'', ''int32''), (''int64'', ''int64''), (''float'', ''float''), (''double'', ''double'')]"

definition writeGenericDataset ::
  "json_lib \<Rightarrow> 'h hdf5 \<Rightarrow> string \<Rightarrow> node \<Rightarrow> string \<Rightarrow> json \<Rightarrow> 'h \<Rightarrow> exn option \<times> 'h" where
  "writeGenericDataset jl lib DataType Parent Name Values h =
     (case map_of numeric_dataset_types DataType of
        Some DT \<Rightarrow> writeNumericDataset jl lib DT Parent Name Values h
      | None \<Rightarrow>
          if DataType = ''string'' then writeStringDatasetFromJson jl lib Parent Name Values h
          else (Some (Out_Of_Range ''map::at''), h))"

definition dataset_fields :: FieldHandler where
  "dataset_fields =
     fold registerField
       [RequiredField [''name''] FT_string (J_string []),
        RequiredField [''value'', ''values''] json_field_type J_null,
        Field [''type'', ''dtype''] FT_string (J_string ''double''),
        ObsoleteField [''string_size''],
        ObsoleteField [''size'']] empty_FieldHandler"

definition JSONDataset :: "json_lib \<Rightarrow> json \<Rightarrow> exn + FieldHandler" where
  "JSONDataset jl JsonObj = fill_fields jl JsonObj dataset_fields"

text \<open>The name of the dataset, or the exception.\<close>

definition writeDataset :: "json_lib \<Rightarrow> 'h hdf5 \<Rightarrow> node \<Rightarrow> json \<Rightarrow> 'h \<Rightarrow> (exn + string) \<times> 'h" where
  "writeDataset jl lib Parent Values h =
     (case JSONDataset jl Values of
        Inl e \<Rightarrow> (Inl e, h)
      | Inr Dataset \<Rightarrow>
          let Name = field_text (fh_fields Dataset ! 0) in
          (case writeGenericDataset jl lib (field_text (fh_fields Dataset ! 2)) Parent Name
                  (fd_value (fh_fields Dataset ! 1)) h of
             (Some e, h) \<Rightarrow> (Inl e, h)
           | (None, h) \<Rightarrow> (Inr Name, h)))"

end
