(* ===== verification/Nexus_Dataset.thy ===== *)
theory Nexus_Dataset
  imports Hdf_Attributes
begin

text \<open>
  \<^verbatim>\<open>src/NeXusDataset\<close>: datasets that grow while they are written. A dataset of the file is addressed by its
  group and its name; what h5cpp does to it is the record \<open>dataset_lib\<close>, whose functions act on the
  content \<open>'h\<close> of the file. The locale \<open>hdf5_datasets\<close> states what is documented of it for datasets
  of one dimension: their contents after an extension, a resize and a write of a selection. Values
  that are stored are converted to the type of the dataset, the function \<open>store\<close>.

  Floating point values are of an arbitrary type \<open>'f\<close>.
\<close>

section \<open>The library\<close>

datatype 'f h5_value = HV_int int | HV_float 'f | HV_text string

type_synonym dpath = "node \<times> string"

record ('h, 'f) dataset_lib =
  dl_create :: "dpath \<Rightarrow> string \<Rightarrow> nat list \<Rightarrow> nat list \<Rightarrow> 'h \<Rightarrow> exn option \<times> 'h"
  dl_open :: "'h \<Rightarrow> dpath \<Rightarrow> exn option"
  dl_dims :: "'h \<Rightarrow> dpath \<Rightarrow> nat list"
  dl_string_size :: "'h \<Rightarrow> dpath \<Rightarrow> nat"
  dl_extent :: "dpath \<Rightarrow> nat \<Rightarrow> nat \<Rightarrow> 'h \<Rightarrow> exn option \<times> 'h"
  dl_resize :: "dpath \<Rightarrow> nat list \<Rightarrow> 'h \<Rightarrow> exn option \<times> 'h"
  dl_write :: "dpath \<Rightarrow> nat list \<Rightarrow> nat list \<Rightarrow> 'f h5_value list \<Rightarrow> 'h \<Rightarrow> exn option \<times> 'h"
  dl_attr :: "dpath \<Rightarrow> string \<Rightarrow> string \<Rightarrow> 'h \<Rightarrow> exn option \<times> 'h"

definition dataset_size :: "('h, 'f) dataset_lib \<Rightarrow> 'h \<Rightarrow> dpath \<Rightarrow> nat" where
  "dataset_size L h p = prod_list (dl_dims L h p)"

section \<open>Extensible datasets\<close>

datatype Mode = Create | Open

record ExtensibleDatasetBase =
  ed_dataset :: dpath
  ed_NrOfElements :: nat

text \<open>The constructor of the base class, which opens only and leaves the number of elements at zero.\<close>

definition make_ExtensibleDatasetBase ::
  "('h, 'f) dataset_lib \<Rightarrow> node \<Rightarrow> string \<Rightarrow> Mode \<Rightarrow> 'h \<Rightarrow> exn + ExtensibleDatasetBase" where
  "make_ExtensibleDatasetBase L parent name mode h =
     (case mode of
        Create \<Rightarrow> Inl (Runtime_Error
          (''ExtensibleDatasetBase::ExtensibleDatasetBase(): '' @ ''Can only open datasets, not create.''))
      | Open \<Rightarrow>
          (case dl_open L h (parent, name) of
             Some e \<Rightarrow> Inl e
           | None \<Rightarrow> Inr \<lparr>ed_dataset = (parent, name), ed_NrOfElements = 0\<rparr>))"

definition make_ExtensibleDataset ::
  "('h, 'f) dataset_lib \<Rightarrow> string \<Rightarrow> node \<Rightarrow> string \<Rightarrow> Mode \<Rightarrow> nat \<Rightarrow> 'h \<Rightarrow> (exn + ExtensibleDatasetBase) \<times> 'h" where
  "make_ExtensibleDataset L DataType Parent Name CMode ChunkSize h =
     (case CMode of
        Create \<Rightarrow>
          (case dl_create L (Parent, Name) DataType [0] [ChunkSize] h of
             (Some e, h) \<Rightarrow> (Inl e, h)
           | (None, h) \<Rightarrow> (Inr \<lparr>ed_dataset = (Parent, Name), ed_NrOfElements = 0\<rparr>, h))
      | Open \<Rightarrow>
          (case dl_open L h (Parent, Name) of
             Some e \<Rightarrow> (Inl e, h)
           | None \<Rightarrow>
               (Inr \<lparr>ed_dataset = (Parent, Name), ed_NrOfElements = dataset_size L h (Parent, Name)\<rparr>, h)))"

definition current_size :: "('h, 'f) dataset_lib \<Rightarrow> 'h \<Rightarrow> ExtensibleDatasetBase \<Rightarrow> nat" where
  "current_size L h d = dataset_size L h (ed_dataset d)"

definition add_elements :: "nat \<Rightarrow> ExtensibleDatasetBase \<Rightarrow> ExtensibleDatasetBase" where
  "add_elements n d = d\<lparr>ed_NrOfElements := ed_NrOfElements d + n\<rparr>"

text \<open>Writing a container, a scalar, and the array of a flatbuffer. The result is the exception, if there is
  one, the object and the file.\<close>

definition appendArray ::
  "('h, 'f) dataset_lib \<Rightarrow> 'f h5_value list \<Rightarrow> ExtensibleDatasetBase \<Rightarrow> 'h \<Rightarrow> exn option \<times> ExtensibleDatasetBase \<times> 'h" where
  "appendArray L data d h =
     (case and_then (dl_extent L (ed_dataset d) 0 (length data) h)
             (dl_write L (ed_dataset d) [ed_NrOfElements d] [length data] data) of
        (Some e, h) \<Rightarrow> (Some e, d, h)
      | (None, h) \<Rightarrow> (None, add_elements (length data) d, h))"

definition appendElement ::
  "('h, 'f) dataset_lib \<Rightarrow> 'f h5_value \<Rightarrow> ExtensibleDatasetBase \<Rightarrow> 'h \<Rightarrow> exn option \<times> ExtensibleDatasetBase \<times> 'h" where
  "appendElement L element d h =
     (case and_then (dl_extent L (ed_dataset d) 0 1 h)
             (dl_write L (ed_dataset d) [ed_NrOfElements d] [1] [element]) of
        (Some e, h) \<Rightarrow> (Some e, d, h)
      | (None, h) \<Rightarrow> (None, add_elements 1 d, h))"

definition appendArray_adapter ::
  "('h, 'f) dataset_lib \<Rightarrow> 'f h5_value list \<Rightarrow> ExtensibleDatasetBase \<Rightarrow> 'h \<Rightarrow> exn option \<times> ExtensibleDatasetBase \<times> 'h" where
  "appendArray_adapter L data d h =
     (if length data = 0 then (None, d, h)
      else
        (case and_then (dl_resize L (ed_dataset d) [ed_NrOfElements d + length data] h)
                (dl_write L (ed_dataset d) [ed_NrOfElements d] [length data] data) of
           (Some e, h) \<Rightarrow> (Some e, d, h)
         | (None, h) \<Rightarrow> (None, add_elements (length data) d, h)))"

section \<open>Fixed size strings\<close>

record FixedSizeString =
  fs_dataset :: dpath
  fs_MaxStringSize :: nat
  fs_NrOfStrings :: nat

definition make_FixedSizeString ::
  "('h, 'f) dataset_lib \<Rightarrow> node \<Rightarrow> string \<Rightarrow> Mode \<Rightarrow> nat \<Rightarrow> nat \<Rightarrow> 'h \<Rightarrow> (exn + FixedSizeString) \<times> 'h" where
  "make_FixedSizeString L Parent Name CMode StringSize ChunkSize h =
     (case CMode of
        Create \<Rightarrow>
          (case dl_create L (Parent, Name) ''string'' [0] [ChunkSize] h of
             (Some e, h) \<Rightarrow> (Inl e, h)
           | (None, h) \<Rightarrow>
               (Inr \<lparr>fs_dataset = (Parent, Name), fs_MaxStringSize = StringSize, fs_NrOfStrings = 0\<rparr>, h))
      | Open \<Rightarrow>
          (case dl_open L h (Parent, Name) of
             Some e \<Rightarrow> (Inl e, h)
           | None \<Rightarrow>
               (Inr \<lparr>fs_dataset = (Parent, Name), fs_MaxStringSize = dl_string_size L h (Parent, Name),
                     fs_NrOfStrings = dataset_size L h (Parent, Name)\<rparr>, h)))"

definition appendStringElement ::
  "('h, 'f) dataset_lib \<Rightarrow> string \<Rightarrow> FixedSizeString \<Rightarrow> 'h \<Rightarrow> exn option \<times> FixedSizeString \<times> 'h" where
  "appendStringElement L InString d h =
     (case and_then (dl_extent L (fs_dataset d) 0 1 h)
             (dl_write L (fs_dataset d) [fs_NrOfStrings d] [1] [HV_text InString]) of
        (Some e, h) \<Rightarrow> (Some e, d, h)
      | (None, h) \<Rightarrow> (None, d\<lparr>fs_NrOfStrings := fs_NrOfStrings d + 1\<rparr>, h))"

section \<open>Datasets of several dimensions\<close>

text \<open>The extent after a block of the given shape has been appended; the second loop of \<^verbatim>\<open>appendArray\<close>.\<close>

definition grown_extent :: "nat list \<Rightarrow> nat list \<Rightarrow> nat list" where
  "grown_extent CurrentExtent Shape = map2 (\<lambda>s c. if s > c then s else c) Shape CurrentExtent"

text \<open>\<open>None\<close> is the access to the first dimension of a dataset that has none.\<close>

definition appendArray_shape ::
  "('h, 'f) dataset_lib \<Rightarrow> dpath \<Rightarrow> 'f h5_value list \<Rightarrow> nat list \<Rightarrow> 'h \<Rightarrow> (exn option \<times> 'h) option" where
  "appendArray_shape L p NewData Shape h =
     (case dl_dims L h p of
        [] \<Rightarrow> None
      | n # rest \<Rightarrow>
          Some (if length Shape \<noteq> length rest then
              (Some (Runtime_Error ''Rank (dimensions) of data to be written is wrong.''), h)
            else
              and_then (dl_resize L p (Suc n # grown_extent rest Shape) h)
                (dl_write L p (n # replicate (length rest) 0) (1 # Shape) NewData)))"

text \<open>\<^verbatim>\<open>std::accumulate\<close> with the initial value \<^verbatim>\<open>1\<close> adds up in an \<^verbatim>\<open>int\<close>: every partial product is truncated to
  32 bits. The division converts it to 64 bits without a sign. \<open>None\<close> is a division by zero.\<close>

definition elements_per_row :: "nat list \<Rightarrow> int" where
  "elements_per_row dims = foldl (\<lambda>a b. s32 (a * int b)) 1 dims"

definition rows_per_chunk :: "nat \<Rightarrow> nat list \<Rightarrow> nat option" where
  "rows_per_chunk chunk dims =
     (let ElementsPerRow = nat (elements_per_row dims mod 2 ^ 64) in
      if ElementsPerRow = 0 then None
      else Some (let NrOfRows = chunk div ElementsPerRow in if NrOfRows = 0 then 1 else NrOfRows))"

definition vector_chunk_size :: "nat list \<Rightarrow> nat list \<Rightarrow> nat list option" where
  "vector_chunk_size shape chunksize =
     (let shape = 0 # shape;
          chunksize = (if chunksize = [] then [1024] else chunksize) in
      if length chunksize = length shape then Some chunksize
      else if length chunksize = 1 \<and> length shape > 1 then
        map_option (\<lambda>n. n # tl shape) (rows_per_chunk (hd chunksize) (tl shape))
      else Some (1024 # tl shape))"

definition make_MultiDimDataset ::
  "('h, 'f) dataset_lib \<Rightarrow> string \<Rightarrow> node \<Rightarrow> string \<Rightarrow> Mode \<Rightarrow> nat list \<Rightarrow> nat list \<Rightarrow> 'h \<Rightarrow> ((exn + dpath) \<times> 'h) option" where
  "make_MultiDimDataset L DataType parent name CMode shape chunksize h =
     (case CMode of
        Create \<Rightarrow>
          map_option (\<lambda>chunk.
            (case dl_create L (parent, name) DataType (0 # shape) chunk h of
               (Some e, h) \<Rightarrow> (Inl e, h)
             | (None, h) \<Rightarrow> (Inr (parent, name), h))) (vector_chunk_size shape chunksize)
      | Open \<Rightarrow>
          Some (case dl_open L h (parent, name) of
                  Some e \<Rightarrow> (Inl e, h)
                | None \<Rightarrow> (Inr (parent, name), h)))"

definition make_MultiDimDatasetBase ::
  "('h, 'f) dataset_lib \<Rightarrow> node \<Rightarrow> string \<Rightarrow> Mode \<Rightarrow> 'h \<Rightarrow> exn + dpath" where
  "make_MultiDimDatasetBase L parent name CMode h =
     (case CMode of
        Create \<Rightarrow> Inl (Runtime_Error
          (''MultiDimDatasetBase::MultiDimDatasetBase(): '' @ ''Can only open datasets, not create.''))
      | Open \<Rightarrow> (case dl_open L h (parent, name) of Some e \<Rightarrow> Inl e | None \<Rightarrow> Inr (parent, name)))"

section \<open>The NeXus datasets\<close>

text \<open>Element type and name of the classes, and whether a new dataset gets the attributes of a time.\<close>

datatype nexus_class =
    UInt16Value | DoubleValue | Time | CueIndex | CueTimestampZero | EventId | EventTimeOffset | EventIndex
  | EventTimeZero | AlarmSeverity | AlarmTime | ConnectionStatusTime | ConnectionStatus
  | Amplitude | PeakArea | Background | ThresholdTime | PeakTime

fun class_type :: "nexus_class \<Rightarrow> string" where
  "class_type UInt16Value = ''uint16''"
| "class_type DoubleValue = ''double''"
| "class_type Time = ''uint64''"
| "class_type CueIndex = ''uint32''"
| "class_type CueTimestampZero = ''uint64''"
| "class_type EventId = ''uint32''"
| "class_type EventTimeOffset = ''uint32''"
| "class_type EventIndex = ''uint32''"
| "class_type EventTimeZero = ''uint64''"
| "class_type AlarmSeverity = ''int16''"
| "class_type AlarmTime = ''uint64''"
| "class_type ConnectionStatusTime = ''uint64''"
| "class_type ConnectionStatus = ''int16''"
| "class_type Amplitude = ''uint32''"
| "class_type PeakArea = ''uint32''"
| "class_type Background = ''uint32''"
| "class_type ThresholdTime = ''uint64''"
| "class_type PeakTime = ''uint64''"

fun class_name :: "nexus_class \<Rightarrow> string" where
  "class_name UInt16Value = ''value''"
| "class_name DoubleValue = ''value''"
| "class_name Time = ''time''"
| "class_name CueIndex = ''cue_index''"
| "class_name CueTimestampZero = ''cue_timestamp_zero''"
| "class_name EventId = ''event_id''"
| "class_name EventTimeOffset = ''event_time_offset''"
| "class_name EventIndex = ''event_index''"
| "class_name EventTimeZero = ''event_time_zero''"
| "class_name AlarmSeverity = ''alarm_severity''"
| "class_name AlarmTime = ''alarm_time''"
| "class_name ConnectionStatusTime = ''connection_status_time''"
| "class_name ConnectionStatus = ''connection_status''"
| "class_name Amplitude = ''adc_pulse_amplitude''"
| "class_name PeakArea = ''adc_pulse_peak_area''"
| "class_name Background = ''adc_pulse_background''"
| "class_name ThresholdTime = ''adc_pulse_threshold_time''"
| "class_name PeakTime = ''adc_pulse_peak_time''"

definition class_attributes :: "nexus_class \<Rightarrow> (string \<times> string) list" where
  "class_attributes c =
     (if c \<in> {Time, CueTimestampZero, EventTimeZero, AlarmTime, ConnectionStatusTime, ThresholdTime, PeakTime} then
        [(''start'', ''1970-01-01T00:00:00Z''), (''units'', ''ns'')]
      else if c = EventTimeOffset then [(''units'', ''ns'')]
      else [])"

fun create_attributes :: "('h, 'f) dataset_lib \<Rightarrow> dpath \<Rightarrow> (string \<times> string) list \<Rightarrow> 'h \<Rightarrow> exn option \<times> 'h" where
  "create_attributes L p [] h = (None, h)"
| "create_attributes L p ((k, v) # as) h = and_then (dl_attr L p k v h) (create_attributes L p as)"

definition make_dataset ::
  "('h, 'f) dataset_lib \<Rightarrow> nexus_class \<Rightarrow> node \<Rightarrow> Mode \<Rightarrow> nat \<Rightarrow> 'h \<Rightarrow> (exn + ExtensibleDatasetBase) \<times> 'h" where
  "make_dataset L c Parent CMode ChunkSize h =
     (case make_ExtensibleDataset L (class_type c) Parent (class_name c) CMode ChunkSize h of
        (Inl e, h) \<Rightarrow> (Inl e, h)
      | (Inr d, h) \<Rightarrow>
          if CMode = Create then
            (case create_attributes L (ed_dataset d) (class_attributes c) h of
               (Some e, h) \<Rightarrow> (Inl e, h)
             | (None, h) \<Rightarrow> (Inr d, h))
          else (Inr d, h))"

text \<open>The temporaries that the writer modules construct one after the other.\<close>

fun create_datasets :: "('h, 'f) dataset_lib \<Rightarrow> node \<Rightarrow> (nexus_class \<times> nat) list \<Rightarrow> 'h \<Rightarrow> exn option \<times> 'h" where
  "create_datasets L g [] h = (None, h)"
| "create_datasets L g ((c, n) # cs) h =
     (case make_dataset L c g Create n h of
        (Inl e, h) \<Rightarrow> (Some e, h)
      | (Inr _, h) \<Rightarrow> create_datasets L g cs h)"

abbreviation open_dataset :: "('h, 'f) dataset_lib \<Rightarrow> nexus_class \<Rightarrow> node \<Rightarrow> 'h \<Rightarrow> exn + ExtensibleDatasetBase" where
  "open_dataset L c g h \<equiv> fst (make_dataset L c g Open 1024 h)"

section \<open>What h5cpp promises\<close>

locale hdf5_datasets =
  fixes L :: "('h, 'f) dataset_lib"
    and cont :: "'h \<Rightarrow> dpath \<rightharpoonup> 'f h5_value list"
    and store :: "dpath \<Rightarrow> 'f h5_value \<Rightarrow> 'f h5_value"
    and fill :: "dpath \<Rightarrow> 'f h5_value"
  assumes dims: "cont h p = Some xs \<Longrightarrow> dl_dims L h p = [length xs]"
    and opens: "cont h p = Some xs \<Longrightarrow> dl_open L h p = None"
    and extent: "cont h p = Some xs \<Longrightarrow>
      \<exists>h'. dl_extent L p 0 n h = (None, h') \<and> cont h' = (cont h)(p \<mapsto> xs @ replicate n (fill p))"
    and resize: "cont h p = Some xs \<Longrightarrow>
      \<exists>h'. dl_resize L p [n] h = (None, h') \<and> cont h' = (cont h)(p \<mapsto> take n (xs @ replicate n (fill p)))"
    and writes: "cont h p = Some xs \<Longrightarrow> i + length vs \<le> length xs \<Longrightarrow>
      \<exists>h'. dl_write L p [i] [length vs] vs h = (None, h') \<and>
        cont h' = (cont h)(p \<mapsto> take i xs @ map (store p) vs @ drop (i + length vs) xs)"
begin

text \<open>The object knows the size of its dataset.\<close>

definition tracks :: "'h \<Rightarrow> ExtensibleDatasetBase \<Rightarrow> 'f h5_value list \<Rightarrow> bool" where
  "tracks h d xs \<longleftrightarrow> cont h (ed_dataset d) = Some xs \<and> ed_NrOfElements d = length xs"

lemma size_dims: "cont h p = Some xs \<Longrightarrow> dataset_size L h p = length xs"
  by (simp add: dataset_size_def dims)

lemma open_tracks:
  assumes "cont h (g, class_name c) = Some xs"
  shows "\<exists>d. make_dataset L c g Open n h = (Inr d, h) \<and> tracks h d xs \<and> ed_dataset d = (g, class_name c)"
  using assms by (simp add: make_dataset_def make_ExtensibleDataset_def opens tracks_def size_dims)

lemma extend_write:
  assumes "cont h p = Some xs"
  shows "\<exists>h'. and_then (dl_extent L p 0 (length vs) h) (dl_write L p [length xs] [length vs] vs) = (None, h') \<and>
    cont h' = (cont h)(p \<mapsto> xs @ map (store p) vs)"
proof -
  obtain h1 where h1: "dl_extent L p 0 (length vs) h = (None, h1)"
    "cont h1 = (cont h)(p \<mapsto> xs @ replicate (length vs) (fill p))"
    using extent [OF assms] by blast
  then have "cont h1 p = Some (xs @ replicate (length vs) (fill p))" by simp
  from writes [OF this, of "length xs" vs] obtain h2 where "dl_write L p [length xs] [length vs] vs h1 = (None, h2)"
    "cont h2 = (cont h1)(p \<mapsto> xs @ map (store p) vs)" by auto
  with h1 show ?thesis by (simp add: and_then_def)
qed

lemma append_array:
  assumes "tracks h d xs"
  shows "\<exists>h'. appendArray L vs d h = (None, add_elements (length vs) d, h') \<and>
    cont h' = (cont h)(ed_dataset d \<mapsto> xs @ map (store (ed_dataset d)) vs) \<and>
    tracks h' (add_elements (length vs) d) (xs @ map (store (ed_dataset d)) vs)"
  using extend_write [of h "ed_dataset d" xs vs] assms
  by (auto simp: appendArray_def tracks_def add_elements_def)

lemma append_element:
  assumes "tracks h d xs"
  shows "\<exists>h'. appendElement L v d h = (None, add_elements 1 d, h') \<and>
    cont h' = (cont h)(ed_dataset d \<mapsto> xs @ [store (ed_dataset d) v]) \<and>
    tracks h' (add_elements 1 d) (xs @ [store (ed_dataset d) v])"
  using extend_write [of h "ed_dataset d" xs "[v]"] assms
  by (auto simp: appendElement_def tracks_def add_elements_def)

lemma append_adapter:
  assumes "tracks h d xs"
  shows "\<exists>h'. appendArray_adapter L vs d h = (None, add_elements (length vs) d, h') \<and>
    cont h' = (cont h)(ed_dataset d \<mapsto> xs @ map (store (ed_dataset d)) vs) \<and>
    tracks h' (add_elements (length vs) d) (xs @ map (store (ed_dataset d)) vs)"
proof (cases "vs = []")
  case True
  with assms show ?thesis by (auto simp: appendArray_adapter_def tracks_def add_elements_def)
next
  case False
  let ?p = "ed_dataset d" and ?n = "length xs + length vs"
  have c: "cont h ?p = Some xs" "ed_NrOfElements d = length xs" using assms by (simp_all add: tracks_def)
  obtain h1 where h1: "dl_resize L ?p [?n] h = (None, h1)"
    "cont h1 = (cont h)(?p \<mapsto> xs @ replicate (length vs) (fill ?p))"
    using resize [OF c(1), of ?n] by (auto simp: min_def)
  then have "cont h1 ?p = Some (xs @ replicate (length vs) (fill ?p))" by simp
  from writes [OF this, of "length xs" vs] obtain h2 where "dl_write L ?p [length xs] [length vs] vs h1 = (None, h2)"
    "cont h2 = (cont h1)(?p \<mapsto> xs @ map (store ?p) vs)" by auto
  with h1 c False show ?thesis
    by (simp add: appendArray_adapter_def and_then_def tracks_def add_elements_def)
qed

lemma append_string:
  assumes "cont h (fs_dataset d) = Some xs" and "fs_NrOfStrings d = length xs"
  shows "\<exists>h'. appendStringElement L v d h = (None, d\<lparr>fs_NrOfStrings := Suc (length xs)\<rparr>, h') \<and>
    cont h' = (cont h)(fs_dataset d \<mapsto> xs @ [store (fs_dataset d) (HV_text v)])"
  using extend_write [of h "fs_dataset d" xs "[HV_text v]"] assms by (auto simp: appendStringElement_def)

lemma tracks_other: "tracks h d xs \<Longrightarrow> cont h' (ed_dataset d) = cont h (ed_dataset d) \<Longrightarrow> tracks h' d xs"
  by (simp add: tracks_def)

end

text \<open>Files that are lists of datasets.\<close>

type_synonym 'f list_file = "(dpath \<times> 'f h5_value list) list"

definition list_update_file :: "dpath \<Rightarrow> ('f h5_value list \<Rightarrow> 'f h5_value list) \<Rightarrow> 'f list_file \<Rightarrow> exn option \<times> 'f list_file" where
  "list_update_file p f h =
     (case map_of h p of
        None \<Rightarrow> (Some (Std_Exception ''no such dataset''), h)
      | Some xs \<Rightarrow> (None, (p, f xs) # h))"

definition list_datasets :: "('f list_file, 'f) dataset_lib" where
  "list_datasets =
     \<lparr>dl_create = (\<lambda>p t shape chunk h.
        if map_of h p = None then (None, (p, []) # h) else (Some (Std_Exception ''dataset exists''), h)),
      dl_open = (\<lambda>h p. if map_of h p = None then Some (Std_Exception ''no such dataset'') else None),
      dl_dims = (\<lambda>h p. case map_of h p of None \<Rightarrow> [] | Some xs \<Rightarrow> [length xs]),
      dl_string_size = (\<lambda>h p. 200),
      dl_extent = (\<lambda>p k n. list_update_file p (\<lambda>xs. xs @ replicate n (HV_int 0))),
      dl_resize = (\<lambda>p dims. list_update_file p (\<lambda>xs. take (hd dims) (xs @ replicate (hd dims) (HV_int 0)))),
      dl_write = (\<lambda>p off block vs. list_update_file p (\<lambda>xs. take (hd off) xs @ vs @ drop (hd off + length vs) xs)),
      dl_attr = (\<lambda>p k v h. (None, h))\<rparr>"

interpretation lds: hdf5_datasets list_datasets map_of "\<lambda>_ v. v" "\<lambda>_. HV_int 0"
  by unfold_locales (auto simp: list_datasets_def list_update_file_def fun_eq_iff)

section \<open>Chunks\<close>

lemma s32_mult_left: "s32 (s32 a * b) = s32 (a * b)"
proof -
  have "s32 a = (a + 2 ^ 31) mod 2 ^ 32 - 2 ^ 31" by (simp add: s32_def)
  then have "s32 a mod 2 ^ 32 = a mod 2 ^ 32" by (simp add: mod_diff_left_eq)
  then have "s32 a * b mod 2 ^ 32 = a * b mod 2 ^ 32" by (metis mod_mult_left_eq)
  then have "(s32 a * b + 2 ^ 31) mod 2 ^ 32 = (a * b + 2 ^ 31) mod 2 ^ 32" by (metis mod_add_left_eq)
  then show ?thesis by (simp add: s32_def)
qed

lemma elements_per_row_product: "elements_per_row dims = s32 (int (prod_list dims))"
proof -
  have "foldl (\<lambda>a b. s32 (a * int b)) (s32 a) dims = s32 (a * int (prod_list dims))" for a
    by (induction dims arbitrary: a) (simp_all add: s32_mult_left mult.assoc)
  from this [of 1] show ?thesis by (simp add: elements_per_row_def s32_def)
qed

lemma s32_zero: "s32 x = 0 \<longleftrightarrow> x mod 4294967296 = 0"
proof
  assume "s32 x = 0"
  then have "(x + 2147483648) mod 4294967296 = 2147483648" by (simp add: s32_def)
  then have "(x + 2147483648 - 2147483648) mod 4294967296 = (2147483648 - 2147483648) mod 4294967296"
    by (metis mod_diff_left_eq)
  then show "x mod 4294967296 = 0" by simp
next
  assume "x mod 4294967296 = 0"
  then have "(x + 2147483648) mod 4294967296 = (0 + 2147483648) mod 4294967296" by (metis mod_add_left_eq)
  then show "s32 x = 0" by (simp add: s32_def)
qed

lemma unsigned64_zero:
  fixes z :: int
  assumes "- 2147483648 \<le> z" and "z < 2147483648"
  shows "nat (z mod 2 ^ 64) = 0 \<longleftrightarrow> z = 0"
proof (cases "0 \<le> z")
  case True
  with assms have "z mod 2 ^ 64 = z" by (intro mod_pos_pos_trivial) auto
  with True show ?thesis by simp
next
  case False
  have "z mod 2 ^ 64 = (z + 2 ^ 64) mod 2 ^ 64" by simp
  also have "\<dots> = z + 2 ^ 64" using assms False by (intro mod_pos_pos_trivial) auto
  finally show ?thesis using assms False by simp
qed

text \<open>The size of a chunk of an array dataset is computed with 32-bit products. It divides by zero, and so ends
  the process, exactly when the number of elements of a row is a multiple of \<^verbatim>\<open>2^32\<close>, zero included; for an
  array of at most \<^verbatim>\<open>2^31 - 1\<close> elements a chunk has the asked number of elements rounded down to whole
  rows, and at least one row.\<close>

theorem chunk_rows:
  "(rows_per_chunk chunk dims = None \<longleftrightarrow> prod_list dims mod 2 ^ 32 = 0) \<and>
   (0 < prod_list dims \<and> prod_list dims < 2 ^ 31 \<longrightarrow>
     rows_per_chunk chunk dims = Some (max 1 (chunk div prod_list dims)))"
proof -
  define P where "P = prod_list dims"
  have r: "- 2147483648 \<le> s32 (int P)" "s32 (int P) < 2147483648" by (simp_all add: s32_def)
  have zero: "s32 (int P) = 0 \<longleftrightarrow> P mod 2 ^ 32 = 0"
  proof -
    have "s32 (int P) = 0 \<longleftrightarrow> int P mod 4294967296 = 0" by (rule s32_zero)
    also have "\<dots> \<longleftrightarrow> int (P mod 2 ^ 32) = 0" by (simp add: of_nat_mod)
    finally show ?thesis by simp
  qed
  have "nat (s32 (int P) mod 2 ^ 64) = 0 \<longleftrightarrow> s32 (int P) = 0" using unsigned64_zero r by simp
  then have "rows_per_chunk chunk dims = None \<longleftrightarrow> P mod 2 ^ 32 = 0"
    by (simp add: rows_per_chunk_def elements_per_row_product zero flip: P_def)
  moreover have "rows_per_chunk chunk dims = Some (max 1 (chunk div P))" if "0 < P" "P < 2 ^ 31"
  proof -
    have "s32 (int P) = int P" using that by (intro s32_id) simp_all
    then show ?thesis
      using that by (simp add: rows_per_chunk_def elements_per_row_product max_def Let_def flip: P_def)
  qed
  ultimately show ?thesis by (simp add: P_def)
qed

theorem chunk_rows_witness:
  "rows_per_chunk 1024 [10, 10] = Some 10 \<and> rows_per_chunk 1024 [65536, 65536] = None"
  using chunk_rows [of 1024 "[10, 10]"] chunk_rows [of 1024 "[65536, 65536]"] by simp

end
