(* ===== verification/Nexus_Structure.thy ===== *)
theory Nexus_Structure
  imports Hdf_Attributes
begin

text \<open>
  The second half of \<^verbatim>\<open>src/HDFOperations.cpp\<close>: \<^verbatim>\<open>createHDFStructures\<close>, which builds the groups and
  datasets of a file from the JSON description of its NeXus structure and collects the stream modules
  found on the way, and the links, \<^verbatim>\<open>addLinks\<close> and \<^verbatim>\<open>addLinkToNode\<close>.
\<close>

section \<open>Creating the structure\<close>

record ModuleHDFInfo =
  mi_WriterModule :: string
  mi_HDFParentName :: string
  mi_ConfigStream :: string

definition node_fields :: FieldHandler where
  "node_fields =
     fold registerField
       [Field [''name''] FT_string (J_string []),
        RequiredField [''type'', ''module''] FT_string (J_string []),
        Field [''config''] json_field_type (J_string []),
        Field [''children''] json_field_type (J_string []),
        Field [''attributes''] json_field_type (J_string []),
        Field [''target''] FT_string (J_string []),
        ObsoleteField [''value'', ''values''],
        ObsoleteField [''stream''],
        ObsoleteField [''size''],
        ObsoleteField [''dtype''],
        ObsoleteField [''space''],
        ObsoleteField [''string_size'']] empty_FieldHandler"

definition JSONHdfNode :: "json_lib \<Rightarrow> json \<Rightarrow> exn + FieldHandler" where
  "JSONHdfNode jl JsonObj = fill_fields jl JsonObj node_fields"

abbreviation node_Name :: "FieldHandler \<Rightarrow> field" where "node_Name n \<equiv> fh_fields n ! 0"
abbreviation node_Type :: "FieldHandler \<Rightarrow> field" where "node_Type n \<equiv> fh_fields n ! 1"
abbreviation node_Config :: "FieldHandler \<Rightarrow> json" where "node_Config n \<equiv> fd_value (fh_fields n ! 2)"
abbreviation node_Children :: "FieldHandler \<Rightarrow> field" where "node_Children n \<equiv> fh_fields n ! 3"

text \<open>The children that are visited: none unless the field was set to an array.\<close>

definition node_children :: "FieldHandler \<Rightarrow> json list" where
  "node_children n =
     (if \<not> fd_got_default (node_Children n) \<and> is_array (fd_value (node_Children n))
      then json_elements (fd_value (node_Children n)) else [])"

text \<open>\<^verbatim>\<open>Config.get_value().at("name").get<std::string>()\<close>.\<close>

definition config_name :: "json \<Rightarrow> exn + string" where
  "config_name c =
     (case c of
        J_object ms \<Rightarrow>
          (case map_of ms ''name'' of
             None \<Rightarrow> Inl (Std_Exception ''key 'name' not found'')
           | Some v \<Rightarrow> json_get_string v)
      | _ \<Rightarrow> Inl (Json_Type_Error ''cannot use at() with this type''))"

text \<open>The branch for a dataset; every exception is caught and logged.\<close>

definition create_dataset_node :: "json_lib \<Rightarrow> 'h hdf5 \<Rightarrow> json \<Rightarrow> node \<Rightarrow> FieldHandler \<Rightarrow> 'h \<Rightarrow> 'h" where
  "create_dataset_node jl lib Value Parent CNode h =
     (case config_name (node_Config CNode) of
        Inl _ \<Rightarrow> h
      | Inr datasetName \<Rightarrow>
          (case h5_has_dataset lib h Parent datasetName of
             Inl _ \<Rightarrow> h
           | Inr False \<Rightarrow>
               (case writeDataset jl lib Parent (node_Config CNode) h of
                  (Inl _, h) \<Rightarrow> h
                | (Inr NewDataset, h) \<Rightarrow>
                    (case h5_get_dataset lib h Parent NewDataset of
                       Some _ \<Rightarrow> h
                     | None \<Rightarrow> snd (writeAttributesIfPresent jl lib (Parent @ [NewDataset]) Value h)))
           | Inr True \<Rightarrow>
               (case h5_get_dataset lib h Parent datasetName of
                  Some _ \<Rightarrow> h
                | None \<Rightarrow> snd (writeAttributesIfPresent jl lib (Parent @ [datasetName]) Value h))))"

text \<open>\<^verbatim>\<open>has_group\<close> followed by \<^verbatim>\<open>create_group\<close> or \<^verbatim>\<open>get_group\<close>.\<close>

definition open_group :: "'h hdf5 \<Rightarrow> node \<Rightarrow> string \<Rightarrow> 'h \<Rightarrow> exn option \<times> 'h" where
  "open_group lib Parent name h =
     (case h5_has_group lib h Parent name of
        Inl e \<Rightarrow> (Some e, h)
      | Inr False \<Rightarrow> h5_create_group lib Parent name h
      | Inr True \<Rightarrow> (h5_get_group lib h Parent name, h))"

text \<open>What the code passes by reference: the file, the stream modules found so far, and the path.\<close>

type_synonym 'h building = "'h \<times> ModuleHDFInfo list \<times> string list"

lemma members_of_subset: "set (members_of dump h i ms) \<subseteq> set ms"
  by (auto simp: members_of_def)

lemma node_fields_ok: "handler_ok node_fields"
  unfolding node_fields_def by (simp add: handler_ok_register handler_ok_empty)

lemma node_fields_nth:
  "fh_fields node_fields =
     [Field [''name''] FT_string (J_string []),
      RequiredField [''type'', ''module''] FT_string (J_string []),
      Field [''config''] json_field_type (J_string []),
      Field [''children''] json_field_type (J_string []),
      Field [''attributes''] json_field_type (J_string []),
      Field [''target''] FT_string (J_string []),
      ObsoleteField [''value'', ''values''],
      ObsoleteField [''stream''],
      ObsoleteField [''size''],
      ObsoleteField [''dtype''],
      ObsoleteField [''space''],
      ObsoleteField [''string_size'']]"
  by (simp add: node_fields_def registerField_def empty_FieldHandler_def Let_def)

lemma node_fields_required: "missing_fields node_fields \<noteq> []"
proof -
  have "map_of (fh_FieldMap node_fields) ''type'' = Some 1" by code_simp
  then have "1 \<in> snd ` set (fh_FieldMap node_fields)" by (force dest: map_of_SomeD)
  then show ?thesis
    by (auto simp: missing_fields_def filter_empty_conv node_fields_nth RequiredField_def Field_def intro: bexI [of _ 1])
qed

lemma fill_fields_object:
  "fill_fields jl j fh = Inr h \<Longrightarrow> missing_fields fh \<noteq> [] \<Longrightarrow>
     \<exists>ms. j = J_object ms \<and> h = fold (process_member (jl_dump jl)) ms fh"
  by (auto simp: fill_fields_def processConfigData_def Let_def split: json.splits prod.splits option.splits if_splits)

text \<open>The children of a node are smaller than the node, which bounds the recursion.\<close>

lemma node_children_smaller:
  assumes "JSONHdfNode jl v = Inr n"
  shows "size_list size (node_children n) < size v"
proof -
  obtain ms where v: "v = J_object ms" and n: "n = fold (process_member (jl_dump jl)) ms node_fields"
    using assms node_fields_required unfolding JSONHdfNode_def by (blast dest: fill_fields_object)
  let ?ms = "members_of (jl_dump jl) node_fields 3 ms"
  have f: "node_Children n = assigned (jl_dump jl) (Field [''children''] json_field_type (J_string [])) ?ms"
    unfolding n process_members [OF node_fields_ok] by (simp add: node_fields_nth numeral_3_eq_3)
  show ?thesis
  proof (cases "node_children n")
    case Nil
    then show ?thesis by (simp add: v)
  next
    case (Cons c cs)
    then have d: "\<not> fd_got_default (node_Children n)" and a: "is_array (fd_value (node_Children n))"
      by (auto simp: node_children_def split: if_splits)
    from d f obtain k x where x: "(k, x) \<in> set ?ms" and val: "fd_value (node_Children n) = x"
      by (auto simp: assigned_def Field_def accepted_def json_field_type_def split: list.splits)
        (metis list.set_intros(1) set_rev)
    then obtain xs where xs: "x = J_array xs" using a by (cases x) auto
    have "(k, x) \<in> set ms" using x members_of_subset by blast
    then have "size x < size v"
      unfolding v by (induction ms) (auto simp: less_Suc_eq_le)
    moreover have "node_children n = xs" using Cons a by (simp add: node_children_def val xs split: if_splits)
    ultimately show ?thesis by (simp add: xs)
  qed
qed

function (sequential) createHDFStructures ::
    "json_lib \<Rightarrow> 'h hdf5 \<Rightarrow> json \<Rightarrow> node \<Rightarrow> 'h building \<Rightarrow> 'h building"
  and create_children :: "json_lib \<Rightarrow> 'h hdf5 \<Rightarrow> json list \<Rightarrow> node \<Rightarrow> 'h building \<Rightarrow> 'h building" where
  "createHDFStructures jl lib Value Parent (h, HDFStreamInfo, Path) =
     (case JSONHdfNode jl Value of
        Inl _ \<Rightarrow> (h, HDFStreamInfo, Path)
      | Inr CNode \<Rightarrow>
          if fd_used_key (node_Type CNode) = ''type'' then
            if field_text (node_Type CNode) = ''group'' then
              let Name = field_text (node_Name CNode) in
              if Name = [] then (h, HDFStreamInfo, Path)
              else
                (case open_group lib Parent Name h of
                   (Some _, h) \<Rightarrow> (h, HDFStreamInfo, Path)
                 | (None, h) \<Rightarrow>
                     let Path = Path @ [Name] in
                     (case writeAttributesIfPresent jl lib (Parent @ [Name]) Value h of
                        (Some _, h) \<Rightarrow> (h, HDFStreamInfo, Path)
                      | (None, h) \<Rightarrow>
                          let (h, HDFStreamInfo, Path) =
                                create_children jl lib (node_children CNode) (Parent @ [Name]) (h, HDFStreamInfo, Path)
                          in (h, HDFStreamInfo, butlast Path)))
            else (h, HDFStreamInfo, Path)
          else if fd_used_key (node_Type CNode) = ''module'' then
            if field_text (node_Type CNode) = ''dataset''
            then (create_dataset_node jl lib Value Parent CNode h, HDFStreamInfo, Path)
            else
              (h, HDFStreamInfo @
                 [\<lparr>mi_WriterModule = field_text (node_Type CNode), mi_HDFParentName = path_string Path,
                   mi_ConfigStream = jl_dump jl (node_Config CNode)\<rparr>], Path)
          else (h, HDFStreamInfo, Path))"
| "create_children jl lib [] Parent st = st"
| "create_children jl lib (Child # Children) Parent st =
     create_children jl lib Children Parent (createHDFStructures jl lib Child Parent st)"
  by pat_completeness auto

termination
proof (relation "measure (\<lambda>x. case x of
    Inl (jl, lib, v, p, st) \<Rightarrow> 2 * size v | Inr (jl, lib, vs, p, st) \<Rightarrow> Suc (2 * size_list size vs))", goal_cases)
  case (2 jl lib Value Parent h HDFStreamInfo Path CNode)
  then show ?case using node_children_smaller [of jl Value] by fastforce
qed simp_all

section \<open>The stream modules of a structure\<close>

text \<open>The stream modules that a description contains, in its order, each with the groups it is in.\<close>

function (sequential) streams_of :: "json_lib \<Rightarrow> json \<Rightarrow> string list \<Rightarrow> ModuleHDFInfo list"
  and streams_in :: "json_lib \<Rightarrow> json list \<Rightarrow> string list \<Rightarrow> ModuleHDFInfo list" where
  "streams_of jl Value groups =
     (case JSONHdfNode jl Value of
        Inl _ \<Rightarrow> []
      | Inr n \<Rightarrow>
          if fd_used_key (node_Type n) = ''type'' \<and> field_text (node_Type n) = ''group'' \<and> field_text (node_Name n) \<noteq> []
          then streams_in jl (node_children n) (groups @ [field_text (node_Name n)])
          else if fd_used_key (node_Type n) = ''module'' \<and> field_text (node_Type n) \<noteq> ''dataset''
          then [\<lparr>mi_WriterModule = field_text (node_Type n), mi_HDFParentName = path_string groups,
                 mi_ConfigStream = jl_dump jl (node_Config n)\<rparr>]
          else [])"
| "streams_in jl [] groups = []"
| "streams_in jl (v # vs) groups = streams_of jl v groups @ streams_in jl vs groups"
  by pat_completeness auto

termination
proof (relation "measure (\<lambda>x. case x of
    Inl (jl, v, g) \<Rightarrow> 2 * size v | Inr (jl, vs, g) \<Rightarrow> Suc (2 * size_list size vs))", goal_cases)
  case (2 jl Value groups n)
  then show ?case using node_children_smaller [of jl Value] by fastforce
qed simp_all

text \<open>Groups can be created and opened, and no attribute of a group fails to be written.\<close>

definition groups_reliable :: "json_lib \<Rightarrow> 'h hdf5 \<Rightarrow> bool" where
  "groups_reliable jl lib \<longleftrightarrow>
     (\<forall>P n h. fst (open_group lib P n h) = None) \<and>
     (\<forall>N v h. fst (writeAttributesIfPresent jl lib N v h) = None)"

lemma structure_streams:
  "groups_reliable jl lib \<Longrightarrow>
     \<exists>h'. createHDFStructures jl lib v P (h, info, path) = (h', info @ streams_of jl v path, path)"
  "groups_reliable jl lib \<Longrightarrow>
     \<exists>h'. create_children jl lib vs P (h, info, path) = (h', info @ streams_in jl vs path, path)"
proof (induction jl v path and jl vs path arbitrary: P h info and P h info rule: streams_of_streams_in.induct)
  case (1 jl v path)
  show ?case
  proof (cases "JSONHdfNode jl v")
    case (Inr n)
    let ?name = "field_text (node_Name n)"
    show ?thesis
    proof (cases "fd_used_key (node_Type n) = ''type'' \<and> field_text (node_Type n) = ''group'' \<and> ?name \<noteq> []")
      case True
      obtain h1 where g: "open_group lib P ?name h = (None, h1)"
        using 1(2) unfolding groups_reliable_def by (metis prod.collapse)
      obtain h2 where w: "writeAttributesIfPresent jl lib (P @ [?name]) v h1 = (None, h2)"
        using 1(2) unfolding groups_reliable_def by (metis prod.collapse)
      obtain h3 where "create_children jl lib (node_children n) (P @ [?name]) (h2, info, path @ [?name]) =
          (h3, info @ streams_in jl (node_children n) (path @ [?name]), path @ [?name])"
        using 1(1) [OF Inr True 1(2)] by blast
      then show ?thesis using Inr True g w by simp
    next
      case False
      then show ?thesis using Inr by (auto simp: Let_def)
    qed
  qed simp
next
  case (3 jl v vs path)
  obtain h1 where "createHDFStructures jl lib v P (h, info, path) = (h1, info @ streams_of jl v path, path)"
    using 3(1,3) by blast
  moreover obtain h2 where "create_children jl lib vs P (h1, info @ streams_of jl v path, path) =
      (h2, (info @ streams_of jl v path) @ streams_in jl vs path, path)"
    using 3(2,3) by blast
  ultimately show ?case by simp
qed simp

text \<open>C10: As long as groups can be opened and their attributes written, building the structure of a
  file finds exactly the stream modules of the description, in its order, and gives each the path
  of the groups that enclose it; malformed nodes, unknown node types, groups without a name and failing
  datasets are skipped and do not disturb the others. The recursion terminates for every
  description.\<close>

theorem structure_finds_streams:
  assumes "groups_reliable jl lib"
  shows "\<exists>h'. create_children jl lib vs [] (h, [], []) = (h', streams_in jl vs [], [])"
  using structure_streams(2) [OF assms, of vs "[]" h "[]" "[]"] by simp

text \<open>A file that is the list of its groups.\<close>

definition list_hdf5 :: "node list hdf5" where
  "list_hdf5 =
     \<lparr>h5_has_group = (\<lambda>h P n. Inr (P @ [n] \<in> set h)), h5_create_group = (\<lambda>P n h. (None, h @ [P @ [n]])),
      h5_get_group = (\<lambda>h P n. None), h5_has_dataset = (\<lambda>h P n. Inr False), h5_get_dataset = (\<lambda>h P n. None),
      h5_create_dataset = (\<lambda>P n d h. (None, h)), h5_attr_exists = (\<lambda>h P n. False),
      h5_attr_remove = (\<lambda>P n h. (None, h)),
      h5_attr_create = (\<lambda>P n d h. if n = [] then (Some (Runtime_Error ''no name''), h) else (None, h))\<rparr>"

definition text_lib :: json_lib where
  "text_lib = \<lparr>jl_dump = (\<lambda>j. ''{}''), jl_parse = (\<lambda>s. Inl (Json_Parse_Error s)), jl_get = (\<lambda>T j. Inr j),
     jl_list_keys = (\<lambda>fs. [])\<rparr>"

definition sample_group :: "string \<Rightarrow> json \<Rightarrow> json list \<Rightarrow> json" where
  "sample_group name attributes children =
     J_object [(''attributes'', attributes), (''children'', J_array children), (''name'', J_string name),
       (''type'', J_string ''group'')]"

definition sample_stream :: json where
  "sample_stream = J_object [(''config'', J_object []), (''module'', J_string ''f144'')]"

definition reliable_hdf5 :: "node list hdf5" where
  "reliable_hdf5 = list_hdf5\<lparr>h5_attr_create := \<lambda>P n d h. (None, h)\<rparr>"

lemma reliable_hdf5_ok: "groups_reliable text_lib reliable_hdf5"
proof -
  have "fst (writeObjectOfAttributes text_lib reliable_hdf5 N ms h) = None" for N ms h
    by (induction ms arbitrary: h) (auto simp: and_then_def remove_existing_def writeScalarAttribute_def
        reliable_hdf5_def list_hdf5_def text_lib_def Let_def split: prod.splits option.splits)
  then show ?thesis
    by (auto simp: groups_reliable_def open_group_def writeAttributesIfPresent_def writeAttributes_def
        reliable_hdf5_def list_hdf5_def split: option.splits json.splits bool.splits)
qed

theorem structure_finds_streams_witness:
  "\<exists>h'. create_children text_lib reliable_hdf5 [sample_group ''entry'' J_null [sample_stream, J_int 1], sample_stream] []
     ([], [], []) = (h', [\<lparr>mi_WriterModule = ''f144'', mi_HDFParentName = ''/entry'', mi_ConfigStream = ''{}''\<rparr>,
       \<lparr>mi_WriterModule = ''f144'', mi_HDFParentName = [], mi_ConfigStream = ''{}''\<rparr>], [])"
proof -
  have "streams_in text_lib [sample_group ''entry'' J_null [sample_stream, J_int 1], sample_stream] [] =
      [\<lparr>mi_WriterModule = ''f144'', mi_HDFParentName = ''/entry'', mi_ConfigStream = ''{}''\<rparr>,
       \<lparr>mi_WriterModule = ''f144'', mi_HDFParentName = [], mi_ConfigStream = ''{}''\<rparr>]" by code_simp
  with structure_finds_streams [OF reliable_hdf5_ok,
      of "[sample_group ''entry'' J_null [sample_stream, J_int 1], sample_stream]" "[]"]
  show ?thesis by simp
qed

section \<open>A group whose attributes cannot be written\<close>

text \<open>When writing the attributes of a group raises, the exception is logged and the group is left, but
  its name stays on the path. Every stream module that follows, here a sibling of the group, is given a
  parent path through the failed group, in which it does not stand.\<close>

theorem failed_attributes_shift_paths:
  assumes "JSONHdfNode jl g = Inr n" and "fd_used_key (node_Type n) = ''type''"
    and "field_text (node_Type n) = ''group''" and "field_text (node_Name n) = name" and "name \<noteq> []"
    and "open_group lib P name h = (None, h1)"
    and "writeAttributesIfPresent jl lib (P @ [name]) g h1 = (Some e, h2)"
    and "JSONHdfNode jl m = Inr k" and "fd_used_key (node_Type k) = ''module''"
    and "field_text (node_Type k) \<noteq> ''dataset''"
  shows "create_children jl lib [g, m] P (h, info, path) =
    (h2, info @ [\<lparr>mi_WriterModule = field_text (node_Type k), mi_HDFParentName = path_string (path @ [name]),
       mi_ConfigStream = jl_dump jl (node_Config k)\<rparr>], path @ [name])"
  using assms by simp

theorem failed_attributes_shift_paths_witness:
  "create_children text_lib list_hdf5 [sample_group ''a'' (J_object [([], J_int 1)]) [], sample_stream] [] ([], [], []) =
     ([[''a'']], [\<lparr>mi_WriterModule = ''f144'', mi_HDFParentName = ''/a'', mi_ConfigStream = ''{}''\<rparr>], [''a''])"
proof -
  let ?g = "sample_group ''a'' (J_object [([], J_int 1)]) []"
  let ?read = "map_sum (\<lambda>_. ()) (\<lambda>n. (fd_used_key (node_Type n), field_text (node_Type n), field_text (node_Name n)))"
  have "?read (JSONHdfNode text_lib ?g) = Inr (''type'', ''group'', ''a'')" by code_simp
  then obtain n where n: "JSONHdfNode text_lib ?g = Inr n" "fd_used_key (node_Type n) = ''type''"
    "field_text (node_Type n) = ''group''" "field_text (node_Name n) = ''a''"
    by (cases "JSONHdfNode text_lib ?g") auto
  have "?read (JSONHdfNode text_lib sample_stream) = Inr (''module'', ''f144'', [])" by code_simp
  then obtain k where k: "JSONHdfNode text_lib sample_stream = Inr k" "fd_used_key (node_Type k) = ''module''"
    "field_text (node_Type k) = ''f144''" by (cases "JSONHdfNode text_lib sample_stream") auto
  have g: "open_group list_hdf5 [] ''a'' [] = (None, [[''a'']])" by code_simp
  have "fst (writeAttributesIfPresent text_lib list_hdf5 [''a''] ?g [[''a'']]) \<noteq> None"
    and "snd (writeAttributesIfPresent text_lib list_hdf5 [''a''] ?g [[''a'']]) = [[''a'']]" by code_simp+
  then obtain e where w: "writeAttributesIfPresent text_lib list_hdf5 ([] @ [''a'']) ?g [[''a'']] = (Some e, [[''a'']])"
    by (cases "writeAttributesIfPresent text_lib list_hdf5 [''a''] ?g [[''a'']]") auto
  have "path_string ([] @ [''a'']) = ''/a''" "jl_dump text_lib (node_Config k) = ''{}''"
    by (simp_all add: path_string_def text_lib_def)
  with failed_attributes_shift_paths [OF n _ g w k(1,2), of "[]" "[]"] k(3) show ?thesis by simp
qed

section \<open>Links\<close>

record 'b ModuleSettings =
  ms_ModuleHDFInfoObj :: ModuleHDFInfo
  ms_Name :: string
  ms_Topic :: string
  ms_Module :: string
  ms_Source :: string
  ms_ConfigStreamJson :: string
  ms_Attributes :: string
  ms_WriterModule :: "'b option"
  ms_isLink :: bool

text \<open>What the links use of the HDF5 library: the group at a path, the parent of a group, and
  \<^verbatim>\<open>H5Oopen\<close> with \<^verbatim>\<open>H5Olink\<close>; \<open>None\<close> stands for a negative identifier.\<close>

record 'h hdf5_links =
  hl_group :: "'h \<Rightarrow> string \<Rightarrow> exn + node"
  hl_parent :: "node \<Rightarrow> node"
  hl_open :: "'h \<Rightarrow> node \<Rightarrow> string \<Rightarrow> node option"
  hl_link :: "node option \<Rightarrow> node \<Rightarrow> string \<Rightarrow> 'h \<Rightarrow> 'h"

text \<open>\<^verbatim>\<open>TargetBase.find("../") != npos\<close>.\<close>

fun contains_dotdot :: "string \<Rightarrow> bool" where
  "contains_dotdot (a # b # c # s) =
     ([a, b, c] = ''../'' \<or> contains_dotdot (b # c # s))"
| "contains_dotdot _ = False"

lemma contains_dotdot_length: "contains_dotdot s \<Longrightarrow> 3 \<le> length s"
  by (induction s rule: contains_dotdot.induct) auto

text \<open>The loop that strips the parent steps.\<close>

function link_target :: "(node \<Rightarrow> node) \<Rightarrow> string \<Rightarrow> node \<Rightarrow> string \<times> node" where
  "link_target parent TargetBase GroupBase =
     (if contains_dotdot TargetBase then link_target parent (drop 3 TargetBase) (parent GroupBase)
      else (TargetBase, GroupBase))"
  by pat_completeness auto

termination
  by (relation "measure (\<lambda>(_, s, _). length s)") (auto dest: contains_dotdot_length)

declare link_target.simps [simp del]

definition addLinkToNode :: "'h hdf5_links \<Rightarrow> node \<Rightarrow> 'b ModuleSettings \<Rightarrow> 'h \<Rightarrow> 'h" where
  "addLinkToNode ll Group LinkSettings h =
     (let (TargetBase, GroupBase) = link_target (hl_parent ll) (ms_Source LinkSettings) Group
      in hl_link ll (hl_open ll h GroupBase TargetBase) Group (ms_Name LinkSettings) h)"

text \<open>The loop stops at the first parent group that cannot be opened.\<close>

fun addLinks :: "'h hdf5_links \<Rightarrow> 'b ModuleSettings list \<Rightarrow> 'h \<Rightarrow> exn option \<times> 'h" where
  "addLinks ll [] h = (None, h)"
| "addLinks ll (l # ls) h =
     (case hl_group ll h (mi_HDFParentName (ms_ModuleHDFInfoObj l)) of
        Inl e \<Rightarrow> (Some e, h)
      | Inr NodeGroup \<Rightarrow> addLinks ll ls (addLinkToNode ll NodeGroup l h))"

lemma contains_dotdot_prefix: "contains_dotdot (''../'' @ s)"
  by simp

lemma link_target_parents:
  "\<not> contains_dotdot s \<Longrightarrow>
     link_target parent (concat (replicate k ''../'') @ s) G = (s, (parent ^^ k) G)"
proof (induction k arbitrary: G)
  case 0
  then show ?case by (simp add: link_target.simps)
next
  case (Suc k)
  have "concat (replicate (Suc k) ''../'') @ s = ''../'' @ concat (replicate k ''../'') @ s" by simp
  then have "link_target parent (concat (replicate (Suc k) ''../'') @ s) G =
      link_target parent (concat (replicate k ''../'') @ s) (parent G)"
    by (simp only: link_target.simps [of parent "''../'' @ concat (replicate k ''../'') @ s"] contains_dotdot_prefix)
      simp
  then show ?case using Suc by (simp add: funpow_swap1)
qed

text \<open>The target of a link that starts with parent steps is looked up in the group reached by those
  steps. But the loop removes three characters and goes up whenever \<^verbatim>\<open>../\<close> occurs anywhere in the target:
  with a parent step in the middle, as in \<^verbatim>\<open>x/../y\<close>, the target becomes \<^verbatim>\<open>./y\<close> in the parent group, while
  the path means \<^verbatim>\<open>y\<close> in the group itself. The loop terminates for every target.\<close>

theorem link_target_resolution:
  assumes "\<not> contains_dotdot s" and "\<not> contains_dotdot (''./'' @ s)"
  shows "link_target parent (concat (replicate k ''../'') @ s) G = (s, (parent ^^ k) G) \<and>
    link_target parent ([c] @ ''/../'' @ s) G = (''./'' @ s, parent G)"
proof
  show "link_target parent (concat (replicate k ''../'') @ s) G = (s, (parent ^^ k) G)"
    using assms(1) by (rule link_target_parents)
  have "contains_dotdot ([c] @ ''/../'' @ s)" by simp
  then show "link_target parent ([c] @ ''/../'' @ s) G = (''./'' @ s, parent G)"
    using assms(2) by (simp add: link_target.simps [of parent "c # _"] link_target.simps [of parent "CHR ''.'' # CHR ''/'' # s"])
qed

theorem link_target_resolution_witness:
  "link_target butlast ''../../det'' [''entry'', ''a'', ''b''] = (''det'', [''entry'']) \<and>
   link_target butlast ''x/../det'' [''entry'', ''a'', ''b''] = (''./det'', [''entry'', ''a''])"
  using link_target_resolution [of "''det''" butlast 2 "[''entry'', ''a'', ''b'']" "CHR ''x''"]
  by (simp add: numeral_2_eq_2)

end
