(* ===== verification/Meta_Data.thy ===== *)
theory Meta_Data
  imports Nexus_Structure
begin

text \<open>
  \<^verbatim>\<open>src/MetaData\<close>: values that writer modules update while a job runs and that are written to the file when it
  ends. A \<^verbatim>\<open>Value\<close> is a shared pointer; the objects it points to are the list \<open>tr_heap\<close>, and a pointer is a
  position in it, or \<open>None\<close> when the value has not been initialised. The tracker keeps pointers, so that it
  sees later changes. A function that writes a value to the file is kept as \<open>wr_dataset\<close>, which gives the
  type and the data for \<^verbatim>\<open>basicDatasetWriter\<close>, or \<open>wr_none\<close>.
\<close>

section \<open>Values\<close>

datatype 'v value_writer = wr_none | wr_dataset "'v \<Rightarrow> h5_data"

record 'v ValueInternal =
  vi_Path :: string
  vi_Name :: string
  vi_Attributes :: "(string \<times> string) list"
  vi_WriteAttributeToFile :: bool
  vi_MetaDataValue :: 'v
  vi_WriteToFile :: "'v value_writer"

record 'v Tracker =
  tr_heap :: "'v ValueInternal list"
  tr_KnownMetaData :: "nat list"

definition empty_Tracker :: "'v Tracker" where
  "empty_Tracker = \<lparr>tr_heap = [], tr_KnownMetaData = []\<rparr>"

type_synonym value_ptr = "nat option"

definition make_Value ::
  "'v \<Rightarrow> string \<Rightarrow> string \<Rightarrow> 'v value_writer \<Rightarrow> bool \<Rightarrow> 'v Tracker \<Rightarrow> value_ptr \<times> 'v Tracker" where
  "make_Value init Path Name HDF5Writer HDF5AttributeWriter t =
     (Some (length (tr_heap t)),
      t\<lparr>tr_heap := tr_heap t @ [\<lparr>vi_Path = Path, vi_Name = Name, vi_Attributes = [],
         vi_WriteAttributeToFile = HDF5AttributeWriter, vi_MetaDataValue = init, vi_WriteToFile = HDF5Writer\<rparr>]\<rparr>)"

definition invalid_value :: exn where
  "invalid_value = Runtime_Error
     (''Unable to set or get meta data value as it has '' @ ''not been initialised.'')"

definition with_value ::
  "value_ptr \<Rightarrow> ('v ValueInternal \<Rightarrow> 'v ValueInternal) \<Rightarrow> 'v Tracker \<Rightarrow> exn option \<times> 'v Tracker" where
  "with_value ptr f t =
     (case ptr of
        None \<Rightarrow> (Some invalid_value, t)
      | Some i \<Rightarrow> (None, t\<lparr>tr_heap := (tr_heap t)[i := f (tr_heap t ! i)]\<rparr>))"

definition setValue :: "value_ptr \<Rightarrow> 'v \<Rightarrow> 'v Tracker \<Rightarrow> exn option \<times> 'v Tracker" where
  "setValue ptr NewValue t = with_value ptr (\<lambda>v. v\<lparr>vi_MetaDataValue := NewValue\<rparr>) t"

definition setAttribute :: "value_ptr \<Rightarrow> string \<Rightarrow> string \<Rightarrow> 'v Tracker \<Rightarrow> exn option \<times> 'v Tracker" where
  "setAttribute ptr Key Value t =
     with_value ptr (\<lambda>v. v\<lparr>vi_Attributes := smap_insert Key Value (vi_Attributes v)\<rparr>) t"

definition getValue :: "value_ptr \<Rightarrow> 'v Tracker \<Rightarrow> exn + 'v" where
  "getValue ptr t =
     (case ptr of None \<Rightarrow> Inl invalid_value | Some i \<Rightarrow> Inr (vi_MetaDataValue (tr_heap t ! i)))"

definition getAttribute :: "value_ptr \<Rightarrow> string \<Rightarrow> 'v Tracker \<Rightarrow> exn + string option" where
  "getAttribute ptr Key t =
     (case ptr of None \<Rightarrow> Inl invalid_value | Some i \<Rightarrow> Inr (map_of (vi_Attributes (tr_heap t ! i)) Key))"

section \<open>Tracker\<close>

definition registerMetaData :: "value_ptr \<Rightarrow> 'v Tracker \<Rightarrow> exn option \<times> 'v Tracker" where
  "registerMetaData ptr t =
     (case ptr of
        None \<Rightarrow> (Some invalid_value, t)
      | Some i \<Rightarrow> (None, t\<lparr>tr_KnownMetaData := tr_KnownMetaData t @ [i]\<rparr>))"

definition clearMetaData :: "'v Tracker \<Rightarrow> 'v Tracker" where
  "clearMetaData t = t\<lparr>tr_KnownMetaData := []\<rparr>"

text \<open>\<^verbatim>\<open>insert\<close> of a JSON object keeps a member that is there.\<close>

definition value_key :: "'v ValueInternal \<Rightarrow> string" where
  "value_key v = vi_Path v @ '':'' @ vi_Name v"

definition insert_new :: "string \<Rightarrow> 'a \<Rightarrow> (string \<times> 'a) list \<Rightarrow> (string \<times> 'a) list" where
  "insert_new k v m = (if map_of m k = None then smap_insert k v m else m)"

definition writeToJSONDict :: "('v \<Rightarrow> json) \<Rightarrow> 'v Tracker \<Rightarrow> (string \<times> json) list \<Rightarrow> (string \<times> json) list" where
  "writeToJSONDict js t JSONNode =
     fold (\<lambda>i. insert_new (value_key (tr_heap t ! i)) (js (vi_MetaDataValue (tr_heap t ! i)))) (tr_KnownMetaData t) JSONNode"

definition basicDatasetWriter :: "'h hdf5 \<Rightarrow> node \<Rightarrow> string \<Rightarrow> h5_data \<Rightarrow> 'h \<Rightarrow> exn option \<times> 'h" where
  "basicDatasetWriter lib nd name d h =
     (case h5_has_dataset lib h nd name of
        Inl e \<Rightarrow> (Some e, h)
      | Inr True \<Rightarrow>
          (Some (Runtime_Error (''Unable to create dataset \"'' @ name @ ''\" at path \"'' @ path_string nd @
             ''\" as it already exists.'')), h)
      | Inr False \<Rightarrow> h5_create_dataset lib nd name d h)"

definition basicAttributeWriter :: "'h hdf5 \<Rightarrow> node \<Rightarrow> string \<Rightarrow> string \<Rightarrow> 'h \<Rightarrow> exn option \<times> 'h" where
  "basicAttributeWriter lib nd Name Value h =
     (if h5_attr_exists lib h nd Name then
        (Some (Runtime_Error (''Unable to create attribute \"'' @ Name @ ''\" at path \"'' @ path_string nd @
           ''\" as it already exists.'')), h)
      else h5_attr_create lib nd Name (H5_scalar ''string'' (J_string Value)) h)"

fun writeAttributesToHDF5File :: "'h hdf5 \<Rightarrow> node \<Rightarrow> (string \<times> string) list \<Rightarrow> 'h \<Rightarrow> exn option \<times> 'h" where
  "writeAttributesToHDF5File lib nd [] h = (None, h)"
| "writeAttributesToHDF5File lib nd ((k, v) # as) h =
     and_then (basicAttributeWriter lib nd k v h) (writeAttributesToHDF5File lib nd as)"

definition value_writeToHDF5File :: "'h hdf5 \<Rightarrow> 'h hdf5_links \<Rightarrow> 'v ValueInternal \<Rightarrow> 'h \<Rightarrow> exn option \<times> 'h" where
  "value_writeToHDF5File lib ll v h =
     (case vi_WriteToFile v of
        wr_none \<Rightarrow> (None, h)
      | wr_dataset enc \<Rightarrow>
          (case hl_group ll h (vi_Path v) of
             Inl e \<Rightarrow> (Some e, h)
           | Inr UsedNode \<Rightarrow>
               and_then (basicDatasetWriter lib UsedNode (vi_Name v) (enc (vi_MetaDataValue v)) h) (\<lambda>h.
                 case h5_get_dataset lib h UsedNode (vi_Name v) of
                   Some e \<Rightarrow> (Some e, h)
                 | None \<Rightarrow>
                     if vi_WriteAttributeToFile v
                     then writeAttributesToHDF5File lib (UsedNode @ [vi_Name v]) (vi_Attributes v) h
                     else (None, h))))"

text \<open>The errors are counted, and the others are written.\<close>

fun write_values :: "'h hdf5 \<Rightarrow> 'h hdf5_links \<Rightarrow> 'v ValueInternal list \<Rightarrow> nat \<times> 'h \<Rightarrow> nat \<times> 'h" where
  "write_values lib ll [] st = st"
| "write_values lib ll (v # vs) (errors, h) =
     (case value_writeToHDF5File lib ll v h of
        (None, h) \<Rightarrow> write_values lib ll vs (errors, h)
      | (Some e, h) \<Rightarrow> write_values lib ll vs (Suc errors, h))"

definition writeToHDF5File :: "'h hdf5 \<Rightarrow> 'h hdf5_links \<Rightarrow> 'v Tracker \<Rightarrow> 'h \<Rightarrow> nat \<times> 'h" where
  "writeToHDF5File lib ll t h = write_values lib ll (map (\<lambda>i. tr_heap t ! i) (tr_KnownMetaData t)) (0, h)"

section \<open>What is reported and written\<close>

definition tracker_ok :: "'v Tracker \<Rightarrow> bool" where
  "tracker_ok t \<longleftrightarrow> (\<forall>i \<in> set (tr_KnownMetaData t). i < length (tr_heap t))"

lemma make_Value_ok: "tracker_ok t \<Longrightarrow> tracker_ok (snd (make_Value v p n w a t))"
  by (fastforce simp: tracker_ok_def make_Value_def)

lemma map_of_insert_new:
  "map_of (insert_new k v m) k' = (if k' = k \<and> map_of m k = None then Some v else map_of m k')"
  by (simp add: insert_new_def map_of_smap_insert)

lemma fold_insert_new:
  "map_of (fold (\<lambda>x. insert_new (f x) (g x)) xs m) k =
     (case map_of m k of
        Some v \<Rightarrow> Some v
      | None \<Rightarrow> map_option g (List.find (\<lambda>x. f x = k) xs))"
  by (induction xs arbitrary: m) (auto simp: map_of_insert_new split: option.splits)

text \<open>C32: A value that is set after it has been registered is seen by the tracker: the report has, for every key that
  is not there yet, the current value of the first registered value with that key, and values that
  were never registered do not appear.\<close>

theorem tracker_reports_current_values:
  assumes "tracker_ok t" and "i < length (tr_heap t)" and "setValue (Some i) x t = (None, t')"
  shows "map_of (writeToJSONDict js t' m) k =
    (case map_of m k of
       Some v \<Rightarrow> Some v
     | None \<Rightarrow>
         map_option (\<lambda>j. js (if j = i then x else vi_MetaDataValue (tr_heap t ! j)))
           (List.find (\<lambda>j. value_key (tr_heap t ! j) = k) (tr_KnownMetaData t)))"
proof -
  have t': "t' = t\<lparr>tr_heap := (tr_heap t)[i := (tr_heap t ! i)\<lparr>vi_MetaDataValue := x\<rparr>]\<rparr>"
    using assms(3) by (simp add: setValue_def with_value_def)
  have key: "value_key (tr_heap t' ! j) = value_key (tr_heap t ! j)" for j
    using assms(2) by (cases "j = i") (simp_all add: t' value_key_def)
  have val: "vi_MetaDataValue (tr_heap t' ! j) = (if j = i then x else vi_MetaDataValue (tr_heap t ! j))" for j
    using assms(2) by (simp add: t')
  have known: "tr_KnownMetaData t' = tr_KnownMetaData t" by (simp add: t')
  show ?thesis unfolding writeToJSONDict_def fold_insert_new key val known ..
qed

theorem tracker_reports_current_values_witness:
  "map_of (writeToJSONDict J_int (snd (setValue (Some 0) 5
     \<lparr>tr_heap = [\<lparr>vi_Path = ''/a'', vi_Name = ''n'', vi_Attributes = [], vi_WriteAttributeToFile = False,
        vi_MetaDataValue = 1, vi_WriteToFile = wr_none\<rparr>], tr_KnownMetaData = [0]\<rparr>)) []) ''/a:n'' = Some (J_int 5)"
proof -
  let ?t = "\<lparr>tr_heap = [\<lparr>vi_Path = ''/a'', vi_Name = ''n'', vi_Attributes = [], vi_WriteAttributeToFile = False,
        vi_MetaDataValue = 1, vi_WriteToFile = wr_none\<rparr>], tr_KnownMetaData = [0]\<rparr> :: int Tracker"
  have "tracker_ok ?t" "0 < length (tr_heap ?t)" by (simp_all add: tracker_ok_def)
  moreover have "setValue (Some 0) 5 ?t = (None, snd (setValue (Some 0) 5 ?t))"
    by (simp add: setValue_def with_value_def)
  ultimately show ?thesis
    by (subst tracker_reports_current_values [of ?t 0 5]) (simp_all add: value_key_def)
qed

lemma write_values_reliable:
  assumes "\<And>v h. v \<in> set vs \<Longrightarrow> fst (value_writeToHDF5File lib ll v h) = None"
  shows "write_values lib ll vs (n, h) = (n, fold (\<lambda>v h. snd (value_writeToHDF5File lib ll v h)) vs h)"
  using assms
proof (induction vs arbitrary: h)
  case (Cons v vs)
  then have "value_writeToHDF5File lib ll v h = (None, snd (value_writeToHDF5File lib ll v h))"
    by (metis list.set_intros(1) prod.collapse)
  then show ?case using Cons by (auto split: prod.splits)
qed simp

end
