(* ===== verification/Hdf_File.thy ===== *)
theory Hdf_File
  imports Nexus_Structure
begin

text \<open>
  \<^verbatim>\<open>src/HDFFile.{h,cpp}\<close>: the HDF5 file of a job, which is created from a description or a template, is
  closed and opened again to switch between the regular mode and the mode with concurrent readers
  (SWMR), and gets its links and metadata.

  \<open>'h\<close> is the content. What the code needs of the library beyond \<open>hdf5\<close> is the record \<open>hdf5_io\<close>; the
  mode in which a file is opened is its first argument.
\<close>

record 'h hdf5_io =
  io_create :: "string \<Rightarrow> exn + 'h"
  io_copy_template :: "string \<Rightarrow> string \<Rightarrow> exn + 'h"
  io_open :: "bool \<Rightarrow> string \<Rightarrow> 'h \<Rightarrow> exn option"
  io_close :: "'h \<Rightarrow> exn option"
  io_flush :: "'h \<Rightarrow> exn option \<times> 'h"
  io_read_attr :: "'h \<Rightarrow> node \<Rightarrow> string \<Rightarrow> exn + string"
  io_version :: string
  io_creator :: string
  io_now :: string

record 'h HDFFile =
  hf_H5FileName :: string
  hf_SWMRMode :: bool
  hf_valid :: bool
  hf_content :: 'h
  hf_ExistingTemplateVersion :: string

section \<open>Creating the file\<close>

definition createFileInRegularMode :: "'h hdf5_io \<Rightarrow> string \<Rightarrow> string \<Rightarrow> bool \<Rightarrow> exn + 'h" where
  "createFileInRegularMode io H5FileName template_path is_legacy_writing =
     (if template_path = [] \<or> is_legacy_writing then io_create io H5FileName
      else io_copy_template io template_path H5FileName)"

definition write_text_attribute :: "'h hdf5 \<Rightarrow> string \<Rightarrow> string \<Rightarrow> 'h \<Rightarrow> exn option \<times> 'h" where
  "write_text_attribute lib name v = h5_attr_create lib [] name (H5_scalar ''string'' (J_string v))"

definition write_common_attributes :: "'h hdf5 \<Rightarrow> 'h hdf5_io \<Rightarrow> string \<Rightarrow> 'h \<Rightarrow> exn option \<times> 'h" where
  "write_common_attributes lib io file_name h =
     and_then (and_then (and_then
       (write_text_attribute lib ''HDF5_Version'' (io_version io) h)
       (write_text_attribute lib ''file_name'' file_name))
       (write_text_attribute lib ''creator'' (''kafka-to-nexus commit '' @ io_creator io)))
       (write_text_attribute lib ''file_time'' (io_now io))"

definition write_version_if_present :: "string \<Rightarrow> 'h hdf5 \<Rightarrow> json \<Rightarrow> 'h \<Rightarrow> exn option \<times> 'h" where
  "write_version_if_present key lib NexusStructure h =
     (case json_find key NexusStructure of
        Some (J_string v) \<Rightarrow> write_text_attribute lib key v h
      | _ \<Rightarrow> (None, h))"

definition write_dynamic_version_if_present :: "'h hdf5 \<Rightarrow> json \<Rightarrow> 'h \<Rightarrow> exn option \<times> 'h" where
  "write_dynamic_version_if_present = write_version_if_present ''dynamic_version''"

definition write_template_version_if_present :: "'h hdf5 \<Rightarrow> json \<Rightarrow> 'h \<Rightarrow> exn option \<times> 'h" where
  "write_template_version_if_present = write_version_if_present ''template_version''"

definition read_template_version_if_present :: "'h hdf5 \<Rightarrow> 'h hdf5_io \<Rightarrow> 'h \<Rightarrow> exn + string" where
  "read_template_version_if_present lib io h =
     (if h5_attr_exists lib h [] ''template_version'' then io_read_attr io h [] ''template_version'' else Inr [])"

text \<open>The result is the template version found in the file.\<close>

definition write_nexus_file_metadata ::
  "'h hdf5 \<Rightarrow> 'h hdf5_io \<Rightarrow> string \<Rightarrow> json \<Rightarrow> 'h \<Rightarrow> (exn + string) \<times> 'h" where
  "write_nexus_file_metadata lib io file_name NexusStructure h =
     (case and_then (write_common_attributes lib io file_name h)
             (write_dynamic_version_if_present lib NexusStructure) of
        (Some e, h) \<Rightarrow> (Inl e, h)
      | (None, h) \<Rightarrow> (read_template_version_if_present lib io h, h))"

definition structure_children :: "json \<Rightarrow> json list" where
  "structure_children NexusStructure =
     (case json_find ''children'' NexusStructure of Some (J_array cs) \<Rightarrow> cs | _ \<Rightarrow> [])"

text \<open>The template version, the stream modules found, and the content; or the exception.\<close>

definition hdf_init ::
  "json_lib \<Rightarrow> 'h hdf5 \<Rightarrow> 'h hdf5_io \<Rightarrow> string \<Rightarrow> json \<Rightarrow> string \<Rightarrow> bool \<Rightarrow> 'h
     \<Rightarrow> exn + string \<times> ModuleHDFInfo list \<times> 'h" where
  "hdf_init jl lib io file_name NexusStructure template_path is_legacy_writing h =
     (let (h, info, path) = create_children jl lib (structure_children NexusStructure) [] (h, [], []);
          (v, h) = (if template_path \<noteq> [] \<or> is_legacy_writing
                    then write_nexus_file_metadata lib io file_name NexusStructure h
                    else (case write_template_version_if_present lib NexusStructure h of
                            (Some e, h) \<Rightarrow> (Inl e, h) | (None, h) \<Rightarrow> (Inr [], h)))
      in case v of
           Inl _ \<Rightarrow> Inl (Runtime_Error ''HDFFile failed to initialize!'')
         | Inr version \<Rightarrow>
             (case writeAttributesIfPresent jl lib [] NexusStructure h of
                (Some _, _) \<Rightarrow> Inl (Runtime_Error ''HDFFile failed to initialize!'')
              | (None, h) \<Rightarrow> Inr (version, info, h)))"

definition make_HDFFile ::
  "json_lib \<Rightarrow> 'h hdf5 \<Rightarrow> 'h hdf5_io \<Rightarrow> json \<Rightarrow> string \<Rightarrow> bool \<Rightarrow> string
     \<Rightarrow> exn + 'h HDFFile \<times> ModuleHDFInfo list" where
  "make_HDFFile jl lib io NexusStructure template_path is_legacy_writing FileName =
     (if FileName = [] then Inl (Runtime_Error ''HDF file name must not be empty.'')
      else case createFileInRegularMode io FileName template_path is_legacy_writing of
        Inl e \<Rightarrow> Inl e
      | Inr h \<Rightarrow>
          (case hdf_init jl lib io FileName NexusStructure template_path is_legacy_writing h of
             Inl e \<Rightarrow> Inl e
           | Inr (version, info, h) \<Rightarrow>
               Inr (\<lparr>hf_H5FileName = FileName, hf_SWMRMode = False, hf_valid = True, hf_content = h,
                     hf_ExistingTemplateVersion = version\<rparr>, info)))"

section \<open>Modes\<close>

definition closeFile :: "'h hdf5_io \<Rightarrow> 'h HDFFile \<Rightarrow> exn option \<times> 'h HDFFile" where
  "closeFile io f =
     (if hf_valid f then
        (case io_close io (hf_content f) of
           None \<Rightarrow> (None, f\<lparr>hf_valid := False\<rparr>)
         | Some e \<Rightarrow>
             if is_runtime_error e
             then (Some (Runtime_Error (''HDFFile failed to close.  Filename: '' @ hf_H5FileName f @ ''  Trace:'' @
                     exn_what e)), f)
             else (Some e, f))
      else (None, f))"

definition open_in_mode :: "'h hdf5_io \<Rightarrow> bool \<Rightarrow> 'h HDFFile \<Rightarrow> exn option \<times> 'h HDFFile" where
  "open_in_mode io swmr f =
     (case io_open io swmr (hf_H5FileName f) (hf_content f) of
        Some e \<Rightarrow> (Some e, f)
      | None \<Rightarrow> (None, f\<lparr>hf_valid := True\<rparr>))"

definition openFileInSWMRMode :: "'h hdf5_io \<Rightarrow> 'h HDFFile \<Rightarrow> exn option \<times> 'h HDFFile" where
  "openFileInSWMRMode io = open_in_mode io True"

definition openFileInRegularMode :: "'h hdf5_io \<Rightarrow> 'h HDFFile \<Rightarrow> exn option \<times> 'h HDFFile" where
  "openFileInRegularMode io = open_in_mode io False"

definition openInSWMRMode :: "'h hdf5_io \<Rightarrow> 'h HDFFile \<Rightarrow> exn option \<times> 'h HDFFile" where
  "openInSWMRMode io f =
     (if \<not> hf_SWMRMode f then
        and_then (and_then (closeFile io f) (openFileInSWMRMode io)) (\<lambda>f. (None, f\<lparr>hf_SWMRMode := True\<rparr>))
      else (None, f))"

definition openInRegularMode :: "'h hdf5_io \<Rightarrow> 'h HDFFile \<Rightarrow> exn option \<times> 'h HDFFile" where
  "openInRegularMode io f =
     (if hf_SWMRMode f then
        and_then (and_then (closeFile io f) (openFileInRegularMode io)) (\<lambda>f. (None, f\<lparr>hf_SWMRMode := False\<rparr>))
      else (None, f))"

definition isSWMRMode :: "'h HDFFile \<Rightarrow> bool" where
  "isSWMRMode f = hf_SWMRMode f"

definition isRegularMode :: "'h HDFFile \<Rightarrow> bool" where
  "isRegularMode f \<longleftrightarrow> \<not> hf_SWMRMode f"

definition hdf_flush :: "'h hdf5_io \<Rightarrow> 'h HDFFile \<Rightarrow> exn option \<times> 'h HDFFile" where
  "hdf_flush io f =
     (if hf_valid f then
        (case io_flush io (hf_content f) of
           (None, h) \<Rightarrow> (None, f\<lparr>hf_content := h\<rparr>)
         | (Some e, h) \<Rightarrow>
             (Some (if is_runtime_error e then Runtime_Error (''HDFFile failed to flush  what: '' @ exn_what e) else e),
              f\<lparr>hf_content := h\<rparr>))
      else (None, f))"

section \<open>Finishing the file\<close>

text \<open>Working on the root group of a handle that is not valid raises; the callers log it.\<close>

definition on_root :: "('h \<Rightarrow> exn option \<times> 'h) \<Rightarrow> 'h HDFFile \<Rightarrow> exn option \<times> 'h HDFFile" where
  "on_root act f =
     (if hf_valid f then let (e, h) = act (hf_content f) in (e, f\<lparr>hf_content := h\<rparr>)
      else (Some (Runtime_Error ''invalid file''), f))"

definition file_addLinks ::
  "'h hdf5_io \<Rightarrow> 'h hdf5_links \<Rightarrow> 'b ModuleSettings list \<Rightarrow> 'h HDFFile \<Rightarrow> 'h HDFFile" where
  "file_addLinks io ll LinkSettingsList f =
     snd (and_then (openInRegularMode io f) (on_root (addLinks ll LinkSettingsList)))"

definition addMetaData :: "'h hdf5_io \<Rightarrow> ('h \<Rightarrow> exn option \<times> 'h) \<Rightarrow> 'h HDFFile \<Rightarrow> 'h HDFFile" where
  "addMetaData io write_tracker f =
     snd (and_then (openInRegularMode io f) (on_root write_tracker))"

text \<open>\<^verbatim>\<open>FileWriterTask::switchToWriteMode\<close>, \<^verbatim>\<open>isInWriteMode\<close> and \<^verbatim>\<open>writeLinks\<close> pass on to the file.\<close>

definition switchToWriteMode :: "'h hdf5_io \<Rightarrow> 'h HDFFile \<Rightarrow> exn option \<times> 'h HDFFile" where
  "switchToWriteMode io f = (if isRegularMode f then openInSWMRMode io f else (None, f))"

lemma and_then_None: "fst (and_then r k) = None \<Longrightarrow> fst r = None \<and> and_then r k = k (snd r)"
  by (cases r) (auto simp: and_then_def split: option.splits)

text \<open>Switching the mode changes neither name nor content. When it succeeds, the file is open in the mode
  asked for. When it raises, the mode on record is the old one.\<close>

definition same_file :: "'h HDFFile \<Rightarrow> 'h HDFFile \<Rightarrow> bool" where
  "same_file f g \<longleftrightarrow> hf_content g = hf_content f \<and> hf_H5FileName g = hf_H5FileName f \<and>
     hf_ExistingTemplateVersion g = hf_ExistingTemplateVersion f"

lemma switch_mode:
  assumes "(swmr \<and> openInSWMRMode io f = (r, g)) \<or> (\<not> swmr \<and> openInRegularMode io f = (r, g))" and "hf_valid f"
  shows "same_file f g \<and>
    (if r = None then hf_SWMRMode g = swmr \<and> hf_valid g else hf_SWMRMode g = hf_SWMRMode f \<and> hf_SWMRMode f \<noteq> swmr)"
  using assms
  by (auto simp: openInSWMRMode_def openInRegularMode_def closeFile_def openFileInSWMRMode_def
      openFileInRegularMode_def open_in_mode_def and_then_def same_file_def split: if_splits option.splits)

text \<open>A file that has been closed for a change of mode and cannot be opened again stays closed, while
  its mode is still reported as the old one. After a failed change to SWMR mode the later steps that
  add links and metadata therefore find nothing to switch, do not try to open the file, fail on the
  invalid handle, and leave the file without them; no exception tells the caller.\<close>

lemma failed_switch_loses_metadata:
  assumes "hf_valid f" and "\<not> hf_SWMRMode f" and "io_close io (hf_content f) = None"
    and "io_open io True (hf_H5FileName f) (hf_content f) = Some e"
  shows "\<exists>g. openInSWMRMode io f = (Some e, g) \<and> isRegularMode g \<and> same_file f g \<and>
    addMetaData io write_tracker g = g \<and> file_addLinks io ll links g = g"
  using assms
  by (simp add: openInSWMRMode_def closeFile_def openFileInSWMRMode_def open_in_mode_def and_then_def
      isRegularMode_def same_file_def addMetaData_def file_addLinks_def openInRegularMode_def on_root_def)

end
