(* ===== verification/Writer_Registry.thy ===== *)
theory Writer_Registry
  imports Json_Config
begin

text \<open>
  \<^verbatim>\<open>src/WriterRegistrar.{h,cpp}\<close>, the registry of writer modules, and \<^verbatim>\<open>src/WriterModuleBase.{h,cpp}\<close>, what
  all writer modules have in common. The hash function (\<^verbatim>\<open>std::hash\<close>) is an argument. The factories of
  the registry are values of type \<open>'f\<close>.
\<close>

section \<open>The registry\<close>

record ModuleFlatbufferID =
  fi_Id :: string
  fi_Name :: string

type_synonym 'f registry = "(nat \<times> 'f \<times> ModuleFlatbufferID) list"

definition getWriterModuleHash :: "(string \<Rightarrow> nat) \<Rightarrow> ModuleFlatbufferID \<Rightarrow> nat" where
  "getWriterModuleHash hash ID = hash (fi_Id ID @ fi_Name ID)"

definition getFactoryIdsAndNames :: "'f registry \<Rightarrow> ModuleFlatbufferID list" where
  "getFactoryIdsAndNames Factories = map (\<lambda>(_, _, ID). ID) Factories"

definition find_if :: "('f \<times> ModuleFlatbufferID \<Rightarrow> bool) \<Rightarrow> 'f registry \<Rightarrow> ('f \<times> ModuleFlatbufferID) option" where
  "find_if P Factories = find P (map snd Factories)"

definition find_module :: "string \<Rightarrow> 'f registry \<Rightarrow> exn + 'f \<times> ModuleFlatbufferID" where
  "find_module ModuleName Factories =
     (case find_if (\<lambda>(_, ID). fi_Name ID = ModuleName) Factories of
        Some m \<Rightarrow> Inr m
      | None \<Rightarrow>
          (case find_if (\<lambda>(_, ID). fi_Id ID = ModuleName) Factories of
             Some m \<Rightarrow> Inr m
           | None \<Rightarrow> Inl (Out_Of_Range (''Unable to find module with name/id \"'' @ ModuleName))))"

definition find_module_hash :: "nat \<Rightarrow> 'f registry \<Rightarrow> exn + 'f \<times> ModuleFlatbufferID" where
  "find_module_hash ModuleHash Factories =
     (case map_of Factories ModuleHash of
        Some m \<Rightarrow> Inr m
      | None \<Rightarrow> Inl (Out_Of_Range ''map::at''))"

definition clear_registry :: "'f registry \<Rightarrow> 'f registry" where
  "clear_registry Factories = []"

definition addWriterModule ::
  "(string \<Rightarrow> nat) \<Rightarrow> ModuleFlatbufferID \<Rightarrow> 'f \<Rightarrow> 'f registry \<Rightarrow> exn + 'f registry" where
  "addWriterModule hash ID Value Factories =
     (if length (fi_Id ID) \<noteq> 4 then
        Inl (Runtime_Error ''The number of characters in the Flatbuffer id string must be 4.'')
      else if fi_Name ID = ''dataset'' then
        Inl (Runtime_Error ''The writer module name \"dataset\" has been reserved and can not be used.'')
      else
        let ModuleHash = getWriterModuleHash hash ID in
        if map_of Factories ModuleHash \<noteq> None then
          Inl (Runtime_Error (''Writer module with name \"'' @ fi_Name ID @ ''\" that processes \"'' @ fi_Id ID @
            ''\" flatbuffers already exists.''))
        else if find_if (\<lambda>(_, CID). fi_Name CID = fi_Name ID) Factories \<noteq> None then
          Inl (Runtime_Error (''Writer module with name \"'' @ fi_Name ID @ ''\" already exists.''))
        else Inr (smap_insert ModuleHash (Value, ID) Factories))"

section \<open>What a registry contains\<close>

inductive registry_built :: "(string \<Rightarrow> nat) \<Rightarrow> 'f registry \<Rightarrow> bool" for hash where
  built_empty: "registry_built hash []"
| built_add: "registry_built hash r \<Longrightarrow> addWriterModule hash ID v r = Inr r' \<Longrightarrow> registry_built hash r'"

inductive_cases registry_builtE: "registry_built hash r"

definition registry_ok :: "(string \<Rightarrow> nat) \<Rightarrow> 'f registry \<Rightarrow> bool" where
  "registry_ok hash r \<longleftrightarrow> smap_ok r \<and> distinct (map (\<lambda>(_, _, ID). fi_Name ID) r) \<and>
     (\<forall>(k, _, ID) \<in> set r. k = getWriterModuleHash hash ID \<and> length (fi_Id ID) = 4 \<and> fi_Name ID \<noteq> ''dataset'')"

lemma smap_insert_new:
  "map_of m k = None \<Longrightarrow> \<exists>a b. m = a @ b \<and> smap_insert k v m = a @ (k, v) # b"
proof (induction k v m rule: smap_insert.induct)
  case (2 k v k' v' m)
  show ?case
  proof (cases "k < k'")
    case True
    then show ?thesis by (intro exI [of _ "[]"] exI [of _ "(k', v') # m"]) simp
  next
    case False
    with 2 obtain a b where "m = a @ b" "smap_insert k v m = a @ (k, v) # b" by (auto split: if_splits)
    with False 2(2) show ?thesis by (intro exI [of _ "(k', v') # a"] exI [of _ b]) (auto split: if_splits)
  qed
qed simp

lemma find_if_None: "find_if P r = None \<longleftrightarrow> (\<forall>x \<in> set r. \<not> P (snd x))"
  by (auto simp: find_if_def find_None_iff)

lemma find_if_in: "find_if P r = Some m \<Longrightarrow> m \<in> snd ` set r \<and> P m"
  by (force simp: find_if_def find_Some_iff in_set_conv_nth)

lemma registry_ok_add [keeps]:
  assumes "registry_ok hash r" and "addWriterModule hash ID v r = Inr r'"
  shows "registry_ok hash r'"
proof -
  let ?k = "getWriterModuleHash hash ID"
  from assms(2) have g: "length (fi_Id ID) = 4" "fi_Name ID \<noteq> ''dataset''" "map_of r ?k = None"
    "\<forall>x \<in> set r. fi_Name (snd (snd x)) \<noteq> fi_Name ID" and r': "r' = smap_insert ?k (v, ID) r"
    by (cases "map_of r ?k"; auto simp: addWriterModule_def Let_def find_if_None case_prod_unfold split: if_splits)+
  obtain a b where ab: "r = a @ b" "r' = a @ (?k, v, ID) # b"
    using smap_insert_new [OF g(3), of "(v, ID)"] r' by blast
  have "smap_ok r'" using assms(1) by (simp add: registry_ok_def r' smap_ok_insert)
  moreover have "fi_Name ID \<notin> (\<lambda>x. fi_Name (snd (snd x))) ` set r" using g(4) by force
  then have "distinct (map (\<lambda>(_, _, ID). fi_Name ID) r')"
    using assms(1) unfolding registry_ok_def ab case_prod_unfold by auto
  moreover have "\<forall>(k, _, ID) \<in> set r'. k = getWriterModuleHash hash ID \<and> length (fi_Id ID) = 4 \<and> fi_Name ID \<noteq> ''dataset''"
    using assms(1) g by (auto simp: registry_ok_def ab)
  ultimately show ?thesis by (simp add: registry_ok_def)
qed

lemma registry_built_ok: "registry_built hash r \<Longrightarrow> registry_ok hash r"
proof (induction rule: registry_built.induct)
  case built_empty
  show ?case by (simp add: registry_ok_def smap_ok_def)
qed (rule registry_ok_add)

lemma find_unique:
  assumes "distinct (map f xs)" and "x \<in> set xs"
  shows "find (\<lambda>y. f y = f x) xs = Some x"
  using assms by (induction xs) (auto simp: image_iff)

text \<open>In every registry that can be built, a module is found by its name and by its hash, and what is
  found is that module: no two modules share a name, none is called \<^verbatim>\<open>dataset\<close>, and flatbuffer ids have
  four characters. A name that no module has is taken as a flatbuffer id, and when no module has that
  id either, \<^verbatim>\<open>std::out_of_range\<close> is raised.\<close>

theorem registry_lookup:
  assumes "registry_built hash r"
  shows "(\<forall>(k, f, ID) \<in> set r. find_module (fi_Name ID) r = Inr (f, ID) \<and>
            find_module_hash (getWriterModuleHash hash ID) r = Inr (f, ID)) \<and>
    (case find_module n r of
       Inr (f, ID) \<Rightarrow> (f, ID) \<in> snd ` set r \<and> n \<noteq> ''dataset'' \<and>
         (fi_Name ID = n \<or> fi_Id ID = n \<and> (\<forall>(_, _, other) \<in> set r. fi_Name other \<noteq> n))
     | Inl e \<Rightarrow> (\<exists>s. e = Out_Of_Range s) \<and> (\<forall>(_, _, other) \<in> set r. fi_Name other \<noteq> n \<and> fi_Id other \<noteq> n))"
proof
  have ok: "registry_ok hash r" using registry_built_ok [OF assms] .
  show "\<forall>(k, f, ID) \<in> set r. find_module (fi_Name ID) r = Inr (f, ID) \<and>
      find_module_hash (getWriterModuleHash hash ID) r = Inr (f, ID)"
  proof (clarify, intro conjI)
    fix k f ID assume m: "(k, f, ID) \<in> set r"
    have d: "distinct (map (\<lambda>x. fi_Name (snd x)) (map snd r))"
      using ok by (simp add: registry_ok_def case_prod_unfold comp_def)
    have "find (\<lambda>y. fi_Name (snd y) = fi_Name (snd (f, ID))) (map snd r) = Some (f, ID)"
      using m by (intro find_unique [OF d]) force
    then show "find_module (fi_Name ID) r = Inr (f, ID)"
      by (simp add: find_module_def find_if_def case_prod_unfold)
    have "k = getWriterModuleHash hash ID" "map_of r k = Some (f, ID)"
      using ok m smap_ok_in_set [of r k "(f, ID)"] by (auto simp: registry_ok_def)
    then show "find_module_hash (getWriterModuleHash hash ID) r = Inr (f, ID)" by (simp add: find_module_hash_def)
  qed
  show "case find_module n r of
       Inr (f, ID) \<Rightarrow> (f, ID) \<in> snd ` set r \<and> n \<noteq> ''dataset'' \<and>
         (fi_Name ID = n \<or> fi_Id ID = n \<and> (\<forall>(_, _, other) \<in> set r. fi_Name other \<noteq> n))
     | Inl e \<Rightarrow> (\<exists>s. e = Out_Of_Range s) \<and> (\<forall>(_, _, other) \<in> set r. fi_Name other \<noteq> n \<and> fi_Id other \<noteq> n)"
    using ok unfolding find_module_def registry_ok_def
    by (auto simp: find_if_None dest!: find_if_in split: option.splits)
qed

theorem registry_lookup_witness:
  "find_module ''f144'' [(2, (), \<lparr>fi_Id = ''f144'', fi_Name = ''f144''\<rparr>)] = Inr ((), \<lparr>fi_Id = ''f144'', fi_Name = ''f144''\<rparr>)"
proof -
  have "addWriterModule (\<lambda>_. 2) \<lparr>fi_Id = ''f144'', fi_Name = ''f144''\<rparr> () [] =
      Inr [(2, (), \<lparr>fi_Id = ''f144'', fi_Name = ''f144''\<rparr>)]"
    by (simp add: addWriterModule_def getWriterModuleHash_def find_if_def)
  then have "registry_built (\<lambda>_. 2) [(2, (), \<lparr>fi_Id = ''f144'', fi_Name = ''f144''\<rparr>)]"
    by (rule built_add [OF built_empty])
  from registry_lookup [OF this] show ?thesis by auto
qed

section \<open>Writer modules\<close>

text \<open>The object of a writer module: what \<^verbatim>\<open>Base\<close> keeps, and the state of the subclass. The pointers to the
  fields that enable extra modules are positions in the list of fields.\<close>

record 'i Base =
  wm_WriterModuleId :: string
  wm_WriteRepeatedTimestamps :: bool
  wm_NX_class :: string
  wm_ConfigHandler :: FieldHandler
  wm_FoundExtraModules :: "string list"
  wm_ExtraModuleEnabled :: "(string \<times> nat) list"
  wm_WriteCount :: nat
  wm_impl :: 'i

definition bool_field_type :: field_type where
  "bool_field_type = FT_other (\<lambda>j. case j of J_bool _ \<Rightarrow> Some j | _ \<Rightarrow> None)"

definition add_extra_module :: "'f registry \<Rightarrow> string \<Rightarrow> 'i Base \<Rightarrow> 'i Base" where
  "add_extra_module reg Module b =
     (case find_module Module reg of
        Inl _ \<Rightarrow> b
      | Inr (_, ID) \<Rightarrow>
          b\<lparr>wm_FoundExtraModules := wm_FoundExtraModules b @ [fi_Name ID],
            wm_ExtraModuleEnabled :=
              smap_insert (fi_Name ID) (length (fh_fields (wm_ConfigHandler b))) (wm_ExtraModuleEnabled b),
            wm_ConfigHandler :=
              registerField (Field [''enable_'' @ fi_Name ID] bool_field_type (J_bool True)) (wm_ConfigHandler b)\<rparr>)"

definition make_Base ::
  "'f registry \<Rightarrow> string \<Rightarrow> bool \<Rightarrow> string \<Rightarrow> string list \<Rightarrow> 'i \<Rightarrow> 'i Base" where
  "make_Base reg WriterModuleId AcceptRepeatedTimestamps NX_class ExtraModules impl =
     fold (add_extra_module reg) ExtraModules
       \<lparr>wm_WriterModuleId = WriterModuleId, wm_WriteRepeatedTimestamps = AcceptRepeatedTimestamps,
        wm_NX_class = NX_class,
        wm_ConfigHandler = fold registerField
          [Field [''source''] FT_string (J_string []), Field [''topic''] FT_string (J_string []),
           Field [''writer_module''] FT_string (J_string [])] empty_FieldHandler,
        wm_FoundExtraModules = [], wm_ExtraModuleEnabled = [], wm_WriteCount = 0, wm_impl = impl\<rparr>"

text \<open>The value of the field that belongs to a module; \<^verbatim>\<open>ExtraModuleEnabled.at\<close> finds every module that was
  found.\<close>

definition getEnabledExtraModules :: "'i Base \<Rightarrow> string list" where
  "getEnabledExtraModules b =
     filter (\<lambda>Item. case map_of (wm_ExtraModuleEnabled b) Item of
         Some i \<Rightarrow> fd_value (fh_fields (wm_ConfigHandler b) ! i) = J_bool True
       | None \<Rightarrow> False) (wm_FoundExtraModules b)"

definition hasExtraModules :: "'i Base \<Rightarrow> bool" where
  "hasExtraModules b \<longleftrightarrow> wm_FoundExtraModules b \<noteq> []"

definition base_write :: "(bool \<times> 'i) \<Rightarrow> 'i Base \<Rightarrow> 'i Base" where
  "base_write written b =
     (let b = b\<lparr>wm_impl := snd written\<rparr> in
      if fst written then b\<lparr>wm_WriteCount := wm_WriteCount b + 1\<rparr> else b)"

definition parse_config ::
  "(json \<Rightarrow> string) \<Rightarrow> (field list \<Rightarrow> string) \<Rightarrow> (string \<Rightarrow> exn + json) \<Rightarrow> ('i Base \<Rightarrow> exn option \<times> 'i Base)
     \<Rightarrow> string \<Rightarrow> 'i Base \<Rightarrow> exn option \<times> 'i Base" where
  "parse_config dump list_keys parse config_post_processing ConfigurationStream b =
     (case processConfigData_string dump list_keys parse ConfigurationStream (wm_ConfigHandler b) of
        (Some e, fh) \<Rightarrow> (Some e, b\<lparr>wm_ConfigHandler := fh\<rparr>)
      | (None, fh) \<Rightarrow> config_post_processing (b\<lparr>wm_ConfigHandler := fh\<rparr>))"

lemma no_extra_modules: "wm_FoundExtraModules (make_Base reg wid accept nx [] impl) = []"
  by (simp add: make_Base_def)

lemma getEnabledExtraModules_found: "set (getEnabledExtraModules b) \<subseteq> set (wm_FoundExtraModules b)"
  by (auto simp: getEnabledExtraModules_def)

end
