(* ===== verification/Partition_Filter.thy ===== *)
theory Partition_Filter
  imports Filter_Interfaces
begin

text \<open>
  \<^verbatim>\<open>src/Stream/PartitionFilter.{h,cpp}\<close>: deciding from the poll status alone whether a partition is
  done. The clock (\<^verbatim>\<open>Stream/Clock.h\<close>) is read inside the operations; every reading is an argument:
  \<open>now\<close> where the code reads it once, and \<open>now1\<close>, \<open>now2\<close> in the order of the readings where it reads
  it twice.
\<close>

record PartitionFilter =
  pf_state :: PartitionState
  pf_status_occurrence_time :: time_point
  pf_stop_time :: time_point
  pf_stop_leeway :: duration
  pf_time_limit :: duration
  pf_at_end_of_partition :: bool

definition make_PartitionFilter :: "time_point \<Rightarrow> duration \<Rightarrow> duration \<Rightarrow> PartitionFilter" where
  "make_PartitionFilter stop_time stop_time_leeway time_limit =
     \<lparr>pf_state = PST_DEFAULT, pf_status_occurrence_time = tp_max,
      pf_stop_time =
        (if s64 (tp_max - stop_time) \<le> stop_time_leeway
         then s64 (stop_time - stop_time_leeway) else stop_time),
      pf_stop_leeway = stop_time_leeway, pf_time_limit = time_limit,
      pf_at_end_of_partition = False\<rparr>"

definition pf_setStopTime :: "time_point \<Rightarrow> PartitionFilter \<Rightarrow> PartitionFilter" where
  "pf_setStopTime stop p = p\<lparr>pf_stop_time := stop\<rparr>"

definition currentPartitionState :: "PartitionFilter \<Rightarrow> PartitionState" where
  "currentPartitionState p = pf_state p"

definition hasErrorState :: "PartitionFilter \<Rightarrow> bool" where
  "hasErrorState p \<longleftrightarrow> pf_state p = PST_ERROR"

definition getStatusOccurrenceTime :: "PartitionFilter \<Rightarrow> time_point" where
  "getStatusOccurrenceTime p = pf_status_occurrence_time p"

definition hasExceededTimeLimit :: "time_point \<Rightarrow> PartitionFilter \<Rightarrow> bool" where
  "hasExceededTimeLimit now p \<longleftrightarrow> now > s64 (pf_status_occurrence_time p + pf_time_limit p)"

definition hasTopicTimedOut :: "time_point \<Rightarrow> PartitionFilter \<Rightarrow> bool" where
  "hasTopicTimedOut now p \<longleftrightarrow> hasExceededTimeLimit now p \<and> pf_state p = PST_TIMEOUT"

definition updateStatusOccurrenceTime ::
  "time_point \<Rightarrow> PartitionState \<Rightarrow> PartitionFilter \<Rightarrow> PartitionFilter" where
  "updateStatusOccurrenceTime now comparison_state p =
     (if pf_state p \<noteq> comparison_state
      then p\<lparr>pf_state := comparison_state, pf_status_occurrence_time := now\<rparr> else p)"

fun shouldStopPartition ::
  "time_point \<Rightarrow> time_point \<Rightarrow> PollStatus \<Rightarrow> PartitionFilter \<Rightarrow> bool \<times> PartitionFilter" where
  "shouldStopPartition now1 now2 PS_Message p =
     (False, p\<lparr>pf_at_end_of_partition := False, pf_state := PST_DEFAULT\<rparr>)"
| "shouldStopPartition now1 now2 PS_EndOfPartition p =
     (False, p\<lparr>pf_at_end_of_partition := True, pf_state := PST_END_OF_PARTITION\<rparr>)"
| "shouldStopPartition now1 now2 PS_TimedOut p =
     (let p = updateStatusOccurrenceTime now1 PST_TIMEOUT p in
      if \<not> pf_at_end_of_partition p then (False, p)
      else (now2 > s64 (pf_stop_time p + pf_stop_leeway p), p))"
| "shouldStopPartition now1 now2 PS_Error p =
     (let p = updateStatusOccurrenceTime now1 PST_ERROR p in (hasExceededTimeLimit now2 p, p))"

interpretation pf: partition_filter shouldStopPartition currentPartitionState pf_setStopTime
  by unfold_locales
    (simp_all add: currentPartitionState_def pf_setStopTime_def updateStatusOccurrenceTime_def Let_def)

section \<open>The decision as a function of the poll history\<close>

text \<open>A poll is its status with the two clock readings taken while it was judged.\<close>

type_synonym poll = "PollStatus \<times> time_point \<times> time_point"

fun pf_run :: "poll list \<Rightarrow> PartitionFilter \<Rightarrow> PartitionFilter" where
  "pf_run [] p = p"
| "pf_run ((s, now1, now2) # ps) p = pf_run ps (snd (shouldStopPartition now1 now2 s p))"

lemma pf_run_append: "pf_run (xs @ ys) p = pf_run ys (pf_run xs p)"
  by (induction xs p rule: pf_run.induct) auto

text \<open>The consumer has caught up when no message followed the last end-of-partition event.\<close>

definition caught_up :: "poll list \<Rightarrow> bool" where
  "caught_up ps =
     (let es = filter (\<lambda>(s, _). s = PS_Message \<or> s = PS_EndOfPartition) ps
      in es \<noteq> [] \<and> fst (last es) = PS_EndOfPartition)"

text \<open>The time at which the errors that end the history began.\<close>

definition error_since :: "poll list \<Rightarrow> time_point" where
  "error_since ps = fst (snd (last (takeWhile (\<lambda>(s, _). s = PS_Error) (rev ps))))"

lemma caught_up_snoc:
  "caught_up (ps @ [(s, x)]) =
     (case s of PS_Message \<Rightarrow> False | PS_EndOfPartition \<Rightarrow> True | _ \<Rightarrow> caught_up ps)"
  by (cases s) (simp_all add: caught_up_def)

lemma error_since_snoc:
  "error_since (ps @ [(PS_Error, now1, now2)]) =
     (if ps \<noteq> [] \<and> fst (last ps) = PS_Error then error_since ps else now1)"
  by (cases ps rule: rev_cases) (auto simp: error_since_def split: prod.splits)

lemma pf_run_frame:
  "pf_stop_time (pf_run ps p) = pf_stop_time p"
  "pf_stop_leeway (pf_run ps p) = pf_stop_leeway p"
  "pf_time_limit (pf_run ps p) = pf_time_limit p"
proof -
  have "pf_stop_time (snd (shouldStopPartition n1 n2 s p)) = pf_stop_time p \<and>
      pf_stop_leeway (snd (shouldStopPartition n1 n2 s p)) = pf_stop_leeway p \<and>
      pf_time_limit (snd (shouldStopPartition n1 n2 s p)) = pf_time_limit p" for n1 n2 s p
    by (cases s) (simp_all add: updateStatusOccurrenceTime_def Let_def)
  then show "pf_stop_time (pf_run ps p) = pf_stop_time p"
    and "pf_stop_leeway (pf_run ps p) = pf_stop_leeway p"
    and "pf_time_limit (pf_run ps p) = pf_time_limit p"
    by (induction ps p rule: pf_run.induct) auto
qed

definition state_of :: "PollStatus \<Rightarrow> PartitionState" where
  "state_of s = (case s of PS_Message \<Rightarrow> PST_DEFAULT | PS_EndOfPartition \<Rightarrow> PST_END_OF_PARTITION
     | PS_TimedOut \<Rightarrow> PST_TIMEOUT | PS_Error \<Rightarrow> PST_ERROR)"

lemma pf_run_state:
  assumes "pf_state p \<noteq> PST_ERROR"
  shows "pf_state (pf_run ps p) = (if ps = [] then pf_state p else state_of (fst (last ps)))"
    and "ps \<noteq> [] \<Longrightarrow> fst (last ps) = PS_Error \<Longrightarrow>
         pf_status_occurrence_time (pf_run ps p) = error_since ps"
proof (induction ps rule: rev_induct)
  case (snoc x ps)
  obtain s n1 n2 where x: "x = (s, n1, n2)" by (cases x)
  { case 1
    show ?case
      by (cases s) (simp_all add: x pf_run_append state_of_def updateStatusOccurrenceTime_def Let_def)
  next
    case 2
    have "pf_state (pf_run ps p) = PST_ERROR \<longleftrightarrow> ps \<noteq> [] \<and> fst (last ps) = PS_Error"
      using snoc.IH(1) assms by (cases "fst (last ps)") (auto simp: state_of_def)
    with 2 snoc.IH(2) show ?case
      by (auto simp: x pf_run_append error_since_snoc updateStatusOccurrenceTime_def Let_def)
  }
qed simp_all

lemma pf_run_caught_up:
  assumes "\<not> pf_at_end_of_partition p"
  shows "pf_at_end_of_partition (pf_run ps p) = caught_up ps"
proof (induction ps rule: rev_induct)
  case Nil
  then show ?case using assms by (simp add: caught_up_def)
next
  case (snoc x ps)
  then show ?case
    by (cases x; cases "fst x")
      (simp_all add: pf_run_append caught_up_snoc updateStatusOccurrenceTime_def Let_def)
qed

text \<open>C16: The stop decision of a partition filter is determined by the history of polls: it never
  stops on a message or an end of partition; on a timeout it stops exactly when the consumer had
  caught up with the partition (no message since the last end-of-partition event) and the clock is
  past the stop time plus the leeway; on an error it stops exactly when the clock is past the
  beginning of the current uninterrupted run of errors plus the time limit.\<close>

theorem partition_filter_decision:
  fixes stop leeway limit
  defines "p0 \<equiv> make_PartitionFilter stop leeway limit"
  shows "fst (shouldStopPartition now1 now2 s (pf_run polls p0)) =
     (case s of
        PS_Message \<Rightarrow> False
      | PS_EndOfPartition \<Rightarrow> False
      | PS_TimedOut \<Rightarrow> caught_up polls \<and> now2 > s64 (pf_stop_time p0 + leeway)
      | PS_Error \<Rightarrow> now2 > s64 (error_since (polls @ [(PS_Error, now1, now2)]) + limit))"
proof -
  have init: "pf_state p0 \<noteq> PST_ERROR" "\<not> pf_at_end_of_partition p0"
    "pf_stop_leeway p0 = leeway" "pf_time_limit p0 = limit"
    by (simp_all add: p0_def make_PartitionFilter_def)
  note frame = pf_run_frame [of polls p0] and up = pf_run_caught_up [OF init(2), of polls]
  show ?thesis
  proof (cases s)
    case PS_TimedOut
    then show ?thesis using up frame init by (simp add: updateStatusOccurrenceTime_def Let_def)
  next
    case PS_Error
    from pf_run_state [OF init(1), of "polls @ [(PS_Error, now1, now2)]"]
    have "pf_status_occurrence_time
        (updateStatusOccurrenceTime now1 PST_ERROR (pf_run polls p0)) =
        error_since (polls @ [(PS_Error, now1, now2)])"
      by (simp add: pf_run_append Let_def)
    then show ?thesis using PS_Error frame init
      by (simp add: hasExceededTimeLimit_def Let_def)
        (simp add: updateStatusOccurrenceTime_def)
  qed simp_all
qed

text \<open>A partition filter that has not yet seen a timeout never reports the topic as timed out,
  although the sum it compares against exceeds the 64-bit range until the first status change: the
  occurrence time starts at the largest \<^verbatim>\<open>time_point\<close>.\<close>

theorem fresh_filter_timeout_overflow:
  assumes "0 < limit" and "limit \<le> tp_max" and "now > tp_min + limit"
  shows "\<not> in_s64 (pf_status_occurrence_time (make_PartitionFilter stop leeway limit) + limit) \<and>
         hasExceededTimeLimit now (make_PartitionFilter stop leeway limit) \<and>
         \<not> hasTopicTimedOut now (make_PartitionFilter stop leeway limit)"
proof -
  have "s64 (tp_max + limit) = tp_min + limit - 1"
    using s64_above [of "tp_max + limit"] assms by simp
  then show ?thesis
    using assms by (simp add: make_PartitionFilter_def hasTopicTimedOut_def hasExceededTimeLimit_def
        in_s64_def)
qed

theorem fresh_filter_timeout_overflow_witness:
  "\<not> in_s64 (pf_status_occurrence_time (make_PartitionFilter 5 1 10) + 10) \<and>
   hasExceededTimeLimit 0 (make_PartitionFilter 5 1 10) \<and>
   \<not> hasTopicTimedOut 0 (make_PartitionFilter 5 1 10)"
  by (rule fresh_filter_timeout_overflow) simp_all

end
