(* ===== verification/Stream_Partition.thy ===== *)
theory Stream_Partition
  imports Source_Filter Partition_Filter
begin

text \<open>
  \<^verbatim>\<open>src/Stream/Partition.{h,cpp}\<close>: consuming the messages of one Kafka partition, validating them,
  offering them to the source filters and deciding when the partition is done. The result of
  \<^verbatim>\<open>_consumer->poll()\<close>, the answer of the function that tells whether the streamers are paused and
  the clock readings are arguments of \<open>pollForMessage\<close>. Logging is left out.
\<close>

record 'd SrcDstKey =
  sd_SrcHash :: hash
  sd_WriteHash :: hash
  sd_Destination :: 'd
  sd_SourceName :: string
  sd_FlatbufferId :: string
  sd_WriterModuleId :: string
  sd_AcceptsRepeatedTimestamps :: bool

definition getMetricsNameString :: "'d SrcDstKey \<Rightarrow> string" where
  "getMetricsNameString k = sd_SourceName k @ ''_'' @ sd_WriterModuleId k"

section \<open>Building the filters\<close>

text \<open>The body of the loop over the source map: two ordered maps, from the write hash to the filter
  and from the write hash to the source hash.\<close>

definition create_filters_step ::
  "time_point \<Rightarrow> time_point \<Rightarrow> 'd SrcDstKey
     \<Rightarrow> (hash \<times> 'd SourceFilter) list \<times> (hash \<times> hash) list
     \<Rightarrow> (hash \<times> 'd SourceFilter) list \<times> (hash \<times> hash) list" where
  "create_filters_step start_time stop_time k st =
     (let (hash_to_filter, write_hash_to_source_hash) = st;
          hash_to_filter =
            (if map_of hash_to_filter (sd_WriteHash k) = None
             then smap_insert (sd_WriteHash k)
                    (make_SourceFilter start_time stop_time (sd_AcceptsRepeatedTimestamps k)) hash_to_filter
             else hash_to_filter);
          hash_to_filter =
            smap_insert (sd_WriteHash k)
              (add_writer_module_for_message (sd_Destination k)
                 (the (map_of hash_to_filter (sd_WriteHash k)))) hash_to_filter
      in (hash_to_filter, smap_insert (sd_WriteHash k) (sd_SrcHash k) write_hash_to_source_hash))"

definition create_filters ::
  "'d SrcDstKey list \<Rightarrow> time_point \<Rightarrow> time_point \<Rightarrow> 'd SourceFilter list" where
  "create_filters src_map start_time stop_time =
     (let (hash_to_filter, write_hash_to_source_hash) =
            fold (create_filters_step start_time stop_time) src_map ([], [])
      in map (\<lambda>(hsh, filter).
           let UsedHash = (case map_of write_hash_to_source_hash hsh of None \<Rightarrow> 0 | Some x \<Rightarrow> x)
           in set_source_hash UsedHash filter) hash_to_filter)"

section \<open>The partition\<close>

record 'd Partition =
  pt_partition_id :: int
  pt_partition_time_out_logged :: bool
  pt_topic_name :: string
  pt_has_finished :: bool
  pt_force_stop :: bool
  pt_current_offset :: int
  pt_stop_time :: time_point
  pt_stop_time_leeway :: duration
  pt_partition_filter :: PartitionFilter
  pt_source_filters :: "'d SourceFilter list"
  pt_KafkaTimeouts :: int
  pt_KafkaErrors :: int
  pt_MessagesReceived :: int
  pt_MessagesProcessed :: int
  pt_BadOffsets :: int
  pt_EndOfPartition :: int
  pt_FlatbufferErrors :: int
  pt_BufferTooSmallErrors :: int
  pt_NotValidFlatbufferErrors :: int
  pt_UnknownFlatbufferIdErrors :: int
  pt_BadFlatbufferTimestampErrors :: int

definition sanitise_stop_time :: "duration \<Rightarrow> time_point \<Rightarrow> time_point" where
  "sanitise_stop_time leeway stop_time =
     (if s64 (tp_max - stop_time) \<le> leeway then s64 (stop_time - leeway) else stop_time)"

definition make_Partition ::
  "int \<Rightarrow> string \<Rightarrow> 'd SourceFilter list \<Rightarrow> PartitionFilter \<Rightarrow> time_point \<Rightarrow> duration \<Rightarrow> 'd Partition" where
  "make_Partition part_id topic_name source_filters pf stop_time stop_leeway =
     (let stop = sanitise_stop_time stop_leeway stop_time in
      \<lparr>pt_partition_id = part_id, pt_partition_time_out_logged = False, pt_topic_name = topic_name,
       pt_has_finished = False, pt_force_stop = False, pt_current_offset = 0, pt_stop_time = stop,
       pt_stop_time_leeway = stop_leeway,
       pt_partition_filter = pf_setStopTime stop pf,
       pt_source_filters = source_filters, pt_KafkaTimeouts = 0, pt_KafkaErrors = 0,
       pt_MessagesReceived = 0, pt_MessagesProcessed = 0, pt_BadOffsets = 0, pt_EndOfPartition = 0,
       pt_FlatbufferErrors = 0, pt_BufferTooSmallErrors = 0, pt_NotValidFlatbufferErrors = 0,
       pt_UnknownFlatbufferIdErrors = 0, pt_BadFlatbufferTimestampErrors = 0\<rparr>)"

definition create_Partition ::
  "int \<Rightarrow> string \<Rightarrow> 'd SrcDstKey list \<Rightarrow> time_point \<Rightarrow> time_point \<Rightarrow> duration \<Rightarrow> duration \<Rightarrow> 'd Partition" where
  "create_Partition part_id topic_name src_map start_time stop_time stop_leeway kafka_error_timeout =
     make_Partition part_id topic_name (create_filters src_map start_time stop_time)
       (make_PartitionFilter stop_time stop_leeway kafka_error_timeout) stop_time stop_leeway"

definition forceStop :: "'d Partition \<Rightarrow> 'd Partition" where
  "forceStop p = p\<lparr>pt_force_stop := True\<rparr>"

definition pt_stop :: "'d Partition \<Rightarrow> 'd Partition" where
  "pt_stop p = forceStop p"

definition pt_setStopTime :: "time_point \<Rightarrow> 'd Partition \<Rightarrow> 'd Partition" where
  "pt_setStopTime Stop p =
     (let stop = sanitise_stop_time (pt_stop_time_leeway p) Stop in
      p\<lparr>pt_stop_time := stop,
        pt_partition_filter := pf_setStopTime stop (pt_partition_filter p),
        pt_source_filters := map (sf_set_stop_time stop) (pt_source_filters p)\<rparr>)"

definition hasFinished :: "'d Partition \<Rightarrow> bool" where
  "hasFinished p = pt_has_finished p"

definition hasStopBeenRequested :: "'d Partition \<Rightarrow> bool" where
  "hasStopBeenRequested p = pt_force_stop p"

definition checkAndLogPartitionTimeOut :: "time_point \<Rightarrow> 'd Partition \<Rightarrow> 'd Partition" where
  "checkAndLogPartitionTimeOut now p =
     (if hasTopicTimedOut now (pt_partition_filter p) then
        (if \<not> pt_partition_time_out_logged p then p\<lparr>pt_partition_time_out_logged := True\<rparr> else p)
      else p\<lparr>pt_partition_time_out_logged := False\<rparr>)"

definition shouldStopBasedOnPollStatus ::
  "time_point \<Rightarrow> time_point \<Rightarrow> time_point \<Rightarrow> PollStatus \<Rightarrow> 'd Partition \<Rightarrow> bool \<times> 'd Partition" where
  "shouldStopBasedOnPollStatus now0 now1 now2 CStatus p =
     (let p = checkAndLogPartitionTimeOut now0 p;
          (b, f) = shouldStopPartition now1 now2 CStatus (pt_partition_filter p)
      in (b, p\<lparr>pt_partition_filter := f\<rparr>))"

definition count_fb_error :: "fb_error \<Rightarrow> 'd Partition \<Rightarrow> 'd Partition" where
  "count_fb_error e p =
     (let p = (case e of
          BufferTooSmallError \<Rightarrow> p\<lparr>pt_BufferTooSmallErrors := pt_BufferTooSmallErrors p + 1\<rparr>
        | InvalidFlatbufferTimestamp \<Rightarrow>
            p\<lparr>pt_BadFlatbufferTimestampErrors := pt_BadFlatbufferTimestampErrors p + 1\<rparr>
        | UnknownFlatbufferID \<Rightarrow>
            p\<lparr>pt_UnknownFlatbufferIdErrors := pt_UnknownFlatbufferIdErrors p + 1\<rparr>
        | NotValidFlatbuffer \<Rightarrow>
            p\<lparr>pt_NotValidFlatbufferErrors := pt_NotValidFlatbufferErrors p + 1\<rparr>)
      in p\<lparr>pt_FlatbufferErrors := pt_FlatbufferErrors p + 1\<rparr>)"

text \<open>\<^verbatim>\<open>processMessage\<close>: the offset check, validation, the loop over the filters, and the removal of
  finished filters, whose destructors run.\<close>

definition processMessage ::
  "(string \<Rightarrow> hash) \<Rightarrow> readers \<Rightarrow> Msg \<Rightarrow> 'd Partition \<Rightarrow> 'd Partition \<times> 'd add_message list" where
  "processMessage h items Message p =
     (let Offset = md_Offset (msg_MetaData Message);
          p = (if pt_current_offset p \<noteq> 0 \<and> s64 (pt_current_offset p + 1) \<noteq> Offset
               then p\<lparr>pt_BadOffsets := pt_BadOffsets p + 1\<rparr> else p);
          p = p\<lparr>pt_current_offset := Offset\<rparr>
      in case FlatbufferMessage_of_Msg h items Message of
           Inl e \<Rightarrow> (count_fb_error e p, [])
         | Inr FbMsg \<Rightarrow>
             let (processed, fs, out) = filter_all filter_message FbMsg (pt_source_filters p);
                 p = (if processed then p\<lparr>pt_MessagesProcessed := pt_MessagesProcessed p + 1\<rparr> else p);
                 out' = concat (map destroy_SourceFilter (filter has_finished fs))
             in (p\<lparr>pt_source_filters := erase_remove_if has_finished fs\<rparr>, out @ out'))"

fun count_poll :: "PollStatus \<Rightarrow> 'd Partition \<Rightarrow> 'd Partition" where
  "count_poll PS_Message p = p\<lparr>pt_MessagesReceived := pt_MessagesReceived p + 1\<rparr>"
| "count_poll PS_EndOfPartition p = p\<lparr>pt_EndOfPartition := pt_EndOfPartition p + 1\<rparr>"
| "count_poll PS_TimedOut p = p\<lparr>pt_KafkaTimeouts := pt_KafkaTimeouts p + 1\<rparr>"
| "count_poll PS_Error p = p\<lparr>pt_KafkaErrors := pt_KafkaErrors p + 1\<rparr>"

definition pollForMessage ::
  "(string \<Rightarrow> hash) \<Rightarrow> readers \<Rightarrow> bool \<Rightarrow> time_point \<times> time_point \<times> time_point
     \<Rightarrow> PollStatus \<times> Msg \<Rightarrow> 'd Partition \<Rightarrow> 'd Partition \<times> 'd add_message list" where
  "pollForMessage h items paused nows poll p =
     (if pt_force_stop p then (p\<lparr>pt_has_finished := True\<rparr>, [])
      else if paused then (p, [])
      else
        let (status, Message) = poll; (now0, now1, now2) = nows;
            (stop, p) = shouldStopBasedOnPollStatus now0 now1 now2 status (count_poll status p)
        in
        if stop then (p\<lparr>pt_has_finished := True\<rparr>, [])
        else if status = PS_Message then
          let (p, out) = processMessage h items Message p in
          if pt_source_filters p = [] then (p\<lparr>pt_has_finished := True\<rparr>, out)
          else if md_timestamp (msg_MetaData Message) > s64 (pt_stop_time p + pt_stop_time_leeway p)
          then (p\<lparr>pt_has_finished := True\<rparr>, out)
          else (p, out)
        else (p, []))"

text \<open>Destroying a partition destroys the filters it still has.\<close>

definition destroy_Partition :: "'d Partition \<Rightarrow> 'd add_message list" where
  "destroy_Partition p = concat (map destroy_SourceFilter (pt_source_filters p))"

section \<open>The filters a source map gives\<close>

lemma fst_create_filters_step:
  "fst (create_filters_step a b k st) =
     (let f = (case map_of (fst st) (sd_WriteHash k) of
                 None \<Rightarrow> make_SourceFilter a b (sd_AcceptsRepeatedTimestamps k) | Some f \<Rightarrow> f);
          m = (if map_of (fst st) (sd_WriteHash k) = None
               then smap_insert (sd_WriteHash k) f (fst st) else fst st)
      in smap_insert (sd_WriteHash k) (add_writer_module_for_message (sd_Destination k) f) m)"
  by (auto simp: create_filters_step_def Let_def map_of_smap_insert split: prod.splits option.splits)

lemma snd_create_filters_step:
  "snd (create_filters_step a b k st) = smap_insert (sd_WriteHash k) (sd_SrcHash k) (snd st)"
  by (simp add: create_filters_step_def Let_def split: prod.splits)

lemma create_filters_fold:
  fixes start_time stop_time
  defines "built es \<equiv> fold add_writer_module_for_message (map sd_Destination es)
      (make_SourceFilter start_time stop_time (sd_AcceptsRepeatedTimestamps (hd es)))"
  shows "smap_ok (fst (fold (create_filters_step start_time stop_time) xs ([], [])))"
    and "fst ` set (fst (fold (create_filters_step start_time stop_time) xs ([], []))) =
         sd_WriteHash ` set xs"
    and "map_of (fst (fold (create_filters_step start_time stop_time) xs ([], []))) k =
         (case filter (\<lambda>e. sd_WriteHash e = k) xs of [] \<Rightarrow> None | es \<Rightarrow> Some (built es))"
proof (induction xs rule: rev_induct)
  case Nil
  { case 1 show ?case by (simp add: smap_ok_def) }
  { case 2 show ?case by simp }
  { case 3 show ?case by simp }
next
  case (snoc x xs)
  let ?m = "fst (fold (create_filters_step start_time stop_time) xs ([], []))"
  { case 1
    show ?case using snoc.IH(1) by (simp add: fst_create_filters_step Let_def smap_ok_insert) }
  { case 2
    show ?case using snoc.IH(2)
      by (auto simp: fst_create_filters_step Let_def set_keys_smap_insert split: if_splits) }
  { case 3
    show ?case
      using snoc.IH(3)
      by (cases "filter (\<lambda>e. sd_WriteHash e = sd_WriteHash x) xs")
        (auto simp: fst_create_filters_step Let_def map_of_smap_insert built_def
          split: list.splits option.splits) }
qed

lemma snd_create_filters_fold:
  "map_of (snd (fold (create_filters_step a b) xs ([], []))) k =
     (case filter (\<lambda>e. sd_WriteHash e = k) xs of [] \<Rightarrow> None | es \<Rightarrow> Some (sd_SrcHash (last es)))"
proof -
  have "snd (fold (create_filters_step a b) xs st) =
      fold (\<lambda>e. smap_insert (sd_WriteHash e) (sd_SrcHash e)) xs (snd st)" for st
    by (induction xs arbitrary: st) (simp_all add: snd_create_filters_step)
  then show ?thesis
    by (simp add: smap.find_fold_insert split: list.splits)
qed

lemma create_filters_by_hash:
  "create_filters src_map start_time stop_time =
     map (\<lambda>k. let es = filter (\<lambda>e. sd_WriteHash e = k) src_map in
          new_filter start_time stop_time (sd_AcceptsRepeatedTimestamps (hd es))
            (sd_SrcHash (last es)) (map sd_Destination es))
       (sorted_list_of_set (sd_WriteHash ` set src_map))"
proof -
  let ?st = "fold (create_filters_step start_time stop_time) src_map ([], [])"
  have entries: "fst ?st = map (\<lambda>k. (k, the (map_of (fst ?st) k)))
      (sorted_list_of_set (sd_WriteHash ` set src_map))"
    using smap_ok_entries [OF create_filters_fold(1), of start_time stop_time src_map]
    by (simp add: create_filters_fold(2))
  have "create_filters src_map start_time stop_time =
      map (\<lambda>(hsh, f). set_source_hash
        (case map_of (snd ?st) hsh of None \<Rightarrow> 0 | Some x \<Rightarrow> x) f) (fst ?st)"
    by (simp add: create_filters_def Let_def split: prod.splits)
  also have "\<dots> = map (\<lambda>k. set_source_hash
        (case map_of (snd ?st) k of None \<Rightarrow> 0 | Some x \<Rightarrow> x) (the (map_of (fst ?st) k)))
      (sorted_list_of_set (sd_WriteHash ` set src_map))"
    by (subst entries) simp
  also have "\<dots> = map (\<lambda>k. let es = filter (\<lambda>e. sd_WriteHash e = k) src_map in
          new_filter start_time stop_time (sd_AcceptsRepeatedTimestamps (hd es))
            (sd_SrcHash (last es)) (map sd_Destination es))
       (sorted_list_of_set (sd_WriteHash ` set src_map))"
  proof (rule map_cong [OF refl])
    fix k assume "k \<in> set (sorted_list_of_set (sd_WriteHash ` set src_map))"
    then have "filter (\<lambda>e. sd_WriteHash e = k) src_map \<noteq> []" by (auto simp: filter_empty_conv)
    then show "set_source_hash
        (case map_of (snd ?st) k of None \<Rightarrow> 0 | Some x \<Rightarrow> x) (the (map_of (fst ?st) k)) =
      (let es = filter (\<lambda>e. sd_WriteHash e = k) src_map in
          new_filter start_time stop_time (sd_AcceptsRepeatedTimestamps (hd es))
            (sd_SrcHash (last es)) (map sd_Destination es))"
      by (auto simp: create_filters_fold(3) snd_create_filters_fold new_filter_def
          split: list.splits)
  qed
  finally show ?thesis .
qed

text \<open>From the source map of a topic, one filter is made per distinct write hash, in ascending order
  of the hashes. A filter passes messages to every destination with its write hash, in the order of
  the map; it listens for the source hash of the last such entry and accepts repeated timestamps if
  the first such entry does.\<close>

theorem create_filters_groups_by_write_hash:
  "create_filters src_map start_time stop_time =
     map (\<lambda>k. let es = filter (\<lambda>e. sd_WriteHash e = k) src_map in
          new_filter start_time stop_time (sd_AcceptsRepeatedTimestamps (hd es))
            (sd_SrcHash (last es)) (map sd_Destination es))
       (sorted_list_of_set (sd_WriteHash ` set src_map))"
  by (rule create_filters_by_hash)

section \<open>The stop time\<close>

lemma sanitise_no_overflow:
  assumes "0 \<le> leeway" and "leeway \<le> tp_max" and "0 \<le> stop" and "stop \<le> tp_max"
  shows "in_s64 (sanitise_stop_time leeway stop + leeway)" and "sanitise_stop_time leeway stop \<le> stop"
    and "stop < tp_max - leeway \<Longrightarrow> sanitise_stop_time leeway stop = stop"
proof -
  have "s64 (tp_max - stop) = tp_max - stop" "s64 (stop - leeway) = stop - leeway"
    using assms by (simp_all add: wrap64)
  then show "in_s64 (sanitise_stop_time leeway stop + leeway)" and "sanitise_stop_time leeway stop \<le> stop"
    and "stop < tp_max - leeway \<Longrightarrow> sanitise_stop_time leeway stop = stop"
    using assms by (auto simp: sanitise_stop_time_def in_s64_def)
qed

text \<open>For any stop time from the epoch on, the stop time a partition keeps can be added to the
  leeway without leaving the 64-bit range; it is the requested time unless that lies within the
  leeway of the largest \<^verbatim>\<open>time_point\<close>, the default that stands for an open-ended run. The partition,
  its partition filter and all its source filters agree on it after \<^verbatim>\<open>setStopTime\<close>.\<close>

theorem stop_time_never_overflows:
  assumes "0 \<le> pt_stop_time_leeway p" and "pt_stop_time_leeway p \<le> tp_max"
    and "0 \<le> stop" and "stop \<le> tp_max"
  shows "let p' = pt_setStopTime stop p in
     s64 (pt_stop_time p' + pt_stop_time_leeway p') = pt_stop_time p' + pt_stop_time_leeway p' \<and>
     (stop < tp_max - pt_stop_time_leeway p \<longrightarrow> pt_stop_time p' = stop) \<and>
     pf_stop_time (pt_partition_filter p') = pt_stop_time p' \<and>
     (\<forall>f \<in> set (pt_source_filters p'). sf_stop_time f = pt_stop_time p')"
  using sanitise_no_overflow [OF assms]
  by (auto simp: pt_setStopTime_def Let_def s64_eq_iff pf_setStopTime_def sf_set_stop_time_def)

theorem stop_time_never_overflows_witness:
  "let p = pt_setStopTime tp_max (create_Partition 0 ''t'' ([] :: string SrcDstKey list) 0 5 10 30) in
     s64 (pt_stop_time p + 10) = pt_stop_time p + 10"
  using stop_time_never_overflows
    [of "create_Partition 0 ''t'' ([] :: string SrcDstKey list) 0 5 10 30" tp_max]
  by (simp add: Let_def create_Partition_def make_Partition_def pt_setStopTime_def)

section \<open>Finishing\<close>

lemma count_poll_frame [simp]:
  "pt_partition_filter (count_poll st p) = pt_partition_filter p"
  "pt_source_filters (count_poll st p) = pt_source_filters p"
  "pt_stop_time (count_poll st p) = pt_stop_time p"
  "pt_stop_time_leeway (count_poll st p) = pt_stop_time_leeway p"
  "pt_force_stop (count_poll st p) = pt_force_stop p"
  "pt_has_finished (count_poll st p) = pt_has_finished p"
  "pt_FlatbufferErrors (count_poll st p) = pt_FlatbufferErrors p"
  "pt_MessagesProcessed (count_poll st p) = pt_MessagesProcessed p"
  by (cases st; simp)+

lemma checkAndLog_frame [simp]:
  "pt_partition_filter (checkAndLogPartitionTimeOut now p) = pt_partition_filter p"
  "pt_source_filters (checkAndLogPartitionTimeOut now p) = pt_source_filters p"
  "pt_stop_time (checkAndLogPartitionTimeOut now p) = pt_stop_time p"
  "pt_stop_time_leeway (checkAndLogPartitionTimeOut now p) = pt_stop_time_leeway p"
  "pt_force_stop (checkAndLogPartitionTimeOut now p) = pt_force_stop p"
  "pt_has_finished (checkAndLogPartitionTimeOut now p) = pt_has_finished p"
  by (simp_all add: checkAndLogPartitionTimeOut_def)

lemma shouldStop_eq:
  "shouldStopBasedOnPollStatus n0 n1 n2 st p =
     (fst (shouldStopPartition n1 n2 st (pt_partition_filter p)),
      (checkAndLogPartitionTimeOut n0 p)
        \<lparr>pt_partition_filter := snd (shouldStopPartition n1 n2 st (pt_partition_filter p))\<rparr>)"
  by (simp add: shouldStopBasedOnPollStatus_def Let_def split: prod.splits)

lemma count_fb_error_frame [simp]:
  "pt_source_filters (count_fb_error e p) = pt_source_filters p"
  "pt_stop_time (count_fb_error e p) = pt_stop_time p"
  "pt_stop_time_leeway (count_fb_error e p) = pt_stop_time_leeway p"
  "pt_force_stop (count_fb_error e p) = pt_force_stop p"
  "pt_has_finished (count_fb_error e p) = pt_has_finished p"
  by (cases e; simp add: count_fb_error_def)+

lemma processMessage_frame:
  assumes "processMessage h items m p = (p', out)"
  shows "pt_stop_time p' = pt_stop_time p" and "pt_stop_time_leeway p' = pt_stop_time_leeway p"
    and "pt_force_stop p' = pt_force_stop p" and "pt_has_finished p' = pt_has_finished p"
  using assms
  by (auto simp: processMessage_def Let_def split: sum.splits prod.splits if_splits)

text \<open>What happens to the filters and the writer depends on the filters alone.\<close>

definition offer ::
  "(string \<Rightarrow> hash) \<Rightarrow> readers \<Rightarrow> Msg \<Rightarrow> 'd SourceFilter list \<Rightarrow> 'd SourceFilter list \<times> 'd add_message list" where
  "offer h items m fs =
     (case FlatbufferMessage_of_Msg h items m of
        Inl _ \<Rightarrow> (fs, [])
      | Inr FbMsg \<Rightarrow>
          let (_, fs', out) = filter_all filter_message FbMsg fs
          in (erase_remove_if has_finished fs',
              out @ concat (map destroy_SourceFilter (filter has_finished fs'))))"

lemma processMessage_offer:
  "processMessage h items m p = (p', out) \<Longrightarrow>
     (pt_source_filters p', out) = offer h items m (pt_source_filters p)"
  by (auto simp: processMessage_def offer_def Let_def split: sum.splits prod.splits if_splits)

text \<open>A partition that has not finished finishes in a poll exactly when a stop was forced, or the
  streamers are not paused and one of these holds: the partition filter decides to stop; a message
  left no source filter unfinished; a message's Kafka timestamp is after the stop time plus the
  leeway.\<close>

theorem partition_finishes_iff:
  assumes "\<not> pt_has_finished p"
  shows "pt_has_finished (fst (pollForMessage h items paused (n0, n1, n2) (status, msg) p)) \<longleftrightarrow>
     pt_force_stop p \<or>
     \<not> paused \<and>
       (fst (shouldStopPartition n1 n2 status (pt_partition_filter p)) \<or>
        status = PS_Message \<and>
          (fst (offer h items msg (pt_source_filters p)) = [] \<or>
           md_timestamp (msg_MetaData msg) > s64 (pt_stop_time p + pt_stop_time_leeway p)))"
proof (cases "pt_force_stop p \<or> paused \<or> status \<noteq> PS_Message")
  case True
  with assms show ?thesis by (auto simp: pollForMessage_def shouldStop_eq Let_def)
next
  case False
  let ?q = "snd (shouldStopBasedOnPollStatus n0 n1 n2 status (count_poll status p))"
  have q: "pt_source_filters ?q = pt_source_filters p" "pt_stop_time ?q = pt_stop_time p"
    "pt_stop_time_leeway ?q = pt_stop_time_leeway p" "pt_has_finished ?q = pt_has_finished p"
    by (simp_all add: shouldStop_eq)
  obtain p' out where pm: "processMessage h items msg ?q = (p', out)" by fastforce
  note f = processMessage_frame [OF pm] and o = processMessage_offer [OF pm]
  have "fst (offer h items msg (pt_source_filters p)) = pt_source_filters p'"
    using o q(1) by (metis fst_conv)
  with False f q pm assms show ?thesis
    by (auto simp: pollForMessage_def shouldStop_eq Let_def)
qed

theorem partition_finishes_iff_witness:
  "pt_has_finished (fst (pollForMessage (\<lambda>_. 0) [] False (0, 0, 0) (PS_Message, empty_Msg)
     (create_Partition 0 ''t'' ([] :: string SrcDstKey list) 0 5 10 30)))"
proof -
  let ?p = "create_Partition 0 ''t'' ([] :: string SrcDstKey list) 0 5 10 30"
  have "\<not> pt_has_finished ?p" and "pt_source_filters ?p = []"
    by (simp_all add: create_Partition_def make_Partition_def create_filters_def Let_def)
  moreover have "fst (offer (\<lambda>_. 0) [] empty_Msg ([] :: string SourceFilter list)) = []"
    by (simp add: offer_def FlatbufferMessage_of_Msg_def extractPacketInfo_def empty_Msg_def Let_def)
  ultimately show ?thesis
    using partition_finishes_iff [of ?p "\<lambda>_. 0" "[]" False 0 0 0 PS_Message empty_Msg] by simp
qed

section \<open>Counting\<close>

type_synonym poll_event = "bool \<times> (time_point \<times> time_point \<times> time_point) \<times> PollStatus \<times> Msg"

fun pt_run ::
  "(string \<Rightarrow> hash) \<Rightarrow> readers \<Rightarrow> poll_event list \<Rightarrow> 'd Partition \<Rightarrow> 'd Partition \<times> 'd add_message list" where
  "pt_run h items [] p = (p, [])"
| "pt_run h items ((paused, nows, poll) # es) p =
     (let (p', out) = pollForMessage h items paused nows poll p; (p'', out') = pt_run h items es p'
      in (p'', out @ out'))"

definition polled :: "PollStatus \<Rightarrow> poll_event list \<Rightarrow> int" where
  "polled st es = int (length (filter (\<lambda>(paused, _, s, _). \<not> paused \<and> s = st) es))"

definition pt_counts :: "poll_event list \<Rightarrow> 'd Partition \<Rightarrow> bool" where
  "pt_counts es p \<longleftrightarrow>
     pt_MessagesReceived p = polled PS_Message es \<and> pt_EndOfPartition p = polled PS_EndOfPartition es \<and>
     pt_KafkaTimeouts p = polled PS_TimedOut es \<and> pt_KafkaErrors p = polled PS_Error es \<and>
     pt_FlatbufferErrors p =
       pt_BufferTooSmallErrors p + pt_NotValidFlatbufferErrors p +
       pt_UnknownFlatbufferIdErrors p + pt_BadFlatbufferTimestampErrors p \<and>
     pt_MessagesProcessed p + pt_FlatbufferErrors p \<le> pt_MessagesReceived p"

lemma polled_snoc:
  "polled st (es @ [(paused, nows, s, m)]) = polled st es + (if \<not> paused \<and> s = st then 1 else 0)"
  by (simp add: polled_def)

lemma processMessage_counts:
  assumes "processMessage h items m p = (p', out)"
    and "pt_FlatbufferErrors p =
       pt_BufferTooSmallErrors p + pt_NotValidFlatbufferErrors p +
       pt_UnknownFlatbufferIdErrors p + pt_BadFlatbufferTimestampErrors p"
    and "pt_MessagesProcessed p + pt_FlatbufferErrors p < pt_MessagesReceived p"
  shows "pt_FlatbufferErrors p' =
       pt_BufferTooSmallErrors p' + pt_NotValidFlatbufferErrors p' +
       pt_UnknownFlatbufferIdErrors p' + pt_BadFlatbufferTimestampErrors p'"
    and "pt_MessagesProcessed p' + pt_FlatbufferErrors p' \<le> pt_MessagesReceived p'"
    and "pt_MessagesReceived p' = pt_MessagesReceived p" and "pt_EndOfPartition p' = pt_EndOfPartition p"
    and "pt_KafkaTimeouts p' = pt_KafkaTimeouts p" and "pt_KafkaErrors p' = pt_KafkaErrors p"
  using assms
  by (auto simp: processMessage_def count_fb_error_def Let_def
      split: sum.splits prod.splits if_splits fb_error.splits)

lemma pollForMessage_not_forced:
  "pt_force_stop (fst (pollForMessage h items paused nows poll p)) = pt_force_stop p"
  by (auto simp: pollForMessage_def shouldStop_eq Let_def split: prod.splits
      dest!: processMessage_frame(3))

lemma pollForMessage_counts:
  assumes "pt_counts es p" and "\<not> pt_force_stop p"
  shows "pt_counts (es @ [(paused, nows, s, m)]) (fst (pollForMessage h items paused nows (s, m) p))"
proof -
  obtain n0 n1 n2 where n: "nows = (n0, n1, n2)" by (cases nows)
  let ?q = "snd (shouldStopBasedOnPollStatus n0 n1 n2 s (count_poll s p))"
  have q: "pt_counts (es @ [(False, nows, s, m)]) ?q"
    using assms(1) by (cases s) (simp_all add: pt_counts_def polled_snoc shouldStop_eq
        checkAndLogPartitionTimeOut_def)
  have q': "s = PS_Message \<Longrightarrow> pt_MessagesProcessed ?q + pt_FlatbufferErrors ?q < pt_MessagesReceived ?q"
    using assms(1) by (simp add: pt_counts_def shouldStop_eq checkAndLogPartitionTimeOut_def)
  show ?thesis
  proof (cases "paused \<or> s \<noteq> PS_Message")
    case True
    with assms q n show ?thesis
      by (cases s) (auto simp: pollForMessage_def shouldStop_eq Let_def pt_counts_def polled_snoc)
  next
    case False
    obtain p' out where pm: "processMessage h items m ?q = (p', out)" by fastforce
    from q have "pt_FlatbufferErrors ?q =
       pt_BufferTooSmallErrors ?q + pt_NotValidFlatbufferErrors ?q +
       pt_UnknownFlatbufferIdErrors ?q + pt_BadFlatbufferTimestampErrors ?q"
      by (simp add: pt_counts_def)
    from processMessage_counts [OF pm this q'] False q
    have "pt_counts (es @ [(False, nows, s, m)]) p'" by (simp add: pt_counts_def)
    with False assms(2) q n pm show ?thesis
      by (auto simp: pollForMessage_def shouldStop_eq Let_def pt_counts_def)
  qed
qed

lemma pt_run_append:
  "fst (pt_run h items (xs @ ys) p) = fst (pt_run h items ys (fst (pt_run h items xs p)))"
  by (induction h items xs p rule: pt_run.induct) (auto split: prod.splits)

lemma pt_run_counts:
  assumes "pt_counts [] p" and "\<not> pt_force_stop p"
  shows "pt_counts es (fst (pt_run h items es p)) \<and> \<not> pt_force_stop (fst (pt_run h items es p))"
proof (induction es rule: rev_induct)
  case Nil
  then show ?case using assms by simp
next
  case (snoc e es)
  obtain paused nows s m where e: "e = (paused, nows, s, m)" by (cases e)
  from pollForMessage_counts [of es "fst (pt_run h items es p)" paused nows s m] snoc
  show ?case by (simp add: e pt_run_append pollForMessage_not_forced split: prod.splits)
qed

text \<open>The counters of a partition account for everything it polled: each poll made while the
  streamers were not paused is counted once, by its status; every flatbuffer error is counted once in
  total and once under its kind; and no message is counted both as an error and as processed.\<close>

theorem partition_counters_account:
  "pt_counts es (fst (pt_run h items es
     (create_Partition part_id topic src_map start_time stop_time leeway timeout)))"
proof -
  let ?p = "create_Partition part_id topic src_map start_time stop_time leeway timeout"
  have "pt_counts [] ?p" and "\<not> pt_force_stop ?p"
    by (simp_all add: pt_counts_def polled_def create_Partition_def make_Partition_def Let_def)
  from pt_run_counts [OF this] show ?thesis by blast
qed

section \<open>Routing\<close>

text \<open>A filter that \<open>create_filters\<close> made for some write hash, whatever it has seen since.\<close>

definition filter_of_map :: "'d SrcDstKey list \<Rightarrow> time_point \<Rightarrow> 'd SourceFilter \<Rightarrow> bool" where
  "filter_of_map src_map start_time f \<longleftrightarrow>
     sf_inv f \<and> sf_start_time f = start_time \<and>
     (\<exists>k. let es = filter (\<lambda>e. sd_WriteHash e = k) src_map in
        es \<noteq> [] \<and> sf_destination_writer_modules f = map sd_Destination es \<and>
        sf_source_hash f = sd_SrcHash (last es)) \<and>
     (fm_Valid (sf_buffered_message f) \<longrightarrow>
        fm_SourceNameIDHash (sf_buffered_message f) = sf_source_hash f)"

lemma filter_of_map_create:
  assumes "f \<in> set (create_filters src_map start_time stop_time)"
  shows "filter_of_map src_map start_time f"
proof -
  from assms obtain k where k: "k \<in> sd_WriteHash ` set src_map"
    and f: "f = (let es = filter (\<lambda>e. sd_WriteHash e = k) src_map in
          new_filter start_time stop_time (sd_AcceptsRepeatedTimestamps (hd es))
            (sd_SrcHash (last es)) (map sd_Destination es))"
    unfolding create_filters_by_hash by auto
  have "filter (\<lambda>e. sd_WriteHash e = k) src_map \<noteq> []" using k by (auto simp: filter_empty_conv)
  then show ?thesis
    by (auto simp: filter_of_map_def f Let_def new_filter_eq make_SourceFilter_def sf_inv_def)
qed

lemma filter_of_map_step:
  "filter_of_map src_map start_time f \<Longrightarrow> filter_message m f = (b, f', out) \<Longrightarrow>
     filter_of_map src_map start_time f'"
  using filter_message_frame [of m f b f' out] filter_message_buffered [of m f b f' out]
    sf_inv_filter [of f m b f' out]
  by (auto simp: filter_of_map_def Let_def)

lemma filter_of_map_stop:
  "filter_of_map src_map start_time f \<Longrightarrow> filter_of_map src_map start_time (sf_set_stop_time t f)"
  using sf_inv_setters(1) [of f t] by (auto simp: filter_of_map_def sf_set_stop_time_def Let_def)

definition pt_inv :: "'d SrcDstKey list \<Rightarrow> time_point \<Rightarrow> 'd Partition \<Rightarrow> bool" where
  "pt_inv src_map start_time p \<longleftrightarrow> (\<forall>f \<in> set (pt_source_filters p). filter_of_map src_map start_time f)"

lemma offer_keeps:
  assumes "offer h items m fs = (fs', out)" and "\<forall>f \<in> set fs. filter_of_map src_map start_time f"
  shows "\<forall>f \<in> set fs'. filter_of_map src_map start_time f"
proof
  fix f' assume "f' \<in> set fs'"
  with assms(1) consider "f' \<in> set fs"
    | b fs'' out' fm where "filter_all filter_message fm fs = (b, fs'', out')" "f' \<in> set fs''"
    by (auto simp: offer_def erase_remove_if_def split: sum.splits prod.splits)
  then show "filter_of_map src_map start_time f'"
  proof cases
    case 1
    with assms(2) show ?thesis by simp
  next
    case 2
    from filter_all_in_set [OF this] assms(2) filter_of_map_step show ?thesis by metis
  qed
qed

lemma offer_output:
  assumes "offer h items m fs = (fs', out)" and "\<forall>f \<in> set fs. sf_inv f" and "x \<in> set out"
  shows "\<exists>f \<in> set fs. \<exists>fm b f' o'. FlatbufferMessage_of_Msg h items m = Inr fm \<and>
      filter_message fm f = (b, f', o') \<and> x \<in> set o'"
proof -
  from assms(1,3) obtain fm b fs'' out' where fm: "FlatbufferMessage_of_Msg h items m = Inr fm"
    and run: "filter_all filter_message fm fs = (b, fs'', out')"
    and out: "out = out' @ concat (map destroy_SourceFilter (filter has_finished fs''))"
    by (auto simp: offer_def split: sum.splits prod.splits)
  have "concat (map destroy_SourceFilter (filter has_finished fs'')) = []"
    by (rule sf.erase_finished_silent [OF sf.all_invar [OF assms(2) run]])
  with out assms(3) have "x \<in> set out'" by simp
  from filter_all_out [OF run this] fm show ?thesis by blast
qed

lemma pollForMessage_offer:
  assumes "pollForMessage h items paused nows (s, m) p = (p', out)"
  shows "(pt_source_filters p', out) = offer h items m (pt_source_filters p) \<or>
         pt_source_filters p' = pt_source_filters p \<and> out = []"
  using assms
  by (auto simp: pollForMessage_def shouldStop_eq Let_def split: prod.splits if_splits
      dest!: processMessage_offer)

inductive pt_reachable ::
  "(string \<Rightarrow> hash) \<Rightarrow> readers \<Rightarrow> 'd SrcDstKey list \<Rightarrow> time_point \<Rightarrow> 'd Partition \<Rightarrow> bool"
  for h items src_map start_time where
  created: "pt_reachable h items src_map start_time
      (create_Partition part_id topic src_map start_time stop_time leeway timeout)"
| polled_once: "pt_reachable h items src_map start_time p \<Longrightarrow>
    pollForMessage h items paused nows poll p = (p', out) \<Longrightarrow> pt_reachable h items src_map start_time p'"
| stop_time_set: "pt_reachable h items src_map start_time p \<Longrightarrow>
    pt_reachable h items src_map start_time (pt_setStopTime t p)"
| stopped: "pt_reachable h items src_map start_time p \<Longrightarrow>
    pt_reachable h items src_map start_time (pt_stop p)"

lemma pt_reachable_inv: "pt_reachable h items src_map start_time p \<Longrightarrow> pt_inv src_map start_time p"
proof (induction rule: pt_reachable.induct)
  case (created part_id topic stop_time leeway timeout)
  then show ?case
    using filter_of_map_create
    by (auto simp: pt_inv_def create_Partition_def make_Partition_def Let_def)
next
  case (polled_once p paused nows poll p' out)
  obtain s m where poll: "poll = (s, m)" by (cases poll)
  show ?case
    using pollForMessage_offer [OF polled_once.hyps(2) [unfolded poll]] polled_once.IH
      offer_keeps [of h items m "pt_source_filters p" "pt_source_filters p'" out src_map start_time]
    by (auto simp: pt_inv_def)
next
  case (stop_time_set p t)
  then show ?case
    by (auto simp: pt_inv_def pt_setStopTime_def Let_def intro: filter_of_map_stop)
next
  case (stopped p)
  then show ?case by (simp add: pt_inv_def pt_stop_def forceStop_def)
qed

text \<open>C8: In every state a partition can reach, a message that a poll hands to the writer goes to a
  destination of the source map, carries the source hash registered for the write hash of that
  destination, and lies before the start time when it is marked as buffered, and otherwise is the
  message just polled, valid, at or after the start time and not after the stop time of the filter
  that passed it.\<close>

theorem partition_routes_messages:
  assumes "pt_reachable h items src_map start_time p"
    and "pollForMessage h items paused nows (s, m) p = (p', out)" and "x \<in> set out"
  shows "\<exists>e \<in> set src_map. \<exists>e' \<in> set src_map. \<exists>f \<in> set (pt_source_filters p).
     sd_WriteHash e = sd_WriteHash e' \<and> message_DestPtr (fst x) = sd_Destination e \<and>
     fm_SourceNameIDHash (message_FbMsg (fst x)) = sd_SrcHash e' \<and>
     (let t = to_timepoint (fm_Timestamp (message_FbMsg (fst x))) in
      if snd x then t < start_time
      else FlatbufferMessage_of_Msg h items m = Inr (message_FbMsg (fst x)) \<and>
           start_time \<le> t \<and> t \<le> sf_stop_time f)"
proof -
  from pt_reachable_inv [OF assms(1)]
  have inv: "\<forall>f \<in> set (pt_source_filters p). filter_of_map src_map start_time f"
    by (simp add: pt_inv_def)
  then have sinv: "\<forall>f \<in> set (pt_source_filters p). sf_inv f" by (simp add: filter_of_map_def)
  from pollForMessage_offer [OF assms(2)] assms(3)
  have "offer h items m (pt_source_filters p) = (pt_source_filters p', out)" by auto
  from offer_output [OF this sinv assms(3)] obtain f fm b f' o' where f: "f \<in> set (pt_source_filters p)"
    and fm: "FlatbufferMessage_of_Msg h items m = Inr fm"
    and step: "filter_message fm f = (b, f', o')" and x: "x \<in> set o'" by blast
  from inv f have of_map: "filter_of_map src_map start_time f" by blast
  then obtain k es where es: "es = filter (\<lambda>e. sd_WriteHash e = k) src_map" "es \<noteq> []"
    "sf_destination_writer_modules f = map sd_Destination es" "sf_source_hash f = sd_SrcHash (last es)"
    by (auto simp: filter_of_map_def Let_def)
  note out = filter_message_output [OF step x] sinv f
  from out(1) sinv f es(3) obtain e where e: "e \<in> set es" "message_DestPtr (fst x) = sd_Destination e"
    by auto
  have last: "last es \<in> set es" using es(2) by simp
  have "fm_SourceNameIDHash (message_FbMsg (fst x)) = sf_source_hash f"
    using out of_map sinv f by (auto simp: filter_of_map_def)
  with out(3) sinv f fm of_map e last es show ?thesis
    by (intro bexI [of _ e] bexI [of _ "last es"] bexI [of _ f])
      (auto simp: in_window_def filter_of_map_def Let_def)
qed

definition sample_key :: "string SrcDstKey" where
  "sample_key = \<lparr>sd_SrcHash = 7, sd_WriteHash = 3, sd_Destination = ''A'', sd_SourceName = ''src'',
     sd_FlatbufferId = ''f144'', sd_WriterModuleId = ''f144'', sd_AcceptsRepeatedTimestamps = False\<rparr>"

definition sample_items :: "nat \<Rightarrow> readers" where
  "sample_items t = [(''f144'', \<lparr>fbr_verify = (\<lambda>_. True), fbr_source_name = (\<lambda>_. ''src''),
     fbr_timestamp = (\<lambda>_. t)\<rparr>)]"

definition sample_msg :: Msg where
  "sample_msg = empty_Msg\<lparr>msg_Data := ''....f144''\<rparr>"

lemma sample_FlatbufferMessage:
  "FlatbufferMessage_of_Msg (\<lambda>_. 7) (sample_items 1500000) sample_msg = Inr (sample_fm 1500000)"
  by (simp add: FlatbufferMessage_of_Msg_def extractPacketInfo_def sample_msg_def sample_items_def
      find_reader_def calcSourceHash_def sample_fm_def empty_Msg_def empty_FlatbufferMessage_def
      s64_def Let_def)

theorem partition_routes_messages_witness:
  "\<exists>x. snd (pollForMessage (\<lambda>_. 7) (sample_items 1500000) False (0, 0, 0) (PS_Message, sample_msg)
        (create_Partition 0 ''t'' [sample_key] 1000000 2000000 10 30)) = [x] \<and>
     message_DestPtr (fst x) = ''A'' \<and> fm_SourceNameIDHash (message_FbMsg (fst x)) = 7"
proof -
  let ?p = "create_Partition 0 ''t'' [sample_key] 1000000 2000000 10 30"
  let ?poll = "pollForMessage (\<lambda>_. 7) (sample_items 1500000) False (0, 0, 0) (PS_Message, sample_msg) ?p"
  let ?x = "(\<lparr>message_DestPtr = ''A'', message_FbMsg = sample_fm 1500000\<rparr>, False)"
  have fs: "pt_source_filters ?p = [new_filter 1000000 2000000 False 7 [''A'']]"
    by (simp add: create_Partition_def make_Partition_def Let_def create_filters_by_hash sample_key_def)
  have "filter_message (sample_fm 1500000) (new_filter 1000000 2000000 False 7 [''A'']) =
      (True, (new_filter 1000000 2000000 False 7 [''A''])
         \<lparr>sf_MessagesReceived := 1, sf_last_seen_timestamp := 1500000, sf_MessagesTransmitted := 1\<rparr>, [?x])"
    by (simp add: new_filter_eq make_SourceFilter_def sf_step_defs sample_fm_def to_timepoint_def
        s64_def signed_divide_int_def)
  then have "snd ?poll = [?x]"
    using fs by (simp add: pollForMessage_def shouldStop_eq Let_def processMessage_def
        sample_FlatbufferMessage has_finished_def new_filter_eq make_SourceFilter_def
        create_Partition_def make_Partition_def split: prod.splits)
  moreover have "?poll = (fst ?poll, snd ?poll)" by simp
  moreover have "pt_reachable (\<lambda>_. 7) (sample_items 1500000) [sample_key] 1000000 ?p"
    by (rule pt_reachable.created)
  ultimately show ?thesis
    using partition_routes_messages [of "\<lambda>_. 7" "sample_items 1500000" "[sample_key]" 1000000 ?p False
        "(0, 0, 0)" PS_Message sample_msg "fst ?poll" "snd ?poll" ?x]
    by (auto simp: sample_key_def)
qed

end
