(* ===== verification/Partition_Thread.thy ===== *)
theory Partition_Thread
  imports Stream_Partition
begin

text \<open>
  \<^verbatim>\<open>PartitionThreaded\<close> of \<^verbatim>\<open>src/Stream/Partition.h\<close>: the thread around a partition. Other threads talk
  to it through three atomics. The loop body of \<^verbatim>\<open>process()\<close> is given twice: as a function, for a pass
  during which no other thread acts, and as a step relation in which the accesses to the atomics
  interleave with those of other threads.
\<close>

record 'd PartitionThreaded =
  th_exit :: bool
  th_requested_stop_time :: time_point
  th_partition :: "'d Partition"
  th_immediate_stop_requested :: bool

definition make_PartitionThreaded :: "'d Partition \<Rightarrow> 'd PartitionThreaded" where
  "make_PartitionThreaded p =
     \<lparr>th_exit = False, th_requested_stop_time = tp_max, th_partition = p,
      th_immediate_stop_requested = False\<rparr>"

definition th_stop :: "'d PartitionThreaded \<Rightarrow> 'd PartitionThreaded" where
  "th_stop t = t\<lparr>th_immediate_stop_requested := True\<rparr>"

definition th_set_stop_time :: "time_point \<Rightarrow> 'd PartitionThreaded \<Rightarrow> 'd PartitionThreaded" where
  "th_set_stop_time stop_time t = t\<lparr>th_requested_stop_time := stop_time\<rparr>"

definition th_has_finished :: "'d PartitionThreaded \<Rightarrow> bool" where
  "th_has_finished t = hasFinished (th_partition t)"

text \<open>One undisturbed pass of the loop in \<^verbatim>\<open>process()\<close>; the poll is an argument.\<close>

definition process_pass ::
  "('d Partition \<Rightarrow> 'd Partition) \<Rightarrow> 'd PartitionThreaded \<Rightarrow> 'd PartitionThreaded" where
  "process_pass poll t =
     (let t = (if th_immediate_stop_requested t
               then t\<lparr>th_partition := pt_stop (th_partition t), th_immediate_stop_requested := False\<rparr>
               else t);
          t = (if th_requested_stop_time t \<noteq> tp_max
               then t\<lparr>th_partition := pt_setStopTime (th_requested_stop_time t) (th_partition t),
                      th_requested_stop_time := tp_max\<rparr>
               else t)
      in t\<lparr>th_partition := poll (th_partition t)\<rparr>)"

section \<open>Interleaving\<close>

text \<open>Where the worker thread is between two accesses to shared variables.\<close>

datatype worker_pc =
    At_Loop | At_Stop_Check | At_Stop_Clear | At_Time_Check | At_Time_Apply | At_Time_Clear
  | At_Poll | At_End

inductive th_step ::
  "('d Partition \<Rightarrow> 'd Partition) \<Rightarrow> worker_pc \<times> 'd PartitionThreaded
     \<Rightarrow> worker_pc \<times> 'd PartitionThreaded \<Rightarrow> bool" for poll where
  loop_on: "\<not> th_has_finished t \<Longrightarrow> \<not> th_exit t \<Longrightarrow> th_step poll (At_Loop, t) (At_Stop_Check, t)"
| loop_end: "th_has_finished t \<or> th_exit t \<Longrightarrow> th_step poll (At_Loop, t) (At_End, t)"
| stop_apply: "th_immediate_stop_requested t \<Longrightarrow>
    th_step poll (At_Stop_Check, t) (At_Stop_Clear, t\<lparr>th_partition := pt_stop (th_partition t)\<rparr>)"
| stop_skip: "\<not> th_immediate_stop_requested t \<Longrightarrow>
    th_step poll (At_Stop_Check, t) (At_Time_Check, t)"
| stop_clear: "th_step poll (At_Stop_Clear, t) (At_Time_Check, t\<lparr>th_immediate_stop_requested := False\<rparr>)"
| time_seen: "th_requested_stop_time t \<noteq> tp_max \<Longrightarrow>
    th_step poll (At_Time_Check, t) (At_Time_Apply, t)"
| time_skip: "th_requested_stop_time t = tp_max \<Longrightarrow> th_step poll (At_Time_Check, t) (At_Poll, t)"
| time_apply: "th_step poll (At_Time_Apply, t)
    (At_Time_Clear, t\<lparr>th_partition := pt_setStopTime (th_requested_stop_time t) (th_partition t)\<rparr>)"
| time_clear: "th_step poll (At_Time_Clear, t) (At_Poll, t\<lparr>th_requested_stop_time := tp_max\<rparr>)"
| polls: "th_step poll (At_Poll, t) (At_Loop, t\<lparr>th_partition := poll (th_partition t)\<rparr>)"
| other_stop: "th_step poll (pc, t) (pc, th_stop t)"
| other_set: "th_step poll (pc, t) (pc, th_set_stop_time s t)"
| other_exit: "th_step poll (pc, t) (pc, t\<lparr>th_exit := True\<rparr>)"

inductive_cases th_stepE: "th_step poll (pc, t) (pc', t')"

abbreviation th_steps where
  "th_steps poll \<equiv> (th_step poll)\<^sup>*\<^sup>*"

text \<open>A stop request is in force once it is raised: it is pending or the partition has it.\<close>

definition stop_in_force :: "worker_pc \<times> 'd PartitionThreaded \<Rightarrow> bool" where
  "stop_in_force c \<longleftrightarrow>
     pt_force_stop (th_partition (snd c)) \<or>
     th_immediate_stop_requested (snd c) \<and> fst c \<noteq> At_Stop_Clear"

lemma setStopTime_force [simp]: "pt_force_stop (pt_setStopTime t p) = pt_force_stop p"
  by (simp add: pt_setStopTime_def Let_def)

lemma stop_in_force_step:
  assumes "th_step poll c c'" and "\<And>p. pt_force_stop (poll p) = pt_force_stop p"
    and "stop_in_force c"
  shows "stop_in_force c'"
  using assms
  by (cases rule: th_step.cases)
    (auto simp: stop_in_force_def pt_stop_def forceStop_def th_stop_def th_set_stop_time_def)

text \<open>While the worker clears the flag the partition already has the stop.\<close>

definition clear_after_stop :: "worker_pc \<times> 'd PartitionThreaded \<Rightarrow> bool" where
  "clear_after_stop c \<longleftrightarrow> (fst c = At_Stop_Clear \<longrightarrow> pt_force_stop (th_partition (snd c)))"

lemma clear_after_stop_step:
  "th_step poll c c' \<Longrightarrow> clear_after_stop c \<Longrightarrow> clear_after_stop c'"
  by (cases rule: th_step.cases)
    (auto simp: clear_after_stop_def pt_stop_def forceStop_def th_stop_def th_set_stop_time_def)

lemma th_steps_keep:
  assumes "th_steps poll c c'" and "\<And>c c'. th_step poll c c' \<Longrightarrow> I c \<Longrightarrow> I c'" and "I c"
  shows "I c'"
  using assms by (induction rule: rtranclp_induct) auto



text \<open>The same does not hold for \<^verbatim>\<open>set_stop_time\<close>. If the time is set again after the worker has
  applied the previous one and before it stores \<^verbatim>\<open>time_point::max()\<close>, the store erases the new
  request: the worker goes on to poll with nothing pending and the old stop time in the partition.\<close>

theorem set_stop_time_can_be_lost:
  assumes "\<not> pt_has_finished p" and "old \<noteq> tp_max"
  shows "\<exists>t. th_steps poll (At_Loop, make_PartitionThreaded p) (At_Time_Clear, t) \<and>
     th_steps poll (At_Time_Clear, th_set_stop_time new t)
       (At_Poll, (make_PartitionThreaded p)\<lparr>th_partition := pt_setStopTime old p\<rparr>)"
proof -
  let ?t0 = "make_PartitionThreaded p"
  let ?t1 = "th_set_stop_time old ?t0"
  let ?t2 = "?t1\<lparr>th_partition := pt_setStopTime old p\<rparr>"
  have 1: "th_step poll (At_Loop, ?t0) (At_Loop, ?t1)" by (rule th_step.other_set)
  have 2: "th_step poll (At_Loop, ?t1) (At_Stop_Check, ?t1)"
    using assms(1) by (intro th_step.loop_on)
      (simp_all add: th_has_finished_def hasFinished_def th_set_stop_time_def make_PartitionThreaded_def)
  have 3: "th_step poll (At_Stop_Check, ?t1) (At_Time_Check, ?t1)"
    by (rule th_step.stop_skip) (simp add: th_set_stop_time_def make_PartitionThreaded_def)
  have 4: "th_step poll (At_Time_Check, ?t1) (At_Time_Apply, ?t1)"
    using assms(2) by (intro th_step.time_seen) (simp add: th_set_stop_time_def)
  have 5: "th_step poll (At_Time_Apply, ?t1) (At_Time_Clear, ?t2)"
    using th_step.time_apply [of poll ?t1] by (simp add: th_set_stop_time_def make_PartitionThreaded_def)
  have 6: "th_step poll (At_Time_Clear, th_set_stop_time new ?t2)
      (At_Poll, ?t0\<lparr>th_partition := pt_setStopTime old p\<rparr>)"
    using th_step.time_clear [of poll "th_set_stop_time new ?t2"]
    by (simp add: th_set_stop_time_def make_PartitionThreaded_def)
  note more = rtranclp.rtrancl_into_rtrancl [where r = "th_step poll"]
    and one = r_into_rtranclp [where r = "th_step poll"]
  have "th_steps poll (At_Loop, ?t0) (At_Time_Clear, ?t2)"
    by (rule more [OF more [OF more [OF more [OF one [OF 1] 2] 3] 4] 5])
  with one [OF 6] show ?thesis by blast
qed

theorem set_stop_time_can_be_lost_witness:
  "\<exists>t. th_steps (\<lambda>p. p)
       (At_Loop, make_PartitionThreaded (create_Partition 0 ''t'' [sample_key] 0 tp_max 10 30))
       (At_Time_Clear, t) \<and>
     th_steps (\<lambda>p. p) (At_Time_Clear, th_set_stop_time 200 t)
       (At_Poll, (make_PartitionThreaded (create_Partition 0 ''t'' [sample_key] 0 tp_max 10 30))
          \<lparr>th_partition := pt_setStopTime 100 (create_Partition 0 ''t'' [sample_key] 0 tp_max 10 30)\<rparr>)"
  by (rule set_stop_time_can_be_lost)
    (simp_all add: create_Partition_def make_Partition_def Let_def)

end
