(* ===== verification/Kafka_Settings.thy ===== *)
theory Kafka_Settings
  imports K2N_Prelude
begin

text \<open>\<^verbatim>\<open>src/Kafka/BrokerSettings.h\<close> and \<^verbatim>\<open>src/StreamerOptions.h\<close>: the settings with their defaults.\<close>

record BrokerSettings =
  bs_Address :: string
  bs_PollTimeout :: duration
  bs_MinMetadataTimeout :: duration
  bs_MaxMetadataTimeout :: duration
  bs_KafkaErrorTimeout :: duration
  bs_KafkaConfiguration :: "(string \<times> string) list"

definition default_BrokerSettings :: BrokerSettings where
  "default_BrokerSettings =
     \<lparr>bs_Address = [], bs_PollTimeout = millis 100, bs_MinMetadataTimeout = millis 400,
      bs_MaxMetadataTimeout = seconds 10, bs_KafkaErrorTimeout = seconds 30,
      bs_KafkaConfiguration =
        fold (\<lambda>(k, v). smap_insert k v)
          [(''socket.timeout.ms'', ''10000''), (''message.max.bytes'', ''314572800''),
           (''fetch.max.bytes'', ''314572800''), (''receive.message.max.bytes'', ''314573312''),
           (''queue.buffering.max.messages'', ''100000''), (''queue.buffering.max.ms'', ''50''),
           (''queue.buffering.max.kbytes'', ''819200''), (''batch.num.messages'', ''100000''),
           (''coordinator.query.interval.ms'', ''5000''), (''heartbeat.interval.ms'', ''500''),
           (''statistics.interval.ms'', ''600000''), (''api.version.request'', ''true''),
           (''enable.auto.commit'', ''false''), (''enable.partition.eof'', ''true''),
           (''enable.idempotence'', ''true'')] []\<rparr>"

record StreamerOptions =
  so_DataFlushInterval :: duration
  so_BrokerSettings :: BrokerSettings
  so_StartTimestamp :: time_point
  so_StopTimestamp :: time_point
  so_BeforeStartTime :: duration
  so_AfterStopTime :: duration
  so_MaxQueuedWrites :: nat

definition default_StreamerOptions :: StreamerOptions where
  "default_StreamerOptions =
     \<lparr>so_DataFlushInterval = seconds 10, so_BrokerSettings = default_BrokerSettings,
      so_StartTimestamp = millis 0, so_StopTimestamp = tp_max, so_BeforeStartTime = seconds 10,
      so_AfterStopTime = seconds 10, so_MaxQueuedWrites = 1000\<rparr>"

section \<open>Doubling a metadata timeout\<close>

text \<open>The retry rule shared by \<^verbatim>\<open>Topic\<close> and \<^verbatim>\<open>StreamController\<close>:
  \<^verbatim>\<open>CurrentMetadataTimeOut *= 2\<close>, limited by the largest timeout.\<close>

definition next_timeout :: "BrokerSettings \<Rightarrow> duration \<Rightarrow> duration" where
  "next_timeout Settings t =
     (let t = s64 (t * 2) in if t > bs_MaxMetadataTimeout Settings then bs_MaxMetadataTimeout Settings else t)"

definition timeouts_ok :: "BrokerSettings \<Rightarrow> bool" where
  "timeouts_ok b \<longleftrightarrow> 0 < bs_MinMetadataTimeout b \<and> bs_MinMetadataTimeout b \<le> bs_MaxMetadataTimeout b \<and>
     2 * bs_MaxMetadataTimeout b \<le> tp_max"

definition timeout_in_range :: "BrokerSettings \<Rightarrow> duration \<Rightarrow> bool" where
  "timeout_in_range b t \<longleftrightarrow> bs_MinMetadataTimeout b \<le> t \<and> t \<le> bs_MaxMetadataTimeout b"

lemma next_timeout_eq:
  assumes "timeouts_ok b" and "timeout_in_range b t"
  shows "next_timeout b t = min (2 * t) (bs_MaxMetadataTimeout b)"
proof -
  have "s64 (t * 2) = t * 2"
    using assms by (intro s64_id) (simp_all add: timeouts_ok_def timeout_in_range_def)
  then show ?thesis by (simp add: next_timeout_def min_def)
qed

lemma next_timeout_in_range:
  "timeouts_ok b \<Longrightarrow> timeout_in_range b t \<Longrightarrow> timeout_in_range b (next_timeout b t)"
  by (auto simp: next_timeout_eq) (auto simp: timeouts_ok_def timeout_in_range_def)

lemma next_timeout_iterated:
  assumes "timeouts_ok b"
  shows "(next_timeout b ^^ n) (bs_MinMetadataTimeout b) =
         min (bs_MinMetadataTimeout b * 2 ^ n) (bs_MaxMetadataTimeout b)"
proof (induction n)
  case 0
  show ?case using assms by (simp add: timeouts_ok_def)
next
  case (Suc n)
  have "timeout_in_range b ((next_timeout b ^^ n) (bs_MinMetadataTimeout b))"
    using assms next_timeout_in_range [OF assms]
    by (induction n) (auto simp: timeout_in_range_def timeouts_ok_def)
  from next_timeout_eq [OF assms this] Suc
  have "(next_timeout b ^^ Suc n) (bs_MinMetadataTimeout b) =
      min (2 * min (bs_MinMetadataTimeout b * 2 ^ n) (bs_MaxMetadataTimeout b)) (bs_MaxMetadataTimeout b)"
    by simp
  moreover have "min (2 * min x m) m = min (2 * x) m" if "0 < x" "0 < m" for x m :: int
    using that by (auto simp: min_def)
  moreover have "0 < bs_MinMetadataTimeout b * 2 ^ n" "0 < bs_MaxMetadataTimeout b"
    using assms by (simp_all add: timeouts_ok_def)
  ultimately show ?case by simp
qed

lemma default_timeouts_ok: "timeouts_ok default_BrokerSettings"
  by (simp add: timeouts_ok_def default_BrokerSettings_def millis_def seconds_def s64_def)

end
