(* ===== verification/Stream_Topic.thy ===== *)
theory Stream_Topic
  imports Partition_Thread Work_Queue Kafka_Settings
begin

text \<open>
  \<^verbatim>\<open>src/Stream/Topic.{h,cpp}\<close>: looking up the partitions and offsets of a topic, with retries, and
  then watching the consumer threads. All of it runs as tasks of the topic's executor; the lambdas the
  code sends to the executor are the constructors of \<open>topic_task\<close>. The answers of the broker (through
  \<^verbatim>\<open>Kafka::MetadataEnquirer\<close>) and the clock are the argument \<open>env\<close> of a task.
\<close>

record 'd Topic =
  tc_HasError :: bool
  tc_ErrorMessage :: string
  tc_StartMetaDataTime :: time_point
  tc_IsDone :: bool
  tc_KafkaSettings :: BrokerSettings
  tc_TopicName :: string
  tc_DataMap :: "'d SrcDstKey list"
  tc_StartConsumeTime :: time_point
  tc_StartLeeway :: duration
  tc_StopConsumeTime :: time_point
  tc_StopLeeway :: duration
  tc_CurrentMetadataTimeOut :: duration
  tc_ConsumerThreads :: "'d PartitionThreaded list"

abbreviation MetaDataGiveUp :: duration where
  "MetaDataGiveUp \<equiv> 60000000000"

definition make_Topic ::
  "BrokerSettings \<Rightarrow> string \<Rightarrow> 'd SrcDstKey list \<Rightarrow> time_point \<Rightarrow> duration \<Rightarrow> time_point \<Rightarrow> duration
     \<Rightarrow> time_point \<Rightarrow> 'd Topic" where
  "make_Topic Settings Name DataMap StartTime StartTimeLeeway StopTime StopTimeLeeway now =
     \<lparr>tc_HasError = False, tc_ErrorMessage = [], tc_StartMetaDataTime = now, tc_IsDone = False,
      tc_KafkaSettings = Settings, tc_TopicName = Name, tc_DataMap = DataMap,
      tc_StartConsumeTime = StartTime, tc_StartLeeway = StartTimeLeeway,
      tc_StopConsumeTime = StopTime, tc_StopLeeway = StopTimeLeeway,
      tc_CurrentMetadataTimeOut = bs_MinMetadataTimeout Settings, tc_ConsumerThreads = []\<rparr>"

text \<open>The tasks. The \<open>First_\<close> forms reset the timeout before the call, the \<open>Retry_\<close> forms keep it.\<close>

datatype topic_task =
    T_initMetadataCalls
  | T_First_getPartitionsForTopic
  | T_Retry_getPartitionsForTopic
  | T_First_getOffsetsForPartitions "int list"
  | T_Retry_getOffsetsForPartitions "int list"
  | T_createStreams "(int \<times> int) list"
  | T_checkIfDone
  | T_setStopTime time_point

record topic_env =
  te_now :: time_point
  te_partitions :: "string + int list"
  te_offsets :: "string + (int \<times> int) list"

definition topic_start :: "(bool \<times> topic_task) list" where
  "topic_start = [(True, T_initMetadataCalls)]"

definition topic_setStopTime :: "time_point \<Rightarrow> (bool \<times> topic_task) list" where
  "topic_setStopTime StopTime = [(True, T_setStopTime StopTime)]"

definition topic_stop :: "'d Topic \<Rightarrow> 'd Topic" where
  "topic_stop t = t\<lparr>tc_ConsumerThreads := map th_stop (tc_ConsumerThreads t)\<rparr>"

definition shouldGiveUp :: "time_point \<Rightarrow> 'd Topic \<Rightarrow> bool" where
  "shouldGiveUp now t \<longleftrightarrow> now > s64 (tc_StartMetaDataTime t + MetaDataGiveUp)"

definition setErrorState :: "string \<Rightarrow> 'd Topic \<Rightarrow> 'd Topic" where
  "setErrorState Msg t = t\<lparr>tc_HasError := True, tc_ErrorMessage := Msg\<rparr>"

definition getPartitionsForTopic :: "topic_env \<Rightarrow> 'd Topic \<Rightarrow> 'd Topic \<times> (bool \<times> topic_task) list" where
  "getPartitionsForTopic env t =
     (case te_partitions env of
        Inr FoundPartitions \<Rightarrow> (t, [(True, T_First_getOffsetsForPartitions FoundPartitions)])
      | Inl E \<Rightarrow>
          if shouldGiveUp (te_now env) t then
            (setErrorState
               (''Meta data call for retrieving partition IDs for topic \"'' @ tc_TopicName t @
                ''\" from the broker failed. The failure message was: \"'' @ E @
                ''\". Abandoning attempt.'') t, [])
          else
            (t\<lparr>tc_CurrentMetadataTimeOut :=
                 next_timeout (tc_KafkaSettings t) (tc_CurrentMetadataTimeOut t)\<rparr>,
             [(False, T_Retry_getPartitionsForTopic)]))"

definition getOffsetsForPartitions ::
  "topic_env \<Rightarrow> int list \<Rightarrow> 'd Topic \<Rightarrow> 'd Topic \<times> (bool \<times> topic_task) list" where
  "getOffsetsForPartitions env Partitions t =
     (case te_offsets env of
        Inr PartitionOffsetList \<Rightarrow> (t, [(True, T_createStreams PartitionOffsetList)])
      | Inl E \<Rightarrow>
          if shouldGiveUp (te_now env) t then
            (setErrorState
               (''Meta data call for retrieving offsets for topic \"'' @ tc_TopicName t @
                ''\" from the broker failed. The failure message was: \"'' @ E @
                ''\". Abandoning attempt.'') t, [])
          else
            (t\<lparr>tc_CurrentMetadataTimeOut :=
                 next_timeout (tc_KafkaSettings t) (tc_CurrentMetadataTimeOut t)\<rparr>,
             [(False, T_Retry_getOffsetsForPartitions Partitions)]))"

definition checkIfDoneTask :: "(bool \<times> topic_task) list" where
  "checkIfDoneTask = [(False, T_checkIfDone)]"

definition createStreams ::
  "(int \<times> int) list \<Rightarrow> 'd Topic \<Rightarrow> 'd Topic \<times> (bool \<times> topic_task) list" where
  "createStreams PartitionOffsets t =
     (t\<lparr>tc_ConsumerThreads := tc_ConsumerThreads t @
          map (\<lambda>(part_id, offset).
                 make_PartitionThreaded
                   (create_Partition part_id (tc_TopicName t) (tc_DataMap t) (tc_StartConsumeTime t)
                      (tc_StopConsumeTime t) (tc_StopLeeway t)
                      (bs_KafkaErrorTimeout (tc_KafkaSettings t)))) PartitionOffsets\<rparr>,
      checkIfDoneTask)"

definition checkIfDone :: "'d Topic \<Rightarrow> 'd Topic \<times> (bool \<times> topic_task) list" where
  "checkIfDone t =
     (if list_all th_has_finished (tc_ConsumerThreads t) then t\<lparr>tc_IsDone := True\<rparr> else t,
      checkIfDoneTask)"

definition topic_isDone :: "'d Topic \<Rightarrow> exn + bool" where
  "topic_isDone t =
     (if tc_HasError t then Inl (Runtime_Error (tc_ErrorMessage t)) else Inr (tc_IsDone t))"

definition reset_timeout :: "'d Topic \<Rightarrow> 'd Topic" where
  "reset_timeout t =
     t\<lparr>tc_CurrentMetadataTimeOut := bs_MinMetadataTimeout (tc_KafkaSettings t)\<rparr>"

fun run_topic_task :: "topic_env \<Rightarrow> topic_task \<Rightarrow> 'd Topic \<Rightarrow> 'd Topic \<times> (bool \<times> topic_task) list" where
  "run_topic_task env T_initMetadataCalls t = (t, [(True, T_First_getPartitionsForTopic)])"
| "run_topic_task env T_First_getPartitionsForTopic t = getPartitionsForTopic env (reset_timeout t)"
| "run_topic_task env T_Retry_getPartitionsForTopic t = getPartitionsForTopic env t"
| "run_topic_task env (T_First_getOffsetsForPartitions ps) t =
     getOffsetsForPartitions env ps (reset_timeout t)"
| "run_topic_task env (T_Retry_getOffsetsForPartitions ps) t = getOffsetsForPartitions env ps t"
| "run_topic_task env (T_createStreams os) t = createStreams os (reset_timeout t)"
| "run_topic_task env T_checkIfDone t = checkIfDone t"
| "run_topic_task env (T_setStopTime StopTime) t =
     (t\<lparr>tc_StopConsumeTime := StopTime,
        tc_ConsumerThreads := map (th_set_stop_time StopTime) (tc_ConsumerThreads t)\<rparr>, [])"

section \<open>Executions of a topic\<close>

text \<open>The executor runs some pending task; meanwhile the owner may send a new stop time or call
  \<^verbatim>\<open>stop\<close>, and the consumer threads make progress. A finished partition stays finished.\<close>

inductive topic_step ::
  "'d Topic \<times> topic_task multiset \<Rightarrow> 'd Topic \<times> topic_task multiset \<Rightarrow> bool" where
  run_task: "bag_step (run_topic_task env) c c' \<Longrightarrow> topic_step c c'"
| owner_sets_stop_time: "topic_step (t, M) (t, M + mset (map snd (topic_setStopTime StopTime)))"
| owner_stops: "topic_step (t, M) (topic_stop t, M)"
| consumer_progress: "i < length (tc_ConsumerThreads t) \<Longrightarrow>
    (th_has_finished (tc_ConsumerThreads t ! i) \<Longrightarrow> th_has_finished th) \<Longrightarrow>
    topic_step (t, M) (t\<lparr>tc_ConsumerThreads := (tc_ConsumerThreads t)[i := th]\<rparr>, M)"

definition chain_task :: "topic_task \<Rightarrow> bool" where
  "chain_task j = (case j of T_setStopTime _ \<Rightarrow> False | _ \<Rightarrow> True)"

fun streams_created :: "topic_task \<Rightarrow> bool" where
  "streams_created T_checkIfDone = True"
| "streams_created _ = False"

text \<open>The invariant: unless it has given up, a topic has exactly one task of the chain that leads
  from the metadata calls to the watching of the threads; the timeout is between its bounds; and a
  topic that reports to be done has created its threads and all of them have finished.\<close>

definition topic_inv :: "'d Topic \<times> topic_task multiset \<Rightarrow> bool" where
  "topic_inv c \<longleftrightarrow>
     (let (t, M) = c; chain = filter_mset chain_task M in
      (if tc_HasError t then chain = {#} else \<exists>j. chain = {#j#}) \<and>
      timeout_in_range (tc_KafkaSettings t) (tc_CurrentMetadataTimeOut t) \<and>
      (tc_IsDone t \<longrightarrow> chain = {#T_checkIfDone#} \<and> list_all th_has_finished (tc_ConsumerThreads t)))"

lemma th_finished_setters [simp]:
  "th_has_finished (th_set_stop_time s t) = th_has_finished t"
  "th_has_finished (th_stop t) = th_has_finished t"
  by (simp_all add: th_has_finished_def th_set_stop_time_def th_stop_def)

lemma list_all_setters [simp]:
  "list_all th_has_finished (map (th_set_stop_time s) ts) = list_all th_has_finished ts"
  "list_all th_has_finished (map th_stop ts) = list_all th_has_finished ts"
  by (simp_all add: list_all_iff)

lemma run_topic_task_settings [simp]:
  "tc_KafkaSettings (fst (run_topic_task env j t)) = tc_KafkaSettings t"
  by (cases j) (auto simp: getPartitionsForTopic_def getOffsetsForPartitions_def createStreams_def
      checkIfDone_def setErrorState_def reset_timeout_def split: sum.splits)

lemma run_topic_task_timeout:
  assumes "timeouts_ok (tc_KafkaSettings t)"
    and "timeout_in_range (tc_KafkaSettings t) (tc_CurrentMetadataTimeOut t)"
  shows "timeout_in_range (tc_KafkaSettings t) (tc_CurrentMetadataTimeOut (fst (run_topic_task env j t)))"
proof -
  have "timeout_in_range (tc_KafkaSettings t) (bs_MinMetadataTimeout (tc_KafkaSettings t))"
    using assms(1) by (simp add: timeout_in_range_def timeouts_ok_def)
  with next_timeout_in_range [OF assms(1)] assms(2) show ?thesis
    by (cases j) (auto simp: getPartitionsForTopic_def getOffsetsForPartitions_def createStreams_def
        checkIfDone_def setErrorState_def reset_timeout_def split: sum.splits)
qed

text \<open>What a task of the chain leaves behind.\<close>

lemma run_chain_task:
  assumes "chain_task j" and "run_topic_task env j t = (t', ws)" and "\<not> tc_HasError t"
  shows "if tc_HasError t' then ws = [] \<and> tc_IsDone t' = tc_IsDone t \<and> \<not> streams_created j
         else \<exists>p k. ws = [(p, k)] \<and> chain_task k \<and>
           (streams_created j \<longrightarrow> k = T_checkIfDone) \<and>
           (tc_IsDone t' \<longrightarrow> tc_IsDone t \<or>
              streams_created j \<and> list_all th_has_finished (tc_ConsumerThreads t))"
    and "streams_created j \<Longrightarrow> tc_ConsumerThreads t' = tc_ConsumerThreads t"
  using assms
  by (cases j; auto simp: chain_task_def getPartitionsForTopic_def getOffsetsForPartitions_def
      createStreams_def checkIfDone_def checkIfDoneTask_def setErrorState_def reset_timeout_def
      split: sum.splits if_splits)+

lemma run_other_task:
  "\<not> chain_task j \<Longrightarrow> run_topic_task env j t = (t', ws) \<Longrightarrow>
     ws = [] \<and> tc_HasError t' = tc_HasError t \<and> tc_IsDone t' = tc_IsDone t \<and>
     list_all th_has_finished (tc_ConsumerThreads t') = list_all th_has_finished (tc_ConsumerThreads t)"
  by (cases j) (auto simp: chain_task_def)

lemma topic_inv_run:
  assumes "bag_step (run_topic_task env) (t, M) (t', M')" and "topic_inv (t, M)"
    and "timeouts_ok (tc_KafkaSettings t)"
  shows "topic_inv (t', M')"
proof -
  from assms(1) obtain j ws where j: "j \<in># M" and run: "run_topic_task env j t = (t', ws)"
    and M': "M' = M - {#j#} + mset (map snd ws)" by (auto elim: bag_stepE)
  have time: "timeout_in_range (tc_KafkaSettings t') (tc_CurrentMetadataTimeOut t')"
    using run_topic_task_timeout [OF assms(3), of env j] run_topic_task_settings [of env j t] assms(2) run
    by (simp add: topic_inv_def Let_def)
  show ?thesis
  proof (cases "chain_task j")
    case False
    from run_other_task [OF False run] False assms(2) time show ?thesis
      by (auto simp: topic_inv_def M' Let_def)
  next
    case True
    with j have mem: "j \<in># filter_mset chain_task M" by simp
    then have ok: "\<not> tc_HasError t" using assms(2) by (auto simp: topic_inv_def Let_def)
    then obtain i where "filter_mset chain_task M = {#i#}"
      using assms(2) by (auto simp: topic_inv_def Let_def)
    with mem have chain: "filter_mset chain_task M = {#j#}" by simp
    have dn: "tc_IsDone t \<Longrightarrow> j = T_checkIfDone \<and> list_all th_has_finished (tc_ConsumerThreads t)"
      using assms(2) chain by (auto simp: topic_inv_def Let_def)
    have "filter_mset chain_task (M - {#j#}) = {#}"
      using chain True by (simp only: filter_diff_mset filter_single_mset if_True diff_cancel)
    then have rest: "filter_mset chain_task M' = filter_mset chain_task (mset (map snd ws))"
      by (simp only: M' filter_union_mset add_0)
    note r = run_chain_task [OF True run ok]
    show ?thesis
    proof (cases "tc_HasError t'")
      case err: True
      with r(1) have "ws = []" "tc_IsDone t' = tc_IsDone t" "\<not> streams_created j" by simp_all
      with dn have "\<not> tc_IsDone t'" by auto
      with err time rest \<open>ws = []\<close> show ?thesis by (simp add: topic_inv_def Let_def)
    next
      case False
      with r(1) obtain p k where k: "ws = [(p, k)]" "chain_task k"
        "streams_created j \<Longrightarrow> k = T_checkIfDone"
        "tc_IsDone t' \<Longrightarrow> tc_IsDone t \<or> streams_created j \<and> list_all th_has_finished (tc_ConsumerThreads t)"
        by auto
      have "tc_IsDone t' \<Longrightarrow> k = T_checkIfDone \<and> list_all th_has_finished (tc_ConsumerThreads t')"
        using dn k(3,4) r(2) by fastforce
      with False time rest k(1,2) show ?thesis by (simp add: topic_inv_def Let_def)
    qed
  qed
qed

lemma topic_inv_step:
  assumes "topic_step c c'" and "topic_inv c" and "timeouts_ok (tc_KafkaSettings (fst c))"
  shows "topic_inv c' \<and> tc_KafkaSettings (fst c') = tc_KafkaSettings (fst c)"
  using assms
proof (cases rule: topic_step.cases)
  case (run_task env)
  obtain t M t' M' where c: "c = (t, M)" "c' = (t', M')" by fastforce
  have "tc_KafkaSettings t' = tc_KafkaSettings t"
    using run_task run_topic_task_settings [of env] c by (metis bag_stepE fst_conv)
  with topic_inv_run [OF run_task [unfolded c]] assms(2,3) c show ?thesis by simp
next
  case (owner_sets_stop_time t M StopTime)
  with assms(2) show ?thesis
    by (auto simp: topic_inv_def topic_setStopTime_def chain_task_def Let_def)
next
  case (owner_stops t M)
  with assms(2) show ?thesis by (auto simp: topic_inv_def topic_stop_def Let_def)
next
  case (consumer_progress i t th M)
  then have "list_all th_has_finished (tc_ConsumerThreads t) \<Longrightarrow>
      list_all th_has_finished ((tc_ConsumerThreads t)[i := th])"
    by (auto simp: list_all_length nth_list_update)
  with consumer_progress(1,2) assms(2) show ?thesis by (auto simp: topic_inv_def Let_def)
qed

definition topic_initial ::
  "BrokerSettings \<Rightarrow> string \<Rightarrow> 'd SrcDstKey list \<Rightarrow> time_point \<Rightarrow> duration \<Rightarrow> time_point \<Rightarrow> duration
     \<Rightarrow> time_point \<Rightarrow> 'd Topic \<times> topic_task multiset" where
  "topic_initial Settings Name DataMap StartTime StartTimeLeeway StopTime StopTimeLeeway now =
     (make_Topic Settings Name DataMap StartTime StartTimeLeeway StopTime StopTimeLeeway now,
      mset (map snd topic_start))"

lemma topic_inv_reachable:
  assumes "topic_step\<^sup>*\<^sup>* (topic_initial b n d st sl sp spl now) c" and "timeouts_ok b"
  shows "topic_inv c \<and> tc_KafkaSettings (fst c) = b"
  using assms(1)
proof (induction rule: rtranclp_induct)
  case base
  show ?case
    using assms(2) by (simp add: topic_inv_def topic_initial_def make_Topic_def topic_start_def
        chain_task_def timeout_in_range_def timeouts_ok_def)
next
  case (step c c')
  with topic_inv_step assms(2) show ?case by blast
qed



text \<open>A metadata call that keeps failing is repeated with the timeouts
  \<open>min (Min * 2^k) Max\<close>; the topic gives up, with an error that \<^verbatim>\<open>isDone\<close> raises, exactly at the first
  failure later than 60 seconds after its construction.\<close>

theorem topic_retry_schedule:
  assumes "timeouts_ok (tc_KafkaSettings t)" and "te_partitions env = Inl e"
    and "tc_CurrentMetadataTimeOut t =
         min (bs_MinMetadataTimeout (tc_KafkaSettings t) * 2 ^ k) (bs_MaxMetadataTimeout (tc_KafkaSettings t))"
  shows "let (t', ws) = run_topic_task env T_Retry_getPartitionsForTopic t in
     if te_now env > s64 (tc_StartMetaDataTime t + 60000000000)
     then ws = [] \<and> (\<exists>msg. topic_isDone t' = Inl (Runtime_Error msg))
     else ws = [(False, T_Retry_getPartitionsForTopic)] \<and>
          tc_CurrentMetadataTimeOut t' =
            min (bs_MinMetadataTimeout (tc_KafkaSettings t) * 2 ^ Suc k)
                (bs_MaxMetadataTimeout (tc_KafkaSettings t))"
proof -
  have "next_timeout (tc_KafkaSettings t) (tc_CurrentMetadataTimeOut t) =
      min (bs_MinMetadataTimeout (tc_KafkaSettings t) * 2 ^ Suc k)
          (bs_MaxMetadataTimeout (tc_KafkaSettings t))"
    using next_timeout_iterated [OF assms(1), of "Suc k"] next_timeout_iterated [OF assms(1), of k] assms(3)
    by simp
  then show ?thesis
    using assms(2) by (auto simp: getPartitionsForTopic_def shouldGiveUp_def setErrorState_def
        topic_isDone_def)
qed

theorem topic_retry_schedule_witness:
  "tc_CurrentMetadataTimeOut (fst (run_topic_task
      \<lparr>te_now = 0, te_partitions = Inl ''no broker'', te_offsets = Inr []\<rparr> T_Retry_getPartitionsForTopic
      (make_Topic default_BrokerSettings ''t'' [sample_key] 0 0 5 5 0))) = 800000000"
proof -
  let ?t = "make_Topic default_BrokerSettings ''t'' [sample_key] 0 0 5 5 0"
  let ?env = "\<lparr>te_now = 0, te_partitions = Inl ''no broker'', te_offsets = Inr []\<rparr>"
  have c: "tc_KafkaSettings ?t = default_BrokerSettings"
    "tc_CurrentMetadataTimeOut ?t = 400000000" "tc_StartMetaDataTime ?t = 0"
    "bs_MinMetadataTimeout default_BrokerSettings = 400000000"
    "bs_MaxMetadataTimeout default_BrokerSettings = 10000000000"
    by (simp_all add: make_Topic_def default_BrokerSettings_def millis_def seconds_def s64_def)
  show ?thesis
    using topic_retry_schedule [of ?t ?env "''no broker''" 0] default_timeouts_ok
    by (simp add: c s64_def Let_def split: prod.splits)
qed

end
