(* ===== verification/File_Writer_Task.thy ===== *)
theory File_Writer_Task
  imports Flatbuffer
begin

text \<open>
  \<^verbatim>\<open>src/FileWriterTask.{h,cpp}\<close>, the object that owns the HDF5 file and the sources of one job, and
  \<^verbatim>\<open>src/WriterModule/mdat\<close>, which writes start and stop time into the file when the job ends. The file
  system is the pair of functions \<open>exists\<close> and \<open>file_size\<close>; the HDF5 file behind \<^verbatim>\<open>HDFFile\<close> is a
  value of type \<open>'h\<close> made by the argument \<open>mk_file\<close>.
\<close>

section \<open>Paths\<close>

text \<open>\<^verbatim>\<open>std::filesystem::path\<close> on POSIX systems, as its string.\<close>

definition path_filename :: "string \<Rightarrow> string" where
  "path_filename p = rev (takeWhile (\<lambda>c. c \<noteq> CHR ''/'') (rev p))"

definition has_filename :: "string \<Rightarrow> bool" where
  "has_filename p \<longleftrightarrow> path_filename p \<noteq> []"

definition parent_path :: "string \<Rightarrow> string" where
  "parent_path p =
     (let dir = rev (dropWhile (\<lambda>c. c \<noteq> CHR ''/'') (rev p));
          dir' = rev (dropWhile (\<lambda>c. c = CHR ''/'') (rev dir))
      in if dir' = [] then dir else dir')"

lemma path_split: "\<exists>dir. p = dir @ path_filename p \<and> (dir = [] \<or> last dir = CHR ''/'')"
proof -
  let ?P = "\<lambda>c. c \<noteq> CHR ''/''"
  let ?d = "dropWhile ?P (rev p)"
  have "rev p = takeWhile ?P (rev p) @ ?d" by simp
  then have "p = rev ?d @ path_filename p"
    by (metis path_filename_def rev_append rev_rev_ident)
  moreover have "rev ?d = [] \<or> last (rev ?d) = CHR ''/''"
    using hd_dropWhile [of ?P "rev p"] by (cases "?d = []") (auto simp: last_rev)
  ultimately show ?thesis by blast
qed

section \<open>The task\<close>

record ('h, 'd) FileWriterTask =
  fw_job_id :: string
  fw_filepath :: string
  fw_FileSizeMB :: int
  fw_File :: "'h option"
  fw_SourceToModuleMap :: "'d Source list"

definition make_FileWriterTask :: "string \<Rightarrow> string \<Rightarrow> ('h, 'd) FileWriterTask" where
  "make_FileWriterTask job_id filepath =
     \<lparr>fw_job_id = job_id, fw_filepath = filepath, fw_FileSizeMB = 0, fw_File = None,
      fw_SourceToModuleMap = []\<rparr>"

definition setFullFilePath :: "string \<Rightarrow> ('h, 'd) FileWriterTask \<Rightarrow> ('h, 'd) FileWriterTask" where
  "setFullFilePath filepath t = t\<lparr>fw_filepath := filepath\<rparr>"

definition addSource :: "'d Source \<Rightarrow> ('h, 'd) FileWriterTask \<Rightarrow> ('h, 'd) FileWriterTask" where
  "addSource s t = t\<lparr>fw_SourceToModuleMap := fw_SourceToModuleMap t @ [s]\<rparr>"

definition hdf_init_error :: "string \<Rightarrow> string \<Rightarrow> exn" where
  "hdf_init_error path why =
     Runtime_Error (''Failed to initialize HDF file \"'' @ path @ ''\". Error was: '' @ why)"

text \<open>The constructor of \<^verbatim>\<open>HDFFile\<close>, here \<open>mk_file\<close>, also fills the list of stream modules.\<close>

definition InitialiseHdf ::
  "(string \<Rightarrow> bool) \<Rightarrow> (string \<Rightarrow> exn + 'h \<times> 'i) \<Rightarrow> ('h, 'd) FileWriterTask
     \<Rightarrow> exn + ('h, 'd) FileWriterTask \<times> 'i" where
  "InitialiseHdf exists mk_file t =
     (let p = fw_filepath t in
      if exists p then
        Inl (hdf_init_error p (''\"a file with that filename already exists in that directory. Delete '' @
                               ''the existing file or provide another filename\".''))
      else if \<not> has_filename p then Inl (hdf_init_error p ''\"filename is empty\".'')
      else if parent_path p \<noteq> [] \<and> \<not> exists (parent_path p) then
        Inl (hdf_init_error p ''The parent directory does not exist.'')
      else
        (case mk_file p of
           Inl E \<Rightarrow> Inl (hdf_init_error p (exn_what E))
         | Inr (f, info) \<Rightarrow> Inr (t\<lparr>fw_File := Some f\<rparr>, info)))"

definition hdfGroup :: "('h \<Rightarrow> 'g) \<Rightarrow> ('h, 'd) FileWriterTask \<Rightarrow> exn + 'g" where
  "hdfGroup grp t =
     (case fw_File t of
        None \<Rightarrow> Inl (Runtime_Error ''Could not obtain group as no HDF file currently open'')
      | Some f \<Rightarrow> Inr (grp f))"

definition flushDataToFile :: "('h \<Rightarrow> 'h) \<Rightarrow> ('h, 'd) FileWriterTask \<Rightarrow> ('h, 'd) FileWriterTask" where
  "flushDataToFile flush t = t\<lparr>fw_File := map_option flush (fw_File t)\<rparr>"

text \<open>\<open>file_size\<close> is \<open>None\<close> when the file system reports an error. The quotient of two integers is an
  integer, so the \<^verbatim>\<open>std::ceil\<close> around it has no effect.\<close>

definition updateApproximateFileSize ::
  "(string \<Rightarrow> nat option) \<Rightarrow> ('h, 'd) FileWriterTask \<Rightarrow> ('h, 'd) FileWriterTask" where
  "updateApproximateFileSize file_size t =
     (case file_size (fw_filepath t) of
        None \<Rightarrow> t
      | Some sz \<Rightarrow> t\<lparr>fw_FileSizeMB := s32 (int (sz div (1024 * 1024)))\<rparr>)"

text \<open>Creating the file of a job succeeds exactly when no file of that name exists, the path has a
  file name, its directory (if it has one) exists and the HDF5 library creates the file; the file is
  then open and nothing else of the task has changed. In every other case a \<^verbatim>\<open>std::runtime_error\<close> that
  names the path is raised, and no existing file is overwritten.\<close>

theorem initialise_hdf_guards:
  "(case InitialiseHdf exists mk_file t of
      Inr (t', info) \<Rightarrow> \<not> exists (fw_filepath t) \<and> path_filename (fw_filepath t) \<noteq> [] \<and>
        (parent_path (fw_filepath t) = [] \<or> exists (parent_path (fw_filepath t))) \<and>
        (\<exists>f. mk_file (fw_filepath t) = Inr (f, info) \<and> t' = t\<lparr>fw_File := Some f\<rparr>)
    | Inl e \<Rightarrow> (exists (fw_filepath t) \<or> path_filename (fw_filepath t) = [] \<or>
        (parent_path (fw_filepath t) \<noteq> [] \<and> \<not> exists (parent_path (fw_filepath t))) \<or>
        (\<exists>x. mk_file (fw_filepath t) = Inl x)) \<and>
        is_runtime_error e \<and>
        (\<exists>why. exn_what e = ''Failed to initialize HDF file \"'' @ fw_filepath t @ ''\". Error was: '' @ why))"
  by (auto simp: InitialiseHdf_def hdf_init_error_def has_filename_def Let_def split: sum.splits)

text \<open>The reported size is the size in bytes divided by 2^20 and rounded down, not rounded up to a
  multiple of 10 MB: a file of less than one MB is reported as 0.\<close>

theorem file_size_rounds_down:
  assumes "file_size (fw_filepath t) = Some n" and "n < 2 ^ 51"
  shows "let mb = fw_FileSizeMB (updateApproximateFileSize file_size t) in
         mb * 2 ^ 20 \<le> int n \<and> int n < (mb + 1) * 2 ^ 20"
proof -
  have b: "n div 1048576 < 2147483648" using assms(2) by (simp add: div_less_iff_less_mult)
  then have "int (n div 1048576) < 2147483648" by linarith
  then have id: "s32 (int (n div 1048576)) = int (n div 1048576)" by (intro s32_id) simp_all
  have "int n = int (n div 1048576) * 1048576 + int (n mod 1048576)"
    by (metis of_nat_add of_nat_mult of_nat_numeral div_mult_mod_eq)
  moreover have "int (n mod 1048576) < 1048576" by simp
  moreover have "fw_FileSizeMB (updateApproximateFileSize file_size t) = int (n div 1048576)"
    using assms(1) id by (simp add: updateApproximateFileSize_def)
  ultimately show ?thesis by simp
qed

theorem file_size_rounds_down_witness:
  "fw_FileSizeMB (updateApproximateFileSize (\<lambda>p. Some 1048575)
     (make_FileWriterTask ''j'' ''/d/f.nxs'' :: (unit, unit) FileWriterTask)) = 0"
  using file_size_rounds_down [of "\<lambda>p. Some 1048575"
      "make_FileWriterTask ''j'' ''/d/f.nxs'' :: (unit, unit) FileWriterTask" 1048575]
  by (simp add: updateApproximateFileSize_def s32_def)

section \<open>Start and stop time in the file\<close>

text \<open>The values are kept per name, with the group they are to be written to.\<close>

record Writable =
  wb_path :: string
  wb_value :: string

definition isWritable :: "Writable \<Rightarrow> bool" where
  "isWritable w \<longleftrightarrow> wb_path w \<noteq> [] \<and> wb_value w \<noteq> []"

type_synonym mdat_Writer = "(string \<times> Writable) list"

definition mdat_allowed_names :: "string list" where
  "mdat_allowed_names = [''start_time'', ''end_time'']"

definition set_writable_value_if_defined ::
  "(time_point \<Rightarrow> string) \<Rightarrow> string \<Rightarrow> time_point \<Rightarrow> mdat_Writer \<Rightarrow> mdat_Writer" where
  "set_writable_value_if_defined toUTCDateTime name time w =
     (case map_of w name of
        None \<Rightarrow> w
      | Some x \<Rightarrow> smap_insert name (x\<lparr>wb_value := toUTCDateTime time\<rparr>) w)"

definition mdat_set_start_time :: "(time_point \<Rightarrow> string) \<Rightarrow> time_point \<Rightarrow> mdat_Writer \<Rightarrow> mdat_Writer" where
  "mdat_set_start_time utc t = set_writable_value_if_defined utc ''start_time'' t"

definition mdat_set_stop_time :: "(time_point \<Rightarrow> string) \<Rightarrow> time_point \<Rightarrow> mdat_Writer \<Rightarrow> mdat_Writer" where
  "mdat_set_stop_time utc t = set_writable_value_if_defined utc ''end_time'' t"

text \<open>The writes of \<^verbatim>\<open>write_metadata\<close>: group, name and value.\<close>

definition write_metadata :: "mdat_Writer \<Rightarrow> (string \<times> string \<times> string) list" where
  "write_metadata w =
     concat (map (\<lambda>(name, v).
       if name \<notin> set mdat_allowed_names then []
       else if isWritable v then [(wb_path v, name, wb_value v)] else []) w)"

end
