(* ===== verification/Stream_Controller.thy ===== *)
theory Stream_Controller
  imports Stream_Topic File_Writer_Task
begin

text \<open>
  \<^verbatim>\<open>src/StreamController.{h,cpp}\<close>: one job of the file-writer. The controller asks the broker for its
  topics, creates one \<^verbatim>\<open>Topic\<close> for each topic that a source of the job needs, and then checks every
  50 ms whether topics are done and whether the write queue is too long. Its tasks run on an executor;
  each topic has an executor of its own. A result \<open>None\<close> is the dereference of a null pointer.

  Arguments: the broker's answer to \<^verbatim>\<open>getTopicList\<close>, the clock, the length of the write queue, the file
  system behind \<^verbatim>\<open>updateApproximateFileSize\<close>, and \<open>accepts\<close> for the writer modules'
  \<^verbatim>\<open>acceptsRepeatedTimestamps\<close>.
\<close>

section \<open>Single precision arithmetic\<close>

text \<open>Rounding of a non-negative number to a 24 bit mantissa, to nearest with ties to even. Scaling by
  a power of two commutes with it, so it also serves numbers with a fixed number of binary digits.\<close>

fun float_shift :: "nat \<Rightarrow> nat" where
  "float_shift n = (if n < 16777216 then 0 else Suc (float_shift (n div 2)))"

declare float_shift.simps [simp del]

definition float_round :: "nat \<Rightarrow> nat" where
  "float_round n =
     (let s = float_shift n; q = n div 2 ^ s; r = n mod 2 ^ s
      in (if 2 * r > 2 ^ s \<or> 2 * r = 2 ^ s \<and> odd q then q + 1 else q) * 2 ^ s)"

text \<open>\<^verbatim>\<open>QueuedWrites < 0.8F * MaxQueuedWrites\<close>: both integers become \<^verbatim>\<open>float\<close>, and \<^verbatim>\<open>0.8F\<close> is
  13421773 / 2^24.\<close>

definition below_resume_threshold :: "nat \<Rightarrow> nat \<Rightarrow> bool" where
  "below_resume_threshold QueuedWrites MaxQueuedWrites \<longleftrightarrow>
     float_round QueuedWrites * 2 ^ 24 < float_round (13421773 * float_round MaxQueuedWrites)"

section \<open>State\<close>

record ('d, 'q) streamer =
  st_Topic :: "'d Topic"
  st_Executor :: "'q ThreadedExecutor"

record ('d, 'q, 'h) StreamController =
  sc_StopNow :: bool
  sc_CurrentMetadataTimeOut :: duration
  sc_StreamersRemaining :: bool
  sc_StreamersPaused :: bool
  sc_HasError :: bool
  sc_ErrorMessage :: string
  sc_LastFileSizeCalcTime :: time_point
  sc_WriterTask :: "('h, 'd) FileWriterTask"
  sc_MdatWriter :: mdat_Writer
  sc_Streamers :: "('d, 'q) streamer option list"
  sc_WriterRunThread :: bool
  sc_StreamerOptions :: StreamerOptions

abbreviation FileSizeCalcInterval :: duration where
  "FileSizeCalcInterval \<equiv> 5000000000"

definition make_StreamController ::
  "time_point \<Rightarrow> ('h, 'd) FileWriterTask \<Rightarrow> mdat_Writer \<Rightarrow> StreamerOptions \<Rightarrow> ('d, 'q, 'h) StreamController" where
  "make_StreamController now task mdat Settings =
     \<lparr>sc_StopNow = False, sc_CurrentMetadataTimeOut = 0, sc_StreamersRemaining = True,
      sc_StreamersPaused = False, sc_HasError = False, sc_ErrorMessage = [],
      sc_LastFileSizeCalcTime = s64 (now - FileSizeCalcInterval), sc_WriterTask = task,
      sc_MdatWriter = mdat, sc_Streamers = [], sc_WriterRunThread = True,
      sc_StreamerOptions = Settings\<rparr>"

datatype controller_task =
    C_First_getTopicNames
  | C_Retry_getTopicNames
  | C_initStreams "string list"
  | C_performPeriodicChecks
  | C_setStopTime time_point

record controller_env =
  ce_now :: time_point
  ce_topics :: "exn + string list"
  ce_queued :: nat

section \<open>Operations called by the owner\<close>

definition sc_start ::
  "(time_point \<Rightarrow> string) \<Rightarrow> ('d, 'q, 'h) StreamController
     \<Rightarrow> ('d, 'q, 'h) StreamController \<times> (bool \<times> controller_task) list" where
  "sc_start utc sc =
     (let m = mdat_set_start_time utc (so_StartTimestamp (sc_StreamerOptions sc)) (sc_MdatWriter sc);
          m = mdat_set_stop_time utc (so_StopTimestamp (sc_StreamerOptions sc)) m
      in (sc\<lparr>sc_MdatWriter := m\<rparr>, [(False, C_First_getTopicNames)]))"

definition sc_setStopTime ::
  "(time_point \<Rightarrow> string) \<Rightarrow> time_point \<Rightarrow> ('d, 'q, 'h) StreamController
     \<Rightarrow> ('d, 'q, 'h) StreamController \<times> (bool \<times> controller_task) list" where
  "sc_setStopTime utc StopTime sc =
     (sc\<lparr>sc_StreamerOptions := (sc_StreamerOptions sc)\<lparr>so_StopTimestamp := StopTime\<rparr>,
         sc_MdatWriter := mdat_set_stop_time utc StopTime (sc_MdatWriter sc)\<rparr>,
      [(True, C_setStopTime StopTime)])"

definition pauseStreamers :: "('d, 'q, 'h) StreamController \<Rightarrow> ('d, 'q, 'h) StreamController" where
  "pauseStreamers sc = sc\<lparr>sc_StreamersPaused := True\<rparr>"

definition resumeStreamers :: "('d, 'q, 'h) StreamController \<Rightarrow> ('d, 'q, 'h) StreamController" where
  "resumeStreamers sc = sc\<lparr>sc_StreamersPaused := False\<rparr>"

text \<open>\<^verbatim>\<open>for (auto &s : Streamers) s->f()\<close>.\<close>

fun for_each :: "('a \<Rightarrow> 'a) \<Rightarrow> 'a option list \<Rightarrow> 'a option list option" where
  "for_each f [] = Some []"
| "for_each f (None # xs) = None"
| "for_each f (Some x # xs) = map_option ((#) (Some (f x))) (for_each f xs)"

definition sc_stop :: "('d, 'q, 'h) StreamController \<Rightarrow> ('d, 'q, 'h) StreamController option" where
  "sc_stop sc =
     (case for_each (\<lambda>s. s\<lparr>st_Topic := topic_stop (st_Topic s)\<rparr>) (sc_Streamers sc) of
        None \<Rightarrow> None
      | Some ss \<Rightarrow> Some (sc\<lparr>sc_Streamers := ss, sc_WriterRunThread := False, sc_StopNow := True\<rparr>))"

definition isDoneWriting ::
  "time_point \<Rightarrow> (string \<Rightarrow> nat option) \<Rightarrow> ('d, 'q, 'h) StreamController
     \<Rightarrow> bool \<times> ('d, 'q, 'h) StreamController" where
  "isDoneWriting Now file_size sc =
     (let stop = so_StopTimestamp (sc_StreamerOptions sc);
          IsDoneWriting = (sc_HasError sc \<or> sc_StopNow sc \<or>
            \<not> sc_StreamersRemaining sc \<and> stop \<noteq> 0 \<and> Now > stop);
          TimeDiffPeriods = s64 (Now - sc_LastFileSizeCalcTime sc) sdiv FileSizeCalcInterval
      in (IsDoneWriting,
          if \<not> IsDoneWriting \<and> TimeDiffPeriods \<ge> 1
          then sc\<lparr>sc_WriterTask := updateApproximateFileSize file_size (sc_WriterTask sc),
                  sc_LastFileSizeCalcTime :=
                    s64 (sc_LastFileSizeCalcTime sc + FileSizeCalcInterval * s32 TimeDiffPeriods)\<rparr>
          else sc))"

section \<open>Tasks of the executor\<close>

definition getTopicNames ::
  "controller_env \<Rightarrow> ('d, 'q, 'h) StreamController
     \<Rightarrow> ('d, 'q, 'h) StreamController \<times> (bool \<times> controller_task) list" where
  "getTopicNames env sc =
     (case ce_topics env of
        Inr TopicNames \<Rightarrow> (sc, [(False, C_initStreams TopicNames)])
      | Inl _ \<Rightarrow>
          (sc\<lparr>sc_CurrentMetadataTimeOut :=
                next_timeout (so_BrokerSettings (sc_StreamerOptions sc)) (sc_CurrentMetadataTimeOut sc)\<rparr>,
           [(False, C_Retry_getTopicNames)]))"

definition source_key :: "('d \<Rightarrow> bool) \<Rightarrow> 'd Source \<Rightarrow> 'd SrcDstKey" where
  "source_key accepts src =
     \<lparr>sd_SrcHash = src_SrcHash src, sd_WriteHash = src_ModuleHash src,
      sd_Destination = src_WriterModule src, sd_SourceName = src_SourceName src,
      sd_FlatbufferId = src_SchemaID src, sd_WriterModuleId = src_WriterModuleID src,
      sd_AcceptsRepeatedTimestamps = accepts (src_WriterModule src)\<rparr>"

text \<open>The loop over the sources: the map from topic names to sources, and the collected errors.\<close>

definition collect_source ::
  "('d \<Rightarrow> bool) \<Rightarrow> string list \<Rightarrow> 'd Source
     \<Rightarrow> (string \<times> 'd SrcDstKey list) list \<times> string \<Rightarrow> (string \<times> 'd SrcDstKey list) list \<times> string" where
  "collect_source accepts known_topic_names src st =
     (let (topic_src_map, errors_collector) = st in
      if src_TopicName src \<in> set known_topic_names then
        (smap_insert (src_TopicName src)
           ((case map_of topic_src_map (src_TopicName src) of None \<Rightarrow> [] | Some ks \<Rightarrow> ks) @
            [source_key accepts src]) topic_src_map, errors_collector)
      else
        (topic_src_map, errors_collector @ ''Unable to set up consumer for source '' @ src_SourceName src @
           '' on topic '' @ src_TopicName src @ '' as this topic does not exist. ''))"

definition new_streamer ::
  "('q, topic_task task) cqueue \<Rightarrow> time_point \<Rightarrow> StreamerOptions \<Rightarrow> string \<times> 'd SrcDstKey list
     \<Rightarrow> ('d, 'q) streamer" where
  "new_streamer Q now opts entry =
     \<lparr>st_Topic = make_Topic (so_BrokerSettings opts) (fst entry) (snd entry) (so_StartTimestamp opts)
        (so_BeforeStartTime opts) (so_StopTimestamp opts) (so_AfterStopTime opts) now,
      st_Executor = fold (send Q) topic_start (make_ThreadedExecutor Q False)\<rparr>"

definition initStreams ::
  "('q, topic_task task) cqueue \<Rightarrow> ('d \<Rightarrow> bool) \<Rightarrow> controller_env \<Rightarrow> string list
     \<Rightarrow> ('d, 'q, 'h) StreamController \<Rightarrow> ('d, 'q, 'h) StreamController \<times> (bool \<times> controller_task) list" where
  "initStreams Q accepts env known_topic_names sc =
     (let (topic_src_map, errors_collector) =
            fold (collect_source accepts known_topic_names)
              (fw_SourceToModuleMap (sc_WriterTask sc)) ([], []) in
      if errors_collector \<noteq> [] then
        (sc\<lparr>sc_ErrorMessage := errors_collector, sc_HasError := True\<rparr>, [])
      else
        (sc\<lparr>sc_Streamers := sc_Streamers sc @
              map (\<lambda>e. Some (new_streamer Q (ce_now env) (sc_StreamerOptions sc) e)) topic_src_map\<rparr>,
         [(False, C_performPeriodicChecks)]))"

text \<open>\<^verbatim>\<open>std::remove_if\<close> on a vector of \<^verbatim>\<open>unique_ptr\<close> with a predicate that may throw. The vector is
  \<open>kept @ gap @ rest\<close>: the elements kept so far, the slots between the insertion point and the
  element that is looked at, and the remaining elements. Keeping an element behind a gap moves it into
  the first slot of the gap, which leaves a null pointer in the element's own slot. The result is the
  vector after the \<^verbatim>\<open>erase\<close>, or the exception with the vector as it is then.\<close>

fun remove_if_ptrs ::
  "('a \<Rightarrow> exn + bool) \<Rightarrow> 'a option list \<Rightarrow> 'a option list \<Rightarrow> 'a option list
     \<Rightarrow> (exn option \<times> 'a option list) option" where
  "remove_if_ptrs p kept gap [] = Some (None, kept)"
| "remove_if_ptrs p kept gap (None # rest) = None"
| "remove_if_ptrs p kept gap (Some x # rest) =
     (case p x of
        Inl e \<Rightarrow> Some (Some e, kept @ gap @ Some x # rest)
      | Inr True \<Rightarrow> remove_if_ptrs p kept (gap @ [Some x]) rest
      | Inr False \<Rightarrow>
          remove_if_ptrs p (kept @ [Some x]) (case gap of [] \<Rightarrow> [] | _ # g \<Rightarrow> g @ [None]) rest)"

definition checkIfStreamsAreDone ::
  "('d, 'q, 'h) StreamController \<Rightarrow> ('d, 'q, 'h) StreamController option" where
  "checkIfStreamsAreDone sc =
     (case remove_if_ptrs (\<lambda>s. topic_isDone (st_Topic s)) [] [] (sc_Streamers sc) of
        None \<Rightarrow> None
      | Some (None, ss) \<Rightarrow>
          Some (sc\<lparr>sc_Streamers := ss,
                   sc_StreamersRemaining := (if ss = [] then False else sc_StreamersRemaining sc)\<rparr>)
      | Some (Some E, ss) \<Rightarrow>
          (case sc_stop (sc\<lparr>sc_Streamers := ss, sc_HasError := True,
               sc_ErrorMessage := ''Got stream error. The error message was: '' @ exn_what E\<rparr>) of
             None \<Rightarrow> None
           | Some sc \<Rightarrow> Some (sc\<lparr>sc_StreamersRemaining := False\<rparr>)))"

definition throttleIfWriteQueueIsFull ::
  "nat \<Rightarrow> ('d, 'q, 'h) StreamController \<Rightarrow> ('d, 'q, 'h) StreamController" where
  "throttleIfWriteQueueIsFull QueuedWrites sc =
     (let Max = so_MaxQueuedWrites (sc_StreamerOptions sc) in
      if QueuedWrites > Max \<and> \<not> sc_StreamersPaused sc then pauseStreamers sc
      else if below_resume_threshold QueuedWrites Max \<and> sc_StreamersPaused sc then resumeStreamers sc
      else sc)"

definition performPeriodicChecks ::
  "controller_env \<Rightarrow> ('d, 'q, 'h) StreamController
     \<Rightarrow> (('d, 'q, 'h) StreamController \<times> (bool \<times> controller_task) list) option" where
  "performPeriodicChecks env sc =
     (case checkIfStreamsAreDone sc of
        None \<Rightarrow> None
      | Some sc \<Rightarrow> Some (throttleIfWriteQueueIsFull (ce_queued env) sc, [(False, C_performPeriodicChecks)]))"

definition send_stop_time ::
  "('q, topic_task task) cqueue \<Rightarrow> time_point \<Rightarrow> ('d, 'q) streamer \<Rightarrow> ('d, 'q) streamer" where
  "send_stop_time Q StopTime s = s\<lparr>st_Executor := fold (send Q) (topic_setStopTime StopTime) (st_Executor s)\<rparr>"

text \<open>A task of the controller's executor. The state \<open>None\<close> is that of a crashed process.\<close>

fun run_controller_task ::
  "('q, topic_task task) cqueue \<Rightarrow> ('d \<Rightarrow> bool) \<Rightarrow> controller_env \<Rightarrow> controller_task
     \<Rightarrow> ('d, 'q, 'h) StreamController option
     \<Rightarrow> ('d, 'q, 'h) StreamController option \<times> (bool \<times> controller_task) list" where
  "run_controller_task Q accepts env j None = (None, [])"
| "run_controller_task Q accepts env C_First_getTopicNames (Some sc) =
     apfst Some (getTopicNames env
       (sc\<lparr>sc_CurrentMetadataTimeOut := bs_MinMetadataTimeout (so_BrokerSettings (sc_StreamerOptions sc))\<rparr>))"
| "run_controller_task Q accepts env C_Retry_getTopicNames (Some sc) = apfst Some (getTopicNames env sc)"
| "run_controller_task Q accepts env (C_initStreams names) (Some sc) =
     apfst Some (initStreams Q accepts env names sc)"
| "run_controller_task Q accepts env C_performPeriodicChecks (Some sc) =
     (case performPeriodicChecks env sc of None \<Rightarrow> (None, []) | Some (sc, ws) \<Rightarrow> (Some sc, ws))"
| "run_controller_task Q accepts env (C_setStopTime StopTime) (Some sc) =
     (map_option (\<lambda>ss. sc\<lparr>sc_Streamers := ss\<rparr>) (for_each (send_stop_time Q StopTime) (sc_Streamers sc)), [])"

section \<open>Throttling\<close>

lemma float_shift_bounds:
  "n < 16777216 * 2 ^ float_shift n \<and> (float_shift n > 0 \<longrightarrow> 8388608 * 2 ^ float_shift n \<le> n)"
proof (induction n rule: float_shift.induct)
  case (1 n)
  show ?case
  proof (cases "n < 16777216")
    case True
    then show ?thesis by (simp add: float_shift.simps)
  next
    case False
    then have s: "float_shift n = Suc (float_shift (n div 2))" by (simp add: float_shift.simps)
    from 1 False have "n div 2 < 16777216 * 2 ^ float_shift (n div 2)"
      and "float_shift (n div 2) = 0 \<or> 8388608 * 2 ^ float_shift (n div 2) \<le> n div 2" by auto
    with False show ?thesis unfolding s by auto
  qed
qed

lemma float_round_small: "n < 16777216 \<Longrightarrow> float_round n = n"
  by (simp add: float_round_def float_shift.simps)

text \<open>The unit in the last place, the multiple of it below a number, and the remainder.\<close>

lemma float_round_split:
  obtains u q r where "u = 2 ^ float_shift n" and "0 < u" and "n = q * u + r" and "r < u"
    and "float_round n = q * u \<and> 2 * r \<le> u \<or> float_round n = q * u + u \<and> u \<le> 2 * r"
proof -
  let ?u = "2 ^ float_shift n :: nat"
  show ?thesis
  proof (rule that [of ?u "n div ?u" "n mod ?u"])
    show "n = n div ?u * ?u + n mod ?u" by (rule div_mult_mod_eq [symmetric])
    show "float_round n = n div ?u * ?u \<and> 2 * (n mod ?u) \<le> ?u \<or>
        float_round n = n div ?u * ?u + ?u \<and> ?u \<le> 2 * (n mod ?u)"
      by (auto simp: float_round_def Let_def)
  qed simp_all
qed

lemma float_round_below:
  assumes "2 ^ float_shift n dvd x" and "2 * n < 2 * x + 2 ^ float_shift n"
  shows "float_round n \<le> x"
proof -
  obtain u q r where u: "u = 2 ^ float_shift n" "0 < u" and n: "n = q * u + r" "r < u"
    and f: "float_round n = q * u \<and> 2 * r \<le> u \<or> float_round n = q * u + u \<and> u \<le> 2 * r"
    by (rule float_round_split)
  from assms(1) u obtain k where x: "x = k * u" by (auto simp: dvd_def mult.commute)
  have less: "2 * (q * u + r) < 2 * (k * u) + u"
    using assms(2) unfolding u(1) [symmetric] n(1) [symmetric] x .
  consider "q + 1 \<le> k" | "q = k" | "k + 1 \<le> q" by linarith
  then show ?thesis
  proof cases
    case 1
    then have "(q + 1) * u \<le> k * u" by (rule mult_right_mono) simp
    then have "q * u + u \<le> k * u" by (simp add: distrib_right)
    with f show ?thesis unfolding x by linarith
  next
    case 2
    with less have "2 * r < u" by simp
    with f 2 show ?thesis by (simp add: x)
  next
    case 3
    then have "(k + 1) * u \<le> q * u" by (rule mult_right_mono) simp
    then have "k * u + u \<le> q * u" by (simp add: distrib_right)
    with less u(2) have False unfolding distrib_left by linarith
    then show ?thesis ..
  qed
qed

lemma float_round_above: "2 * n \<le> 2 * float_round n + 2 ^ float_shift n"
  by (rule float_round_split [of n]) linarith

lemma float_round_large:
  assumes "16777216 \<le> n"
  shows "16777216 \<le> float_round n"
proof -
  obtain u q r where u: "u = 2 ^ float_shift n" "0 < u" and n: "n = q * u + r" "r < u"
    and f: "float_round n = q * u \<and> 2 * r \<le> u \<or> float_round n = q * u + u \<and> u \<le> 2 * r"
    by (rule float_round_split)
  have pos: "0 < float_shift n" using assms by (simp add: float_shift.simps)
  then have "8388608 * u \<le> n" using float_shift_bounds [of n] unfolding u(1) by blast
  with n have "8388608 * u < q * u + u" by linarith
  then have "8388608 * u < (q + 1) * u" by (simp add: distrib_right)
  then have "8388608 \<le> q" using u(2) by simp
  then have "8388608 * u \<le> q * u" by (rule mult_right_mono) simp
  moreover have "(2::nat) ^ 1 \<le> u" unfolding u using pos by (intro power_increasing) auto
  then have "2 \<le> u" by simp
  ultimately show ?thesis using f by linarith
qed

text \<open>Up to a limit of 2^22 queued writes the comparison in single precision is the exact comparison
  with four fifths of the limit.\<close>

lemma below_resume_threshold_exact:
  assumes "m \<le> 4194304"
  shows "below_resume_threshold q m \<longleftrightarrow> 5 * q < 4 * m"
proof -
  define n where "n = 13421773 * m"
  define s where "s = float_shift n"
  have rm: "float_round m = m" using assms by (intro float_round_small) simp
  have up: "n < 16777216 * 2 ^ s" and lo: "s = 0 \<or> 8388608 * 2 ^ s \<le> n"
    using float_shift_bounds [of n] by (auto simp: s_def)
  have "s \<le> 24"
  proof (rule ccontr)
    assume "\<not> s \<le> 24"
    then have "(2::nat) ^ 24 \<le> 2 ^ s" by (intro power_increasing) auto
    with lo \<open>\<not> s \<le> 24\<close> assms show False unfolding n_def by simp
  qed
  then have "(2::nat) ^ s dvd 2 ^ 24" by (rule le_imp_power_dvd)
  then have dvd: "2 ^ float_shift n dvd x * 16777216" for x :: nat by (simp add: s_def)
  have le: "float_round n \<le> x * 16777216" if "4 * m \<le> 5 * x" for x
  proof (rule float_round_below [OF dvd])
    show "2 * n < 2 * (x * 16777216) + 2 ^ float_shift n"
      using that up by (simp only: s_def [symmetric]) (simp add: n_def)
  qed
  have above: "26843546 * m \<le> 2 * float_round n + 2 ^ s"
    using float_round_above [of n] by (simp only: s_def [symmetric]) (simp add: n_def)
  have gt: "x * 16777216 < float_round n" if "5 * x < 4 * m" for x
    using lo
  proof
    assume "s = 0"
    with above that show ?thesis by simp
  next
    assume "8388608 * 2 ^ s \<le> n"
    then have "8388608 * 2 ^ s \<le> 13421773 * m" by (simp only: n_def)
    with above that assms show ?thesis by linarith
  qed
  have "below_resume_threshold q m \<longleftrightarrow> float_round q * 16777216 < float_round n"
    by (simp add: below_resume_threshold_def rm n_def)
  moreover have "\<not> float_round q * 16777216 < float_round n" if "16777216 \<le> q"
    using float_round_large [OF that] le [of "float_round q"] assms by simp
  moreover have "float_round q = q" if "q < 16777216" using float_round_small [OF that] .
  ultimately show ?thesis
    using le [of q] gt [of q] assms by (cases "q < 16777216") (force simp: not_less)+
qed

text \<open>C35: Throttling has hysteresis. For limits up to 2^22 the consumers are paused once more writes
  are queued than the limit, resumed once the queue is below four fifths of it, and left alone in
  between; the rounding of the \<^verbatim>\<open>float\<close> computation never changes the decision. Nothing else of the
  controller changes.\<close>

theorem throttle_hysteresis:
  assumes "so_MaxQueuedWrites (sc_StreamerOptions sc) \<le> 4194304"
  shows "throttleIfWriteQueueIsFull queued sc =
     sc\<lparr>sc_StreamersPaused :=
          (if queued > so_MaxQueuedWrites (sc_StreamerOptions sc) then True
           else if 5 * queued < 4 * so_MaxQueuedWrites (sc_StreamerOptions sc) then False
           else sc_StreamersPaused sc)\<rparr>"
  by (auto simp: throttleIfWriteQueueIsFull_def pauseStreamers_def resumeStreamers_def Let_def
      below_resume_threshold_exact [OF assms])

definition sample_controller :: "(nat, topic_task task list, unit) StreamController" where
  "sample_controller =
     make_StreamController 0 (make_FileWriterTask ''job'' ''/f.nxs'') [] default_StreamerOptions"

theorem throttle_hysteresis_witness:
  "sc_StreamersPaused (throttleIfWriteQueueIsFull 1001 sample_controller) \<and>
   sc_StreamersPaused (throttleIfWriteQueueIsFull 800 (throttleIfWriteQueueIsFull 1001 sample_controller)) \<and>
   \<not> sc_StreamersPaused (throttleIfWriteQueueIsFull 799 (throttleIfWriteQueueIsFull 1001 sample_controller))"
proof -
  have m: "so_MaxQueuedWrites (sc_StreamerOptions sample_controller) = 1000"
    by (simp add: sample_controller_def make_StreamController_def default_StreamerOptions_def)
  show ?thesis
    using throttle_hysteresis [of sample_controller 1001]
      throttle_hysteresis [of "throttleIfWriteQueueIsFull 1001 sample_controller"] m by simp
qed

section \<open>Creating the topics\<close>

lemma collect_sources:
  assumes "fold (collect_source accepts known) srcs ([], []) = (m, errs)"
  shows "smap_ok m \<and> fst ` set m = src_TopicName ` set srcs \<inter> set known \<and>
    (\<forall>n \<in> src_TopicName ` set srcs \<inter> set known.
       map_of m n = Some (map (source_key accepts) (filter (\<lambda>s. src_TopicName s = n) srcs))) \<and>
    (errs = [] \<longleftrightarrow> (\<forall>s \<in> set srcs. src_TopicName s \<in> set known))"
  using assms
proof (induction srcs arbitrary: m errs rule: rev_induct)
  case Nil
  then show ?case by (simp add: smap_ok_def)
next
  case (snoc s srcs)
  obtain m' errs' where f: "fold (collect_source accepts known) srcs ([], []) = (m', errs')" by fastforce
  note IH = snoc.IH [OF f]
  have step: "collect_source accepts known s (m', errs') = (m, errs)" using snoc.prems f by simp
  show ?case
  proof (cases "src_TopicName s \<in> set known")
    case False
    with step have "m = m'" and "errs \<noteq> []" by (auto simp: collect_source_def)
    moreover from False have "src_TopicName ` set (srcs @ [s]) \<inter> set known = src_TopicName ` set srcs \<inter> set known"
      and "\<And>n. n \<in> set known \<Longrightarrow> filter (\<lambda>x. src_TopicName x = n) (srcs @ [s]) = filter (\<lambda>x. src_TopicName x = n) srcs"
      by auto
    ultimately show ?thesis using IH False by simp
  next
    case True
    let ?old = "case map_of m' (src_TopicName s) of None \<Rightarrow> [] | Some ks \<Rightarrow> ks"
    have m: "m = smap_insert (src_TopicName s) (?old @ [source_key accepts s]) m'" "errs = errs'"
      using step True by (auto simp: collect_source_def)
    have old: "?old = map (source_key accepts) (filter (\<lambda>x. src_TopicName x = src_TopicName s) srcs)"
    proof (cases "src_TopicName s \<in> src_TopicName ` set srcs")
      case True
      with \<open>src_TopicName s \<in> set known\<close> IH show ?thesis by simp
    next
      case False
      with IH have "src_TopicName s \<notin> fst ` set m'" by blast
      then have "map_of m' (src_TopicName s) = None" by (simp add: map_of_eq_None_iff)
      moreover have "filter (\<lambda>x. src_TopicName x = src_TopicName s) srcs = []"
        unfolding filter_empty_conv using False by (metis image_eqI)
      ultimately show ?thesis by simp
    qed
    show ?thesis
      unfolding m old using IH True
      by (auto simp: smap_ok_insert set_keys_smap_insert map_of_smap_insert)
  qed
qed

text \<open>Once the broker has named its topics, the controller either creates for every topic name that
  occurs among the sources of the job exactly one consumer, in alphabetical order and with all sources
  of that topic in the order of the job, and schedules the periodic checks; or, when a source names a
  topic that the broker does not have, it creates none, enters the error state and schedules nothing.\<close>

theorem init_streams_topics:
  "initStreams Q accepts env known sc =
     (let srcs = fw_SourceToModuleMap (sc_WriterTask sc) in
      if \<exists>s \<in> set srcs. src_TopicName s \<notin> set known
      then (sc\<lparr>sc_ErrorMessage := snd (fold (collect_source accepts known) srcs ([], [])),
               sc_HasError := True\<rparr>, [])
      else (sc\<lparr>sc_Streamers := sc_Streamers sc @
              map (\<lambda>n. Some (new_streamer Q (ce_now env) (sc_StreamerOptions sc)
                  (n, map (source_key accepts) (filter (\<lambda>s. src_TopicName s = n) srcs))))
                (sorted_list_of_set (src_TopicName ` set srcs))\<rparr>,
            [(False, C_performPeriodicChecks)]))"
proof -
  let ?srcs = "fw_SourceToModuleMap (sc_WriterTask sc)"
  let ?key = "\<lambda>n. map (source_key accepts) (filter (\<lambda>s. src_TopicName s = n) ?srcs)"
  obtain m errs where f: "fold (collect_source accepts known) ?srcs ([], []) = (m, errs)" by fastforce
  note c = collect_sources [OF f]
  show ?thesis
  proof (cases "\<exists>s \<in> set ?srcs. src_TopicName s \<notin> set known")
    case True
    with c have "errs \<noteq> []" by blast
    with True f show ?thesis by (simp add: initStreams_def)
  next
    case False
    then have all: "src_TopicName ` set ?srcs \<inter> set known = src_TopicName ` set ?srcs" by blast
    from False c have "errs = []" by blast
    have keys: "fst ` set m = src_TopicName ` set ?srcs" using c all by simp
    have "m = map (\<lambda>n. (n, ?key n)) (sorted_list_of_set (src_TopicName ` set ?srcs))"
      (is "_ = ?ms")
    proof -
      have "m = map (\<lambda>n. (n, the (map_of m n))) (sorted_list_of_set (src_TopicName ` set ?srcs))"
        using smap_ok_entries [of m] c unfolding keys by blast
      also have "\<dots> = ?ms" using c unfolding all by (intro map_cong) auto
      finally show ?thesis .
    qed
    with False f \<open>errs = []\<close> show ?thesis by (simp add: initStreams_def Let_def comp_def)
  qed
qed

section \<open>Watching the topics\<close>

text \<open>\<^verbatim>\<open>remove_if\<close> without exceptions is \<open>erase_remove_if\<close>.\<close>

lemma remove_if_ptrs_no_throw:
  assumes "\<And>x. x \<in> set xs \<Longrightarrow> p x = Inr (d x)"
  shows "remove_if_ptrs p kept gap (map Some xs) = Some (None, kept @ map Some (erase_remove_if d xs))"
  using assms by (induction xs arbitrary: kept gap) (simp_all add: erase_remove_if_def)

text \<open>When the predicate throws at an element, what it has left behind holds a null pointer exactly
  when an element was kept behind one that was to be removed.\<close>

definition kept_after_removed :: "('a \<Rightarrow> bool) \<Rightarrow> 'a list \<Rightarrow> bool" where
  "kept_after_removed d xs \<longleftrightarrow> (\<exists>i j. i < j \<and> j < length xs \<and> d (xs ! i) \<and> \<not> d (xs ! j))"

lemma kept_after_removed_Cons:
  "kept_after_removed d (x # xs) \<longleftrightarrow> (d x \<and> (\<exists>y \<in> set xs. \<not> d y)) \<or> kept_after_removed d xs"
  (is "?L \<longleftrightarrow> ?A \<or> ?B")
proof
  assume ?L
  then obtain i j where ij: "i < j" "j < length (x # xs)" "d ((x # xs) ! i)" "\<not> d ((x # xs) ! j)"
    by (auto simp: kept_after_removed_def)
  then obtain j' where j: "j = Suc j'" by (cases j) auto
  show "?A \<or> ?B"
  proof (cases i)
    case 0
    with ij j show ?thesis by auto
  next
    case (Suc i')
    with ij j show ?thesis unfolding kept_after_removed_def by auto
  qed
next
  assume "?A \<or> ?B"
  then show ?L
  proof
    assume ?A
    then obtain j where "d x" "j < length xs" "\<not> d (xs ! j)" by (auto simp: in_set_conv_nth)
    then show ?L unfolding kept_after_removed_def by (intro exI [of _ 0] exI [of _ "Suc j"]) auto
  next
    assume ?B
    then obtain i j where "i < j" "j < length xs" "d (xs ! i)" "\<not> d (xs ! j)"
      by (auto simp: kept_after_removed_def)
    then show ?L unfolding kept_after_removed_def by (intro exI [of _ "Suc i"] exI [of _ "Suc j"]) auto
  qed
qed

lemma remove_if_ptrs_throw:
  assumes "\<And>x. x \<in> set xs \<Longrightarrow> p x = Inr (d x)" and "p e = Inl ex" and "None \<notin> set kept"
  shows "\<exists>ys. remove_if_ptrs p kept gap (map Some xs @ Some e # map Some zs) = Some (Some ex, ys) \<and>
    (None \<in> set ys \<longleftrightarrow> None \<in> set gap \<or> gap \<noteq> [] \<and> (\<exists>x \<in> set xs. \<not> d x) \<or> kept_after_removed d xs)"
  using assms
proof (induction xs arbitrary: kept gap)
  case Nil
  then show ?case by (auto simp: kept_after_removed_def)
next
  case (Cons x xs)
  show ?case
  proof (cases "d x")
    case True
    from Cons.IH [of kept "gap @ [Some x]"] Cons.prems True show ?thesis
      by (auto simp: kept_after_removed_Cons)
  next
    case False
    let ?g = "case gap of [] \<Rightarrow> [] | _ # g \<Rightarrow> g @ [None]"
    from Cons.IH [of "kept @ [Some x]" ?g] Cons.prems False show ?thesis
      by (cases gap) (auto simp: kept_after_removed_Cons)
  qed
qed

lemma for_each_map_Some: "for_each f (map Some xs) = Some (map (Some \<circ> f) xs)"
  by (induction xs) auto

lemma for_each_None: "for_each f xs = None \<longleftrightarrow> None \<in> set xs"
  by (induction f xs rule: for_each.induct) auto

definition topic_failed :: "('d, 'q) streamer \<Rightarrow> bool" where
  "topic_failed s \<longleftrightarrow> tc_HasError (st_Topic s)"

definition topic_done :: "('d, 'q) streamer \<Rightarrow> bool" where
  "topic_done s \<longleftrightarrow> tc_IsDone (st_Topic s)"

text \<open>While no topic has failed, the periodic check removes exactly the topics that are done, keeps
  the others in their order, and declares that no streamers remain as soon as none is left.\<close>

theorem stream_check_removes_done:
  assumes "sc_Streamers sc = map Some ss" and "\<not> list_ex topic_failed ss"
  shows "checkIfStreamsAreDone sc =
     Some (sc\<lparr>sc_Streamers := map Some (filter (\<lambda>s. \<not> topic_done s) ss),
              sc_StreamersRemaining := (if list_all topic_done ss then False else sc_StreamersRemaining sc)\<rparr>)"
proof -
  have "x \<in> set ss \<Longrightarrow> topic_isDone (st_Topic x) = Inr (topic_done x)" for x
    using assms(2) by (auto simp: topic_isDone_def topic_failed_def topic_done_def list_ex_iff)
  from remove_if_ptrs_no_throw [of ss "\<lambda>s. topic_isDone (st_Topic s)" topic_done "[]" "[]", OF this] show ?thesis
    by (simp add: checkIfStreamsAreDone_def assms(1) erase_remove_if_def filter_empty_conv list_all_iff)
qed

definition sample_streamer :: "bool \<Rightarrow> bool \<Rightarrow> (nat, topic_task task list) streamer" where
  "sample_streamer isdone failed =
     \<lparr>st_Topic = (make_Topic default_BrokerSettings ''t'' [] 0 0 5 5 0)
        \<lparr>tc_IsDone := isdone, tc_HasError := failed\<rparr>,
      st_Executor = make_ThreadedExecutor list_queue False\<rparr>"

theorem stream_check_removes_done_witness:
  "map_option sc_Streamers (checkIfStreamsAreDone (sample_controller
     \<lparr>sc_Streamers := map Some [sample_streamer True False, sample_streamer False False]\<rparr>)) =
   Some [Some (sample_streamer False False)]"
  using stream_check_removes_done [of "sample_controller
     \<lparr>sc_Streamers := map Some [sample_streamer True False, sample_streamer False False]\<rparr>"
     "[sample_streamer True False, sample_streamer False False]"]
  by (simp add: topic_failed_def topic_done_def sample_streamer_def)

text \<open>C38: When a topic has failed, the periodic check enters the error state, unless it crashes: the
  exception leaves \<^verbatim>\<open>remove_if\<close> half-way, and if before the failed topic there is a topic that is not
  done behind one that is done, the vector holds a null pointer, which \<^verbatim>\<open>stop()\<close> dereferences.\<close>

theorem stream_error_crash:
  assumes "sc_Streamers sc = map Some (ok @ failed # rest)" and "\<not> list_ex topic_failed ok"
    and "topic_failed failed"
  shows "case checkIfStreamsAreDone sc of
           None \<Rightarrow> kept_after_removed topic_done ok
         | Some sc' \<Rightarrow> \<not> kept_after_removed topic_done ok \<and> sc_HasError sc' \<and> sc_StopNow sc' \<and>
             \<not> sc_WriterRunThread sc' \<and> \<not> sc_StreamersRemaining sc' \<and>
             sc_ErrorMessage sc' =
               ''Got stream error. The error message was: '' @ tc_ErrorMessage (st_Topic failed)"
proof -
  let ?p = "\<lambda>s. topic_isDone (st_Topic s)"
  have ok: "x \<in> set ok \<Longrightarrow> ?p x = Inr (topic_done x)" for x
    using assms(2) by (auto simp: topic_isDone_def topic_failed_def topic_done_def list_ex_iff)
  have fl: "?p failed = Inl (Runtime_Error (tc_ErrorMessage (st_Topic failed)))"
    using assms(3) by (simp add: topic_isDone_def topic_failed_def)
  obtain ys where r: "remove_if_ptrs ?p [] [] (sc_Streamers sc) =
      Some (Some (Runtime_Error (tc_ErrorMessage (st_Topic failed))), ys)"
    and n: "None \<in> set ys \<longleftrightarrow> kept_after_removed topic_done ok"
    using remove_if_ptrs_throw [of ok ?p topic_done failed _ "[]" "[]" rest, OF ok fl] assms(1) by auto
  show ?thesis
    using r n for_each_None [of "\<lambda>s. s\<lparr>st_Topic := topic_stop (st_Topic s)\<rparr>" ys]
    by (auto simp: checkIfStreamsAreDone_def sc_stop_def split: option.splits)
qed

theorem stream_error_crash_witness:
  "checkIfStreamsAreDone (sample_controller \<lparr>sc_Streamers := map Some
     [sample_streamer True False, sample_streamer False False, sample_streamer False True]\<rparr>) = None"
proof -
  let ?ok = "[sample_streamer True False, sample_streamer False False]"
  have k: "kept_after_removed topic_done ?ok"
    by (simp add: kept_after_removed_Cons topic_done_def sample_streamer_def)
  show ?thesis
    using stream_error_crash [of "sample_controller \<lparr>sc_Streamers := map Some
       [sample_streamer True False, sample_streamer False False, sample_streamer False True]\<rparr>"
       ?ok "sample_streamer False True" "[]"] k
    by (simp add: topic_failed_def sample_streamer_def split: option.splits)
qed

end
