(* ===== verification/Command_Messages.thy ===== *)
theory Command_Messages
  imports Time_Utility Flatbuffer
begin

text \<open>
  \<^verbatim>\<open>src/CommandSystem/Commands.h\<close> and \<^verbatim>\<open>Parser.{h,cpp}\<close>: start and stop commands and their extraction
  from flatbuffers. The generated flatbuffer accessors are arguments: \<open>GetRunStart\<close> and \<open>GetRunStop\<close>
  turn a buffer into its fields, a null pointer being \<open>None\<close>; \<open>verify\<close> and \<open>has_id\<close> are the verifier and
  \<^verbatim>\<open>BufferHasIdentifier\<close>.
\<close>

record StartMessage =
  sm_JobID :: string
  sm_Filename :: string
  sm_NexusStructure :: string
  sm_Metadata :: string
  sm_StartTime :: time_point
  sm_StopTime :: time_point
  sm_ControlTopic :: string
  sm_InstrumentName :: string
  sm_ServiceID :: string

definition empty_StartMessage :: StartMessage where
  "empty_StartMessage =
     \<lparr>sm_JobID = [], sm_Filename = [], sm_NexusStructure = [], sm_Metadata = [],
      sm_StartTime = 0, sm_StopTime = tp_max, sm_ControlTopic = [], sm_InstrumentName = [],
      sm_ServiceID = []\<rparr>"

record StopMessage =
  sp_JobID :: string
  sp_CommandID :: string
  sp_StopTime :: time_point
  sp_ServiceID :: string

definition empty_StopMessage :: StopMessage where
  "empty_StopMessage = \<lparr>sp_JobID = [], sp_CommandID = [], sp_StopTime = 0, sp_ServiceID = []\<rparr>"

text \<open>The tables of the schemas \<^verbatim>\<open>pl72\<close> and \<^verbatim>\<open>6s4t\<close>; times are unsigned 64-bit milliseconds.\<close>

record RunStart =
  rs_start_time :: nat
  rs_stop_time :: nat
  rs_nexus_structure :: "string option"
  rs_job_id :: "string option"
  rs_service_id :: "string option"
  rs_filename :: "string option"
  rs_metadata :: "string option"
  rs_control_topic :: "string option"
  rs_instrument_name :: "string option"

record RunStop =
  rp_stop_time :: nat
  rp_job_id :: "string option"
  rp_service_id :: "string option"
  rp_command_id :: "string option"

definition str_or_empty :: "string option \<Rightarrow> string" where
  "str_or_empty s = (case s of None \<Rightarrow> [] | Some x \<Rightarrow> x)"

lemma str_or_empty_simps [simp]: "str_or_empty None = []" "str_or_empty (Some x) = x"
  by (simp_all add: str_or_empty_def)

text \<open>\<^verbatim>\<open>time_point(std::chrono::milliseconds{x})\<close> for a \<^verbatim>\<open>uint64_t\<close>.\<close>

definition ms_time_point :: "nat \<Rightarrow> time_point" where
  "ms_time_point x = s64 (s64 (int x) * 1000000)"

lemma ms_time_point_id: "x \<le> 9223372036854 \<Longrightarrow> ms_time_point x = int x * 1000000"
  by (simp add: ms_time_point_def wrap64)

definition checkRequiredFieldsArePresent :: "RunStart \<Rightarrow> exn option" where
  "checkRequiredFieldsArePresent d =
     (let Errors =
            (if str_or_empty (rs_job_id d) = [] then ''Job ID missing, this field is required\<newline>'' else []) @
            (if str_or_empty (rs_nexus_structure d) = []
             then ''NeXus Structure missing, this field is required\<newline>'' else []) @
            (if str_or_empty (rs_filename d) = [] then ''Filename missing, this field is required\<newline>'' else [])
      in if Errors \<noteq> []
         then Some (Runtime_Error (''Errors encountered parsing run start message:\<newline>'' @ Errors))
         else None)"

definition parser_extractStartMessage ::
  "(bytes \<Rightarrow> RunStart) \<Rightarrow> time_point \<Rightarrow> Msg \<Rightarrow> exn + StartMessage" where
  "parser_extractStartMessage GetRunStart DefaultStartTime CommandMessage =
     (let d = GetRunStart (msg_Data CommandMessage) in
      case checkRequiredFieldsArePresent d of
        Some e \<Rightarrow> Inl e
      | None \<Rightarrow>
          let r = empty_StartMessage
                \<lparr>sm_StartTime := (if rs_start_time d > 0 then ms_time_point (rs_start_time d)
                                   else DefaultStartTime)\<rparr>;
              r = (if rs_stop_time d \<noteq> 0 then r\<lparr>sm_StopTime := ms_time_point (rs_stop_time d)\<rparr> else r)
          in Inr (r\<lparr>sm_NexusStructure := the (rs_nexus_structure d), sm_JobID := the (rs_job_id d),
                    sm_ServiceID := str_or_empty (rs_service_id d), sm_Filename := the (rs_filename d),
                    sm_Metadata := str_or_empty (rs_metadata d),
                    sm_ControlTopic := str_or_empty (rs_control_topic d),
                    sm_InstrumentName := str_or_empty (rs_instrument_name d)\<rparr>))"

text \<open>The command id is read without a test for null; \<open>None\<close> is the crash of an absent one.\<close>

definition parser_extractStopMessage :: "(bytes \<Rightarrow> RunStop) \<Rightarrow> Msg \<Rightarrow> (exn + StopMessage) option" where
  "parser_extractStopMessage GetRunStop CommandMessage =
     (let d = GetRunStop (msg_Data CommandMessage) in
      if str_or_empty (rp_job_id d) = [] then
        Some (Inl (Runtime_Error (''Errors encountered parsing run stop message:\<newline>'' @
                                  ''Job ID missing, this field is required'')))
      else
        (case rp_command_id d of
           None \<Rightarrow> None
         | Some c \<Rightarrow>
             Some (Inr \<lparr>sp_JobID = the (rp_job_id d), sp_CommandID = c,
                         sp_StopTime = ms_time_point (rp_stop_time d),
                         sp_ServiceID = str_or_empty (rp_service_id d)\<rparr>)))"

definition is_message_of ::
  "(string \<Rightarrow> bytes \<Rightarrow> bool) \<Rightarrow> (bytes \<Rightarrow> string \<Rightarrow> bool) \<Rightarrow> string \<Rightarrow> Msg \<Rightarrow> bool" where
  "is_message_of verify has_id schema m \<longleftrightarrow> verify schema (msg_Data m) \<and> has_id (msg_Data m) schema"

definition isStartCommand :: "(string \<Rightarrow> bytes \<Rightarrow> bool) \<Rightarrow> (bytes \<Rightarrow> string \<Rightarrow> bool) \<Rightarrow> Msg \<Rightarrow> bool" where
  "isStartCommand verify has_id m = is_message_of verify has_id ''pl72'' m"

definition isStopCommand :: "(string \<Rightarrow> bytes \<Rightarrow> bool) \<Rightarrow> (bytes \<Rightarrow> string \<Rightarrow> bool) \<Rightarrow> Msg \<Rightarrow> bool" where
  "isStopCommand verify has_id m = is_message_of verify has_id ''6s4t'' m"

definition isStatusMessage :: "(string \<Rightarrow> bytes \<Rightarrow> bool) \<Rightarrow> (bytes \<Rightarrow> string \<Rightarrow> bool) \<Rightarrow> Msg \<Rightarrow> bool" where
  "isStatusMessage verify has_id m = is_message_of verify has_id ''x5f2'' m"

definition isAnswerMessage :: "(string \<Rightarrow> bytes \<Rightarrow> bool) \<Rightarrow> (bytes \<Rightarrow> string \<Rightarrow> bool) \<Rightarrow> Msg \<Rightarrow> bool" where
  "isAnswerMessage verify has_id m = is_message_of verify has_id ''answ'' m"

definition isWritingDoneMessage :: "(string \<Rightarrow> bytes \<Rightarrow> bool) \<Rightarrow> (bytes \<Rightarrow> string \<Rightarrow> bool) \<Rightarrow> Msg \<Rightarrow> bool" where
  "isWritingDoneMessage verify has_id m = is_message_of verify has_id ''wrdn'' m"

text \<open>Heartbeats are recognised by the four bytes at offset 4 alone, without a check of the size: \<open>None\<close> is a read beyond a
  message of fewer than eight bytes.\<close>

definition isFileWriterHeartbeatMessage :: "Msg \<Rightarrow> bool option" where
  "isFileWriterHeartbeatMessage m =
     (if length (msg_Data m) < 8 then None else Some (take 4 (drop 4 (msg_Data m)) = ''x5f2''))"

lemma required_fields_present:
  "checkRequiredFieldsArePresent d = None \<longleftrightarrow>
     (\<exists>j n f. rs_job_id d = Some j \<and> rs_nexus_structure d = Some n \<and> rs_filename d = Some f \<and>
        j \<noteq> [] \<and> n \<noteq> [] \<and> f \<noteq> [])"
  by (cases "rs_job_id d"; cases "rs_nexus_structure d"; cases "rs_filename d")
    (auto simp: checkRequiredFieldsArePresent_def Let_def)

text \<open>A start command is accepted exactly when job id, structure and file name are there and not
  empty. The extracted message then has these three as they are; the start time is the one given, or
  the default when it is 0; the stop time is the one given, or the end of time when it is 0; absent
  optional fields become empty strings. A start command that is rejected raises a
  \<^verbatim>\<open>std::runtime_error\<close>. Times up to the year 2262 do not overflow.\<close>

theorem start_message_extraction:
  assumes "rs_start_time (GetRunStart (msg_Data m)) \<le> 9223372036854"
    and "rs_stop_time (GetRunStart (msg_Data m)) \<le> 9223372036854"
  shows "let d = GetRunStart (msg_Data m) in
    case parser_extractStartMessage GetRunStart dflt m of
      Inl e \<Rightarrow> is_runtime_error e \<and>
        (str_or_empty (rs_job_id d) = [] \<or> str_or_empty (rs_nexus_structure d) = [] \<or>
         str_or_empty (rs_filename d) = [])
    | Inr s \<Rightarrow>
        rs_job_id d = Some (sm_JobID s) \<and> rs_nexus_structure d = Some (sm_NexusStructure s) \<and>
        rs_filename d = Some (sm_Filename s) \<and> sm_JobID s \<noteq> [] \<and> sm_NexusStructure s \<noteq> [] \<and>
        sm_Filename s \<noteq> [] \<and>
        sm_StartTime s = (if rs_start_time d = 0 then dflt else int (rs_start_time d) * 1000000) \<and>
        sm_StopTime s = (if rs_stop_time d = 0 then tp_max else int (rs_stop_time d) * 1000000) \<and>
        sm_ControlTopic s = str_or_empty (rs_control_topic d) \<and>
        sm_Metadata s = str_or_empty (rs_metadata d) \<and>
        sm_InstrumentName s = str_or_empty (rs_instrument_name d) \<and>
        sm_ServiceID s = str_or_empty (rs_service_id d)"
proof (cases "checkRequiredFieldsArePresent (GetRunStart (msg_Data m))")
  case None
  then obtain j n f where "rs_job_id (GetRunStart (msg_Data m)) = Some j"
    "rs_nexus_structure (GetRunStart (msg_Data m)) = Some n"
    "rs_filename (GetRunStart (msg_Data m)) = Some f" "j \<noteq> []" "n \<noteq> []" "f \<noteq> []"
    unfolding required_fields_present by blast
  with None assms show ?thesis
    by (simp add: parser_extractStartMessage_def Let_def empty_StartMessage_def ms_time_point_id)
next
  case (Some e)
  then have "is_runtime_error e" by (auto simp: checkRequiredFieldsArePresent_def Let_def split: if_splits)
  moreover from Some have "str_or_empty (rs_job_id (GetRunStart (msg_Data m))) = [] \<or>
      str_or_empty (rs_nexus_structure (GetRunStart (msg_Data m))) = [] \<or>
      str_or_empty (rs_filename (GetRunStart (msg_Data m))) = []"
    by (auto simp: checkRequiredFieldsArePresent_def Let_def split: if_splits)
  ultimately show ?thesis using Some by (simp add: parser_extractStartMessage_def)
qed

definition sample_run_start :: RunStart where
  "sample_run_start =
     \<lparr>rs_start_time = 1000, rs_stop_time = 0, rs_nexus_structure = Some ''{}'', rs_job_id = Some ''job'',
      rs_service_id = None, rs_filename = Some ''f.nxs'', rs_metadata = None,
      rs_control_topic = Some ''ctrl'', rs_instrument_name = None\<rparr>"

theorem start_message_extraction_witness:
  "\<exists>s. parser_extractStartMessage (\<lambda>d. sample_run_start) 0 empty_Msg = Inr s \<and>
     sm_JobID s = ''job'' \<and> sm_StartTime s = 1000000000 \<and> sm_StopTime s = tp_max \<and> sm_ServiceID s = []"
proof -
  have "checkRequiredFieldsArePresent sample_run_start = None"
    by (simp add: required_fields_present sample_run_start_def)
  then show ?thesis
    using start_message_extraction [of "\<lambda>d. sample_run_start" empty_Msg 0]
    by (auto simp: sample_run_start_def Let_def parser_extractStartMessage_def)
qed

end
