(* ===== verification/Job_Creator.thy ===== *)
theory Job_Creator
  imports Hdf_File Writer_Registry Stream_Controller Command_Messages "HOL-Library.Sublist"
begin

text \<open>
  \<^verbatim>\<open>src/JobCreator.cpp\<close>: from a start message to a stream controller. The file is created with the
  structure of the message, every stream module found gets a writer instance, and the instances that
  could be opened become the sources of the job. The theory also holds the configuration of
  \<^verbatim>\<open>src/WriterModule/mdat\<close>, which is read here.

  The virtual functions of a writer module are the record \<open>module_class\<close>; a module instance is its class
  and its object. They act on the content \<open>'h\<close> of the file and on the metadata tracker \<open>'t\<close>. The
  external code is collected in \<open>job_env\<close>.
\<close>

section \<open>Writer module classes and the environment\<close>

datatype InitResult = IR_ERROR | IR_OK

record ('i, 'h, 't) module_class =
  mc_new :: "'i Base option"
  mc_config_post_processing :: "'i Base \<Rightarrow> exn option \<times> 'i Base"
  mc_init_hdf :: "node \<Rightarrow> 'i Base \<Rightarrow> 'h \<Rightarrow> (exn + InitResult) \<times> 'i Base \<times> 'h"
  mc_register_meta_data :: "node \<Rightarrow> 'i Base \<Rightarrow> 't \<Rightarrow> exn option \<times> 'i Base \<times> 't"
  mc_reopen :: "node \<Rightarrow> 'i Base \<Rightarrow> 'h \<Rightarrow> (exn + InitResult) \<times> 'i Base \<times> 'h"

type_synonym ('i, 'h, 't) instance_ptr = "('i, 'h, 't) module_class \<times> 'i Base"

record ('i, 'h, 't) job_env =
  je_json :: json_lib
  je_hdf :: "'h hdf5"
  je_io :: "'h hdf5_io"
  je_links :: "'h hdf5_links"
  je_registry :: "('i, 'h, 't) module_class registry"
  je_hash :: "string \<Rightarrow> nat"
  je_exists :: "string \<Rightarrow> bool"
  je_now :: time_point

type_synonym ('i, 'h, 't) settings = "('i, 'h, 't) instance_ptr ModuleSettings"
type_synonym ('i, 'h, 't) task = "('h HDFFile, ('i, 'h, 't) instance_ptr) FileWriterTask"

section \<open>Reading the description\<close>

definition initializeHDF ::
  "('i, 'h, 't) job_env \<Rightarrow> ('i, 'h, 't) task \<Rightarrow> string \<Rightarrow> string \<Rightarrow> bool
     \<Rightarrow> exn + ('i, 'h, 't) task \<times> ModuleHDFInfo list" where
  "initializeHDF env Task NexusStructureString template_path is_legacy_writing =
     (case jl_parse (je_json env) NexusStructureString of
        Inl Error \<Rightarrow>
          Inl (Runtime_Error (''Could not parse NeXus structure JSON. The error was: '' @ exn_what Error @ [CHR 0x27]))
      | Inr NexusStructure \<Rightarrow>
          InitialiseHdf (je_exists env)
            (make_HDFFile (je_json env) (je_hdf env) (je_io env) NexusStructure template_path is_legacy_writing) Task)"

definition extractModuleInformationFromJsonForSource :: "json_lib \<Rightarrow> ModuleHDFInfo \<Rightarrow> exn + 'b ModuleSettings" where
  "extractModuleInformationFromJsonForSource jl ModuleInfo =
     (if mi_WriterModule ModuleInfo = [] then Inl (Runtime_Error ''Empty writer module name encountered.'')
      else case jl_parse jl (mi_ConfigStream ModuleInfo) of
        Inl e \<Rightarrow> Inl e
      | Inr ConfigStream \<Rightarrow>
          (case getRequiredValue json_get_string ''source'' ConfigStream of
             Inl e \<Rightarrow> Inl e
           | Inr Source \<Rightarrow>
               let isLink = (mi_WriterModule ModuleInfo = ''link'') in
               (case getRequiredValue json_get_string (if isLink then ''name'' else ''topic'') ConfigStream of
                  Inl e \<Rightarrow> Inl e
                | Inr v \<Rightarrow>
                    Inr \<lparr>ms_ModuleHDFInfoObj = ModuleInfo, ms_Name = (if isLink then v else []),
                         ms_Topic = (if isLink then [] else v), ms_Module = mi_WriterModule ModuleInfo,
                         ms_Source = Source, ms_ConfigStreamJson = jl_dump jl ConfigStream, ms_Attributes = [],
                         ms_WriterModule = None, ms_isLink = isLink\<rparr>)))"

fun caught_when_extracting :: "exn \<Rightarrow> bool" where
  "caught_when_extracting (Json_Parse_Error _) = True"
| "caught_when_extracting e = is_runtime_error e"

fun extractModuleInformationFromJson :: "json_lib \<Rightarrow> ModuleHDFInfo list \<Rightarrow> exn + 'b ModuleSettings list" where
  "extractModuleInformationFromJson jl [] = Inr []"
| "extractModuleInformationFromJson jl (m # ms) =
     (case extractModuleInformationFromJsonForSource jl m of
        Inl e \<Rightarrow> if caught_when_extracting e then extractModuleInformationFromJson jl ms else Inl e
      | Inr s \<Rightarrow> map_sum id ((#) s) (extractModuleInformationFromJson jl ms))"

text \<open>\<^verbatim>\<open>std::stable_partition\<close>: first what stays, then what is removed, both in their order. The result is
  the remaining modules and the removed ones.\<close>

definition extractMdatModules :: "ModuleHDFInfo list \<Rightarrow> ModuleHDFInfo list \<times> ModuleHDFInfo list" where
  "extractMdatModules Modules =
     (filter (\<lambda>m. mi_WriterModule m \<noteq> ''mdat'') Modules, filter (\<lambda>m. mi_WriterModule m = ''mdat'') Modules)"

section \<open>Start and end time\<close>

text \<open>\<^verbatim>\<open>extract_names\<close>: the list under the first key \<^verbatim>\<open>items\<close> that is not empty, converted to strings.\<close>

fun json_empty :: "json \<Rightarrow> bool" where
  "json_empty J_null = True"
| "json_empty (J_array xs) = (xs = [])"
| "json_empty (J_object ms) = (ms = [])"
| "json_empty _ = False"

fun strings_of :: "json list \<Rightarrow> exn + string list" where
  "strings_of [] = Inr []"
| "strings_of (v # vs) =
     (case json_get_string v of
        Inl e \<Rightarrow> Inl e
      | Inr s \<Rightarrow> map_sum id ((#) s) (strings_of vs))"

definition extract_names :: "json_lib \<Rightarrow> string \<Rightarrow> exn + string list" where
  "extract_names jl config_json =
     (case jl_parse jl config_json of
        Inl e \<Rightarrow> Inl e
      | Inr (J_object ms) \<Rightarrow>
          (case map_of ms ''items'' of
             Some v \<Rightarrow>
               if json_empty v then Inr []
               else (case v of J_array vs \<Rightarrow> strings_of vs
                     | _ \<Rightarrow> Inl (Json_Type_Error ''type must be array''))
           | None \<Rightarrow> Inr [])
      | Inr j \<Rightarrow>
          if json_elements j = [] then Inr []
          else Inl (Std_Exception ''cannot use key() for non-object iterators''))"

definition add_writable :: "string \<Rightarrow> string \<Rightarrow> mdat_Writer \<Rightarrow> mdat_Writer" where
  "add_writable path name details =
     (if name \<in> set mdat_allowed_names then smap_insert name \<lparr>wb_path = path, wb_value = []\<rparr> details
      else details)"

fun extract_details :: "json_lib \<Rightarrow> ModuleHDFInfo list \<Rightarrow> mdat_Writer \<Rightarrow> exn + mdat_Writer" where
  "extract_details jl [] details = Inr details"
| "extract_details jl (m # ms) details =
     (if mi_WriterModule m \<noteq> ''mdat'' then extract_details jl ms details
      else case extract_names jl (mi_ConfigStream m) of
        Inl e \<Rightarrow> Inl e
      | Inr names \<Rightarrow> extract_details jl ms (fold (add_writable (mi_HDFParentName m)) names details))"

definition define_metadata :: "json_lib \<Rightarrow> ModuleHDFInfo list \<Rightarrow> exn + mdat_Writer" where
  "define_metadata jl modules = extract_details jl modules []"

section \<open>Writer instances\<close>

definition getCopyForExtraModule :: "'b ModuleSettings \<Rightarrow> 'b ModuleSettings" where
  "getCopyForExtraModule s =
     \<lparr>ms_ModuleHDFInfoObj = ms_ModuleHDFInfoObj s, ms_Name = ms_Name s, ms_Topic = ms_Topic s, ms_Module = [],
      ms_Source = ms_Source s, ms_ConfigStreamJson = ''{}'', ms_Attributes = [], ms_WriterModule = None,
      ms_isLink = False\<rparr>"

text \<open>An exception of \<^verbatim>\<open>parse_config\<close> is caught, and the \<^verbatim>\<open>std::runtime_error\<close> made from it is constructed
  but not thrown.\<close>

definition generateWriterInstance ::
  "('i, 'h, 't) job_env \<Rightarrow> ('i, 'h, 't) settings \<Rightarrow> exn + ('i, 'h, 't) instance_ptr" where
  "generateWriterInstance env StreamInfo =
     (case find_module (ms_Module StreamInfo) (je_registry env) of
        Inl E \<Rightarrow>
          Inl (Runtime_Error (''Error while getting module with name/id \"'' @ ms_Module StreamInfo @
            ''\" for source \"'' @ ms_Source StreamInfo @ ''\". Message was: '' @ exn_what E))
      | Inr (cls, _) \<Rightarrow>
          (case mc_new cls of
             None \<Rightarrow>
               Inl (Runtime_Error (''Can not instantiate a writer module for module name/id '' @ ms_Module StreamInfo))
           | Some b \<Rightarrow>
               Inr (cls, snd (parse_config (jl_dump (je_json env)) (jl_list_keys (je_json env)) (jl_parse (je_json env))
                 (mc_config_post_processing cls) (ms_ConfigStreamJson StreamInfo) b))))"

fun writeAttributesList :: "'h hdf5 \<Rightarrow> node \<Rightarrow> (string \<times> string) list \<Rightarrow> 'h \<Rightarrow> exn option \<times> 'h" where
  "writeAttributesList lib StreamGroup [] h = (None, h)"
| "writeAttributesList lib StreamGroup ((k, v) # as) h =
     (if h5_attr_exists lib h StreamGroup k then writeAttributesList lib StreamGroup as h
      else and_then (h5_attr_create lib StreamGroup k (H5_scalar ''string'' (J_string v)) h)
             (writeAttributesList lib StreamGroup as))"

definition setWriterHDFAttributes ::
  "('i, 'h, 't) job_env \<Rightarrow> ('i, 'h, 't) settings \<Rightarrow> 'i Base \<Rightarrow> 'h \<Rightarrow> exn option \<times> 'h" where
  "setWriterHDFAttributes env StreamInfo b h =
     (case hl_group (je_links env) h (mi_HDFParentName (ms_ModuleHDFInfoObj StreamInfo)) of
        Inl e \<Rightarrow> (Some e, h)
      | Inr StreamGroup \<Rightarrow>
          writeAttributesList (je_hdf env) StreamGroup
            [(''NX_class'', wm_NX_class b), (''topic'', ms_Topic StreamInfo), (''source'', ms_Source StreamInfo),
             (''writer_module'', ms_Module StreamInfo)] h)"

section \<open>Setting up the streams\<close>

text \<open>The body of the loop over the streams: the item with its writer, the settings of its extra modules,
  file and tracker. The file of the task is open, so \<^verbatim>\<open>hdfGroup\<close> does not raise.\<close>

definition stream_error :: "'b ModuleSettings \<Rightarrow> exn \<Rightarrow> exn" where
  "stream_error Item E =
     (if is_runtime_error E then
        Runtime_Error (''Could not initialise stream at path \"'' @ mi_HDFParentName (ms_ModuleHDFInfoObj Item) @
          ''\" with configuration JSON \"'' @ mi_ConfigStream (ms_ModuleHDFInfoObj Item) @ ''\". Error was: '' @ exn_what E)
      else E)"

definition setup_stream ::
  "('i, 'h, 't) job_env \<Rightarrow> ('i, 'h, 't) settings \<Rightarrow> 'h \<times> 't
     \<Rightarrow> (exn + ('i, 'h, 't) settings \<times> ('i, 'h, 't) settings list) \<times> 'h \<times> 't" where
  "setup_stream env Item st =
     (let (h, t) = st in
      case hl_group (je_links env) h (mi_HDFParentName (ms_ModuleHDFInfoObj Item)) of
        Inl e \<Rightarrow> (Inl e, h, t)
      | Inr StreamGroup \<Rightarrow>
          (case generateWriterInstance env Item of
             Inl e \<Rightarrow> (Inl (stream_error Item e), h, t)
           | Inr (cls, b) \<Rightarrow>
               let extra = map (\<lambda>m. (getCopyForExtraModule Item)\<lparr>ms_Module := m\<rparr>) (getEnabledExtraModules b) in
               (case setWriterHDFAttributes env Item b h of
                  (Some e, h) \<Rightarrow> (Inl (stream_error Item e), h, t)
                | (None, h) \<Rightarrow>
                    (case mc_init_hdf cls StreamGroup b h of
                       (Inl e, b, h) \<Rightarrow> (Inl (stream_error Item e), h, t)
                     | (Inr _, b, h) \<Rightarrow>
                         (case mc_register_meta_data cls StreamGroup b t of
                            (Some e, b, t) \<Rightarrow>
                              (Inl (Runtime_Error
                                (''Exception encountered in WriterModule::Base::register_meta_data(). Module: \"'' @
                                 ms_Module Item @ ''\" Source: \"'' @ ms_Source Item @ ''\"  Error message: '' @ exn_what e)),
                               h, t)
                          | (None, b, t) \<Rightarrow> (Inr (Item\<lparr>ms_WriterModule := Some (cls, b)\<rparr>, extra), h, t))))))"

text \<open>The loop: the settings of extra modules are appended to the list that is being worked through. The
  first argument bounds the number of iterations; the result is \<open>None\<close> when it is not enough.\<close>

fun setup_streams ::
  "('i, 'h, 't) job_env \<Rightarrow> nat \<Rightarrow> ('i, 'h, 't) settings list \<Rightarrow> ('i, 'h, 't) settings list \<Rightarrow> 'h \<times> 't
     \<Rightarrow> ((exn + ('i, 'h, 't) settings list) \<times> 'h \<times> 't) option" where
  "setup_streams env n ready [] st = Some (Inr ready, st)"
| "setup_streams env 0 ready (Item # rest) st = None"
| "setup_streams env (Suc n) ready (Item # rest) st =
     (case setup_stream env Item st of
        (Inl e, st) \<Rightarrow> Some (Inl e, st)
      | (Inr (Item, extra), st) \<Rightarrow> setup_streams env n (ready @ [Item]) (rest @ extra) st)"

section \<open>The sources\<close>

text \<open>One iteration: the task with the new source, or the exception that is not a
  \<^verbatim>\<open>std::runtime_error\<close>. \<open>None\<close> is the dereference of a missing writer.\<close>

definition add_stream_source ::
  "('i, 'h, 't) job_env \<Rightarrow> ('i, 'h, 't) settings \<Rightarrow> 'h \<Rightarrow> ('i, 'h, 't) task
     \<Rightarrow> ((exn + ('i, 'h, 't) task) \<times> 'h) option" where
  "add_stream_source env StreamSettings h Task =
     (case hl_group (je_links env) h (mi_HDFParentName (ms_ModuleHDFInfoObj StreamSettings)) of
        Inl e \<Rightarrow> Some (if is_runtime_error e then Inr Task else Inl e, h)
      | Inr StreamGroup \<Rightarrow>
          (case ms_WriterModule StreamSettings of
             None \<Rightarrow> None
           | Some (cls, b) \<Rightarrow>
               (case mc_reopen cls StreamGroup b h of
                  (Inl e, b, h) \<Rightarrow> Some (if is_runtime_error e then Inr Task else Inl e, h)
                | (Inr IR_ERROR, b, h) \<Rightarrow> Some (Inr Task, h)
                | (Inr IR_OK, b, h) \<Rightarrow>
                    (case find_module (ms_Module StreamSettings) (je_registry env) of
                       Inl e \<Rightarrow> Some (if is_runtime_error e then Inr Task else Inl e, h)
                     | Inr (_, ID) \<Rightarrow>
                         Some (Inr (addSource (make_Source (je_hash env) (ms_Source StreamSettings) (fi_Id ID)
                           (fi_Name ID) (ms_Topic StreamSettings) (cls, b)) Task), h)))))"

fun addStreamSourceToWriterModule ::
  "('i, 'h, 't) job_env \<Rightarrow> ('i, 'h, 't) settings list \<Rightarrow> 'h \<Rightarrow> ('i, 'h, 't) task
     \<Rightarrow> ((exn + ('i, 'h, 't) task) \<times> 'h) option" where
  "addStreamSourceToWriterModule env [] h Task = Some (Inr Task, h)"
| "addStreamSourceToWriterModule env (s # ss) h Task =
     (case add_stream_source env s h Task of
        None \<Rightarrow> None
      | Some (Inl e, h) \<Rightarrow> Some (Inl e, h)
      | Some (Inr Task, h) \<Rightarrow> addStreamSourceToWriterModule env ss h Task)"

section \<open>The job\<close>

definition with_content :: "'h HDFFile \<Rightarrow> 'h \<Rightarrow> 'h HDFFile" where
  "with_content f h = f\<lparr>hf_content := h\<rparr>"

definition createFileWritingJob ::
  "('i, 'h, 't) job_env \<Rightarrow> nat \<Rightarrow> StartMessage \<Rightarrow> StreamerOptions \<Rightarrow> string \<Rightarrow> string \<Rightarrow> 't
     \<Rightarrow> ((exn + (('i, 'h, 't) instance_ptr, 'q, 'h HDFFile) StreamController) \<times> 't) option" where
  "createFileWritingJob env fuel StartInfo Settings filepath template_path t =
     (let jl = je_json env;
          Task = make_FileWriterTask (sm_JobID StartInfo) filepath;
          is_legacy_writing = (sm_InstrumentName StartInfo = []) in
      case initializeHDF env Task (sm_NexusStructure StartInfo) template_path is_legacy_writing of
        Inl e \<Rightarrow> Some (Inl e, t)
      | Inr (Task, ModuleHDFInfoList) \<Rightarrow>
          let (ModuleHDFInfoList, mdatInfoList) = extractMdatModules ModuleHDFInfoList in
          (case define_metadata jl mdatInfoList of
             Inl e \<Rightarrow> Some (Inl e, t)
           | Inr mdatWriter \<Rightarrow>
               (case extractModuleInformationFromJson jl ModuleHDFInfoList of
                  Inl e \<Rightarrow> Some (Inl e, t)
                | Inr SettingsList \<Rightarrow>
                    let LinkSettingsList = filter ms_isLink SettingsList;
                        StreamSettingsList = filter (\<lambda>s. \<not> ms_isLink s) SettingsList in
                    (case fw_File Task of
                       None \<Rightarrow> None
                     | Some f \<Rightarrow>
                         (case setup_streams env fuel [] StreamSettingsList (hf_content f, t) of
                            None \<Rightarrow> None
                          | Some (Inl e, h, t) \<Rightarrow> Some (Inl e, t)
                          | Some (Inr StreamSettingsList, h, t) \<Rightarrow>
                              let f = file_addLinks (je_io env) (je_links env) LinkSettingsList (with_content f h) in
                              (case switchToWriteMode (je_io env) f of
                                 (Some e, f) \<Rightarrow> Some (Inl e, t)
                               | (None, f) \<Rightarrow>
                                   (case addStreamSourceToWriterModule env StreamSettingsList (hf_content f) Task of
                                      None \<Rightarrow> None
                                    | Some (Inl e, h) \<Rightarrow> Some (Inl e, t)
                                    | Some (Inr Task, h) \<Rightarrow>
                                        Some (Inr (make_StreamController (je_now env)
                                          (Task\<lparr>fw_File := Some (with_content f h)\<rparr>) mdatWriter Settings), t))))))))"

definition createFileWriterTemplate ::
  "('i, 'h, 't) job_env \<Rightarrow> StartMessage \<Rightarrow> string \<Rightarrow> exn + ('i, 'h, 't) task \<times> ModuleHDFInfo list" where
  "createFileWriterTemplate env StartInfo filepath =
     initializeHDF env (make_FileWriterTask (sm_JobID StartInfo) filepath) (sm_NexusStructure StartInfo) [] False"

section \<open>Malformed stream descriptions\<close>

definition not_a_string :: "string \<Rightarrow> json \<Rightarrow> bool" where
  "not_a_string key j \<longleftrightarrow> (\<exists>v. json_find key j = Some v \<and> \<not> is_string v)"

text \<open>A member the code asks for is there but is no string.\<close>

definition wrong_type :: "json_lib \<Rightarrow> ModuleHDFInfo \<Rightarrow> bool" where
  "wrong_type jl m \<longleftrightarrow> mi_WriterModule m \<noteq> [] \<and>
     (\<exists>c. jl_parse jl (mi_ConfigStream m) = Inr c \<and>
        (not_a_string ''source'' c \<or>
         json_find ''source'' c \<noteq> None \<and> not_a_string (if mi_WriterModule m = ''link'' then ''name'' else ''topic'') c))"

text \<open>What is documented of \<^verbatim>\<open>json::parse\<close>: it raises nothing but \<^verbatim>\<open>json::parse_error\<close>.\<close>

definition parse_raises_parse_errors :: "json_lib \<Rightarrow> bool" where
  "parse_raises_parse_errors jl \<longleftrightarrow> (\<forall>s e. jl_parse jl s = Inl e \<longrightarrow> (\<exists>w. e = Json_Parse_Error w))"

lemma json_get_string_ok: "json_get_string v = Inr s \<longleftrightarrow> v = J_string s"
  by (cases v) auto

lemma required_string:
  "getRequiredValue json_get_string key j =
     (case json_find key j of
        None \<Rightarrow> Inl (Runtime_Error (''Missing key '' @ key @ '' from command JSON''))
      | Some v \<Rightarrow> json_get_string v)"
  by (cases "json_find key j"; cases "json_get_string (the (json_find key j))")
    (auto simp: getRequiredValue_def find_value_def)

lemma json_get_string_error: "json_get_string v = Inl e \<longleftrightarrow> \<not> is_string v \<and> e = Json_Type_Error ''type must be string''"
  by (cases v) auto

lemma extract_error:
  assumes "parse_raises_parse_errors jl"
    and "extractModuleInformationFromJsonForSource jl m = Inl e"
  shows "if wrong_type jl m then e = Json_Type_Error ''type must be string'' else caught_when_extracting e"
proof (cases "jl_parse jl (mi_ConfigStream m)")
  case (Inl e')
  with assms show ?thesis
    by (auto simp: extractModuleInformationFromJsonForSource_def wrong_type_def parse_raises_parse_errors_def
        split: if_splits) (metis caught_when_extracting.simps(1))
next
  case (Inr c)
  with assms(2) show ?thesis
    by (auto simp: extractModuleInformationFromJsonForSource_def wrong_type_def required_string not_a_string_def
        json_get_string_error json_get_string_ok Let_def split: if_splits sum.splits option.splits)
qed

lemma extract_ok:
  "extractModuleInformationFromJsonForSource jl m = Inr s \<Longrightarrow> \<not> wrong_type jl m"
  by (auto simp: extractModuleInformationFromJsonForSource_def wrong_type_def required_string not_a_string_def
      json_get_string_ok Let_def split: if_splits sum.splits option.splits)

text \<open>Streams and links whose configuration is not valid JSON or lacks a required member are left out
  of the job, and the others keep their order. But one stream in which \<^verbatim>\<open>source\<close>, \<^verbatim>\<open>topic\<close> or a link's
  \<^verbatim>\<open>name\<close> is there and is not a string makes the whole job fail: the type error of the JSON library is not
  among the exceptions that are caught.\<close>

theorem malformed_streams:
  assumes "parse_raises_parse_errors jl"
  shows "extractModuleInformationFromJson jl ms =
    (if \<exists>m \<in> set ms. wrong_type jl m then Inl (Json_Type_Error ''type must be string'')
     else Inr (concat (map (\<lambda>m. case extractModuleInformationFromJsonForSource jl m of
         Inr s \<Rightarrow> [s] | Inl _ \<Rightarrow> []) ms)))"
proof (induction ms)
  case (Cons m ms)
  show ?case
  proof (cases "extractModuleInformationFromJsonForSource jl m :: exn + 'a ModuleSettings")
    case (Inl e)
    then show ?thesis using extract_error [OF assms Inl] Cons by (auto split: if_splits)
  next
    case (Inr s)
    then show ?thesis using extract_ok [OF Inr] Cons by auto
  qed
qed simp

theorem malformed_streams_witness:
  "extractModuleInformationFromJson (text_lib\<lparr>jl_parse := \<lambda>s. Inr (J_object [(''source'', J_int 1)])\<rparr>)
     [\<lparr>mi_WriterModule = ''f144'', mi_HDFParentName = ''/entry'', mi_ConfigStream = ''{}''\<rparr>] =
   (Inl (Json_Type_Error ''type must be string'') :: exn + unit ModuleSettings list)"
proof -
  let ?jl = "text_lib\<lparr>jl_parse := \<lambda>s. Inr (J_object [(''source'', J_int 1)])\<rparr>"
  have "wrong_type ?jl \<lparr>mi_WriterModule = ''f144'', mi_HDFParentName = ''/entry'', mi_ConfigStream = ''{}''\<rparr>"
    by (simp add: wrong_type_def not_a_string_def)
  moreover have "parse_raises_parse_errors ?jl" by (simp add: parse_raises_parse_errors_def)
  ultimately show ?thesis by (subst malformed_streams) simp_all
qed

text \<open>The configuration of a module never makes it fail: what \<^verbatim>\<open>parse_config\<close> raises, a missing required
  field for example, is dropped, and the instance is used with the fields it has.\<close>

lemma config_errors_dropped:
  assumes "find_module (ms_Module s) (je_registry env) = Inr (cls, ID)" and "mc_new cls = Some b"
  shows "\<exists>b'. generateWriterInstance env s = Inr (cls, b')"
  using assms by (simp add: generateWriterInstance_def)

section \<open>Extra modules\<close>

lemma parse_config_extra:
  assumes "\<And>b. wm_FoundExtraModules (snd (post b)) = wm_FoundExtraModules b"
  shows "wm_FoundExtraModules (snd (parse_config dump lk parse post c b)) = wm_FoundExtraModules b"
  using assms by (auto simp: parse_config_def split: prod.splits option.splits)

text \<open>Processing a configuration does not change the list of extra modules, which is private to \<^verbatim>\<open>Base\<close>, and
  a module that is used as an extra module has none itself. This holds for the modules of the
  repository: the extra modules are \<^verbatim>\<open>ep01\<close> and \<^verbatim>\<open>al00\<close>.\<close>

definition flat_extras :: "('i, 'h, 't) job_env \<Rightarrow> bool" where
  "flat_extras env \<longleftrightarrow>
     (\<forall>m cls ID. find_module m (je_registry env) = Inr (cls, ID) \<longrightarrow>
        (\<forall>b. wm_FoundExtraModules (snd (mc_config_post_processing cls b)) = wm_FoundExtraModules b) \<and>
        (\<forall>b x. mc_new cls = Some b \<and> x \<in> set (wm_FoundExtraModules b) \<longrightarrow>
           (\<forall>cls' ID' b'. find_module x (je_registry env) = Inr (cls', ID') \<and> mc_new cls' = Some b' \<longrightarrow>
              wm_FoundExtraModules b' = [])))"

definition weight :: "('i, 'h, 't) job_env \<Rightarrow> ('i, 'h, 't) settings \<Rightarrow> nat" where
  "weight env s =
     (case find_module (ms_Module s) (je_registry env) of
        Inl _ \<Rightarrow> 1
      | Inr (cls, _) \<Rightarrow> (case mc_new cls of None \<Rightarrow> 1 | Some b \<Rightarrow> Suc (length (wm_FoundExtraModules b))))"

lemma setup_stream_result:
  assumes "setup_stream env Item st = (Inr (Item', extra), st')"
  shows "\<exists>cls ID b c. find_module (ms_Module Item) (je_registry env) = Inr (cls, ID) \<and> mc_new cls = Some b \<and>
    Item' = Item\<lparr>ms_WriterModule := Some c\<rparr> \<and>
    extra = map (\<lambda>m. (getCopyForExtraModule Item)\<lparr>ms_Module := m\<rparr>)
      (getEnabledExtraModules (snd (parse_config (jl_dump (je_json env)) (jl_list_keys (je_json env))
         (jl_parse (je_json env)) (mc_config_post_processing cls) (ms_ConfigStreamJson Item) b)))"
  using assms
  by (auto simp: setup_stream_def generateWriterInstance_def Let_def split: prod.splits sum.splits option.splits)

lemma setup_stream_weight:
  assumes "flat_extras env" and "setup_stream env Item st = (Inr (Item', extra), st')"
  shows "Suc (sum_list (map (weight env) extra)) \<le> weight env Item"
proof -
  obtain cls ID b where m: "find_module (ms_Module Item) (je_registry env) = Inr (cls, ID)" "mc_new cls = Some b"
    and extra: "extra = map (\<lambda>m. (getCopyForExtraModule Item)\<lparr>ms_Module := m\<rparr>)
      (getEnabledExtraModules (snd (parse_config (jl_dump (je_json env)) (jl_list_keys (je_json env))
         (jl_parse (je_json env)) (mc_config_post_processing cls) (ms_ConfigStreamJson Item) b)))"
    using setup_stream_result [OF assms(2)] by blast
  define pb where "pb = snd (parse_config (jl_dump (je_json env)) (jl_list_keys (je_json env))
         (jl_parse (je_json env)) (mc_config_post_processing cls) (ms_ConfigStreamJson Item) b)"
  let ?xs = "getEnabledExtraModules pb"
  have found: "wm_FoundExtraModules pb = wm_FoundExtraModules b"
    using assms(1) m unfolding pb_def by (intro parse_config_extra) (auto simp: flat_extras_def)
  have len: "length ?xs \<le> length (wm_FoundExtraModules b)"
    unfolding getEnabledExtraModules_def found by (rule length_filter_le)
  have "weight env (getCopyForExtraModule Item\<lparr>ms_Module := x\<rparr>) = 1" if "x \<in> set ?xs" for x
  proof -
    have "x \<in> set (wm_FoundExtraModules b)"
      using that getEnabledExtraModules_found [of pb] unfolding found by blast
    with assms(1) m have "find_module x (je_registry env) = Inr (cls', ID') \<Longrightarrow> mc_new cls' = Some b' \<Longrightarrow>
        wm_FoundExtraModules b' = []" for cls' ID' b'
      unfolding flat_extras_def by blast
    then show ?thesis by (auto simp: weight_def split: sum.splits option.splits)
  qed
  then have "map (weight env) extra = map (\<lambda>_. 1) ?xs" unfolding extra pb_def by simp
  then have "sum_list (map (weight env) extra) = length ?xs" by (simp add: sum_list_triv)
  with len m show ?thesis by (simp add: weight_def)
qed

lemma setup_streams_terminates:
  assumes "flat_extras env" and "sum_list (map (weight env) todo) \<le> n"
  shows "setup_streams env n ready todo st \<noteq> None"
  using assms(2)
proof (induction n arbitrary: ready todo st)
  case 0
  have "0 < weight env s" for s by (simp add: weight_def split: sum.splits option.splits prod.splits)
  with 0 have "todo = []" by (cases todo) (auto, metis less_numeral_extra(3))
  then show ?case by simp
next
  case (Suc n)
  show ?case
  proof (cases todo)
    case (Cons Item rest)
    show ?thesis
    proof (cases "fst (setup_stream env Item st)")
      case (Inl e)
      then show ?thesis using Cons by (cases "setup_stream env Item st") simp
    next
      case (Inr x)
      then obtain Item' extra st' where x: "setup_stream env Item st = (Inr (Item', extra), st')"
        by (cases "setup_stream env Item st") (auto, metis surj_pair)
      have "Suc (sum_list (map (weight env) extra)) \<le> weight env Item"
        using setup_stream_weight [OF assms(1) x] .
      with Suc.prems Cons have "sum_list (map (weight env) (rest @ extra)) \<le> n" by simp
      from Suc.IH [OF this] show ?thesis using Cons x by simp
    qed
  qed simp
qed

section \<open>The sources of a job\<close>

abbreviation stream_key :: "'b ModuleSettings \<Rightarrow> string \<times> string \<times> string" where
  "stream_key s \<equiv> (ms_Source s, ms_Topic s, ms_Module s)"

definition source_of :: "('i, 'h, 't) job_env \<Rightarrow> string \<times> string \<times> string \<Rightarrow> ('i, 'h, 't) instance_ptr Source \<Rightarrow> bool" where
  "source_of env key src \<longleftrightarrow>
     src_SourceName src = fst key \<and> src_TopicName src = fst (snd key) \<and>
     (\<exists>cls ID. find_module (snd (snd key)) (je_registry env) = Inr (cls, ID) \<and> src_SchemaID src = fi_Id ID \<and>
        src_WriterModuleID src = fi_Name ID)"

lemma add_sources:
  assumes "addStreamSourceToWriterModule env ss h Task = Some (Inr Task', h')"
  shows "\<exists>new picked. fw_SourceToModuleMap Task' = fw_SourceToModuleMap Task @ new \<and>
    subseq picked (map stream_key ss) \<and> list_all2 (source_of env) picked new"
  using assms
proof (induction env ss h Task rule: addStreamSourceToWriterModule.induct)
  case (1 env h Task)
  then show ?case by (intro exI [of _ "[]"]) simp
next
  case (2 env s ss h Task)
  then obtain Task1 h1 where step: "add_stream_source env s h Task = Some (Inr Task1, h1)"
    and rest: "addStreamSourceToWriterModule env ss h1 Task1 = Some (Inr Task', h')"
    by (auto split: option.splits sum.splits)
  obtain new picked where new: "fw_SourceToModuleMap Task' = fw_SourceToModuleMap Task1 @ new"
    "subseq picked (map stream_key ss)" "list_all2 (source_of env) picked new"
    using 2(1) [OF step refl _ rest] by auto
  have "Task1 = Task \<or> (\<exists>src. fw_SourceToModuleMap Task1 = fw_SourceToModuleMap Task @ [src] \<and>
      source_of env (stream_key s) src)"
    using step by (auto simp: add_stream_source_def addSource_def make_Source_def source_of_def
        split: sum.splits option.splits prod.splits InitResult.splits if_splits)
  then show ?case
  proof
    assume "Task1 = Task"
    with new show ?thesis by (intro exI [of _ new] exI [of _ picked]) auto
  next
    assume "\<exists>src. fw_SourceToModuleMap Task1 = fw_SourceToModuleMap Task @ [src] \<and> source_of env (stream_key s) src"
    then obtain src where "fw_SourceToModuleMap Task1 = fw_SourceToModuleMap Task @ [src]"
      "source_of env (stream_key s) src" by blast
    with new show ?thesis by (intro exI [of _ "src # new"] exI [of _ "stream_key s # picked"]) auto
  qed
qed

lemma setup_streams_keys:
  fixes env :: "('i, 'h, 't) job_env"
  assumes "setup_streams env n ready todo st = Some (Inr ss, st')"
  shows "\<exists>extra :: ('i, 'h, 't) settings list. map stream_key ss = map stream_key (ready @ todo) @ map stream_key extra \<and>
    (\<forall>e \<in> set extra. \<exists>s \<in> set todo. ms_Source e = ms_Source s \<and> ms_Topic e = ms_Topic s)"
  using assms
proof (induction env n ready todo st rule: setup_streams.induct)
  case (3 env n ready Item rest st)
  then obtain Item' extra st1 where step: "setup_stream env Item st = (Inr (Item', extra), st1)"
    and rest: "setup_streams env n (ready @ [Item']) (rest @ extra) st1 = Some (Inr ss, st')"
    by (auto split: prod.splits sum.splits)
  have item: "stream_key Item' = stream_key Item"
    and copies: "\<forall>e \<in> set extra. ms_Source e = ms_Source Item \<and> ms_Topic e = ms_Topic Item"
    using setup_stream_result [OF step] by (auto simp: getCopyForExtraModule_def)
  obtain more :: "('i, 'h, 't) settings list" where more: "map stream_key ss = map stream_key ((ready @ [Item']) @ rest @ extra) @ map stream_key more"
    "\<forall>e \<in> set more. \<exists>s \<in> set (rest @ extra). ms_Source e = ms_Source s \<and> ms_Topic e = ms_Topic s"
    using 3(1) [OF step [symmetric] refl refl rest] by blast
  have "map stream_key ss = map stream_key (ready @ Item # rest) @ map stream_key (extra @ more)"
    using more(1) item by simp
  moreover have "\<exists>s \<in> set (Item # rest). ms_Source e = ms_Source s \<and> ms_Topic e = ms_Topic s"
    if "e \<in> set (extra @ more)" for e
    using that copies more(2) by fastforce
  ultimately show ?case by blast
qed auto


text \<open>An environment with one registered module, whose operations succeed.\<close>

definition sample_class :: "(unit, unit, unit) module_class" where
  "sample_class =
     \<lparr>mc_new = Some (make_Base ([] :: unit registry) ''f144'' False ''NXlog'' [] ()),
      mc_config_post_processing = (\<lambda>b. (None, b)), mc_init_hdf = (\<lambda>g b h. (Inr IR_OK, b, h)),
      mc_register_meta_data = (\<lambda>g b t. (None, b, t)), mc_reopen = (\<lambda>g b h. (Inr IR_OK, b, h))\<rparr>"

definition unit_hdf5 :: "unit hdf5" where
  "unit_hdf5 =
     \<lparr>h5_has_group = (\<lambda>h P n. Inr False), h5_create_group = (\<lambda>P n h. (None, h)), h5_get_group = (\<lambda>h P n. None),
      h5_has_dataset = (\<lambda>h P n. Inr False), h5_get_dataset = (\<lambda>h P n. None),
      h5_create_dataset = (\<lambda>P n d h. (None, h)), h5_attr_exists = (\<lambda>h P n. False),
      h5_attr_remove = (\<lambda>P n h. (None, h)), h5_attr_create = (\<lambda>P n d h. (None, h))\<rparr>"

text \<open>A JSON library that knows two texts.\<close>

definition sample_json :: json_lib where
  "sample_json = text_lib\<lparr>jl_parse := \<lambda>s.
     if s = ''structure'' then Inr (J_object [(''children'', J_array [sample_stream])])
     else Inr (J_object [(''source'', J_string ''src''), (''topic'', J_string ''top'')])\<rparr>"

definition sample_job_env :: "(unit, unit, unit) job_env" where
  "sample_job_env =
     \<lparr>je_json = sample_json, je_hdf = unit_hdf5,
      je_io = \<lparr>io_create = (\<lambda>p. Inr ()), io_copy_template = (\<lambda>p q. Inr ()), io_open = (\<lambda>m p h. None),
        io_close = (\<lambda>h. None), io_flush = (\<lambda>h. (None, h)), io_read_attr = (\<lambda>h P n. Inr []), io_version = [],
        io_creator = [], io_now = []\<rparr>,
      je_links = \<lparr>hl_group = (\<lambda>h p. Inr []), hl_parent = butlast, hl_open = (\<lambda>h g s. None),
        hl_link = (\<lambda>x g n h. h)\<rparr>,
      je_registry = [(1, sample_class, \<lparr>fi_Id = ''f144'', fi_Name = ''f144''\<rparr>)], je_hash = (\<lambda>s. length s),
      je_exists = (\<lambda>p. False), je_now = 0\<rparr>"

definition sample_settings :: "(unit, unit, unit) settings" where
  "sample_settings =
     \<lparr>ms_ModuleHDFInfoObj = \<lparr>mi_WriterModule = ''f144'', mi_HDFParentName = [], mi_ConfigStream = ''{}''\<rparr>,
      ms_Name = [], ms_Topic = ''top'', ms_Module = ''f144'', ms_Source = ''src'', ms_ConfigStreamJson = ''{}'',
      ms_Attributes = [], ms_WriterModule = None, ms_isLink = False\<rparr>"

lemma sample_registry_find:
  "find_module m (je_registry sample_job_env) =
     (if m = ''f144'' then Inr (sample_class, \<lparr>fi_Id = ''f144'', fi_Name = ''f144''\<rparr>)
      else Inl (Out_Of_Range (''Unable to find module with name/id \"'' @ m)))"
  by (auto simp: find_module_def find_if_def sample_job_env_def)

lemma sample_flat: "flat_extras sample_job_env"
  by (auto simp: flat_extras_def sample_registry_find sample_class_def no_extra_modules split: if_splits)



definition sample_start_message :: StartMessage where
  "sample_start_message = empty_StartMessage\<lparr>sm_NexusStructure := ''structure''\<rparr>"

abbreviation sample_job :: "((exn + ((unit, unit, unit) instance_ptr, unit, unit HDFFile) StreamController) \<times> unit) option" where
  "sample_job \<equiv> createFileWritingJob sample_job_env 1 sample_start_message default_StreamerOptions ''f.nxs'' [] ()"

lemma sample_job_runs:
  "\<exists>sc. sample_job = Some (Inr sc, ()) \<and>
     map src_SourceName (fw_SourceToModuleMap (sc_WriterTask sc)) = [''src'']"
proof -
  have "map_option (map_prod (map_sum (\<lambda>_. ()) (\<lambda>sc. map src_SourceName (fw_SourceToModuleMap (sc_WriterTask sc)))) id)
    sample_job = Some (Inr [''src''], ())"
    by code_simp
  then show ?thesis by (cases "fst (the sample_job)") auto
qed


end
