(* ===== verification/Log_Writers.thy ===== *)
theory Log_Writers
  imports Nexus_Dataset Meta_Data Job_Creator
begin

text \<open>
  The writer modules for values over time: \<^verbatim>\<open>f144\<close>, \<^verbatim>\<open>se00\<close>, \<^verbatim>\<open>tdct\<close>, \<^verbatim>\<open>al00\<close> and \<^verbatim>\<open>ep01\<close> of
  \<^verbatim>\<open>src/WriterModule\<close>. A message is given by the fields that the generated flatbuffer code reads from it.
  A write returns an exception or whether data was written, with the module, the file and the tracker as
  they are then; a result \<open>None\<close> is undefined behaviour.

  Arithmetic on \<^verbatim>\<open>double\<close> is the record \<open>float_ops\<close>.
\<close>

section \<open>Element types\<close>

datatype element_type = int8 | uint8 | int16 | uint16 | int32 | uint32 | int64 | uint64 | float32 | float64

fun type_name :: "element_type \<Rightarrow> string" where
  "type_name int8 = ''int8''"
| "type_name uint8 = ''uint8''"
| "type_name int16 = ''int16''"
| "type_name uint16 = ''uint16''"
| "type_name int32 = ''int32''"
| "type_name uint32 = ''uint32''"
| "type_name int64 = ''int64''"
| "type_name uint64 = ''uint64''"
| "type_name float32 = ''float''"
| "type_name float64 = ''double''"

record 'f float_ops =
  fl_of :: "'f h5_value \<Rightarrow> 'f"
  fl_lt :: "'f \<Rightarrow> 'f \<Rightarrow> bool"
  fl_add :: "'f \<Rightarrow> 'f \<Rightarrow> 'f"
  fl_div :: "'f \<Rightarrow> nat \<Rightarrow> 'f"

text \<open>\<^verbatim>\<open>std::min\<close> and \<^verbatim>\<open>std::max\<close>.\<close>

definition std_min :: "'f float_ops \<Rightarrow> 'f \<Rightarrow> 'f \<Rightarrow> 'f" where
  "std_min F a b = (if fl_lt F b a then b else a)"

definition std_max :: "'f float_ops \<Rightarrow> 'f \<Rightarrow> 'f \<Rightarrow> 'f" where
  "std_max F a b = (if fl_lt F a b then b else a)"

section \<open>f144\<close>

datatype f144_value =
    V_Byte | V_UByte | V_Short | V_UShort | V_Int | V_UInt | V_Long | V_ULong | V_Float | V_Double
  | V_ArrayByte | V_ArrayUByte | V_ArrayShort | V_ArrayUShort | V_ArrayInt | V_ArrayUInt | V_ArrayLong | V_ArrayULong
  | V_ArrayFloat | V_ArrayDouble | V_NONE

record 'f f144_LogData =
  lg_source_name :: string
  lg_timestamp :: int
  lg_value_type :: f144_value
  lg_value :: "'f h5_value"

record 'f f144_Writer =
  f1_ElementType :: element_type
  f1_Values :: ExtensibleDatasetBase
  f1_Timestamp :: ExtensibleDatasetBase
  f1_CueTimestampZero :: ExtensibleDatasetBase
  f1_CueIndex :: ExtensibleDatasetBase
  f1_ValueIndexInterval :: nat
  f1_ChunkSize :: nat
  f1_DataType :: string
  f1_Unit :: string
  f1_MetaData :: bool
  f1_MetaDataMin :: value_ptr
  f1_MetaDataMax :: value_ptr
  f1_MetaDataMean :: value_ptr
  f1_Min :: 'f
  f1_Max :: 'f
  f1_Sum :: 'f
  f1_LastIndexAtWrite :: nat
  f1_NrOfWrites :: nat
  f1_TotalNrOfElementsWritten :: nat
  f1_HasCheckedMessageType :: bool

text \<open>\<^verbatim>\<open>config_post_processing\<close>: an unknown name leaves the type as it is.\<close>

definition f144_TypeMap :: "(string \<times> element_type) list" where
  "f144_TypeMap =
     [(''int8'', int8), (''uint8'', uint8), (''int16'', int16), (''uint16'', uint16), (''int32'', int32),
      (''uint32'', uint32), (''int64'', int64), (''uint64'', uint64), (''float32'', float32), (''float64'', float64),
      (''float'', float32), (''double'', float64), (''short'', int16), (''int'', int32), (''long'', int64)]"

definition lower :: "string \<Rightarrow> string" where
  "lower s = map (\<lambda>c. if 65 \<le> (of_char c :: nat) \<and> (of_char c :: nat) \<le> 90 then char_of ((of_char c :: nat) + 32) else c) s"

definition f144_config_post_processing :: "'f f144_Writer \<Rightarrow> 'f f144_Writer" where
  "f144_config_post_processing w =
     (case map_of f144_TypeMap (lower (f1_DataType w)) of
        None \<Rightarrow> w
      | Some t \<Rightarrow> w\<lparr>f1_ElementType := t\<rparr>)"

definition f144_initValueDataset :: "('h, 'f) dataset_lib \<Rightarrow> node \<Rightarrow> element_type \<Rightarrow> 'h \<Rightarrow> exn option \<times> 'h" where
  "f144_initValueDataset L Parent ElementType h =
     (case make_ExtensibleDataset L (type_name ElementType) Parent ''value'' Create 1024 h of
        (Inl e, h) \<Rightarrow> (Some e, h)
      | (Inr _, h) \<Rightarrow> (None, h))"

definition f144_init_hdf :: "('h, 'f) dataset_lib \<Rightarrow> node \<Rightarrow> 'f f144_Writer \<Rightarrow> 'h \<Rightarrow> InitResult \<times> 'h" where
  "f144_init_hdf L HDFGroup w h =
     (case and_then (and_then
               (create_datasets L HDFGroup
                 [(Time, f1_ChunkSize w), (CueTimestampZero, f1_ChunkSize w), (CueIndex, f1_ChunkSize w)] h)
               (f144_initValueDataset L HDFGroup (f1_ElementType w)))
             (dl_attr L (HDFGroup, ''value'') ''units'' (f1_Unit w)) of
        (Some e, h) \<Rightarrow> (IR_ERROR, h)
      | (None, h) \<Rightarrow> (IR_OK, h))"

text \<open>The datasets that were opened before an exception are kept.\<close>

definition f144_reopen :: "('h, 'f) dataset_lib \<Rightarrow> node \<Rightarrow> 'f f144_Writer \<Rightarrow> 'h \<Rightarrow> InitResult \<times> 'f f144_Writer" where
  "f144_reopen L HDFGroup w h =
     (case open_dataset L Time HDFGroup h of
        Inl e \<Rightarrow> (IR_ERROR, w)
      | Inr d \<Rightarrow> let w = w\<lparr>f1_Timestamp := d\<rparr> in
      case open_dataset L CueIndex HDFGroup h of
        Inl e \<Rightarrow> (IR_ERROR, w)
      | Inr d \<Rightarrow> let w = w\<lparr>f1_CueIndex := d\<rparr> in
      case open_dataset L CueTimestampZero HDFGroup h of
        Inl e \<Rightarrow> (IR_ERROR, w)
      | Inr d \<Rightarrow> let w = w\<lparr>f1_CueTimestampZero := d\<rparr> in
      case make_ExtensibleDatasetBase L HDFGroup ''value'' Open h of
        Inl e \<Rightarrow> (IR_ERROR, w)
      | Inr d \<Rightarrow> (IR_OK, w\<lparr>f1_Values := d\<rparr>))"

definition register_value ::
  "'v \<Rightarrow> ('v \<Rightarrow> h5_data) \<Rightarrow> string \<Rightarrow> string \<Rightarrow> string \<Rightarrow> 'v Tracker \<Rightarrow> value_ptr \<times> 'v Tracker" where
  "register_value init enc path name unit t =
     (let (ptr, t) = make_Value init path name (wr_dataset enc) True t;
          t = snd (setAttribute ptr ''units'' unit t)
      in (ptr, snd (registerMetaData ptr t)))"

definition f144_register_meta_data ::
  "'f \<Rightarrow> ('f \<Rightarrow> h5_data) \<Rightarrow> node \<Rightarrow> 'f f144_Writer \<Rightarrow> 'f Tracker \<Rightarrow> 'f f144_Writer \<times> 'f Tracker" where
  "f144_register_meta_data init enc HDFGroup w t =
     (if f1_MetaData w then
        let path = path_string HDFGroup;
            (a, t) = register_value init enc path ''minimum_value'' (f1_Unit w) t;
            (b, t) = register_value init enc path ''maximum_value'' (f1_Unit w) t;
            (c, t) = register_value init enc path ''average_value'' (f1_Unit w) t
        in (w\<lparr>f1_MetaDataMin := a, f1_MetaDataMax := b, f1_MetaDataMean := c\<rparr>, t)
      else (w, t))"

definition is_scalar :: "f144_value \<Rightarrow> bool" where
  "is_scalar t \<longleftrightarrow> t \<in> {V_Byte, V_UByte, V_Short, V_UShort, V_Int, V_UInt, V_Long, V_ULong, V_Float, V_Double}"

text \<open>The part after the value has been written.\<close>

definition f144_cue :: "('h, 'f) dataset_lib \<Rightarrow> int \<Rightarrow> 'f f144_Writer \<Rightarrow> 'h \<Rightarrow> (exn option \<times> 'f f144_Writer \<times> 'h) option" where
  "f144_cue L timestamp w h =
     (let w = w\<lparr>f1_NrOfWrites := f1_NrOfWrites w + 1\<rparr> in
      if f1_ValueIndexInterval w = 0 then None
      else Some
        (if (f1_NrOfWrites w - f1_LastIndexAtWrite w) div f1_ValueIndexInterval w > 0 then
           let w = w\<lparr>f1_LastIndexAtWrite := f1_NrOfWrites w\<rparr> in
           (case appendElement L (HV_int (int (f1_NrOfWrites w) - 1)) (f1_CueIndex w) h of
              (Some e, d, h) \<Rightarrow> (Some e, w\<lparr>f1_CueIndex := d\<rparr>, h)
            | (None, d, h) \<Rightarrow>
                let w = w\<lparr>f1_CueIndex := d\<rparr> in
                (case appendElement L (HV_int timestamp) (f1_CueTimestampZero w) h of
                   (r, d, h) \<Rightarrow> (r, w\<lparr>f1_CueTimestampZero := d\<rparr>, h)))
         else (None, w, h)))"

definition f144_statistics ::
  "'f float_ops \<Rightarrow> 'f \<Rightarrow> 'f f144_Writer \<Rightarrow> 'f Tracker \<Rightarrow> exn option \<times> 'f f144_Writer \<times> 'f Tracker" where
  "f144_statistics F v w t =
     (if f1_MetaData w then
        let w = (if f1_TotalNrOfElementsWritten w = 0 then w\<lparr>f1_Min := v, f1_Max := v\<rparr> else w);
            w = w\<lparr>f1_Min := std_min F (f1_Min w) v, f1_Max := std_max F (f1_Max w) v, f1_Sum := fl_add F (f1_Sum w) v,
                  f1_TotalNrOfElementsWritten := f1_TotalNrOfElementsWritten w + 1\<rparr>
        in (case and_then (and_then (setValue (f1_MetaDataMin w) (f1_Min w) t)
                   (setValue (f1_MetaDataMax w) (f1_Max w)))
                   (setValue (f1_MetaDataMean w) (fl_div F (f1_Sum w) (f1_TotalNrOfElementsWritten w))) of
              (r, t) \<Rightarrow> (r, w, t))
      else (None, w, t))"

definition f144_writeImpl ::
  "('h, 'f) dataset_lib \<Rightarrow> 'f float_ops \<Rightarrow> 'f f144_LogData \<Rightarrow> 'f f144_Writer \<Rightarrow> 'h \<Rightarrow> 'f Tracker
     \<Rightarrow> ((exn + bool) \<times> 'f f144_Writer \<times> 'h \<times> 'f Tracker) option" where
  "f144_writeImpl L F m w h t =
     (case appendElement L (HV_int (lg_timestamp m)) (f1_Timestamp w) h of
        (Some e, d, h) \<Rightarrow> Some (Inl e, w\<lparr>f1_Timestamp := d\<rparr>, h, t)
      | (None, d, h) \<Rightarrow>
          let w = w\<lparr>f1_Timestamp := d, f1_HasCheckedMessageType := True\<rparr> in
          if \<not> is_scalar (lg_value_type m) then
            Some (Inl (Writer_Exception ''Unknown data type in f144 flatbuffer.''), w, h, t)
          else
            (case appendElement L (lg_value m) (f1_Values w) h of
               (Some e, d, h) \<Rightarrow> Some (Inl e, w\<lparr>f1_Values := d\<rparr>, h, t)
             | (None, d, h) \<Rightarrow>
                 (case f144_cue L (lg_timestamp m) (w\<lparr>f1_Values := d\<rparr>) h of
                    None \<Rightarrow> None
                  | Some (Some e, w, h) \<Rightarrow> Some (Inl e, w, h, t)
                  | Some (None, w, h) \<Rightarrow>
                      (case f144_statistics F (fl_of F (lg_value m)) w t of
                         (Some e, w, t) \<Rightarrow> Some (Inl e, w, h, t)
                       | (None, w, t) \<Rightarrow> Some (Inr True, w, h, t)))))"

text \<open>The messages of a stream one after the other; an exception of a write is counted by the message
  writer, and the next message follows.\<close>

fun f144_writes ::
  "('h, 'f) dataset_lib \<Rightarrow> 'f float_ops \<Rightarrow> 'f f144_LogData list \<Rightarrow> 'f f144_Writer \<Rightarrow> 'h \<Rightarrow> 'f Tracker
     \<Rightarrow> ('f f144_Writer \<times> 'h \<times> 'f Tracker) option" where
  "f144_writes L F [] w h t = Some (w, h, t)"
| "f144_writes L F (m # ms) w h t =
     (case f144_writeImpl L F m w h t of
        None \<Rightarrow> None
      | Some (_, w, h, t) \<Rightarrow> f144_writes L F ms w h t)"

section \<open>Times and values of f144\<close>

text \<open>The datasets of the module are open, of one dimension and different from each other, and the cue interval is
  not zero.\<close>

definition f144_open :: "('h \<Rightarrow> dpath \<rightharpoonup> 'f h5_value list) \<Rightarrow> 'h \<Rightarrow> 'f f144_Writer \<Rightarrow> bool" where
  "f144_open cont h w \<longleftrightarrow>
     distinct (map ed_dataset [f1_Timestamp w, f1_Values w, f1_CueIndex w, f1_CueTimestampZero w]) \<and>
     (\<forall>d \<in> {f1_Timestamp w, f1_Values w, f1_CueIndex w, f1_CueTimestampZero w}.
        \<exists>xs. cont h (ed_dataset d) = Some xs \<and> ed_NrOfElements d = length xs) \<and>
     0 < f1_ValueIndexInterval w"

lemma setValue_valid: "p \<noteq> None \<Longrightarrow> \<exists>t'. setValue p v t = (None, t')"
  by (auto simp: setValue_def with_value_def)

context hdf5_datasets
begin

lemma append_open:
  assumes "cont h (ed_dataset d) = Some xs" and "ed_NrOfElements d = length xs"
  shows "\<exists>h'. appendElement L v d h = (None, add_elements 1 d, h') \<and>
    cont h' = (cont h)(ed_dataset d \<mapsto> xs @ [store (ed_dataset d) v])"
  using append_element [of h d xs v] assms by (auto simp: tracks_def)

lemma f144_cue_open:
  assumes "f144_open cont h w"
  shows "\<exists>w' h'. f144_cue L ts w h = Some (None, w', h') \<and> f144_open cont h' w' \<and>
    f1_Timestamp w' = f1_Timestamp w \<and> f1_Values w' = f1_Values w \<and>
    cont h' (ed_dataset (f1_Timestamp w)) = cont h (ed_dataset (f1_Timestamp w)) \<and>
    cont h' (ed_dataset (f1_Values w)) = cont h (ed_dataset (f1_Values w)) \<and>
    f1_MetaDataMin w' = f1_MetaDataMin w \<and> f1_MetaDataMax w' = f1_MetaDataMax w \<and>
    f1_MetaDataMean w' = f1_MetaDataMean w"
proof -
  let ?n = "f1_NrOfWrites w + 1"
  have z: "f1_ValueIndexInterval w \<noteq> 0" using assms by (simp add: f144_open_def)
  show ?thesis
  proof (cases "(?n - f1_LastIndexAtWrite w) div f1_ValueIndexInterval w > 0")
    case False
    then show ?thesis using assms z by (simp add: f144_cue_def Let_def f144_open_def)
  next
    case True
    obtain cs zs where c: "cont h (ed_dataset (f1_CueIndex w)) = Some cs" "ed_NrOfElements (f1_CueIndex w) = length cs"
      "cont h (ed_dataset (f1_CueTimestampZero w)) = Some zs" "ed_NrOfElements (f1_CueTimestampZero w) = length zs"
      using assms by (auto simp: f144_open_def)
    obtain h1 where h1: "appendElement L (HV_int (int ?n - 1)) (f1_CueIndex w) h = (None, add_elements 1 (f1_CueIndex w), h1)"
      "cont h1 = (cont h)(ed_dataset (f1_CueIndex w) \<mapsto> cs @ [store (ed_dataset (f1_CueIndex w)) (HV_int (int ?n - 1))])"
      using append_open [OF c(1,2)] by blast
    have "cont h1 (ed_dataset (f1_CueTimestampZero w)) = Some zs" using assms h1(2) c by (auto simp: f144_open_def)
    from append_open [OF this c(4), of "HV_int ts"] obtain h2 where
      h2: "appendElement L (HV_int ts) (f1_CueTimestampZero w) h1 = (None, add_elements 1 (f1_CueTimestampZero w), h2)"
      "cont h2 = (cont h1)(ed_dataset (f1_CueTimestampZero w) \<mapsto>
         zs @ [store (ed_dataset (f1_CueTimestampZero w)) (HV_int ts)])"
      by blast
    show ?thesis
      using assms True z c h1 h2 by (auto simp: f144_cue_def Let_def f144_open_def add_elements_def)
  qed
qed

text \<open>The second part of a write: the value, the cue and the statistics.\<close>

lemma f144_value_open:
  assumes "f144_open cont h w" and "f1_MetaDataMin w \<noteq> None" "f1_MetaDataMax w \<noteq> None" "f1_MetaDataMean w \<noteq> None"
    and "cont h (ed_dataset (f1_Values w)) = Some vs"
  obtains h2 w3 h3 r w4 t4 where
    "appendElement L v (f1_Values w) h = (None, add_elements 1 (f1_Values w), h2)"
    "f144_cue L tm (w\<lparr>f1_Values := add_elements 1 (f1_Values w)\<rparr>) h2 = Some (None, w3, h3)"
    "f144_statistics F (fl_of F v) w3 t = (r, w4, t4)" "f144_open cont h3 w4"
    "f1_MetaDataMin w4 \<noteq> None" "f1_MetaDataMax w4 \<noteq> None" "f1_MetaDataMean w4 \<noteq> None"
    "ed_dataset (f1_Timestamp w4) = ed_dataset (f1_Timestamp w)" "ed_dataset (f1_Values w4) = ed_dataset (f1_Values w)"
    "cont h3 (ed_dataset (f1_Timestamp w)) = cont h (ed_dataset (f1_Timestamp w))"
    "cont h3 (ed_dataset (f1_Values w)) = Some (vs @ [store (ed_dataset (f1_Values w)) v])"
proof -
  let ?tp = "ed_dataset (f1_Timestamp w)" and ?vp = "ed_dataset (f1_Values w)"
  have n: "ed_NrOfElements (f1_Values w) = length vs" "?tp \<noteq> ?vp" using assms by (auto simp: f144_open_def)
  from append_open [OF assms(5) n(1), of v] obtain h2 where
    h2: "appendElement L v (f1_Values w) h = (None, add_elements 1 (f1_Values w), h2)"
    "cont h2 = (cont h)(?vp \<mapsto> vs @ [store ?vp v])" by auto
  define w2 where "w2 = w\<lparr>f1_Values := add_elements 1 (f1_Values w)\<rparr>"
  have "f144_open cont h2 w2" using assms(1) h2(2) n by (auto simp: f144_open_def w2_def add_elements_def)
  from f144_cue_open [OF this, of tm] obtain w3 h3 where
    w3: "f144_cue L tm w2 h2 = Some (None, w3, h3)" "f144_open cont h3 w3"
    "f1_Timestamp w3 = f1_Timestamp w2" "f1_Values w3 = f1_Values w2"
    "cont h3 (ed_dataset (f1_Timestamp w2)) = cont h2 (ed_dataset (f1_Timestamp w2))"
    "cont h3 (ed_dataset (f1_Values w2)) = cont h2 (ed_dataset (f1_Values w2))"
    "f1_MetaDataMin w3 = f1_MetaDataMin w2" "f1_MetaDataMax w3 = f1_MetaDataMax w2"
    "f1_MetaDataMean w3 = f1_MetaDataMean w2" by blast
  obtain r w4 t4 where st: "f144_statistics F (fl_of F v) w3 t = (r, w4, t4)" by (metis prod_cases3)
  have w4: "f144_open cont h3 w4" "f1_Timestamp w4 = f1_Timestamp w3" "f1_Values w4 = f1_Values w3"
    "f1_MetaDataMin w4 = f1_MetaDataMin w3" "f1_MetaDataMax w4 = f1_MetaDataMax w3" "f1_MetaDataMean w4 = f1_MetaDataMean w3"
    using st w3(2) by (auto simp: f144_statistics_def f144_open_def Let_def split: if_splits prod.splits)
  show ?thesis
    by (rule that [OF h2(1) w3(1) [unfolded w2_def] st w4(1)])
      (use assms(2-4) w3 w4 h2(2) n in \<open>simp_all add: w2_def add_elements_def\<close>)
qed

lemma f144_write_open:
  assumes "f144_open cont h w" and "f1_MetaDataMin w \<noteq> None" "f1_MetaDataMax w \<noteq> None" "f1_MetaDataMean w \<noteq> None"
    and "cont h (ed_dataset (f1_Timestamp w)) = Some ts" and "cont h (ed_dataset (f1_Values w)) = Some vs"
  shows "\<exists>r w' h' t'. f144_writeImpl L F m w h t = Some (r, w', h', t') \<and> f144_open cont h' w' \<and>
    f1_MetaDataMin w' \<noteq> None \<and> f1_MetaDataMax w' \<noteq> None \<and> f1_MetaDataMean w' \<noteq> None \<and>
    ed_dataset (f1_Timestamp w') = ed_dataset (f1_Timestamp w) \<and> ed_dataset (f1_Values w') = ed_dataset (f1_Values w) \<and>
    cont h' (ed_dataset (f1_Timestamp w)) = Some (ts @ [store (ed_dataset (f1_Timestamp w)) (HV_int (lg_timestamp m))]) \<and>
    cont h' (ed_dataset (f1_Values w)) =
      Some (vs @ (if is_scalar (lg_value_type m) then [store (ed_dataset (f1_Values w)) (lg_value m)] else []))"
proof -
  let ?tp = "ed_dataset (f1_Timestamp w)" and ?vp = "ed_dataset (f1_Values w)"
  have n: "ed_NrOfElements (f1_Timestamp w) = length ts" "ed_NrOfElements (f1_Values w) = length vs" "?tp \<noteq> ?vp"
    using assms by (auto simp: f144_open_def)
  obtain h1 where h1: "appendElement L (HV_int (lg_timestamp m)) (f1_Timestamp w) h = (None, add_elements 1 (f1_Timestamp w), h1)"
    "cont h1 = (cont h)(?tp \<mapsto> ts @ [store ?tp (HV_int (lg_timestamp m))])"
    using append_open [OF assms(5) n(1)] by blast
  define w1 where "w1 = w\<lparr>f1_Timestamp := add_elements 1 (f1_Timestamp w), f1_HasCheckedMessageType := True\<rparr>"
  have open1: "f144_open cont h1 w1"
    using assms(1) h1(2) n by (auto simp: f144_open_def w1_def add_elements_def)
  show ?thesis
  proof (cases "is_scalar (lg_value_type m)")
    case False
    then show ?thesis
      using open1 h1 assms n by (simp add: f144_writeImpl_def w1_def add_elements_def)
  next
    case True
    have v1: "cont h1 (ed_dataset (f1_Values w1)) = Some vs" and ptrs: "f1_MetaDataMin w1 \<noteq> None" "f1_MetaDataMax w1 \<noteq> None"
      "f1_MetaDataMean w1 \<noteq> None" and tp: "ed_dataset (f1_Timestamp w1) = ?tp" "ed_dataset (f1_Values w1) = ?vp"
      using h1(2) n assms(2-4,6) by (simp_all add: w1_def add_elements_def)
    obtain h2 w3 h3 r w4 t4 where
      c: "appendElement L (lg_value m) (f1_Values w1) h1 = (None, add_elements 1 (f1_Values w1), h2)"
      "f144_cue L (lg_timestamp m) (w1\<lparr>f1_Values := add_elements 1 (f1_Values w1)\<rparr>) h2 = Some (None, w3, h3)"
      "f144_statistics F (fl_of F (lg_value m)) w3 t = (r, w4, t4)" and w4: "f144_open cont h3 w4"
      "f1_MetaDataMin w4 \<noteq> None" "f1_MetaDataMax w4 \<noteq> None" "f1_MetaDataMean w4 \<noteq> None"
      "ed_dataset (f1_Timestamp w4) = ?tp" "ed_dataset (f1_Values w4) = ?vp" "cont h3 ?tp = cont h1 ?tp"
      "cont h3 ?vp = Some (vs @ [store ?vp (lg_value m)])"
      by (rule f144_value_open [OF open1 ptrs v1, of "lg_value m" "lg_timestamp m" F t, unfolded tp])
    have "f144_writeImpl L F m w h t =
        Some (case r of Some e \<Rightarrow> (Inl e, w4, h3, t4) | None \<Rightarrow> (Inr True, w4, h3, t4))"
      using True h1 c by (simp add: f144_writeImpl_def Let_def w1_def split: option.splits)
    then show ?thesis using w4 h1(2) True by (cases r) auto
  qed
qed

lemma f144_writes_open:
  assumes "f144_open cont h w" and "f1_MetaDataMin w \<noteq> None" "f1_MetaDataMax w \<noteq> None" "f1_MetaDataMean w \<noteq> None"
    and "cont h (ed_dataset (f1_Timestamp w)) = Some ts" and "cont h (ed_dataset (f1_Values w)) = Some vs"
  shows "\<exists>w' h' t'. f144_writes L F ms w h t = Some (w', h', t') \<and>
    cont h' (ed_dataset (f1_Timestamp w)) =
      Some (ts @ map (\<lambda>m. store (ed_dataset (f1_Timestamp w)) (HV_int (lg_timestamp m))) ms) \<and>
    cont h' (ed_dataset (f1_Values w)) =
      Some (vs @ map (\<lambda>m. store (ed_dataset (f1_Values w)) (lg_value m)) (filter (\<lambda>m. is_scalar (lg_value_type m)) ms))"
  using assms
proof (induction ms arbitrary: w h t ts vs)
  case (Cons m ms)
  obtain r w1 h1 t1 where s: "f144_writeImpl L F m w h t = Some (r, w1, h1, t1)" "f144_open cont h1 w1"
    "f1_MetaDataMin w1 \<noteq> None" "f1_MetaDataMax w1 \<noteq> None" "f1_MetaDataMean w1 \<noteq> None"
    "ed_dataset (f1_Timestamp w1) = ed_dataset (f1_Timestamp w)" "ed_dataset (f1_Values w1) = ed_dataset (f1_Values w)"
    "cont h1 (ed_dataset (f1_Timestamp w)) = Some (ts @ [store (ed_dataset (f1_Timestamp w)) (HV_int (lg_timestamp m))])"
    "cont h1 (ed_dataset (f1_Values w)) =
      Some (vs @ (if is_scalar (lg_value_type m) then [store (ed_dataset (f1_Values w)) (lg_value m)] else []))"
    using f144_write_open [OF Cons.prems, of F m t] by blast
  from Cons.IH [of h1 w1, OF s(2-5), unfolded s(6,7), OF s(8,9), of t1] obtain w' h' t' where
    "f144_writes L F ms w1 h1 t1 = Some (w', h', t')"
    "cont h' (ed_dataset (f1_Timestamp w)) =
      Some ((ts @ [store (ed_dataset (f1_Timestamp w)) (HV_int (lg_timestamp m))]) @
        map (\<lambda>m. store (ed_dataset (f1_Timestamp w)) (HV_int (lg_timestamp m))) ms)"
    "cont h' (ed_dataset (f1_Values w)) =
      Some ((vs @ (if is_scalar (lg_value_type m) then [store (ed_dataset (f1_Values w)) (lg_value m)] else [])) @
        map (\<lambda>m. store (ed_dataset (f1_Values w)) (lg_value m)) (filter (\<lambda>m. is_scalar (lg_value_type m)) ms))"
    by blast
  then show ?case using s(1) by (intro exI [of _ w'] exI [of _ h'] exI [of _ t']) auto
qed auto

end


definition sample_f144 :: "int f144_Writer" where
  "sample_f144 =
     \<lparr>f1_ElementType = float64, f1_Values = \<lparr>ed_dataset = ([], ''value''), ed_NrOfElements = 0\<rparr>,
      f1_Timestamp = \<lparr>ed_dataset = ([], ''time''), ed_NrOfElements = 0\<rparr>,
      f1_CueTimestampZero = \<lparr>ed_dataset = ([], ''cue_timestamp_zero''), ed_NrOfElements = 0\<rparr>,
      f1_CueIndex = \<lparr>ed_dataset = ([], ''cue_index''), ed_NrOfElements = 0\<rparr>, f1_ValueIndexInterval = 2,
      f1_ChunkSize = 1024, f1_DataType = ''double'', f1_Unit = [], f1_MetaData = True, f1_MetaDataMin = Some 0,
      f1_MetaDataMax = Some 1, f1_MetaDataMean = Some 2, f1_Min = 0, f1_Max = 0, f1_Sum = 0,
      f1_LastIndexAtWrite = 0, f1_NrOfWrites = 0, f1_TotalNrOfElementsWritten = 0, f1_HasCheckedMessageType = False\<rparr>"

definition sample_file :: "int list_file" where
  "sample_file = [(([], ''value''), []), (([], ''time''), []), (([], ''cue_timestamp_zero''), []), (([], ''cue_index''), [])]"

definition sample_floats :: "int float_ops" where
  "sample_floats =
     \<lparr>fl_of = (\<lambda>v. case v of HV_int i \<Rightarrow> i | HV_float f \<Rightarrow> f | HV_text s \<Rightarrow> 0), fl_lt = (<), fl_add = (+),
      fl_div = (\<lambda>a n. a div int n)\<rparr>"


end
