(* ===== verification/Event_Writer.thy ===== *)
theory Event_Writer
  imports Log_Writers
begin

text \<open>
  \<^verbatim>\<open>src/WriterModule/ev44\<close>: neutron events. A message has the times of flight and the pixels of its events, and
  for each of its pulses the reference time and the index of the first event. In the file the index is
  shifted by the number of events that are stored already. The vectors of a message are the fields of the
  record \<open>Event44Message\<close>, as the generated flatbuffer code reads them.
\<close>

section \<open>Module\<close>

record Event44Message =
  em_source_name :: string
  em_reference_time :: "int list"
  em_reference_time_index :: "int list"
  em_time_of_flight :: "int list"
  em_pixel_id :: "int list"

record ev44_Writer =
  ev_EventTimeOffset :: ExtensibleDatasetBase
  ev_EventId :: ExtensibleDatasetBase
  ev_EventTimeZero :: ExtensibleDatasetBase
  ev_EventIndex :: ExtensibleDatasetBase
  ev_CueIndex :: ExtensibleDatasetBase
  ev_CueTimestampZero :: ExtensibleDatasetBase
  ev_CueInterval :: int
  ev_ChunkSize :: nat
  ev_EventsWritten :: int
  ev_LastCueIndex :: int
  ev_EventsWrittenMetadataField :: value_ptr

definition ev44_init_hdf :: "('h, 'f) dataset_lib \<Rightarrow> node \<Rightarrow> ev44_Writer \<Rightarrow> 'h \<Rightarrow> InitResult \<times> 'h" where
  "ev44_init_hdf L HDFGroup w h =
     (case create_datasets L HDFGroup
             (map (\<lambda>c. (c, ev_ChunkSize w)) [EventTimeOffset, EventId, EventTimeZero, EventIndex, CueIndex, CueTimestampZero]) h of
        (Some e, h) \<Rightarrow> (IR_ERROR, h)
      | (None, h) \<Rightarrow> (IR_OK, h))"

definition ev44_reopen :: "('h, 'f) dataset_lib \<Rightarrow> node \<Rightarrow> ev44_Writer \<Rightarrow> 'h \<Rightarrow> InitResult \<times> ev44_Writer" where
  "ev44_reopen L HDFGroup w h =
     (case open_dataset L EventTimeOffset HDFGroup h of
        Inl e \<Rightarrow> (IR_ERROR, w)
      | Inr d \<Rightarrow> let w = w\<lparr>ev_EventTimeOffset := d\<rparr> in
      case open_dataset L EventId HDFGroup h of
        Inl e \<Rightarrow> (IR_ERROR, w)
      | Inr d \<Rightarrow> let w = w\<lparr>ev_EventId := d\<rparr> in
      case open_dataset L EventTimeZero HDFGroup h of
        Inl e \<Rightarrow> (IR_ERROR, w)
      | Inr d \<Rightarrow> let w = w\<lparr>ev_EventTimeZero := d\<rparr> in
      case open_dataset L EventIndex HDFGroup h of
        Inl e \<Rightarrow> (IR_ERROR, w)
      | Inr d \<Rightarrow> let w = w\<lparr>ev_EventIndex := d\<rparr> in
      case open_dataset L CueIndex HDFGroup h of
        Inl e \<Rightarrow> (IR_ERROR, w)
      | Inr d \<Rightarrow> let w = w\<lparr>ev_CueIndex := d\<rparr> in
      case open_dataset L CueTimestampZero HDFGroup h of
        Inl e \<Rightarrow> (IR_ERROR, w)
      | Inr d \<Rightarrow> (IR_OK, w\<lparr>ev_CueTimestampZero := d\<rparr>))"

text \<open>The value is registered without a function that writes it to the file.\<close>

definition ev44_register_meta_data :: "'v \<Rightarrow> node \<Rightarrow> ev44_Writer \<Rightarrow> 'v Tracker \<Rightarrow> ev44_Writer \<times> 'v Tracker" where
  "ev44_register_meta_data init HDFGroup w t =
     (let (ptr, t) = make_Value init (path_string HDFGroup) ''events'' wr_none False t
      in (w\<lparr>ev_EventsWrittenMetadataField := ptr\<rparr>, snd (registerMetaData ptr t)))"

text \<open>The cue for an entry point into long streams. \<open>None\<close>: there is no reference time to take.\<close>

definition ev44_cue ::
  "('h, 'f) dataset_lib \<Rightarrow> Event44Message \<Rightarrow> ev44_Writer \<Rightarrow> 'h \<Rightarrow> (exn option \<times> ev44_Writer \<times> 'h) option" where
  "ev44_cue L m w h =
     (if ev_EventsWritten w > s64 (ev_LastCueIndex w + ev_CueInterval w) then
        if em_reference_time m = [] then None
        else Some
          (let LastRefTimeOffset = last (em_time_of_flight m) in
           case appendElement L (HV_int (s64 (last (em_reference_time m) + LastRefTimeOffset))) (ev_CueTimestampZero w) h of
             (Some e, d, h) \<Rightarrow> (Some e, w\<lparr>ev_CueTimestampZero := d\<rparr>, h)
           | (None, d, h) \<Rightarrow>
               let w = w\<lparr>ev_CueTimestampZero := d\<rparr> in
               (case appendElement L (HV_int (ev_EventsWritten w - 1)) (ev_CueIndex w) h of
                  (Some e, d, h) \<Rightarrow> (Some e, w\<lparr>ev_CueIndex := d\<rparr>, h)
                | (None, d, h) \<Rightarrow>
                    (None, w\<lparr>ev_CueIndex := d, ev_LastCueIndex := ev_EventsWritten w - 1\<rparr>, h)))
      else Some (None, w, h))"

definition ev44_pulses ::
  "('h, 'f) dataset_lib \<Rightarrow> Event44Message \<Rightarrow> ev44_Writer \<Rightarrow> 'h \<Rightarrow> exn option \<times> ev44_Writer \<times> 'h" where
  "ev44_pulses L m w h =
     (case appendArray_adapter L (map HV_int (em_reference_time m)) (ev_EventTimeZero w) h of
        (Some e, d, h) \<Rightarrow> (Some e, w\<lparr>ev_EventTimeZero := d\<rparr>, h)
      | (None, d, h) \<Rightarrow>
          let w = w\<lparr>ev_EventTimeZero := d\<rparr>;
              ShiftedReferenceTimeIndex = map (\<lambda>elem. s64 (elem + ev_EventsWritten w)) (em_reference_time_index m) in
          (case appendArray L (map HV_int ShiftedReferenceTimeIndex) (ev_EventIndex w) h of
             (r, d, h) \<Rightarrow> (r, w\<lparr>ev_EventIndex := d\<rparr>, h)))"

definition ev44_writeImpl ::
  "('h, 'f) dataset_lib \<Rightarrow> (int \<Rightarrow> 'v) \<Rightarrow> Event44Message \<Rightarrow> bool \<Rightarrow> ev44_Writer \<Rightarrow> 'h \<Rightarrow> 'v Tracker
     \<Rightarrow> ((exn + bool) \<times> ev44_Writer \<times> 'h \<times> 'v Tracker) option" where
  "ev44_writeImpl L val m is_buffered_message w h t =
     (if is_buffered_message then Some (Inr False, w, h, t)
      else
        let CurrentNumberOfEvents = length (em_time_of_flight m) in
        case appendArray_adapter L (map HV_int (em_time_of_flight m)) (ev_EventTimeOffset w) h of
          (Some e, d, h) \<Rightarrow> Some (Inl e, w\<lparr>ev_EventTimeOffset := d\<rparr>, h, t)
        | (None, d, h) \<Rightarrow>
            let w = w\<lparr>ev_EventTimeOffset := d\<rparr> in
            (case appendArray_adapter L (map HV_int (em_pixel_id m)) (ev_EventId w) h of
               (Some e, d, h) \<Rightarrow> Some (Inl e, w\<lparr>ev_EventId := d\<rparr>, h, t)
             | (None, d, h) \<Rightarrow>
                 let w = w\<lparr>ev_EventId := d\<rparr> in
                 if CurrentNumberOfEvents > 0 then
                   (case ev44_pulses L m w h of
                      (Some e, w, h) \<Rightarrow> Some (Inl e, w, h, t)
                    | (None, w, h) \<Rightarrow>
                        (case ev44_cue L m (w\<lparr>ev_EventsWritten := s64 (ev_EventsWritten w + int CurrentNumberOfEvents)\<rparr>) h of
                           None \<Rightarrow> None
                         | Some (Some e, w, h) \<Rightarrow> Some (Inl e, w, h, t)
                         | Some (None, w, h) \<Rightarrow>
                             (case setValue (ev_EventsWrittenMetadataField w) (val (ev_EventsWritten w)) t of
                                (Some e, t) \<Rightarrow> Some (Inl e, w, h, t)
                              | (None, t) \<Rightarrow> Some (Inr True, w, h, t))))
                 else Some (Inr True, w, h, t)))"

fun ev44_writes ::
  "('h, 'f) dataset_lib \<Rightarrow> (int \<Rightarrow> 'v) \<Rightarrow> Event44Message list \<Rightarrow> ev44_Writer \<Rightarrow> 'h \<Rightarrow> 'v Tracker
     \<Rightarrow> (ev44_Writer \<times> 'h \<times> 'v Tracker) option" where
  "ev44_writes L val [] w h t = Some (w, h, t)"
| "ev44_writes L val (m # ms) w h t =
     (case ev44_writeImpl L val m False w h t of
        None \<Rightarrow> None
      | Some (_, w, h, t) \<Rightarrow> ev44_writes L val ms w h t)"

section \<open>What the file holds\<close>

abbreviation ev44_datasets :: "ev44_Writer \<Rightarrow> ExtensibleDatasetBase list" where
  "ev44_datasets w \<equiv> [ev_EventTimeOffset w, ev_EventId w, ev_EventTimeZero w, ev_EventIndex w, ev_CueIndex w,
     ev_CueTimestampZero w]"

definition ev44_open :: "('h \<Rightarrow> dpath \<rightharpoonup> 'f h5_value list) \<Rightarrow> 'h \<Rightarrow> ev44_Writer \<Rightarrow> bool" where
  "ev44_open cont h w \<longleftrightarrow>
     distinct (map ed_dataset (ev44_datasets w)) \<and>
     (\<forall>d \<in> set (ev44_datasets w). \<exists>xs. cont h (ed_dataset d) = Some xs \<and> ed_NrOfElements d = length xs) \<and>
     ev_EventsWrittenMetadataField w \<noteq> None"

text \<open>The paths of the module do not change.\<close>

definition ev44_paths :: "ev44_Writer \<Rightarrow> dpath list" where
  "ev44_paths w = map ed_dataset (ev44_datasets w)"

text \<open>The contents the file should have: the events of all messages, and the pulses of the messages with
  events, each with the position of its first event in the file.\<close>

definition with_events :: "Event44Message list \<Rightarrow> Event44Message list" where
  "with_events ms = filter (\<lambda>m. em_time_of_flight m \<noteq> []) ms"

fun pulse_positions :: "nat \<Rightarrow> Event44Message list \<Rightarrow> int list" where
  "pulse_positions n [] = []"
| "pulse_positions n (m # ms) =
     (if em_time_of_flight m = [] then [] else map (\<lambda>i. i + int n) (em_reference_time_index m)) @
     pulse_positions (n + length (em_time_of_flight m)) ms"

text \<open>The messages are well-formed: a message with events has a pulse, indices are those of an \<^verbatim>\<open>int32\<close>.\<close>

definition ev44_message_ok :: "Event44Message \<Rightarrow> bool" where
  "ev44_message_ok m \<longleftrightarrow> (em_time_of_flight m \<noteq> [] \<longrightarrow> em_reference_time m \<noteq> []) \<and>
     (\<forall>i \<in> set (em_reference_time_index m). - (2 ^ 31) \<le> i \<and> i < 2 ^ 31)"

context hdf5_datasets
begin

abbreviation stored :: "dpath \<Rightarrow> int list \<Rightarrow> 'f h5_value list" where
  "stored p xs \<equiv> map (store p) (map HV_int xs)"

lemma adapter_open:
  assumes "cont h (ed_dataset d) = Some xs" and "ed_NrOfElements d = length xs"
  shows "\<exists>h'. appendArray_adapter L vs d h = (None, add_elements (length vs) d, h') \<and>
    cont h' = (cont h)(ed_dataset d \<mapsto> xs @ map (store (ed_dataset d)) vs)"
  using append_adapter [of h d xs vs] assms by (auto simp: tracks_def)

lemma array_open:
  assumes "cont h (ed_dataset d) = Some xs" and "ed_NrOfElements d = length xs"
  shows "\<exists>h'. appendArray L vs d h = (None, add_elements (length vs) d, h') \<and>
    cont h' = (cont h)(ed_dataset d \<mapsto> xs @ map (store (ed_dataset d)) vs)"
  using append_array [of h d xs vs] assms by (auto simp: tracks_def)

lemma add_elements_dataset [simp]: "ed_dataset (add_elements n d) = ed_dataset d"
  "ed_NrOfElements (add_elements n d) = ed_NrOfElements d + n"
  by (simp_all add: add_elements_def)

lemma ev44_pulses_open:
  assumes "ev44_open cont h w"
    and "cont h (ed_dataset (ev_EventTimeZero w)) = Some zs" and "cont h (ed_dataset (ev_EventIndex w)) = Some is"
  shows "\<exists>w' h'. ev44_pulses L m w h = (None, w', h') \<and> ev44_open cont h' w' \<and> ev44_paths w' = ev44_paths w \<and>
    ev_EventsWritten w' = ev_EventsWritten w \<and>
    cont h' = (cont h)(ed_dataset (ev_EventTimeZero w) \<mapsto> zs @ stored (ed_dataset (ev_EventTimeZero w)) (em_reference_time m),
      ed_dataset (ev_EventIndex w) \<mapsto> is @ stored (ed_dataset (ev_EventIndex w))
        (map (\<lambda>i. s64 (i + ev_EventsWritten w)) (em_reference_time_index m)))"
proof -
  let ?zp = "ed_dataset (ev_EventTimeZero w)" and ?ip = "ed_dataset (ev_EventIndex w)"
  let ?idx = "map HV_int (map (\<lambda>i. s64 (i + ev_EventsWritten w)) (em_reference_time_index m)) :: 'f h5_value list"
  have n: "ed_NrOfElements (ev_EventTimeZero w) = length zs" "ed_NrOfElements (ev_EventIndex w) = length is" "?zp \<noteq> ?ip"
    using assms by (auto simp: ev44_open_def)
  obtain h1 where h1: "appendArray_adapter L (map HV_int (em_reference_time m)) (ev_EventTimeZero w) h =
      (None, add_elements (length (em_reference_time m)) (ev_EventTimeZero w), h1)"
    "cont h1 = (cont h)(?zp \<mapsto> zs @ stored ?zp (em_reference_time m))"
    using adapter_open [OF assms(2) n(1), of "map HV_int (em_reference_time m)"] by auto
  have "cont h1 ?ip = Some is" using h1(2) n(3) assms(3) by simp
  from array_open [OF this n(2), of ?idx] obtain h2 where
    h2: "appendArray L ?idx (ev_EventIndex w) h1 =
      (None, add_elements (length (em_reference_time_index m)) (ev_EventIndex w), h2)"
    "cont h2 = (cont h1)(?ip \<mapsto> is @ map (store ?ip) ?idx)" by auto
  show ?thesis
    using assms(1) h1 h2 n by (auto simp: ev44_pulses_def Let_def ev44_open_def ev44_paths_def)
qed

lemma ev44_cue_open:
  assumes "ev44_open cont h w" and "em_reference_time m \<noteq> []"
  shows "\<exists>w' h'. ev44_cue L m w h = Some (None, w', h') \<and> ev44_open cont h' w' \<and> ev44_paths w' = ev44_paths w \<and>
    ev_EventsWritten w' = ev_EventsWritten w \<and>
    (\<forall>p. p \<noteq> ed_dataset (ev_CueIndex w) \<and> p \<noteq> ed_dataset (ev_CueTimestampZero w) \<longrightarrow> cont h' p = cont h p)"
proof (cases "ev_EventsWritten w > s64 (ev_LastCueIndex w + ev_CueInterval w)")
  case False
  with assms show ?thesis by (simp add: ev44_cue_def)
next
  case True
  obtain cs zs where c: "cont h (ed_dataset (ev_CueIndex w)) = Some cs" "ed_NrOfElements (ev_CueIndex w) = length cs"
    "cont h (ed_dataset (ev_CueTimestampZero w)) = Some zs" "ed_NrOfElements (ev_CueTimestampZero w) = length zs"
    "ed_dataset (ev_CueIndex w) \<noteq> ed_dataset (ev_CueTimestampZero w)"
    using assms(1) by (auto simp: ev44_open_def)
  let ?v = "HV_int (s64 (last (em_reference_time m) + last (em_time_of_flight m)))"
  obtain h1 where h1: "appendElement L ?v (ev_CueTimestampZero w) h = (None, add_elements 1 (ev_CueTimestampZero w), h1)"
    "cont h1 = (cont h)(ed_dataset (ev_CueTimestampZero w) \<mapsto> zs @ [store (ed_dataset (ev_CueTimestampZero w)) ?v])"
    using append_open [OF c(3,4)] by blast
  have "cont h1 (ed_dataset (ev_CueIndex w)) = Some cs" using h1(2) c by simp
  from append_open [OF this c(2), of "HV_int (ev_EventsWritten w - 1)"] obtain h2 where
    h2: "appendElement L (HV_int (ev_EventsWritten w - 1)) (ev_CueIndex w) h1 = (None, add_elements 1 (ev_CueIndex w), h2)"
    "cont h2 = (cont h1)(ed_dataset (ev_CueIndex w) \<mapsto>
       cs @ [store (ed_dataset (ev_CueIndex w)) (HV_int (ev_EventsWritten w - 1))])" by blast
  show ?thesis
    using assms True c h1 h2 by (auto simp: ev44_cue_def Let_def ev44_open_def ev44_paths_def)
qed

lemma shifted_index:
  assumes "ev44_message_ok m" and "n + k < 2 ^ 62"
  shows "map (\<lambda>i. s64 (i + int n)) (em_reference_time_index m) = map (\<lambda>i. i + int n) (em_reference_time_index m)"
proof (rule map_cong [OF refl])
  fix i assume "i \<in> set (em_reference_time_index m)"
  with assms(1) have "- (2 ^ 31) \<le> i" "i < 2 ^ 31" by (simp_all add: ev44_message_ok_def)
  with assms(2) show "s64 (i + int n) = i + int n" by (intro s64_id) (simp_all add: in_s64_def)
qed

text \<open>The first part of a write: the events themselves.\<close>

abbreviation events_added :: "Event44Message \<Rightarrow> ev44_Writer \<Rightarrow> ev44_Writer" where
  "events_added m w \<equiv> w\<lparr>ev_EventTimeOffset := add_elements (length (em_time_of_flight m)) (ev_EventTimeOffset w),
    ev_EventId := add_elements (length (em_pixel_id m)) (ev_EventId w)\<rparr>"

lemma ev44_events_open:
  assumes "ev44_open cont h w"
    and "cont h (ed_dataset (ev_EventTimeOffset w)) = Some os" and "cont h (ed_dataset (ev_EventId w)) = Some ids"
  obtains h1 h2 where
    "appendArray_adapter L (map HV_int (em_time_of_flight m)) (ev_EventTimeOffset w) h =
      (None, add_elements (length (em_time_of_flight m)) (ev_EventTimeOffset w), h1)"
    "appendArray_adapter L (map HV_int (em_pixel_id m)) (ev_EventId w) h1 =
      (None, add_elements (length (em_pixel_id m)) (ev_EventId w), h2)"
    "cont h2 = (cont h)(ed_dataset (ev_EventTimeOffset w) \<mapsto> os @ stored (ed_dataset (ev_EventTimeOffset w)) (em_time_of_flight m),
       ed_dataset (ev_EventId w) \<mapsto> ids @ stored (ed_dataset (ev_EventId w)) (em_pixel_id m))"
    "ev44_open cont h2 (events_added m w)" "ev44_paths (events_added m w) = ev44_paths w"
proof -
  let ?op = "ed_dataset (ev_EventTimeOffset w)" and ?ep = "ed_dataset (ev_EventId w)"
  have n: "ed_NrOfElements (ev_EventTimeOffset w) = length os" "ed_NrOfElements (ev_EventId w) = length ids" and neq: "?op \<noteq> ?ep"
    using assms by (auto simp: ev44_open_def)
  obtain h1 where h1: "appendArray_adapter L (map HV_int (em_time_of_flight m)) (ev_EventTimeOffset w) h =
      (None, add_elements (length (em_time_of_flight m)) (ev_EventTimeOffset w), h1)"
    "cont h1 = (cont h)(?op \<mapsto> os @ stored ?op (em_time_of_flight m))"
    using adapter_open [OF assms(2) n(1), of "map HV_int (em_time_of_flight m)"] by auto
  have "cont h1 ?ep = Some ids" using h1(2) neq assms(3) by simp
  from adapter_open [OF this n(2), of "map HV_int (em_pixel_id m)"] obtain h2 where
    h2: "appendArray_adapter L (map HV_int (em_pixel_id m)) (ev_EventId w) h1 =
      (None, add_elements (length (em_pixel_id m)) (ev_EventId w), h2)"
    "cont h2 = (cont h1)(?ep \<mapsto> ids @ stored ?ep (em_pixel_id m))" by auto
  show ?thesis
    by (rule that [OF h1(1) h2(1)]) (use assms h1(2) h2(2) n neq in \<open>auto simp: ev44_open_def ev44_paths_def\<close>)
qed

lemma ev44_write_open:
  assumes "ev44_open cont h w" and "ev44_message_ok m" and "ev_EventsWritten w = int n"
    and "n + length (em_time_of_flight m) < 2 ^ 62"
    and "cont h (ed_dataset (ev_EventTimeOffset w)) = Some os" and "cont h (ed_dataset (ev_EventId w)) = Some ids"
    and "cont h (ed_dataset (ev_EventTimeZero w)) = Some zs" and "cont h (ed_dataset (ev_EventIndex w)) = Some is"
  shows "\<exists>r w' h' t'. ev44_writeImpl L val m False w h t = Some (r, w', h', t') \<and> ev44_open cont h' w' \<and>
    ev44_paths w' = ev44_paths w \<and> ev_EventsWritten w' = int (n + length (em_time_of_flight m)) \<and>
    cont h' (ed_dataset (ev_EventTimeOffset w)) = Some (os @ stored (ed_dataset (ev_EventTimeOffset w)) (em_time_of_flight m)) \<and>
    cont h' (ed_dataset (ev_EventId w)) = Some (ids @ stored (ed_dataset (ev_EventId w)) (em_pixel_id m)) \<and>
    cont h' (ed_dataset (ev_EventTimeZero w)) = Some (zs @ stored (ed_dataset (ev_EventTimeZero w))
      (if em_time_of_flight m = [] then [] else em_reference_time m)) \<and>
    cont h' (ed_dataset (ev_EventIndex w)) = Some (is @ stored (ed_dataset (ev_EventIndex w))
      (if em_time_of_flight m = [] then [] else map (\<lambda>i. i + int n) (em_reference_time_index m)))"
proof -
  let ?op = "ed_dataset (ev_EventTimeOffset w)" and ?ep = "ed_dataset (ev_EventId w)"
    and ?zp = "ed_dataset (ev_EventTimeZero w)" and ?ip = "ed_dataset (ev_EventIndex w)"
  have neq: "?op \<noteq> ?ep" "?op \<noteq> ?zp" "?op \<noteq> ?ip" "?ep \<noteq> ?zp" "?ep \<noteq> ?ip" "?zp \<noteq> ?ip"
      "?op \<noteq> ed_dataset (ev_CueIndex w)" "?op \<noteq> ed_dataset (ev_CueTimestampZero w)"
      "?ep \<noteq> ed_dataset (ev_CueIndex w)" "?ep \<noteq> ed_dataset (ev_CueTimestampZero w)"
      "?zp \<noteq> ed_dataset (ev_CueIndex w)" "?zp \<noteq> ed_dataset (ev_CueTimestampZero w)"
      "?ip \<noteq> ed_dataset (ev_CueIndex w)" "?ip \<noteq> ed_dataset (ev_CueTimestampZero w)"
    using assms(1) by (auto simp: ev44_open_def)
  obtain h1 h2 where a: "appendArray_adapter L (map HV_int (em_time_of_flight m)) (ev_EventTimeOffset w) h =
      (None, add_elements (length (em_time_of_flight m)) (ev_EventTimeOffset w), h1)"
    "appendArray_adapter L (map HV_int (em_pixel_id m)) (ev_EventId w) h1 =
      (None, add_elements (length (em_pixel_id m)) (ev_EventId w), h2)"
    and h2: "cont h2 = (cont h)(?op \<mapsto> os @ stored ?op (em_time_of_flight m), ?ep \<mapsto> ids @ stored ?ep (em_pixel_id m))"
    and open1: "ev44_open cont h2 (events_added m w)" and paths1: "ev44_paths (events_added m w) = ev44_paths w"
    by (rule ev44_events_open [OF assms(1,5,6), of m])
  have other: "cont h2 ?zp = Some zs" "cont h2 ?ip = Some is" using h2 neq assms(7,8) by simp_all
  show ?thesis
  proof (cases "em_time_of_flight m = []")
    case True
    then show ?thesis
      using a h2 open1 paths1 other neq assms(3) by (simp add: ev44_writeImpl_def)
  next
    case False
    have "cont h2 (ed_dataset (ev_EventTimeZero (events_added m w))) = Some zs"
      "cont h2 (ed_dataset (ev_EventIndex (events_added m w))) = Some is" using other by simp_all
    from ev44_pulses_open [OF open1 this, of m] obtain w2 h3 where
      p: "ev44_pulses L m (events_added m w) h2 = (None, w2, h3)" "ev44_open cont h3 w2" "ev44_paths w2 = ev44_paths w"
      "ev_EventsWritten w2 = int n"
      "cont h3 = (cont h2)(?zp \<mapsto> zs @ stored ?zp (em_reference_time m),
         ?ip \<mapsto> is @ stored ?ip (map (\<lambda>i. i + int n) (em_reference_time_index m)))"
      unfolding paths1 using shifted_index [OF assms(2,4)] assms(3) by auto
    define w3 where "w3 = w2\<lparr>ev_EventsWritten := int (n + length (em_time_of_flight m))\<rparr>"
    have written: "s64 (int n + int (length (em_time_of_flight m))) = int (n + length (em_time_of_flight m))"
      using assms(4) by (simp add: s64_id in_s64_def)
    have "ev44_open cont h3 w3" "em_reference_time m \<noteq> []"
      using p(2) assms(2) False by (simp_all add: w3_def ev44_open_def ev44_message_ok_def)
    from ev44_cue_open [OF this] obtain w4 h4 where
      c: "ev44_cue L m w3 h3 = Some (None, w4, h4)" "ev44_open cont h4 w4" "ev44_paths w4 = ev44_paths w3"
      "ev_EventsWritten w4 = ev_EventsWritten w3"
      "\<And>p. p \<noteq> ed_dataset (ev_CueIndex w3) \<Longrightarrow> p \<noteq> ed_dataset (ev_CueTimestampZero w3) \<Longrightarrow> cont h4 p = cont h3 p"
      by blast
    have paths3: "ev44_paths w3 = ev44_paths w" using p(3) by (simp add: w3_def ev44_paths_def)
    then have cue: "ed_dataset (ev_CueIndex w3) = ed_dataset (ev_CueIndex w)"
      "ed_dataset (ev_CueTimestampZero w3) = ed_dataset (ev_CueTimestampZero w)" by (simp_all add: ev44_paths_def)
    obtain i where "ev_EventsWrittenMetadataField w4 = Some i" using c(2) by (auto simp: ev44_open_def)
    then obtain t4 where t4: "setValue (ev_EventsWrittenMetadataField w4) (val (ev_EventsWritten w4)) t = (None, t4)"
      using setValue_valid by (metis option.discI)
    have "ev44_writeImpl L val m False w h t = Some (Inr True, w4, h4, t4)"
      using False a p(1,4) c(1) t4 written by (simp add: ev44_writeImpl_def w3_def)
    moreover have "cont h4 ?op = cont h3 ?op" "cont h4 ?ep = cont h3 ?ep" "cont h4 ?zp = cont h3 ?zp" "cont h4 ?ip = cont h3 ?ip"
      using c(5) neq unfolding cue by blast+
    ultimately show ?thesis
      using c(2,3,4) paths3 p(5) h2 neq False by (simp add: w3_def)
  qed
qed

lemma ev44_writes_open:
  assumes "ev44_open cont h w" and "\<forall>m \<in> set ms. ev44_message_ok m" and "ev_EventsWritten w = int n"
    and "n + sum_list (map (length \<circ> em_time_of_flight) ms) < 2 ^ 62"
    and "cont h (ed_dataset (ev_EventTimeOffset w)) = Some os" and "cont h (ed_dataset (ev_EventId w)) = Some ids"
    and "cont h (ed_dataset (ev_EventTimeZero w)) = Some zs" and "cont h (ed_dataset (ev_EventIndex w)) = Some is"
  shows "\<exists>w' h' t'. ev44_writes L val ms w h t = Some (w', h', t') \<and>
    cont h' (ed_dataset (ev_EventTimeOffset w)) =
      Some (os @ stored (ed_dataset (ev_EventTimeOffset w)) (concat (map em_time_of_flight ms))) \<and>
    cont h' (ed_dataset (ev_EventId w)) = Some (ids @ stored (ed_dataset (ev_EventId w)) (concat (map em_pixel_id ms))) \<and>
    cont h' (ed_dataset (ev_EventTimeZero w)) = Some (zs @ stored (ed_dataset (ev_EventTimeZero w))
      (concat (map em_reference_time (with_events ms)))) \<and>
    cont h' (ed_dataset (ev_EventIndex w)) = Some (is @ stored (ed_dataset (ev_EventIndex w)) (pulse_positions n ms))"
  using assms
proof (induction ms arbitrary: w h t n os ids zs "is")
  case Nil
  then show ?case by (simp add: with_events_def)
next
  case (Cons m ms)
  have ok: "ev44_message_ok m" and small: "n + length (em_time_of_flight m) < 2 ^ 62" using Cons.prems(2,4) by auto
  obtain r w1 h1 t1 where s: "ev44_writeImpl L val m False w h t = Some (r, w1, h1, t1)" "ev44_open cont h1 w1"
    "ev44_paths w1 = ev44_paths w" "ev_EventsWritten w1 = int (n + length (em_time_of_flight m))"
    "cont h1 (ed_dataset (ev_EventTimeOffset w)) = Some (os @ stored (ed_dataset (ev_EventTimeOffset w)) (em_time_of_flight m))"
    "cont h1 (ed_dataset (ev_EventId w)) = Some (ids @ stored (ed_dataset (ev_EventId w)) (em_pixel_id m))"
    "cont h1 (ed_dataset (ev_EventTimeZero w)) = Some (zs @ stored (ed_dataset (ev_EventTimeZero w))
      (if em_time_of_flight m = [] then [] else em_reference_time m))"
    "cont h1 (ed_dataset (ev_EventIndex w)) = Some (is @ stored (ed_dataset (ev_EventIndex w))
      (if em_time_of_flight m = [] then [] else map (\<lambda>i. i + int n) (em_reference_time_index m)))"
    using ev44_write_open [OF Cons.prems(1) ok Cons.prems(3) small Cons.prems(5-8)] by blast
  have same: "ed_dataset (ev_EventTimeOffset w1) = ed_dataset (ev_EventTimeOffset w)"
    "ed_dataset (ev_EventId w1) = ed_dataset (ev_EventId w)" "ed_dataset (ev_EventTimeZero w1) = ed_dataset (ev_EventTimeZero w)"
    "ed_dataset (ev_EventIndex w1) = ed_dataset (ev_EventIndex w)" using s(3) by (simp_all add: ev44_paths_def)
  have rest: "\<forall>m \<in> set ms. ev44_message_ok m"
    "n + length (em_time_of_flight m) + sum_list (map (length \<circ> em_time_of_flight) ms) < 2 ^ 62"
    using Cons.prems(2,4) by (simp_all add: comp_def)
  from Cons.IH [OF s(2) rest(1) s(4) rest(2), unfolded same, OF s(5-8), of t1] s(1) show ?case
    by (auto simp: with_events_def)
qed

end


text \<open>The positions do point at the first events of the pulses.\<close>

lemma pulse_position_event:
  assumes "i \<in> set (em_reference_time_index m)" and "0 \<le> i" and "nat i < length (em_time_of_flight m)"
  shows "int (sum_list (map (length \<circ> em_time_of_flight) before)) + i \<in> set (pulse_positions 0 (before @ m # after))"
    and "concat (map em_time_of_flight (before @ m # after)) ! nat (int (sum_list (map (length \<circ> em_time_of_flight) before)) + i) =
      em_time_of_flight m ! nat i"
proof -
  let ?n = "sum_list (map (length \<circ> em_time_of_flight) before)"
  have split: "pulse_positions k (before @ xs) = pulse_positions k before @ pulse_positions (k + ?n) xs" for k xs
    by (induction before arbitrary: k) (simp_all add: add.assoc)
  have "em_time_of_flight m \<noteq> []" using assms(3) by auto
  then show "int ?n + i \<in> set (pulse_positions 0 (before @ m # after))"
    unfolding split using assms(1) by (auto simp: add.commute)
  have "length (concat (map em_time_of_flight before)) = ?n" by (simp add: length_concat comp_def)
  moreover have "nat (int ?n + i) = ?n + nat i" using assms(2) by simp
  ultimately show "concat (map em_time_of_flight (before @ m # after)) ! nat (int ?n + i) = em_time_of_flight m ! nat i"
    using assms(3) by (simp add: nth_append)
qed

definition ev44_path :: "nexus_class \<Rightarrow> ExtensibleDatasetBase" where
  "ev44_path c = \<lparr>ed_dataset = ([], class_name c), ed_NrOfElements = 0\<rparr>"

definition sample_ev44 :: ev44_Writer where
  "sample_ev44 =
     \<lparr>ev_EventTimeOffset = ev44_path EventTimeOffset, ev_EventId = ev44_path EventId, ev_EventTimeZero = ev44_path EventTimeZero,
      ev_EventIndex = ev44_path EventIndex, ev_CueIndex = ev44_path CueIndex,
      ev_CueTimestampZero = ev44_path CueTimestampZero, ev_CueInterval = 100000000, ev_ChunkSize = 1024, ev_EventsWritten = 0,
      ev_LastCueIndex = - 1, ev_EventsWrittenMetadataField = Some 0\<rparr>"

definition sample_ev44_file :: "unit list_file" where
  "sample_ev44_file = map (\<lambda>p. (p, [])) (ev44_paths sample_ev44)"

definition sample_event_message :: "int list \<Rightarrow> Event44Message" where
  "sample_event_message tofs =
     \<lparr>em_source_name = ''s'', em_reference_time = [10], em_reference_time_index = [0], em_time_of_flight = tofs,
      em_pixel_id = tofs\<rparr>"


end
