(* ===== verification/Sample_Writers.thy ===== *)
theory Sample_Writers
  imports Log_Writers
begin

text \<open>
  The writer modules \<^verbatim>\<open>se00\<close> (arrays of samples), \<^verbatim>\<open>tdct\<close> (chopper time stamps), \<^verbatim>\<open>al00\<close> (alarms), \<^verbatim>\<open>ep01\<close>
  (connection status) and \<^verbatim>\<open>ad00\<close> (area detector images) of \<^verbatim>\<open>src/WriterModule\<close>, and the readers of
  \<^verbatim>\<open>src/AccessMessageMetadata\<close>. Messages are the fields that the generated flatbuffer code reads; a pointer
  that may be null is an option.
\<close>

section \<open>se00\<close>

datatype ValueUnion =
    Int8Array | UInt8Array | Int16Array | UInt16Array | Int32Array | UInt32Array | Int64Array | UInt64Array
  | FloatArray | DoubleArray | Unknown_Values

record 'f se00_Data =
  se_name :: string
  se_values_type :: ValueUnion
  se_values :: "'f h5_value list"
  se_packet_timestamp :: int
  se_time_delta :: 'f
  se_timestamps :: "int list option"

record se00_Writer =
  sw_ElementType :: element_type
  sw_Value :: ExtensibleDatasetBase
  sw_Timestamp :: ExtensibleDatasetBase
  sw_CueTimestampIndex :: ExtensibleDatasetBase
  sw_CueTimestamp :: ExtensibleDatasetBase
  sw_ChunkSize :: nat
  sw_DataType :: string
  sw_HasCheckedMessageType :: bool

definition se00_TypeMap :: "(string \<times> element_type) list" where
  "se00_TypeMap =
     [(''int8'', int8), (''uint8'', uint8), (''int16'', int16), (''uint16'', uint16), (''int32'', int32),
      (''uint32'', uint32), (''int64'', int64), (''uint64'', uint64), (''float'', float32), (''double'', float64)]"

definition se00_config_post_processing :: "se00_Writer \<Rightarrow> se00_Writer" where
  "se00_config_post_processing w =
     (case map_of se00_TypeMap (sw_DataType w) of
        None \<Rightarrow> w
      | Some t \<Rightarrow> w\<lparr>sw_ElementType := t\<rparr>)"

definition se00_initValueDataset ::
  "('h, 'f) dataset_lib \<Rightarrow> node \<Rightarrow> se00_Writer \<Rightarrow> 'h \<Rightarrow> (exn + se00_Writer) \<times> 'h" where
  "se00_initValueDataset L Parent w h =
     (case make_ExtensibleDataset L (type_name (sw_ElementType w)) Parent ''value'' Create (sw_ChunkSize w) h of
        (Inl e, h) \<Rightarrow> (Inl e, h)
      | (Inr d, h) \<Rightarrow> (Inr (w\<lparr>sw_Value := d\<rparr>), h))"

text \<open>Here the datasets that are created are kept.\<close>

definition se00_init_hdf ::
  "('h, 'f) dataset_lib \<Rightarrow> node \<Rightarrow> se00_Writer \<Rightarrow> 'h \<Rightarrow> InitResult \<times> se00_Writer \<times> 'h" where
  "se00_init_hdf L HDFGroup w h =
     (case se00_initValueDataset L HDFGroup w h of
        (Inl e, h) \<Rightarrow> (IR_ERROR, w, h)
      | (Inr w, h) \<Rightarrow>
      case make_dataset L Time HDFGroup Create (sw_ChunkSize w) h of
        (Inl e, h) \<Rightarrow> (IR_ERROR, w, h)
      | (Inr d, h) \<Rightarrow> let w = w\<lparr>sw_Timestamp := d\<rparr> in
      case make_dataset L CueIndex HDFGroup Create (sw_ChunkSize w) h of
        (Inl e, h) \<Rightarrow> (IR_ERROR, w, h)
      | (Inr d, h) \<Rightarrow> let w = w\<lparr>sw_CueTimestampIndex := d\<rparr> in
      case make_dataset L CueTimestampZero HDFGroup Create (sw_ChunkSize w) h of
        (Inl e, h) \<Rightarrow> (IR_ERROR, w, h)
      | (Inr d, h) \<Rightarrow> (IR_OK, w\<lparr>sw_CueTimestamp := d\<rparr>, h))"

definition se00_reopen :: "('h, 'f) dataset_lib \<Rightarrow> node \<Rightarrow> se00_Writer \<Rightarrow> 'h \<Rightarrow> InitResult \<times> se00_Writer" where
  "se00_reopen L HDFGroup w h =
     (case make_ExtensibleDatasetBase L HDFGroup ''value'' Open h of
        Inl e \<Rightarrow> (IR_ERROR, w)
      | Inr d \<Rightarrow> let w = w\<lparr>sw_Value := d\<rparr> in
      case open_dataset L Time HDFGroup h of
        Inl e \<Rightarrow> (IR_ERROR, w)
      | Inr d \<Rightarrow> let w = w\<lparr>sw_Timestamp := d\<rparr> in
      case open_dataset L CueIndex HDFGroup h of
        Inl e \<Rightarrow> (IR_ERROR, w)
      | Inr d \<Rightarrow> let w = w\<lparr>sw_CueTimestampIndex := d\<rparr> in
      case open_dataset L CueTimestampZero HDFGroup h of
        Inl e \<Rightarrow> (IR_ERROR, w)
      | Inr d \<Rightarrow> (IR_OK, w\<lparr>sw_CueTimestamp := d\<rparr>))"

text \<open>\<^verbatim>\<open>OriginTimeStamp + std::llround(i * TimeDelta)\<close>, in 64 bits without a sign; \<open>offset i\<close> is the rounded product.\<close>

definition GenerateTimeStamps :: "int \<Rightarrow> (nat \<Rightarrow> int) \<Rightarrow> nat \<Rightarrow> int list" where
  "GenerateTimeStamps OriginTimeStamp offset NumberOfElements =
     map (\<lambda>i. (OriginTimeStamp + offset i) mod 2 ^ 64) [0..<NumberOfElements]"

definition se00_writeImpl ::
  "('h, 'f) dataset_lib \<Rightarrow> ('f \<Rightarrow> nat \<Rightarrow> int) \<Rightarrow> 'f se00_Data \<Rightarrow> se00_Writer \<Rightarrow> 'h
     \<Rightarrow> (exn + bool) \<times> se00_Writer \<times> 'h" where
  "se00_writeImpl L llround m w h =
     (let CueIndexValue = current_size L h (sw_Value w);
          w = w\<lparr>sw_HasCheckedMessageType := True\<rparr>;
          (r, d, h) = (if se_values_type m \<noteq> Unknown_Values then appendArray_adapter L (se_values m) (sw_Value w) h
                       else (None, sw_Value w, h));
          w = w\<lparr>sw_Value := d\<rparr>;
          NrOfElements = (if se_values_type m \<noteq> Unknown_Values then length (se_values m) else 0) in
      case r of
        Some e \<Rightarrow> (Inl e, w, h)
      | None \<Rightarrow>
      if NrOfElements = 0 then (Inr False, w, h)
      else
      case appendElement L (HV_int (int CueIndexValue mod 2 ^ 32)) (sw_CueTimestampIndex w) h of
        (Some e, d, h) \<Rightarrow> (Inl e, w\<lparr>sw_CueTimestampIndex := d\<rparr>, h)
      | (None, d, h) \<Rightarrow> let w = w\<lparr>sw_CueTimestampIndex := d\<rparr> in
      case appendElement L (HV_int (se_packet_timestamp m)) (sw_CueTimestamp w) h of
        (Some e, d, h) \<Rightarrow> (Inl e, w\<lparr>sw_CueTimestamp := d\<rparr>, h)
      | (None, d, h) \<Rightarrow> let w = w\<lparr>sw_CueTimestamp := d\<rparr> in
      case (case se_timestamps m of
              Some ts \<Rightarrow> appendArray_adapter L (map HV_int ts) (sw_Timestamp w) h
            | None \<Rightarrow>
                appendArray L (map HV_int (GenerateTimeStamps (se_packet_timestamp m) (llround (se_time_delta m)) NrOfElements))
                  (sw_Timestamp w) h) of
        (Some e, d, h) \<Rightarrow> (Inl e, w\<lparr>sw_Timestamp := d\<rparr>, h)
      | (None, d, h) \<Rightarrow> (Inr True, w\<lparr>sw_Timestamp := d\<rparr>, h))"

section \<open>tdct\<close>

record tdct_timestamps =
  td_name :: string
  td_timestamps :: "int list"

record tdct_Writer =
  tw_Timestamp :: ExtensibleDatasetBase
  tw_CueTimestampIndex :: ExtensibleDatasetBase
  tw_CueTimestamp :: ExtensibleDatasetBase
  tw_ChunkSize :: nat

definition tdct_init_hdf :: "('h, 'f) dataset_lib \<Rightarrow> node \<Rightarrow> tdct_Writer \<Rightarrow> 'h \<Rightarrow> InitResult \<times> 'h" where
  "tdct_init_hdf L HDFGroup w h =
     (case create_datasets L HDFGroup (map (\<lambda>c. (c, tw_ChunkSize w)) [Time, CueIndex, CueTimestampZero]) h of
        (Some e, h) \<Rightarrow> (IR_ERROR, h)
      | (None, h) \<Rightarrow> (IR_OK, h))"

definition tdct_reopen :: "('h, 'f) dataset_lib \<Rightarrow> node \<Rightarrow> tdct_Writer \<Rightarrow> 'h \<Rightarrow> InitResult \<times> tdct_Writer" where
  "tdct_reopen L HDFGroup w h =
     (case open_dataset L Time HDFGroup h of
        Inl e \<Rightarrow> (IR_ERROR, w)
      | Inr d \<Rightarrow> let w = w\<lparr>tw_Timestamp := d\<rparr> in
      case open_dataset L CueIndex HDFGroup h of
        Inl e \<Rightarrow> (IR_ERROR, w)
      | Inr d \<Rightarrow> let w = w\<lparr>tw_CueTimestampIndex := d\<rparr> in
      case open_dataset L CueTimestampZero HDFGroup h of
        Inl e \<Rightarrow> (IR_ERROR, w)
      | Inr d \<Rightarrow> (IR_OK, w\<lparr>tw_CueTimestamp := d\<rparr>))"

definition tdct_writeImpl ::
  "('h, 'f) dataset_lib \<Rightarrow> tdct_timestamps \<Rightarrow> tdct_Writer \<Rightarrow> 'h \<Rightarrow> (exn + bool) \<times> tdct_Writer \<times> 'h" where
  "tdct_writeImpl L m w h =
     (case td_timestamps m of
        [] \<Rightarrow> (Inr False, w, h)
      | t # _ \<Rightarrow>
      let CueIndexValue = current_size L h (tw_Timestamp w) in
      case appendElement L (HV_int (int CueIndexValue mod 2 ^ 32)) (tw_CueTimestampIndex w) h of
        (Some e, d, h) \<Rightarrow> (Inl e, w\<lparr>tw_CueTimestampIndex := d\<rparr>, h)
      | (None, d, h) \<Rightarrow> let w = w\<lparr>tw_CueTimestampIndex := d\<rparr> in
      case appendElement L (HV_int t) (tw_CueTimestamp w) h of
        (Some e, d, h) \<Rightarrow> (Inl e, w\<lparr>tw_CueTimestamp := d\<rparr>, h)
      | (None, d, h) \<Rightarrow> let w = w\<lparr>tw_CueTimestamp := d\<rparr> in
      case appendArray_adapter L (map HV_int (td_timestamps m)) (tw_Timestamp w) h of
        (Some e, d, h) \<Rightarrow> (Inl e, w\<lparr>tw_Timestamp := d\<rparr>, h)
      | (None, d, h) \<Rightarrow> (Inr True, w\<lparr>tw_Timestamp := d\<rparr>, h))"

section \<open>al00 and ep01\<close>

record al00_Alarm =
  al_source_name :: "string option"
  al_timestamp :: int
  al_severity :: int
  al_message :: string

record al00_Writer =
  aw_AlarmTime :: ExtensibleDatasetBase
  aw_AlarmSeverity :: ExtensibleDatasetBase
  aw_AlarmMsg :: FixedSizeString

text \<open>\<^verbatim>\<open>NeXusDataset::AlarmMsg\<close>.\<close>

definition make_AlarmMsg :: "('h, 'f) dataset_lib \<Rightarrow> node \<Rightarrow> Mode \<Rightarrow> 'h \<Rightarrow> (exn + FixedSizeString) \<times> 'h" where
  "make_AlarmMsg L g mode h = make_FixedSizeString L g ''alarm_message'' mode 200 1024 h"

definition al00_init_hdf :: "('h, 'f) dataset_lib \<Rightarrow> node \<Rightarrow> 'h \<Rightarrow> InitResult \<times> 'h" where
  "al00_init_hdf L HDFGroup h =
     (case make_AlarmMsg L HDFGroup Create h of
        (Inl e, h) \<Rightarrow> (IR_ERROR, h)
      | (Inr _, h) \<Rightarrow>
          (case create_datasets L HDFGroup [(AlarmTime, 1024), (AlarmSeverity, 1024)] h of
             (Some e, h) \<Rightarrow> (IR_ERROR, h)
           | (None, h) \<Rightarrow> (IR_OK, h)))"

definition al00_reopen :: "('h, 'f) dataset_lib \<Rightarrow> node \<Rightarrow> al00_Writer \<Rightarrow> 'h \<Rightarrow> InitResult \<times> al00_Writer" where
  "al00_reopen L HDFGroup w h =
     (case open_dataset L AlarmTime HDFGroup h of
        Inl e \<Rightarrow> (IR_ERROR, w)
      | Inr d \<Rightarrow> let w = w\<lparr>aw_AlarmTime := d\<rparr> in
      case open_dataset L AlarmSeverity HDFGroup h of
        Inl e \<Rightarrow> (IR_ERROR, w)
      | Inr d \<Rightarrow> let w = w\<lparr>aw_AlarmSeverity := d\<rparr> in
      case fst (make_AlarmMsg L HDFGroup Open h) of
        Inl e \<Rightarrow> (IR_ERROR, w)
      | Inr d \<Rightarrow> (IR_OK, w\<lparr>aw_AlarmMsg := d\<rparr>))"

definition al00_writeImpl ::
  "('h, 'f) dataset_lib \<Rightarrow> al00_Alarm \<Rightarrow> al00_Writer \<Rightarrow> 'h \<Rightarrow> (exn + bool) \<times> al00_Writer \<times> 'h" where
  "al00_writeImpl L m w h =
     (case appendElement L (HV_int (al_timestamp m)) (aw_AlarmTime w) h of
        (Some e, d, h) \<Rightarrow> (Inl e, w\<lparr>aw_AlarmTime := d\<rparr>, h)
      | (None, d, h) \<Rightarrow> let w = w\<lparr>aw_AlarmTime := d\<rparr> in
      case appendElement L (HV_int (al_severity m)) (aw_AlarmSeverity w) h of
        (Some e, d, h) \<Rightarrow> (Inl e, w\<lparr>aw_AlarmSeverity := d\<rparr>, h)
      | (None, d, h) \<Rightarrow> let w = w\<lparr>aw_AlarmSeverity := d\<rparr>;
            AlarmMessageString = (if al_message m = [] then ''NO ALARM MESSAGE'' else al_message m) in
      case appendStringElement L AlarmMessageString (aw_AlarmMsg w) h of
        (Some e, d, h) \<Rightarrow> (Inl e, w\<lparr>aw_AlarmMsg := d\<rparr>, h)
      | (None, d, h) \<Rightarrow> (Inr True, w\<lparr>aw_AlarmMsg := d\<rparr>, h))"

record ep01_Info =
  ep_source_name :: "string option"
  ep_timestamp :: int
  ep_status :: int

record ep01_Writer =
  pw_TimestampDataset :: ExtensibleDatasetBase
  pw_StatusDataset :: ExtensibleDatasetBase

definition ep01_init_hdf :: "('h, 'f) dataset_lib \<Rightarrow> node \<Rightarrow> 'h \<Rightarrow> InitResult \<times> 'h" where
  "ep01_init_hdf L HDFGroup h =
     (case create_datasets L HDFGroup [(ConnectionStatusTime, 1024), (ConnectionStatus, 1024)] h of
        (Some e, h) \<Rightarrow> (IR_ERROR, h)
      | (None, h) \<Rightarrow> (IR_OK, h))"

definition ep01_reopen :: "('h, 'f) dataset_lib \<Rightarrow> node \<Rightarrow> ep01_Writer \<Rightarrow> 'h \<Rightarrow> InitResult \<times> ep01_Writer" where
  "ep01_reopen L HDFGroup w h =
     (case open_dataset L ConnectionStatusTime HDFGroup h of
        Inl e \<Rightarrow> (IR_ERROR, w)
      | Inr d \<Rightarrow> let w = w\<lparr>pw_TimestampDataset := d\<rparr> in
      case open_dataset L ConnectionStatus HDFGroup h of
        Inl e \<Rightarrow> (IR_ERROR, w)
      | Inr d \<Rightarrow> (IR_OK, w\<lparr>pw_StatusDataset := d\<rparr>))"

definition ep01_writeImpl ::
  "('h, 'f) dataset_lib \<Rightarrow> ep01_Info \<Rightarrow> ep01_Writer \<Rightarrow> 'h \<Rightarrow> (exn + bool) \<times> ep01_Writer \<times> 'h" where
  "ep01_writeImpl L m w h =
     (case appendElement L (HV_int (ep_status m)) (pw_StatusDataset w) h of
        (Some e, d, h) \<Rightarrow> (Inl e, w\<lparr>pw_StatusDataset := d\<rparr>, h)
      | (None, d, h) \<Rightarrow> let w = w\<lparr>pw_StatusDataset := d\<rparr> in
      case appendElement L (HV_int (ep_timestamp m)) (pw_TimestampDataset w) h of
        (Some e, d, h) \<Rightarrow> (Inl e, w\<lparr>pw_TimestampDataset := d\<rparr>, h)
      | (None, d, h) \<Rightarrow> (Inr True, w\<lparr>pw_TimestampDataset := d\<rparr>, h))"

section \<open>ad00\<close>

datatype DType =
    D_int8 | D_uint8 | D_int16 | D_uint16 | D_int32 | D_uint32 | D_int64 | D_uint64 | D_float32 | D_float64 | D_c_string
  | D_unknown

fun dtype_size :: "DType \<Rightarrow> nat" where
  "dtype_size D_int8 = 1"
| "dtype_size D_uint8 = 1"
| "dtype_size D_int16 = 2"
| "dtype_size D_uint16 = 2"
| "dtype_size D_int32 = 4"
| "dtype_size D_uint32 = 4"
| "dtype_size D_int64 = 8"
| "dtype_size D_uint64 = 8"
| "dtype_size D_float32 = 4"
| "dtype_size D_float64 = 8"
| "dtype_size D_c_string = 1"
| "dtype_size D_unknown = 0"

fun dtype_name :: "DType \<Rightarrow> string" where
  "dtype_name D_int8 = ''int8''"
| "dtype_name D_uint8 = ''uint8''"
| "dtype_name D_int16 = ''int16''"
| "dtype_name D_uint16 = ''uint16''"
| "dtype_name D_int32 = ''int32''"
| "dtype_name D_uint32 = ''uint32''"
| "dtype_name D_int64 = ''int64''"
| "dtype_name D_uint64 = ''uint64''"
| "dtype_name D_float32 = ''float''"
| "dtype_name D_float64 = ''double''"
| "dtype_name D_c_string = ''char''"
| "dtype_name D_unknown = []"

record ad00_ADArray =
  ad_source_name :: string
  ad_timestamp :: int
  ad_data_type :: DType
  ad_dimensions :: "nat list"
  ad_data :: bytes

record ad00_Writer =
  xw_ElementType :: DType
  xw_Values :: dpath
  xw_Timestamp :: ExtensibleDatasetBase
  xw_CueInterval :: int
  xw_DataType :: string
  xw_ArrayShape :: "nat list"
  xw_ChunkSize :: "nat list"
  xw_CueCounter :: int
  xw_CueTimestampIndex :: ExtensibleDatasetBase
  xw_CueTimestamp :: ExtensibleDatasetBase
  xw_HasCheckedMessageType :: bool

definition ad00_TypeMap :: "(string \<times> DType) list" where
  "ad00_TypeMap =
     [(''int8'', D_int8), (''uint8'', D_uint8), (''int16'', D_int16), (''uint16'', D_uint16), (''int32'', D_int32),
      (''uint32'', D_uint32), (''int64'', D_int64), (''uint64'', D_uint64), (''float32'', D_float32),
      (''float64'', D_float64), (''c_string'', D_c_string)]"

definition ad00_config_post_processing :: "ad00_Writer \<Rightarrow> ad00_Writer" where
  "ad00_config_post_processing w =
     (case map_of ad00_TypeMap (xw_DataType w) of
        None \<Rightarrow> w
      | Some t \<Rightarrow> w\<lparr>xw_ElementType := t\<rparr>)"

definition ad00_initValueDataset :: "('h, 'f) dataset_lib \<Rightarrow> node \<Rightarrow> ad00_Writer \<Rightarrow> 'h \<Rightarrow> (exn option \<times> 'h) option" where
  "ad00_initValueDataset L Parent w h =
     map_option (\<lambda>(r, h). (case r of Inl e \<Rightarrow> Some e | Inr _ \<Rightarrow> None, h))
       (make_MultiDimDataset L (dtype_name (xw_ElementType w)) Parent ''value'' Create (xw_ArrayShape w) (xw_ChunkSize w) h)"

text \<open>The chunk size is read before the \<^verbatim>\<open>try\<close>: an empty one raises out of the function.\<close>

definition ad00_init_hdf ::
  "('h, 'f) dataset_lib \<Rightarrow> node \<Rightarrow> ad00_Writer \<Rightarrow> 'h \<Rightarrow> ((exn + InitResult) \<times> 'h) option" where
  "ad00_init_hdf L HDFGroup w h =
     (case xw_ChunkSize w of
        [] \<Rightarrow> Some (Inl (Out_Of_Range ''vector::_M_range_check''), h)
      | DefaultChunkSize # _ \<Rightarrow>
          map_option (\<lambda>r.
            (case and_then (and_then r
                     (create_datasets L HDFGroup (map (\<lambda>c. (c, DefaultChunkSize)) [Time, CueIndex, CueTimestampZero])))
                   (dl_attr L (HDFGroup, ''value'') ''units'' []) of
               (Some e, h) \<Rightarrow> (Inr IR_ERROR, h)
             | (None, h) \<Rightarrow> (Inr IR_OK, h))) (ad00_initValueDataset L HDFGroup w h))"

definition ad00_reopen :: "('h, 'f) dataset_lib \<Rightarrow> node \<Rightarrow> ad00_Writer \<Rightarrow> 'h \<Rightarrow> InitResult \<times> ad00_Writer" where
  "ad00_reopen L HDFGroup w h =
     (case make_MultiDimDatasetBase L HDFGroup ''value'' Open h of
        Inl e \<Rightarrow> (IR_ERROR, w)
      | Inr p \<Rightarrow> let w = w\<lparr>xw_Values := p\<rparr> in
      case open_dataset L Time HDFGroup h of
        Inl e \<Rightarrow> (IR_ERROR, w)
      | Inr d \<Rightarrow> let w = w\<lparr>xw_Timestamp := d\<rparr> in
      case open_dataset L CueIndex HDFGroup h of
        Inl e \<Rightarrow> (IR_ERROR, w)
      | Inr d \<Rightarrow> let w = w\<lparr>xw_CueTimestampIndex := d\<rparr> in
      case open_dataset L CueTimestampZero HDFGroup h of
        Inl e \<Rightarrow> (IR_ERROR, w)
      | Inr d \<Rightarrow> (IR_OK, w\<lparr>xw_CueTimestamp := d\<rparr>))"

text \<open>The number of elements is the product of the dimensions, in \<^verbatim>\<open>size_t\<close>.\<close>

definition ad00_elements :: "nat list \<Rightarrow> nat" where
  "ad00_elements dims = foldl (\<lambda>a b. a * b mod 2 ^ 64) 1 dims"

text \<open>\<^verbatim>\<open>appendData\<close>: the bytes of the message are read as that many elements; \<open>dec\<close> gives their values. Reading beyond
  the bytes of the message is undefined. A wrong rank raises before anything is read.\<close>

definition appendData ::
  "('h, 'f) dataset_lib \<Rightarrow> (DType \<Rightarrow> bytes \<Rightarrow> nat \<Rightarrow> 'f h5_value list) \<Rightarrow> dpath \<Rightarrow> ad00_ADArray \<Rightarrow> 'h
     \<Rightarrow> (exn option \<times> 'h) option" where
  "appendData L dec p m h =
     (let n = ad00_elements (ad_dimensions m) in
      if length (dl_dims L h p) = Suc (length (ad_dimensions m)) \<and> n * dtype_size (ad_data_type m) > length (ad_data m)
      then None
      else appendArray_shape L p (dec (ad_data_type m) (ad_data m) n) (ad_dimensions m) h)"

definition ad00_cue ::
  "('h, 'f) dataset_lib \<Rightarrow> int \<Rightarrow> ad00_Writer \<Rightarrow> 'h \<Rightarrow> (exn + bool) \<times> ad00_Writer \<times> 'h" where
  "ad00_cue L CurrentTimestamp w h =
     (let w = w\<lparr>xw_CueCounter := s32 (xw_CueCounter w + 1)\<rparr> in
      if xw_CueCounter w = xw_CueInterval w then
        (case appendElement L (HV_int (int (current_size L h (xw_Timestamp w)) - 1)) (xw_CueTimestampIndex w) h of
           (Some e, d, h) \<Rightarrow> (Inl e, w\<lparr>xw_CueTimestampIndex := d\<rparr>, h)
         | (None, d, h) \<Rightarrow> let w = w\<lparr>xw_CueTimestampIndex := d\<rparr> in
         case appendElement L (HV_int CurrentTimestamp) (xw_CueTimestamp w) h of
           (Some e, d, h) \<Rightarrow> (Inl e, w\<lparr>xw_CueTimestamp := d\<rparr>, h)
         | (None, d, h) \<Rightarrow> (Inr True, w\<lparr>xw_CueTimestamp := d, xw_CueCounter := 0\<rparr>, h))
      else (Inr True, w, h))"

definition ad00_writeImpl ::
  "('h, 'f) dataset_lib \<Rightarrow> (DType \<Rightarrow> bytes \<Rightarrow> nat \<Rightarrow> 'f h5_value list) \<Rightarrow> ad00_ADArray \<Rightarrow> ad00_Writer \<Rightarrow> 'h
     \<Rightarrow> ((exn + bool) \<times> ad00_Writer \<times> 'h) option" where
  "ad00_writeImpl L dec m w h =
     (let w = w\<lparr>xw_HasCheckedMessageType := True\<rparr> in
      if ad_data_type m = D_unknown then Some (Inl (Writer_Exception ''Error in flatbuffer.''), w, h)
      else
        (case appendData L dec (xw_Values w) m h of
           None \<Rightarrow> None
         | Some (Some e, h) \<Rightarrow> Some (Inl e, w, h)
         | Some (None, h) \<Rightarrow>
             Some (case appendElement L (HV_int (ad_timestamp m)) (xw_Timestamp w) h of
                     (Some e, d, h) \<Rightarrow> (Inl e, w\<lparr>xw_Timestamp := d\<rparr>, h)
                   | (None, d, h) \<Rightarrow> ad00_cue L (ad_timestamp m) (w\<lparr>xw_Timestamp := d\<rparr>) h)))"

lemma ad00_elements_product: "ad00_elements dims = prod_list dims mod 2 ^ 64"
proof -
  have "foldl (\<lambda>a b. a * b mod 2 ^ 64) (a mod 2 ^ 64) dims = a * prod_list dims mod 2 ^ 64" for a :: nat
    by (induction dims arbitrary: a) (simp_all add: mod_mult_left_eq mult.assoc)
  from this [of 1] show ?thesis by (simp add: ad00_elements_def)
qed

text \<open>Writing an area detector image reads beyond the end of the message exactly when its dimensions announce more
  elements, modulo \<^verbatim>\<open>2^64\<close>, than its data has room for: nothing compares the two, the verification of the
  flatbuffer included. For every other message of a known type the write is defined.\<close>

theorem ad00_reads_beyond_message:
  assumes "dl_dims L h (xw_Values w) = n # rest" and "length rest = length (ad_dimensions m)"
    and "ad_data_type m \<noteq> D_unknown"
  shows "ad00_writeImpl L dec m w h = None \<longleftrightarrow>
    length (ad_data m) < (prod_list (ad_dimensions m) mod 2 ^ 64) * dtype_size (ad_data_type m)"
proof -
  have "appendArray_shape L (xw_Values w) xs (ad_dimensions m) h \<noteq> None" for xs
    using assms by (simp add: appendArray_shape_def)
  then have "appendData L dec (xw_Values w) m h = None \<longleftrightarrow>
      length (ad_data m) < ad00_elements (ad_dimensions m) * dtype_size (ad_data_type m)"
    using assms by (simp add: appendData_def Let_def)
  then show ?thesis
    using assms(3) by (auto simp: ad00_writeImpl_def ad00_elements_product Let_def split: option.splits)
qed

definition sample_ad00 :: ad00_Writer where
  "sample_ad00 =
     \<lparr>xw_ElementType = D_float64, xw_Values = ([], ''value''), xw_Timestamp = \<lparr>ed_dataset = ([], ''time''), ed_NrOfElements = 0\<rparr>,
      xw_CueInterval = 1000, xw_DataType = ''float64'', xw_ArrayShape = [1, 1], xw_ChunkSize = [1048576],
      xw_CueCounter = 0, xw_CueTimestampIndex = \<lparr>ed_dataset = ([], ''cue_index''), ed_NrOfElements = 0\<rparr>,
      xw_CueTimestamp = \<lparr>ed_dataset = ([], ''cue_timestamp_zero''), ed_NrOfElements = 0\<rparr>,
      xw_HasCheckedMessageType = False\<rparr>"

theorem ad00_reads_beyond_message_witness:
  "ad00_writeImpl (list_datasets\<lparr>dl_dims := \<lambda>h p. [0, 1, 1]\<rparr>) (\<lambda>t d n. [])
     \<lparr>ad_source_name = ''cam'', ad_timestamp = 0, ad_data_type = D_int16, ad_dimensions = [2, 3], ad_data = ''ab''\<rparr>
     sample_ad00 (sample_file :: int list_file) = None"
  by (subst ad00_reads_beyond_message [of _ _ _ 0 "[1, 1]"]) (simp_all add: sample_ad00_def)

section \<open>Readers\<close>

text \<open>Source name and timestamp of a message. The readers of \<^verbatim>\<open>f144\<close>, \<^verbatim>\<open>al00\<close>, \<^verbatim>\<open>ep01\<close> and \<^verbatim>\<open>ev44\<close> accept a missing
  source name, the others dereference it. \<open>None\<close> is the first element of an empty array.\<close>

definition optional_source_name :: "string option \<Rightarrow> string" where
  "optional_source_name s = (case s of None \<Rightarrow> [] | Some n \<Rightarrow> n)"

definition ev44_timestamp :: "int list \<Rightarrow> int option" where
  "ev44_timestamp reference_time = (case reference_time of [] \<Rightarrow> None | t # _ \<Rightarrow> Some (t mod 2 ^ 64))"

definition tdct_timestamp :: "tdct_timestamps \<Rightarrow> exn + int" where
  "tdct_timestamp m =
     (case td_timestamps m of
        [] \<Rightarrow> Inl (Runtime_Error ''Can not extract timestamp when timestamp array has zero elements.'')
      | t # _ \<Rightarrow> Inr t)"

definition f144_timestamp :: "'f f144_LogData \<Rightarrow> int" where
  "f144_timestamp m = lg_timestamp m mod 2 ^ 64"

definition se00_timestamp :: "'f se00_Data \<Rightarrow> int" where
  "se00_timestamp m = se_packet_timestamp m mod 2 ^ 64"

definition al00_timestamp :: "al00_Alarm \<Rightarrow> int" where
  "al00_timestamp m = al_timestamp m mod 2 ^ 64"

definition ep01_timestamp :: "ep01_Info \<Rightarrow> int" where
  "ep01_timestamp m = ep_timestamp m mod 2 ^ 64"

definition ad00_timestamp :: "ad00_ADArray \<Rightarrow> int" where
  "ad00_timestamp m = ad_timestamp m mod 2 ^ 64"

section \<open>Cues of tdct\<close>

definition tdct_open :: "('h \<Rightarrow> dpath \<rightharpoonup> 'f h5_value list) \<Rightarrow> 'h \<Rightarrow> tdct_Writer \<Rightarrow> bool" where
  "tdct_open cont h w \<longleftrightarrow>
     distinct (map ed_dataset [tw_Timestamp w, tw_CueTimestampIndex w, tw_CueTimestamp w]) \<and>
     (\<forall>d \<in> {tw_Timestamp w, tw_CueTimestampIndex w, tw_CueTimestamp w}.
        \<exists>xs. cont h (ed_dataset d) = Some xs \<and> ed_NrOfElements d = length xs)"

context hdf5_datasets
begin

text \<open>A cue is the position of the first timestamp of its message.\<close>

lemma tdct_write_open:
  assumes "tdct_open cont h w" and "td_timestamps m = t # ts"
    and "cont h (ed_dataset (tw_Timestamp w)) = Some xs" and "cont h (ed_dataset (tw_CueTimestampIndex w)) = Some is"
  shows "\<exists>w' h'. tdct_writeImpl L m w h = (Inr True, w', h') \<and> tdct_open cont h' w' \<and>
    cont h' (ed_dataset (tw_Timestamp w)) = Some (xs @ map (store (ed_dataset (tw_Timestamp w)) \<circ> HV_int) (t # ts)) \<and>
    cont h' (ed_dataset (tw_CueTimestampIndex w)) =
      Some (is @ [store (ed_dataset (tw_CueTimestampIndex w)) (HV_int (int (length xs) mod 2 ^ 32))])"
proof -
  let ?tp = "ed_dataset (tw_Timestamp w)" and ?ip = "ed_dataset (tw_CueTimestampIndex w)"
    and ?cp = "ed_dataset (tw_CueTimestamp w)"
  obtain cs where n: "ed_NrOfElements (tw_Timestamp w) = length xs" "ed_NrOfElements (tw_CueTimestampIndex w) = length is"
    "cont h ?cp = Some cs" "ed_NrOfElements (tw_CueTimestamp w) = length cs"
    and neq: "?tp \<noteq> ?ip" "?tp \<noteq> ?cp" "?ip \<noteq> ?cp"
    using assms(1,3,4) by (auto simp: tdct_open_def)
  have size: "current_size L h (tw_Timestamp w) = length xs" using size_dims [OF assms(3)] by (simp add: current_size_def)
  let ?i = "HV_int (int (length xs) mod 2 ^ 32)"
  obtain h1 where h1: "appendElement L ?i (tw_CueTimestampIndex w) h = (None, add_elements 1 (tw_CueTimestampIndex w), h1)"
    "cont h1 = (cont h)(?ip \<mapsto> is @ [store ?ip ?i])" using append_open [OF assms(4) n(2)] by blast
  have "cont h1 ?cp = Some cs" using h1(2) neq n by simp
  from append_open [OF this n(4), of "HV_int t"] obtain h2 where
    h2: "appendElement L (HV_int t) (tw_CueTimestamp w) h1 = (None, add_elements 1 (tw_CueTimestamp w), h2)"
    "cont h2 = (cont h1)(?cp \<mapsto> cs @ [store ?cp (HV_int t)])" by blast
  have "cont h2 ?tp = Some xs" using h1(2) h2(2) neq assms(3) by simp
  then have "tracks h2 (tw_Timestamp w) xs" using n by (simp add: tracks_def)
  from append_adapter [OF this, of "map HV_int (t # ts)"] obtain h3 where
    h3: "appendArray_adapter L (map HV_int (t # ts)) (tw_Timestamp w) h2 =
      (None, add_elements (length (t # ts)) (tw_Timestamp w), h3)"
    "cont h3 = (cont h2)(?tp \<mapsto> xs @ map (store ?tp) (map HV_int (t # ts)))" unfolding length_map by (elim exE conjE) (rule that)
  show ?thesis
    using assms(1,2) size h1 h2 h3 n neq
    by (auto simp: tdct_writeImpl_def tdct_open_def add_elements_def)
qed

end

end
