(* ===== verification/Da00_Config.thy ===== *)
theory Da00_Config
  imports Sample_Writers
begin

text \<open>
  \<^verbatim>\<open>src/WriterModule/da00\<close>, the configuration of a data array: \<^verbatim>\<open>da00_Type\<close>, \<^verbatim>\<open>da00_String.h\<close>,
  \<^verbatim>\<open>da00_Edge.h\<close>, \<^verbatim>\<open>da00_Attribute.h\<close> and the configuration part of \<^verbatim>\<open>da00_Variable.h\<close>.

  \<^verbatim>\<open>da00_dtype\<close> is an enumeration of the generated code with the members of \<open>DType\<close>; its member \<^verbatim>\<open>none\<close> is
  \<open>D_unknown\<close>. The code passes configurations around as serialised JSON, which it parses again; the model
  passes the JSON value. Results are \<open>(exn + 'a) option\<close> where the behaviour may be undefined, which is \<open>None\<close>:
  division by zero, and the constant access to a missing member of a JSON object.
\<close>

section \<open>Results\<close>

definition bindR :: "(exn + 'a) option \<Rightarrow> ('a \<Rightarrow> (exn + 'b) option) \<Rightarrow> (exn + 'b) option" where
  "bindR r f = (case r of None \<Rightarrow> None | Some (Inl e) \<Rightarrow> Some (Inl e) | Some (Inr x) \<Rightarrow> f x)"

lemma bindR_simps [simp]:
  "bindR None f = None"
  "bindR (Some (Inl e)) f = Some (Inl e)"
  "bindR (Some (Inr x)) f = f x"
  by (simp_all add: bindR_def)

fun collect_results :: "('a \<Rightarrow> exn + 'b) \<Rightarrow> 'a list \<Rightarrow> exn + 'b list" where
  "collect_results f [] = Inr []"
| "collect_results f (x # xs) =
     (case f x of Inl e \<Rightarrow> Inl e | Inr y \<Rightarrow> map_sum id ((#) y) (collect_results f xs))"

text \<open>\<^verbatim>\<open>json::get<std::vector<T>>\<close> and \<^verbatim>\<open>json::get<T>\<close> for integers.\<close>

fun get_vector :: "(json \<Rightarrow> exn + 'a) \<Rightarrow> json \<Rightarrow> exn + 'a list" where
  "get_vector get (J_array xs) = collect_results get xs"
| "get_vector get _ = Inl (Json_Type_Error ''type must be array'')"

fun json_int :: "json \<Rightarrow> int" where
  "json_int (J_int i) = i"
| "json_int (J_uint n) = int n"
| "json_int _ = 0"

definition get_int :: "json_lib \<Rightarrow> string \<Rightarrow> json \<Rightarrow> exn + int" where
  "get_int jl T v = map_sum id json_int (jl_get jl T v)"

definition optional_member :: "string \<Rightarrow> (json \<Rightarrow> exn + 'a) \<Rightarrow> json \<Rightarrow> exn + 'a option" where
  "optional_member key get config =
     (case json_find key config of None \<Rightarrow> Inr None | Some v \<Rightarrow> map_sum id Some (get v))"

section \<open>Types\<close>

definition da00_dtypes :: "(string \<times> DType) list" where
  "da00_dtypes =
     [(''none'', D_unknown), (''int8'', D_int8), (''uint8'', D_uint8), (''int16'', D_int16), (''uint16'', D_uint16),
      (''int32'', D_int32), (''uint32'', D_uint32), (''int64'', D_int64), (''uint64'', D_uint64),
      (''float32'', D_float32), (''float64'', D_float64), (''c_string'', D_c_string)]"

definition string_to_da00_dtype :: "string \<Rightarrow> DType" where
  "string_to_da00_dtype name = (case map_of da00_dtypes name of Some t \<Rightarrow> t | None \<Rightarrow> D_unknown)"

fun da00_dtype_to_string :: "DType \<Rightarrow> string" where
  "da00_dtype_to_string D_int8 = ''int8''"
| "da00_dtype_to_string D_uint8 = ''uint8''"
| "da00_dtype_to_string D_int16 = ''int16''"
| "da00_dtype_to_string D_uint16 = ''uint16''"
| "da00_dtype_to_string D_int32 = ''int32''"
| "da00_dtype_to_string D_uint32 = ''uint32''"
| "da00_dtype_to_string D_int64 = ''int64''"
| "da00_dtype_to_string D_uint64 = ''uint64''"
| "da00_dtype_to_string D_float32 = ''float32''"
| "da00_dtype_to_string D_float64 = ''float64''"
| "da00_dtype_to_string D_c_string = ''c_string''"
| "da00_dtype_to_string D_unknown = ''none''"

lemma dtype_string_roundtrip: "string_to_da00_dtype (da00_dtype_to_string t) = t"
  by (cases t) (simp_all add: string_to_da00_dtype_def da00_dtypes_def)

fun is_boolean :: "json \<Rightarrow> bool" where
  "is_boolean (J_bool _) = True"
| "is_boolean _ = False"

definition guess_element :: "json \<Rightarrow> DType" where
  "guess_element v =
     (if is_boolean v then D_uint8
      else if is_number_integer v then D_int64
      else if is_number_unsigned v then D_uint64
      else if is_number_float v then D_float64
      else if is_string v then D_c_string
      else D_unknown)"

definition guess_range :: "json_lib \<Rightarrow> json \<Rightarrow> json \<Rightarrow> json \<Rightarrow> (exn + DType) option" where
  "guess_range jl jfirst jlast jsize =
     (if is_number_float jfirst \<or> is_number_float jlast then Some (Inr D_float64)
      else
        bindR (Some (get_int jl ''int64'' jfirst)) (\<lambda>f_int.
        bindR (Some (get_int jl ''int64'' jlast)) (\<lambda>l_int.
        bindR (Some (get_int jl ''int64'' jsize)) (\<lambda>s_int.
          if s_int < 1 then Some (Inr D_unknown)
          else if s_int - 1 = 0 then None
          else
            let step = s64 (l_int - f_int) sdiv (s_int - 1) in
            Some (Inr (if step = 0 then D_float64
                       else if s64 (l_int - f_int) smod step = 0 then D_int64
                       else D_float64))))))"

definition guess_dtype :: "json_lib \<Rightarrow> json \<Rightarrow> (exn + DType) option" where
  "guess_dtype jl data =
     (case (json_find ''first'' data, json_find ''last'' data, json_find ''size'' data) of
        (Some jfirst, Some jlast, Some jsize) \<Rightarrow> guess_range jl jfirst jlast jsize
      | _ \<Rightarrow>
          Some (Inr (case data of
              J_array [] \<Rightarrow> D_unknown
            | J_array (x # _) \<Rightarrow> guess_element x
            | _ \<Rightarrow> guess_element data)))"

definition get_shape :: "json_lib \<Rightarrow> json \<Rightarrow> exn + nat list" where
  "get_shape jl data =
     (case json_find ''size'' data of
        Some jsize \<Rightarrow> map_sum id (\<lambda>n. [nat n]) (get_int jl ''uint64'' jsize)
      | None \<Rightarrow> Inr (case data of J_array (x # xs) \<Rightarrow> [length (x # xs)] | _ \<Rightarrow> []))"

section \<open>Strings\<close>

record StringConfig =
  st_value :: "string option"
  st_size :: "int option"

definition StringConfig_of_json :: "json_lib \<Rightarrow> json \<Rightarrow> exn + StringConfig" where
  "StringConfig_of_json jl config =
     (if is_string config then map_sum id (\<lambda>s. \<lparr>st_value = Some s, st_size = None\<rparr>) (json_get_string config)
      else if is_number_integer config then
        map_sum id (\<lambda>n. \<lparr>st_value = None, st_size = Some n\<rparr>) (get_int jl ''int64'' config)
      else if is_object config then
        (case optional_member ''value'' json_get_string config of
           Inl e \<Rightarrow> Inl e
         | Inr v \<Rightarrow> map_sum id (\<lambda>n. \<lparr>st_value = v, st_size = n\<rparr>) (optional_member ''size'' (get_int jl ''int64'') config))
      else Inl (Runtime_Error ''Invalid StringConfig JSON input''))"

definition StringConfig_of_string :: "string \<Rightarrow> StringConfig" where
  "StringConfig_of_string s = \<lparr>st_value = Some s, st_size = None\<rparr>"

definition knows_value :: "StringConfig \<Rightarrow> bool" where
  "knows_value c \<longleftrightarrow> st_value c \<noteq> None \<or> st_size c \<noteq> None"

text \<open>The pair is (inconsistent, changed). With \<open>force\<close> the size is read without a check: \<^verbatim>\<open>std::bad_optional_access\<close>.\<close>

definition string_update_from :: "StringConfig \<Rightarrow> bool \<Rightarrow> StringConfig \<Rightarrow> (exn + bool \<times> bool) \<times> StringConfig" where
  "string_update_from other force c =
     (case st_value other of
        None \<Rightarrow> (Inr (False, False), c)
      | Some ov \<Rightarrow>
          if st_value c \<noteq> None \<and> st_value c \<noteq> Some ov \<and> force then
            let c = c\<lparr>st_value := Some ov\<rparr> in
            (case st_size c of
               None \<Rightarrow> (Inl (Std_Exception ''bad optional access''), c)
             | Some n \<Rightarrow> (Inr (int (length ov) > max (int (length ov)) n, True), c))
          else if (case st_size c of Some n \<Rightarrow> n \<ge> int (length ov) | None \<Rightarrow> False) then
            (Inr (False, True), c\<lparr>st_value := Some ov\<rparr>)
          else (Inr (False, False), c))"

section \<open>Edges\<close>

record EdgeConfig =
  eg_edges :: "json option"
  eg_first :: "json option"
  eg_last :: "json option"
  eg_size :: "int option"

definition EdgeConfig_of_json :: "json_lib \<Rightarrow> json \<Rightarrow> exn + EdgeConfig" where
  "EdgeConfig_of_json jl config =
     (case config of
        J_array xs \<Rightarrow> Inr \<lparr>eg_edges = Some config, eg_first = None, eg_last = None, eg_size = None\<rparr>
      | J_object ms \<Rightarrow>
          (case optional_member ''size'' (get_int jl ''int64'') config of
             Inl e \<Rightarrow> Inl e
           | Inr n \<Rightarrow>
               let c = \<lparr>eg_edges = None, eg_first = json_find ''first'' config, eg_last = json_find ''last'' config,
                        eg_size = n\<rparr> in
               if eg_first c \<noteq> None \<and> eg_last c \<noteq> None \<and> eg_size c \<noteq> None then Inr c
               else Inl (Runtime_Error ''Invalid EdgeConfig JSON input''))
      | _ \<Rightarrow> Inl (Runtime_Error ''Invalid EdgeConfig JSON input''))"

text \<open>The type parameter \<open>T\<close> of \<^verbatim>\<open>edges\<close>: how it is read, \<^verbatim>\<open>static_cast<T>\<close> of an integer, the step
  \<^verbatim>\<open>(last - first) / n\<close> (\<open>None\<close> when \<open>n\<close> is zero) and the value \<^verbatim>\<open>first + i * step\<close>.\<close>

record 'v number_type =
  nt_get :: "json \<Rightarrow> exn + 'v"
  nt_of_int :: "int \<Rightarrow> 'v"
  nt_step :: "'v \<Rightarrow> 'v \<Rightarrow> 'v \<Rightarrow> 'v option"
  nt_at :: "'v \<Rightarrow> 'v \<Rightarrow> 'v \<Rightarrow> 'v"

definition edges :: "'v number_type \<Rightarrow> EdgeConfig \<Rightarrow> (exn + 'v list) option" where
  "edges N c =
     bindR (Some (case eg_edges c of Some j \<Rightarrow> get_vector (nt_get N) j | None \<Rightarrow> Inr [])) (\<lambda>out.
       case (eg_first c, eg_last c, eg_size c) of
         (Some jf, Some jt, Some n) \<Rightarrow>
           if length out < 2 then
             bindR (Some (nt_get N jf)) (\<lambda>first.
             bindR (Some (nt_get N jt)) (\<lambda>last.
               if n < 2 then Some (Inl (Runtime_Error ''Edges require size > 1''))
               else
                 map_option (\<lambda>step. Inr (map (\<lambda>i. nt_at N first (nt_of_int N (int i)) step) [0..<nat n]))
                   (nt_step N first last (nt_of_int N (n - 1)))))
           else Some (Inr out)
       | _ \<Rightarrow> Some (Inr out))"

text \<open>Integer types: \<open>conv\<close> is the conversion to the type, \<open>prom\<close> the one to the type in which its expressions are
  evaluated.\<close>

definition integer_type :: "json_lib \<Rightarrow> string \<Rightarrow> (int \<Rightarrow> int) \<Rightarrow> (int \<Rightarrow> int) \<Rightarrow> int number_type" where
  "integer_type jl T conv prom =
     \<lparr>nt_get = get_int jl T, nt_of_int = conv,
      nt_step = \<lambda>first last n. if n = 0 then None else Some (conv (prom (last - first) sdiv n)),
      nt_at = \<lambda>first i step. conv (prom (first + prom (i * step)))\<rparr>"

definition uint8_type :: "json_lib \<Rightarrow> int number_type" where
  "uint8_type jl = integer_type jl ''uint8'' (\<lambda>x. x mod 256) s32"

definition int64_type :: "json_lib \<Rightarrow> int number_type" where
  "int64_type jl = integer_type jl ''int64'' s64 s64"

section \<open>Attributes\<close>

record AttributeConfig =
  ac_name :: string
  ac_description :: "string option"
  ac_source :: "string option"
  ac_type :: DType
  ac_data :: json

definition AttributeConfig_of_json :: "json_lib \<Rightarrow> json \<Rightarrow> (exn + AttributeConfig) option" where
  "AttributeConfig_of_json jl config =
     (case json_find ''name'' config of
        None \<Rightarrow> Some (Inl (Runtime_Error ''AttributeConfig: no name given''))
      | Some jname \<Rightarrow>
          bindR (Some (json_get_string jname)) (\<lambda>name.
          bindR (Some (optional_member ''description'' json_get_string config)) (\<lambda>description.
          bindR (Some (optional_member ''source'' json_get_string config)) (\<lambda>source.
          bindR (case json_find ''data_type'' config of
                   Some t \<Rightarrow> Some (map_sum id string_to_da00_dtype (json_get_string t))
                 | None \<Rightarrow> Option.bind (json_find ''data'' config) (guess_dtype jl)) (\<lambda>type.
            map_option (\<lambda>data. Inr \<lparr>ac_name = name, ac_description = description, ac_source = source,
                                    ac_type = type, ac_data = data\<rparr>) (json_find ''data'' config))))))"

definition attribute_type :: "DType \<Rightarrow> string" where
  "attribute_type t = (if t = D_c_string then ''string'' else dtype_name t)"

text \<open>Calling the entry of a type that the table does not have: an empty \<^verbatim>\<open>std::function\<close>.\<close>

abbreviation bad_function_call :: exn where
  "bad_function_call \<equiv> Std_Exception ''bad_function_call''"

definition add_scalar_to_hdf5 :: "json_lib \<Rightarrow> 'h hdf5 \<Rightarrow> AttributeConfig \<Rightarrow> node \<Rightarrow> 'h \<Rightarrow> exn option \<times> 'h" where
  "add_scalar_to_hdf5 jl lib c node h =
     (if ac_type c = D_unknown then (Some bad_function_call, h)
      else
        (case jl_get jl (attribute_type (ac_type c)) (ac_data c) of
           Inl e \<Rightarrow> (Some e, h)
         | Inr v \<Rightarrow> h5_attr_create lib node (ac_name c) (H5_scalar (attribute_type (ac_type c)) v) h))"

definition add_array_to_hdf5 :: "json_lib \<Rightarrow> 'h hdf5 \<Rightarrow> AttributeConfig \<Rightarrow> node \<Rightarrow> 'h \<Rightarrow> exn option \<times> 'h" where
  "add_array_to_hdf5 jl lib c node h =
     (if ac_type c = D_unknown then (Some bad_function_call, h)
      else
        (case get_vector (jl_get jl (attribute_type (ac_type c))) (ac_data c) of
           Inl e \<Rightarrow> (Some e, h)
         | Inr vs \<Rightarrow>
             h5_attr_create lib node (ac_name c)
               (H5_array (attribute_type (ac_type c)) \<lparr>mv_Data = vs, mv_shape = [length vs]\<rparr>) h))"

definition add_to_hdf5 :: "json_lib \<Rightarrow> 'h hdf5 \<Rightarrow> AttributeConfig \<Rightarrow> node \<Rightarrow> 'h \<Rightarrow> exn option \<times> 'h" where
  "add_to_hdf5 jl lib c node h =
     (if is_array (ac_data c) then add_array_to_hdf5 jl lib c node h
      else if is_number (ac_data c) \<or> is_string (ac_data c) then add_scalar_to_hdf5 jl lib c node h
      else (Some (Runtime_Error ''Attribute value is neither scalar nor array''), h))"

section \<open>Variables\<close>

record VariableConfig =
  vc_name :: string
  vc_unit :: "StringConfig option"
  vc_label :: "StringConfig option"
  vc_source :: "StringConfig option"
  vc_dtype :: "DType option"
  vc_shape :: "nat list option"
  vc_axes :: "string list option"
  vc_data :: "json option"

text \<open>An empty shape or list of axes counts as none given.\<close>

definition nonempty :: "'a list option \<Rightarrow> 'a list option" where
  "nonempty xs = (case xs of Some [] \<Rightarrow> None | _ \<Rightarrow> xs)"

definition VariableConfig_of_json :: "json_lib \<Rightarrow> json \<Rightarrow> (exn + VariableConfig) option" where
  "VariableConfig_of_json jl config =
     bindR (Some (case json_find ''name'' config of
                    None \<Rightarrow> Inl (Json_Type_Error ''type must be string'')
                  | Some v \<Rightarrow> json_get_string v)) (\<lambda>name.
     bindR (Some (optional_member ''unit'' (StringConfig_of_json jl) config)) (\<lambda>unit.
     bindR (Some (optional_member ''label'' (StringConfig_of_json jl) config)) (\<lambda>label.
     bindR (Some (optional_member ''source'' (StringConfig_of_json jl) config)) (\<lambda>source.
     bindR (Some (optional_member ''data_type'' (\<lambda>t. map_sum id string_to_da00_dtype (json_get_string t)) config)) (\<lambda>dtype.
     bindR (Some (optional_member ''shape'' (get_vector (\<lambda>v. map_sum id nat (get_int jl ''uint64'' v))) config)) (\<lambda>shape.
     bindR (Some (optional_member ''axes'' (get_vector json_get_string) config)) (\<lambda>axes.
       let data = json_find ''data'' config in
     bindR (case (dtype, data) of
              (None, Some d) \<Rightarrow> map_option (map_sum id Some) (guess_dtype jl d)
            | _ \<Rightarrow> Some (Inr dtype)) (\<lambda>dtype.
     bindR (case (nonempty shape, data) of
              (None, Some d) \<Rightarrow> Some (map_sum id Some (get_shape jl d))
            | _ \<Rightarrow> Some (Inr (nonempty shape))) (\<lambda>shape.
       Some (Inr \<lparr>vc_name = name, vc_unit = unit, vc_label = label, vc_source = source, vc_dtype = dtype,
                  vc_shape = shape, vc_axes = nonempty axes, vc_data = data\<rparr>))))))))))"

text \<open>A variable of a message: the accessors of the generated code.\<close>

record da00_Variable =
  dv_name :: string
  dv_unit :: "string option"
  dv_label :: "string option"
  dv_data_type :: DType
  dv_shape :: "nat list option"
  dv_axes :: "string list option"
  dv_data :: "bytes option"

definition VariableConfig_of_buffer :: "da00_Variable \<Rightarrow> VariableConfig" where
  "VariableConfig_of_buffer buffer =
     \<lparr>vc_name = dv_name buffer,
      vc_unit = map_option StringConfig_of_string (dv_unit buffer),
      vc_label = map_option StringConfig_of_string (dv_label buffer),
      vc_source = None,
      vc_dtype = Some (dv_data_type buffer),
      vc_shape = nonempty (dv_shape buffer),
      vc_axes = nonempty (dv_axes buffer),
      vc_data = None\<rparr>"

definition is_consistent :: "VariableConfig \<Rightarrow> bool" where
  "is_consistent c \<longleftrightarrow>
     (case (vc_axes c, vc_shape c) of (Some as, Some ds) \<Rightarrow> length as = length ds | _ \<Rightarrow> True)"

definition colsepaxes :: "string list \<Rightarrow> string" where
  "colsepaxes axes =
     (if axes = [] then [] else let out = concat (map (\<lambda>ax. ax @ '':'') axes) in take (length out - length '':'') out)"

text \<open>One of the three string members of \<^verbatim>\<open>update_from\<close>.\<close>

definition update_string ::
  "bool \<Rightarrow> StringConfig option \<Rightarrow> StringConfig option \<Rightarrow> (exn + bool \<times> bool) \<times> StringConfig option" where
  "update_string force other own =
     (case (own, other) of
        (Some c, Some oc) \<Rightarrow> map_prod id Some (string_update_from oc force c)
      | (None, Some oc) \<Rightarrow> (Inr (False, True), Some oc)
      | _ \<Rightarrow> (Inr (False, False), own))"

text \<open>The other members: (inconsistent, missing), and the new value.\<close>

definition update_member :: "bool \<Rightarrow> 'a option \<Rightarrow> 'a option \<Rightarrow> bool \<times> bool \<times> 'a option" where
  "update_member force other own =
     (case (own, other) of
        (Some x, Some y) \<Rightarrow> (x \<noteq> y, False, if x \<noteq> y \<and> force then Some y else Some x)
      | (None, Some y) \<Rightarrow> (False, True, Some y)
      | _ \<Rightarrow> (False, False, own))"

definition update_from :: "VariableConfig \<Rightarrow> bool \<Rightarrow> VariableConfig \<Rightarrow> (exn + bool \<times> bool) \<times> VariableConfig" where
  "update_from other force c =
     (if vc_name c \<noteq> vc_name other then (Inr (False, False), c)
      else
        case update_string force (vc_unit other) (vc_unit c) of
          (Inl e, unit) \<Rightarrow> (Inl e, c\<lparr>vc_unit := unit\<rparr>)
        | (Inr (i1, ch1), unit) \<Rightarrow> let c = c\<lparr>vc_unit := unit\<rparr> in
        case update_string force (vc_label other) (vc_label c) of
          (Inl e, label) \<Rightarrow> (Inl e, c\<lparr>vc_label := label\<rparr>)
        | (Inr (i2, ch2), label) \<Rightarrow> let c = c\<lparr>vc_label := label\<rparr> in
        case update_string force (vc_source other) (vc_source c) of
          (Inl e, source) \<Rightarrow> (Inl e, c\<lparr>vc_source := source\<rparr>)
        | (Inr (i3, ch3), source) \<Rightarrow>
            let c = c\<lparr>vc_source := source\<rparr>;
                inconsistent = (i1 \<or> i2 \<or> i3); changed = (ch1 \<or> ch2 \<or> ch3);
                (differs, added, dtype) = update_member force (vc_dtype other) (vc_dtype c);
                inconsistent = (inconsistent \<or> differs); changed = (changed \<or> added);
                (differs, added, shape) = update_member force (vc_shape other) (vc_shape c);
                inconsistent = (inconsistent \<or> differs); changed = (changed \<or> added);
                (differs, added, axes) = update_member force (vc_axes other) (vc_axes c);
                inconsistent = (inconsistent \<or> differs); changed = (if added then False else changed)
            in (Inr (inconsistent, changed \<or> (force \<and> inconsistent)),
                c\<lparr>vc_dtype := dtype, vc_shape := shape, vc_axes := axes\<rparr>))"

text \<open>\<^verbatim>\<open>data<T>\<close>, which is called when there is data, and \<^verbatim>\<open>compare_data\<close> for the bytes of a message.\<close>

definition variable_data :: "json_lib \<Rightarrow> 'v number_type \<Rightarrow> json \<Rightarrow> (exn + 'v list) option" where
  "variable_data jl N data = bindR (Some (EdgeConfig_of_json jl data)) (edges N)"

definition compare_data :: "json_lib \<Rightarrow> bytes \<Rightarrow> json \<Rightarrow> (exn + bool) option" where
  "compare_data jl other data =
     bindR (variable_data jl (uint8_type jl) data) (\<lambda>our. Some (Inr (our = map of_char other)))"

section \<open>Configuration of the variables by a message\<close>

text \<open>What is configured wins over what a message says, a string excepted that has room for the new value.\<close>

definition merged_string :: "StringConfig option \<Rightarrow> StringConfig option \<Rightarrow> StringConfig option" where
  "merged_string other own =
     (case (own, other) of
        (None, _) \<Rightarrow> other
      | (Some c, None) \<Rightarrow> own
      | (Some c, Some oc) \<Rightarrow>
          (case (st_value oc, st_size c) of
             (Some v, Some n) \<Rightarrow> Some (if int (length v) \<le> n then c\<lparr>st_value := Some v\<rparr> else c)
           | _ \<Rightarrow> own))"

definition string_taken :: "StringConfig option \<Rightarrow> StringConfig option \<Rightarrow> bool" where
  "string_taken other own \<longleftrightarrow>
     (case (own, other) of
        (_, None) \<Rightarrow> False
      | (None, Some _) \<Rightarrow> True
      | (Some c, Some oc) \<Rightarrow>
          (case (st_value oc, st_size c) of (Some v, Some n) \<Rightarrow> int (length v) \<le> n | _ \<Rightarrow> False))"

definition or_else :: "'a option \<Rightarrow> 'a option \<Rightarrow> 'a option" where
  "or_else own other = (case own of None \<Rightarrow> other | Some x \<Rightarrow> Some x)"

definition conflict :: "'a option \<Rightarrow> 'a option \<Rightarrow> bool" where
  "conflict own other \<longleftrightarrow> own \<noteq> None \<and> other \<noteq> None \<and> own \<noteq> other"

definition lacking :: "'a option \<Rightarrow> 'a option \<Rightarrow> bool" where
  "lacking own other \<longleftrightarrow> own = None \<and> other \<noteq> None"

lemma update_string_unforced:
  "update_string False other own = (Inr (False, string_taken other own), merged_string other own)"
  by (cases own; cases other)
    (auto simp: update_string_def string_update_from_def string_taken_def merged_string_def
      split: option.splits)

lemma update_member_unforced:
  "update_member False other own = (conflict own other, lacking own other, or_else own other)"
  by (cases own; cases other) (auto simp: update_member_def conflict_def lacking_def or_else_def)

text \<open>C24: A message completes the configuration of a variable and never contradicts it: members that are configured are
  kept (a string that has been given room takes the value of the message), missing ones are taken from the message, and
  conflicting types, shapes or axes are reported. The result says that something changed only if no axes were taken:
  taking them resets the flag, so that a unit or a shape taken by the same message is not written to the dataset.\<close>

theorem update_from_completes:
  assumes "vc_name other = vc_name c"
  shows "update_from other False c =
    (Inr (conflict (vc_dtype c) (vc_dtype other) \<or> conflict (vc_shape c) (vc_shape other) \<or>
            conflict (vc_axes c) (vc_axes other),
          (string_taken (vc_unit other) (vc_unit c) \<or> string_taken (vc_label other) (vc_label c) \<or>
            string_taken (vc_source other) (vc_source c) \<or> lacking (vc_dtype c) (vc_dtype other) \<or>
            lacking (vc_shape c) (vc_shape other)) \<and> \<not> lacking (vc_axes c) (vc_axes other)),
     c\<lparr>vc_unit := merged_string (vc_unit other) (vc_unit c), vc_label := merged_string (vc_label other) (vc_label c),
       vc_source := merged_string (vc_source other) (vc_source c), vc_dtype := or_else (vc_dtype c) (vc_dtype other),
       vc_shape := or_else (vc_shape c) (vc_shape other), vc_axes := or_else (vc_axes c) (vc_axes other)\<rparr>)"
  using assms by (auto simp: update_from_def update_string_unforced update_member_unforced Let_def)

definition sample_variable :: VariableConfig where
  "sample_variable =
     \<lparr>vc_name = ''counts'', vc_unit = None, vc_label = None, vc_source = None, vc_dtype = Some D_int32,
      vc_shape = None, vc_axes = None, vc_data = None\<rparr>"

theorem update_from_completes_witness:
  "fst (update_from (sample_variable\<lparr>vc_shape := Some [3], vc_axes := Some [''x'']\<rparr>) False sample_variable) =
     Inr (False, False)"
  by (subst update_from_completes)
    (simp_all add: sample_variable_def conflict_def lacking_def string_taken_def)

section \<open>Guessed types\<close>

lemma step_within:
  assumes "0 \<le> d" and "0 < m" and "int i \<le> m"
  shows "0 \<le> int i * (d sdiv m)" and "int i * (d sdiv m) \<le> (d :: int)"
proof -
  have s: "0 \<le> d sdiv m" "d sdiv m * m \<le> d" using sdiv_pos_bounds [OF assms(1,2)] by simp_all
  then show "0 \<le> int i * (d sdiv m)" by simp
  have "int i * (d sdiv m) \<le> m * (d sdiv m)" using s(1) assms(3) by (simp add: mult_right_mono)
  with s(2) show "int i * (d sdiv m) \<le> d" by (simp add: mult.commute)
qed

lemma step_reaches:
  assumes "0 \<le> d" and "0 < m"
  shows "m * (d sdiv m) = d \<longleftrightarrow> m dvd (d :: int)"
proof -
  have "d sdiv m = d div m" using assms by (auto simp: signed_divide_int_def sgn_if)
  then show ?thesis by (metis dvd_triv_left dvd_mult_div_cancel)
qed

lemma smod_dvd:
  assumes "0 \<le> d" and "0 < m"
  shows "d smod m = 0 \<longleftrightarrow> m dvd (d :: int)"
  using assms by (auto simp: signed_modulo_int_def signed_divide_int_def sgn_if dvd_eq_mod_eq_0 minus_div_mult_eq_mod)

lemma edges_int64:
  assumes "get_int jl ''int64'' jf = Inr f" and "get_int jl ''int64'' jt = Inr l" and "2 \<le> n" and "n \<le> tp_max"
    and "f \<le> l" and "in_s64 f" and "in_s64 l" and "in_s64 (l - f)"
  shows "edges (int64_type jl) \<lparr>eg_edges = None, eg_first = Some jf, eg_last = Some jt, eg_size = Some n\<rparr> =
    Some (Inr (map (\<lambda>i. f + int i * ((l - f) sdiv (n - 1))) [0..<nat n]))"
proof -
  let ?s = "(l - f) sdiv (n - 1)"
  have id: "s64 x = x" if "0 \<le> x" "x \<le> l - f" for x
    using that assms(8) by (simp add: s64_eq_iff in_s64_def)
  have at: "s64 (int i) = int i \<and> s64 (int i * ?s) = int i * ?s \<and> s64 (f + int i * ?s) = f + int i * ?s"
    if "i < nat n" for i
  proof -
    have b: "0 \<le> int i * ?s" "int i * ?s \<le> l - f"
      using step_within [of "l - f" "n - 1" i] assms(3,5) that by simp_all
    moreover have "in_s64 (int i)" using that assms(4) by (simp add: in_s64_def)
    moreover have "in_s64 (f + int i * ?s)" using b assms(6,7) by (simp add: in_s64_def)
    ultimately show ?thesis using id by (simp add: s64_eq_iff)
  qed
  have "s64 (n - 1) = n - 1" using assms(3,4) by (simp add: s64_eq_iff in_s64_def)
  moreover have "s64 (l - f) = l - f" using assms(8) by (simp add: s64_eq_iff)
  moreover have "s64 ?s = ?s"
    using step_within [of "l - f" "n - 1" 1] assms(3,5) by (simp add: id)
  ultimately show ?thesis
    using assms(1-3) at by (simp add: edges_def int64_type_def integer_type_def)
qed

definition range_json :: "json \<Rightarrow> json \<Rightarrow> json \<Rightarrow> json" where
  "range_json jf jt js = J_object [(''first'', jf), (''last'', jt), (''size'', js)]"


definition plain_json :: json_lib where
  "plain_json = \<lparr>jl_dump = \<lambda>_. [], jl_parse = \<lambda>_. Inr J_null, jl_get = \<lambda>_ v. Inr v, jl_list_keys = \<lambda>_. []\<rparr>"


end
