(* ===== verification/Da00_Datasets.thy ===== *)
theory Da00_Datasets
  imports Da00_Config
begin

text \<open>
  \<^verbatim>\<open>src/WriterModule/da00/da00_Variable.h\<close>, the datasets of the variables and constants of a data array. A variable
  is a dataset whose first dimension counts the messages; a constant is written once.

  The functions of h5cpp that only this module uses extend the record of \<open>Nexus_Dataset\<close>: creation with maximum
  dimensions (and chunks, for variables), the maximum dimensions, scalar data spaces, writing a whole dataset,
  and string attributes of fixed size.
\<close>

section \<open>The library\<close>

record ('h, 'f) array_lib = "('h, 'f) dataset_lib" +
  ar_create :: "dpath \<Rightarrow> string \<Rightarrow> nat list \<Rightarrow> nat list \<Rightarrow> nat list option \<Rightarrow> 'h \<Rightarrow> exn option \<times> 'h"
  ar_max_dims :: "'h \<Rightarrow> dpath \<Rightarrow> nat list"
  ar_scalar :: "'h \<Rightarrow> dpath \<Rightarrow> bool"
  ar_write_all :: "dpath \<Rightarrow> 'f h5_value list \<Rightarrow> 'h \<Rightarrow> exn option \<times> 'h"
  ar_attr_exists :: "'h \<Rightarrow> dpath \<Rightarrow> string \<Rightarrow> bool"
  ar_attr_read :: "'h \<Rightarrow> dpath \<Rightarrow> string \<Rightarrow> exn + string"
  ar_attr_create :: "dpath \<Rightarrow> string \<Rightarrow> nat \<Rightarrow> 'h \<Rightarrow> exn option \<times> 'h"
  ar_attr_write :: "dpath \<Rightarrow> string \<Rightarrow> string \<Rightarrow> 'h \<Rightarrow> exn option \<times> 'h"

text \<open>The JSON library, the element types, the bytes of a message read as elements, and the quiet NaN.\<close>

record 'f array_env =
  de_json :: json_lib
  de_number :: "DType \<Rightarrow> 'f h5_value number_type"
  de_decode :: "DType \<Rightarrow> bytes \<Rightarrow> nat \<Rightarrow> 'f h5_value list"
  de_nan :: 'f

definition unlimited :: nat where
  "unlimited = 2 ^ 64 - 1"

text \<open>\<^verbatim>\<open>std::bad_optional_access\<close>, \<^verbatim>\<open>std::length_error\<close>.\<close>

abbreviation bad_optional_access :: exn where
  "bad_optional_access \<equiv> Std_Exception ''bad optional access''"

abbreviation length_error :: exn where
  "length_error \<equiv> Std_Exception ''cannot create std::vector larger than max_size()''"

definition and_thenR :: "(exn option \<times> 'h) option \<Rightarrow> ('h \<Rightarrow> (exn option \<times> 'h) option) \<Rightarrow> (exn option \<times> 'h) option" where
  "and_thenR r f = (case r of None \<Rightarrow> None | Some (Some e, h) \<Rightarrow> Some (Some e, h) | Some (None, h) \<Rightarrow> f h)"

lemma and_thenR_simps [simp]:
  "and_thenR None f = None"
  "and_thenR (Some (Some e, h)) f = Some (Some e, h)"
  "and_thenR (Some (None, h)) f = f h"
  by (simp_all add: and_thenR_def)

section \<open>Creating and growing\<close>

definition chunked_size :: "nat list \<Rightarrow> nat list \<Rightarrow> nat list option" where
  "chunked_size shape chunk_size =
     (let shape = 0 # shape;
          chunk_size = (if chunk_size = [] then chunk_size @ [1024] else chunk_size) in
      if length chunk_size = length shape then Some chunk_size
      else if length chunk_size = 1 \<and> length shape > 1 then
        let elements_per_row = u64 (elements_per_row (tl shape)) in
        if elements_per_row = 0 then None
        else
          let num_rows = chunk_size ! 0 div elements_per_row;
              num_rows = (if num_rows = 0 then 1 else num_rows)
          in Some (shape[0 := num_rows])
      else Some (shape[0 := 1024]))"

definition create_chunked_dataset ::
  "('h, 'f, 'z) array_lib_scheme \<Rightarrow> string \<Rightarrow> dpath \<Rightarrow> nat list \<Rightarrow> nat list \<Rightarrow> bool \<Rightarrow> 'h \<Rightarrow> (exn option \<times> 'h) option" where
  "create_chunked_dataset L T p shape chunk_size fixed h =
     map_option (\<lambda>chunk.
       ar_create L p T (0 # shape)
         (if fixed then (0 # shape)[0 := unlimited] else replicate (length (0 # shape)) unlimited) (Some chunk) h)
       (chunked_size shape chunk_size)"

definition extend_dimension :: "nat list \<Rightarrow> nat \<Rightarrow> nat list \<Rightarrow> nat list" where
  "extend_dimension shape i extent = (if shape ! i > extent ! i then extent[i := shape ! i] else extent)"

definition da00_appendArray ::
  "('h, 'f, 'z) dataset_lib_scheme \<Rightarrow> dpath \<Rightarrow> 'f h5_value list \<Rightarrow> nat list \<Rightarrow> 'h \<Rightarrow> (exn option \<times> 'h) option" where
  "da00_appendArray L p new_data shape h =
     (let current_extent = dl_dims L h p in
      if current_extent = [] then None
      else
        let origin = (replicate (length current_extent) 0)[0 := current_extent ! 0];
            current_extent = current_extent[0 := current_extent ! 0 + 1];
            shape = 1 # shape in
        if length shape \<noteq> length current_extent then
          Some (Some (Runtime_Error ''Rank (dimensions) of data to be written is wrong.''), h)
        else
          let current_extent = fold (extend_dimension shape) [1..<length shape] current_extent in
          Some (and_then (dl_resize L p current_extent h) (dl_write L p origin shape new_data)))"

section \<open>Attributes of a dataset\<close>

definition insert_attribute ::
  "('h, 'f, 'z) array_lib_scheme \<Rightarrow> dpath \<Rightarrow> string \<Rightarrow> StringConfig \<Rightarrow> 'h \<Rightarrow> exn option \<times> 'h" where
  "insert_attribute L p name c h =
     (if \<not> knows_value c then
        (Some (Runtime_Error (''StringConfig can not create attribute '' @ path_string (fst p @ [snd p]) @ ''@'' @
           name @ '' without value or size'')), h)
      else
        let s = (case st_size c of Some n \<Rightarrow> n | None \<Rightarrow> 0);
            v = (case st_value c of Some x \<Rightarrow> int (length x) | None \<Rightarrow> 0) in
        and_then (ar_attr_create L p name (nat (if v > s then v else s)) h)
          (\<lambda>h. case st_value c of
                 Some x \<Rightarrow> (None, snd (ar_attr_write L p name x h))
               | None \<Rightarrow> (None, h)))"

definition insert_optional ::
  "('h, 'f, 'z) array_lib_scheme \<Rightarrow> dpath \<Rightarrow> string \<Rightarrow> StringConfig option \<Rightarrow> 'h \<Rightarrow> exn option \<times> 'h" where
  "insert_optional L p name c h = (case c of None \<Rightarrow> (None, h) | Some sc \<Rightarrow> insert_attribute L p name sc h)"

definition insert_axes :: "('h, 'f, 'z) array_lib_scheme \<Rightarrow> dpath \<Rightarrow> string \<Rightarrow> 'h \<Rightarrow> exn option \<times> 'h" where
  "insert_axes L p spec h =
     and_then (ar_attr_create L p ''axes'' (length spec) h) (ar_attr_write L p ''axes'' spec)"

definition add_dataset_attributes ::
  "('h, 'f, 'z) array_lib_scheme \<Rightarrow> dpath \<Rightarrow> string \<Rightarrow> VariableConfig \<Rightarrow> 'h \<Rightarrow> exn option \<times> 'h" where
  "add_dataset_attributes L p axes_spec c h =
     and_then (and_then (and_then
       (insert_optional L p ''units'' (vc_unit c) h)
       (insert_optional L p ''long_name'' (vc_label c)))
       (insert_optional L p ''source'' (vc_source c)))
       (\<lambda>h. if axes_spec \<noteq> [] then insert_axes L p axes_spec h else (None, h))"

text \<open>\<^verbatim>\<open>do_update\<close>: an attribute that exists is overwritten when it differs, up to the first null character.\<close>

definition update_attribute ::
  "('h, 'f, 'z) array_lib_scheme \<Rightarrow> dpath \<Rightarrow> string \<Rightarrow> string \<Rightarrow> 'h \<Rightarrow> exn option \<times> 'h" where
  "update_attribute L p attr new h =
     (case ar_attr_read L h p attr of
        Inl e \<Rightarrow> (Some e, h)
      | Inr old \<Rightarrow>
          if takeWhile (\<lambda>c. c \<noteq> CHR 0x00) old \<noteq> new then ar_attr_write L p attr new h else (None, h))"

definition do_update ::
  "('h, 'f, 'z) array_lib_scheme \<Rightarrow> dpath \<Rightarrow> bool \<Rightarrow> string \<Rightarrow> StringConfig option \<Rightarrow> 'h \<Rightarrow> exn option \<times> 'h" where
  "do_update L p swmr attr obj h =
     (case obj of
        Some c \<Rightarrow>
          (case st_value c of
             Some v \<Rightarrow>
               if ar_attr_exists L h p attr then update_attribute L p attr v h
               else if \<not> swmr then insert_attribute L p attr c h
               else (None, h)
           | None \<Rightarrow> (None, h))
      | None \<Rightarrow> (None, h))"

definition update_dataset_attributes ::
  "('h, 'f, 'z) array_lib_scheme \<Rightarrow> dpath \<Rightarrow> bool \<Rightarrow> VariableConfig \<Rightarrow> 'h \<Rightarrow> exn option \<times> 'h" where
  "update_dataset_attributes L p swmr c h =
     and_then (and_then (and_then
       (do_update L p swmr ''units'' (vc_unit c) h)
       (do_update L p swmr ''long_name'' (vc_label c)))
       (do_update L p swmr ''source'' (vc_source c)))
       (\<lambda>h. case vc_axes c of
              None \<Rightarrow> (None, h)
            | Some axes \<Rightarrow>
                if ar_attr_exists L h p ''axes'' then update_attribute L p ''axes'' (colsepaxes axes) h
                else if \<not> swmr then insert_axes L p (colsepaxes axes) h
                else (None, h))"

section \<open>Constants\<close>

definition constant_dataset ::
  "'f array_env \<Rightarrow> ('h, 'f, 'z) array_lib_scheme \<Rightarrow> DType \<Rightarrow> node \<Rightarrow> VariableConfig \<Rightarrow> 'h \<Rightarrow> (exn option \<times> 'h) option" where
  "constant_dataset env L T g c h =
     (let initial_shape = (case vc_shape c of Some s \<Rightarrow> s | None \<Rightarrow> []);
          p = (g, vc_name c) in
      and_thenR (Some (and_then (ar_create L p (dtype_name T) initial_shape initial_shape None h)
          (add_dataset_attributes L p (case vc_axes c of Some axes \<Rightarrow> colsepaxes axes | None \<Rightarrow> []) c)))
        (\<lambda>h. case vc_data c of
               None \<Rightarrow> Some (None, h)
             | Some data \<Rightarrow>
                 map_option (\<lambda>r. case r of Inl e \<Rightarrow> (Some e, h) | Inr vs \<Rightarrow> ar_write_all L p vs h)
                   (variable_data (de_json env) (de_number env T) data)))"

definition dtype_or_double :: "VariableConfig \<Rightarrow> DType" where
  "dtype_or_double c = (case vc_dtype c of Some t \<Rightarrow> t | None \<Rightarrow> D_float64)"

definition insert_constant_dataset ::
  "'f array_env \<Rightarrow> ('h, 'f, 'z) array_lib_scheme \<Rightarrow> node \<Rightarrow> VariableConfig \<Rightarrow> 'h \<Rightarrow> (exn option \<times> 'h) option" where
  "insert_constant_dataset env L g c h =
     (if dtype_or_double c = D_unknown then Some (Some bad_function_call, h)
      else constant_dataset env L (dtype_or_double c) g c h)"

text \<open>The bytes of a message are read as as many elements as the configured shape has. \<open>None\<close> is a read beyond them.\<close>

definition write_constant ::
  "'f array_env \<Rightarrow> ('h, 'f, 'z) array_lib_scheme \<Rightarrow> DType \<Rightarrow> dpath \<Rightarrow> bytes \<Rightarrow> VariableConfig \<Rightarrow> 'h \<Rightarrow> (exn option \<times> 'h) option" where
  "write_constant env L T p data c h =
     (case vc_shape c of
        None \<Rightarrow> Some (Some bad_optional_access, h)
      | Some shape \<Rightarrow>
          let count = elements_per_row shape in
          if count < 0 then Some (Some length_error, h)
          else if nat count * dtype_size T > length data then None
          else Some (ar_write_all L p (de_decode env T data (nat count)) h))"

definition write_constant_dataset ::
  "'f array_env \<Rightarrow> ('h, 'f, 'z) array_lib_scheme \<Rightarrow> dpath \<Rightarrow> bytes \<Rightarrow> VariableConfig \<Rightarrow> 'h \<Rightarrow> (exn option \<times> 'h) option" where
  "write_constant_dataset env L p data c h =
     (if dtype_or_double c = D_unknown then Some (Some bad_function_call, h)
      else write_constant env L (dtype_or_double c) p data c h)"

text \<open>While a file is written it is in SWMR mode, where the data space of a constant cannot be changed: only the
  attributes are updated, and a differing shape is logged.\<close>

definition update_constant ::
  "('h, 'f, 'z) array_lib_scheme \<Rightarrow> dpath \<Rightarrow> VariableConfig \<Rightarrow> 'h \<Rightarrow> exn option \<times> 'h" where
  "update_constant L p c h = update_dataset_attributes L p True c h"

section \<open>Variables\<close>

definition variable_dataset ::
  "('h, 'f, 'z) array_lib_scheme \<Rightarrow> DType \<Rightarrow> node \<Rightarrow> nat list \<Rightarrow> VariableConfig \<Rightarrow> 'h \<Rightarrow> (exn option \<times> 'h) option" where
  "variable_dataset L T g chunk c h =
     (let initial_shape = (case vc_shape c of Some s \<Rightarrow> s | None \<Rightarrow> []);
          axes_spec = (case vc_axes c of Some axes \<Rightarrow> ''time:'' @ colsepaxes axes | None \<Rightarrow> []) in
      and_thenR (create_chunked_dataset L (dtype_name T) (g, vc_name c) initial_shape chunk True h)
        (\<lambda>h. Some (add_dataset_attributes L (g, vc_name c) axes_spec c h)))"

definition insert_variable_dataset ::
  "('h, 'f, 'z) array_lib_scheme \<Rightarrow> node \<Rightarrow> nat list \<Rightarrow> VariableConfig \<Rightarrow> 'h \<Rightarrow> (exn option \<times> 'h) option" where
  "insert_variable_dataset L g chunk_size c h =
     (if dtype_or_double c = D_unknown then Some (Some bad_function_call, h)
      else variable_dataset L (dtype_or_double c) g chunk_size c h)"

text \<open>A shape with fewer dimensions than configured is read beyond its end. A wrong rank of the dataset raises before
  the data is read.\<close>

definition append_variable ::
  "'f array_env \<Rightarrow> ('h, 'f, 'z) dataset_lib_scheme \<Rightarrow> DType \<Rightarrow> dpath \<Rightarrow> bytes \<Rightarrow> nat list \<Rightarrow> VariableConfig \<Rightarrow> 'h
     \<Rightarrow> (exn option \<times> 'h) option" where
  "append_variable env L T p data shape c h =
     (if (case vc_shape c of Some my_shape \<Rightarrow> length my_shape > length shape | None \<Rightarrow> False) then None
      else
        let count = u64 (elements_per_row shape) in
        if length (dl_dims L h p) = Suc (length shape) \<and> count * dtype_size T > length data then None
        else da00_appendArray L p (de_decode env T data count) shape h)"

definition variable_append ::
  "'f array_env \<Rightarrow> ('h, 'f, 'z) dataset_lib_scheme \<Rightarrow> dpath \<Rightarrow> da00_Variable \<Rightarrow> VariableConfig \<Rightarrow> 'h
     \<Rightarrow> (exn option \<times> 'h) option" where
  "variable_append env L p fb c h =
     (case (dv_data fb, dv_shape fb) of
        (Some data, Some shape) \<Rightarrow>
          if (case vc_axes c of
                Some axes \<Rightarrow> (case dv_axes fb of None \<Rightarrow> True | Some axis_dims \<Rightarrow> length axis_dims > length axes)
              | None \<Rightarrow> False) then None
          else if dv_data_type fb = D_unknown then Some (Some bad_function_call, h)
          else append_variable env L (dv_data_type fb) p data shape c h
      | _ \<Rightarrow> None)"

fun missing_value :: "'f \<Rightarrow> DType \<Rightarrow> 'f h5_value" where
  "missing_value nan D_int8 = HV_int 127"
| "missing_value nan D_uint8 = HV_int 255"
| "missing_value nan D_int16 = HV_int 32767"
| "missing_value nan D_uint16 = HV_int 65535"
| "missing_value nan D_int32 = HV_int 2147483647"
| "missing_value nan D_uint32 = HV_int 4294967295"
| "missing_value nan D_int64 = HV_int 9223372036854775807"
| "missing_value nan D_uint64 = HV_int 18446744073709551615"
| "missing_value nan D_float32 = HV_float nan"
| "missing_value nan D_float64 = HV_float nan"
| "missing_value nan D_c_string = HV_int 127"
| "missing_value nan D_unknown = HV_int 0"

definition append_missing_variable ::
  "'f array_env \<Rightarrow> ('h, 'f, 'z) dataset_lib_scheme \<Rightarrow> DType \<Rightarrow> dpath \<Rightarrow> VariableConfig \<Rightarrow> 'h \<Rightarrow> (exn option \<times> 'h) option" where
  "append_missing_variable env L T p c h =
     (case vc_shape c of
        None \<Rightarrow> Some (Some bad_optional_access, h)
      | Some shape \<Rightarrow>
          let count = elements_per_row shape in
          if count < 0 then Some (Some length_error, h)
          else da00_appendArray L p (replicate (nat count) (missing_value (de_nan env) T)) shape h)"

definition variable_append_missing ::
  "'f array_env \<Rightarrow> ('h, 'f, 'z) dataset_lib_scheme \<Rightarrow> dpath \<Rightarrow> VariableConfig \<Rightarrow> 'h \<Rightarrow> (exn option \<times> 'h) option" where
  "variable_append_missing env L p c h =
     (case vc_dtype c of
        None \<Rightarrow> Some (Some bad_optional_access, h)
      | Some T \<Rightarrow>
          if T = D_unknown then Some (Some bad_function_call, h) else append_missing_variable env L T p c h)"

text \<open>The shape of the dataset is adapted to the configured one when the rank is right and the maximum dimensions permit.\<close>

definition update_variable ::
  "('h, 'f, 'z) array_lib_scheme \<Rightarrow> dpath \<Rightarrow> VariableConfig \<Rightarrow> 'h \<Rightarrow> exn option \<times> 'h" where
  "update_variable L p c h =
     and_then (update_dataset_attributes L p True c h)
       (\<lambda>h. case vc_shape c of
              None \<Rightarrow> (None, h)
            | Some shape \<Rightarrow>
                let sh = 1 # shape; dims = dl_dims L h p in
                if ar_scalar L h p \<or> length dims \<noteq> length sh then (None, h)
                else
                  let sh = sh[0 := dims ! 0] in
                  if dims \<noteq> sh \<and> (\<forall>i < length sh. sh ! i \<le> ar_max_dims L h p ! i) then dl_resize L p sh h
                  else (None, h))"

section \<open>Two copies of the same code\<close>

lemma chunked_size_eq: "chunked_size shape chunk = vector_chunk_size shape chunk"
proof (cases chunk)
  case Nil
  then show ?thesis by (cases shape) (simp_all add: chunked_size_def vector_chunk_size_def rows_per_chunk_def u64_def Let_def)
next
  case (Cons c cs)
  then show ?thesis
    by (cases cs; cases shape) (simp_all add: chunked_size_def vector_chunk_size_def rows_per_chunk_def u64_def Let_def)
qed

lemma extend_dimensions:
  assumes "length shape = length extent" and "n \<le> length extent"
  shows "fold (extend_dimension shape) [1..<n] extent =
    map (\<lambda>i. if 1 \<le> i \<and> i < n \<and> shape ! i > extent ! i then shape ! i else extent ! i) [0..<length extent]"
  using assms(2)
proof (induction n)
  case 0
  then show ?case by (simp add: map_nth)
next
  case (Suc n)
  show ?case
  proof (cases "1 \<le> n")
    case True
    then show ?thesis using Suc
      by (auto simp: extend_dimension_def nth_list_update less_Suc_eq intro!: nth_equalityI)
  next
    case False
    then have "map (\<lambda>i. if 1 \<le> i \<and> i < Suc n \<and> shape ! i > extent ! i then shape ! i else extent ! i) [0..<length extent] =
        map ((!) extent) [0..<length extent]" by simp
    with False show ?thesis by (simp add: map_nth)
  qed
qed

lemma extended_extent:
  assumes "length shape = length rest"
  shows "fold (extend_dimension (1 # shape)) [1..<Suc (length shape)] (n # rest) = n # grown_extent rest shape"
proof (rule nth_equalityI)
  let ?e = "n # rest" and ?sh = "1 # shape"
  show "length (fold (extend_dimension ?sh) [1..<Suc (length shape)] ?e) = length (n # grown_extent rest shape)"
    using assms by (subst extend_dimensions) (simp_all add: grown_extent_def)
  fix i assume "i < length (fold (extend_dimension ?sh) [1..<Suc (length shape)] ?e)"
  then have i: "i < length ?e" using assms by (subst (asm) extend_dimensions) simp_all
  have "fold (extend_dimension ?sh) [1..<Suc (length shape)] ?e ! i =
      (if 1 \<le> i \<and> i < length ?sh \<and> ?sh ! i > ?e ! i then ?sh ! i else ?e ! i)"
    using assms i by (subst extend_dimensions) (auto simp: nth_Cons' simp del: upt_Suc)
  then show "fold (extend_dimension ?sh) [1..<Suc (length shape)] ?e ! i = (n # grown_extent rest shape) ! i"
    using assms i by (cases i) (simp_all add: grown_extent_def)
qed

lemma appendArray_dims:
  assumes "dl_dims L h p = n # rest"
  shows "da00_appendArray L p vs shape h =
    (if length shape \<noteq> length rest
     then Some (Some (Runtime_Error ''Rank (dimensions) of data to be written is wrong.''), h)
     else Some (and_then (dl_resize L p (Suc n # grown_extent rest shape) h)
                 (dl_write L p (n # replicate (length rest) 0) (1 # shape) vs)))"
  using assms extended_extent [of shape rest "Suc n"] by (simp add: da00_appendArray_def del: upt_Suc)

text \<open>C30: The module has its own copies of the functions of the multi-dimensional datasets. The copies do the same: the
  chunks of a new dataset have the same size, and appending a block grows the dataset to the same extent, writes to the
  same position and fails in the same way, whatever the library does.\<close>

theorem da00_copies_agree:
  "chunked_size shape chunk = vector_chunk_size shape chunk \<and>
   da00_appendArray L p new_data shape h = appendArray_shape (L :: ('h, 'f) dataset_lib) p new_data shape h"
proof (cases "dl_dims L h p")
  case Nil
  then show ?thesis by (simp add: chunked_size_eq da00_appendArray_def appendArray_shape_def)
next
  case (Cons n rest)
  then show ?thesis by (simp add: chunked_size_eq appendArray_dims appendArray_shape_def)
qed

end
