(* ===== verification/Da00_Writer.thy ===== *)
theory Da00_Writer
  imports Da00_Datasets
begin

text \<open>
  \<^verbatim>\<open>src/WriterModule/da00/da00_Writer\<close>: the writer module for data arrays. The configured variables and constants are
  kept in maps by name, and so are the datasets that were reopened, which are their paths here.

  A write appends one row to every variable, so that the rows of all variables and the times stay in step; the theorem
  at the end says for which messages that is so.
\<close>

section \<open>The writer\<close>

record da00_Writer =
  dw_Timestamp :: ExtensibleDatasetBase
  dw_CueIndex :: ExtensibleDatasetBase
  dw_CueTimestampZero :: ExtensibleDatasetBase
  dw_CueInterval :: nat
  dw_ChunkSize :: "nat list"
  dw_VariablesField :: "json list"
  dw_ConstantsField :: "json list"
  dw_AttributesField :: "json list"
  dw_CueCounter :: nat
  dw_NrOfWrites :: nat
  dw_isFirstMessage :: bool
  dw_VariableConfigMap :: "(string \<times> VariableConfig) list"
  dw_ConstantConfigMap :: "(string \<times> VariableConfig) list"
  dw_VariablePtrs :: "(string \<times> dpath) list"
  dw_ConstantPtrs :: "(string \<times> dpath) list"

record da00_DataArray =
  da_timestamp :: int
  da_data :: "da00_Variable list"

section \<open>Configuration\<close>

fun fill_config_map ::
  "json_lib \<Rightarrow> json list \<Rightarrow> (string \<times> VariableConfig) list \<Rightarrow> (exn option \<times> (string \<times> VariableConfig) list) option" where
  "fill_config_map jl [] m = Some (None, m)"
| "fill_config_map jl (config # configs) m =
     (case VariableConfig_of_json jl config of
        None \<Rightarrow> None
      | Some (Inl e) \<Rightarrow> Some (Some e, m)
      | Some (Inr v) \<Rightarrow>
          if vc_name v = [] then Some (Some (Writer_Exception ''Configuration Variable name is empty.''), m)
          else fill_config_map jl configs (smap_insert (vc_name v) v m))"

definition da00_config_post_processing :: "json_lib \<Rightarrow> da00_Writer \<Rightarrow> (exn option \<times> da00_Writer) option" where
  "da00_config_post_processing jl w =
     (case fill_config_map jl (dw_VariablesField w) (dw_VariableConfigMap w) of
        None \<Rightarrow> None
      | Some (Some e, m) \<Rightarrow> Some (Some e, w\<lparr>dw_VariableConfigMap := m\<rparr>)
      | Some (None, m) \<Rightarrow> let w = w\<lparr>dw_VariableConfigMap := m\<rparr> in
          map_option (\<lambda>(r, m). (r, w\<lparr>dw_ConstantConfigMap := m\<rparr>))
            (fill_config_map jl (dw_ConstantsField w) (dw_ConstantConfigMap w)))"

section \<open>Attributes of the group\<close>

fun collect_attributes :: "json_lib \<Rightarrow> json list \<Rightarrow> (exn + AttributeConfig list) option" where
  "collect_attributes jl [] = Some (Inr [])"
| "collect_attributes jl (js # jss) =
     bindR (AttributeConfig_of_json jl js) (\<lambda>a. bindR (collect_attributes jl jss) (\<lambda>as. Some (Inr (a # as))))"

text \<open>\<^verbatim>\<open>signal_is_present\<close>, \<^verbatim>\<open>signal_is_variable\<close> and \<^verbatim>\<open>signal_name\<close> after the loop over the attributes.\<close>

definition note_signal ::
  "(string \<times> VariableConfig) list \<Rightarrow> AttributeConfig \<Rightarrow> bool \<times> bool \<times> string \<Rightarrow> bool \<times> bool \<times> string" where
  "note_signal vars a st =
     (let (present, variable, name) = st in
      if ac_name a = ''signal'' then
        (case ac_data a of
           J_string s \<Rightarrow> (True, variable \<or> map_of vars s \<noteq> None, s)
         | _ \<Rightarrow> (True, variable, name))
      else st)"

text \<open>An attribute of strings that the writer makes up.\<close>

definition text_attribute :: "string \<Rightarrow> json \<Rightarrow> AttributeConfig" where
  "text_attribute name data =
     \<lparr>ac_name = name, ac_description = None, ac_source = None, ac_type = D_c_string, ac_data = data\<rparr>"

definition add_signal :: "string \<Rightarrow> AttributeConfig list \<times> bool \<times> bool \<times> string \<Rightarrow> AttributeConfig list \<times> bool \<times> string" where
  "add_signal first_variable_name st =
     (let (attrs, present, variable, name) = st in
      if \<not> present \<and> first_variable_name \<noteq> [] then
        (attrs @ [text_attribute ''signal'' (J_string first_variable_name)], True, first_variable_name)
      else (attrs, variable, name))"

definition add_axes :: "(string \<times> VariableConfig) list \<Rightarrow> string \<Rightarrow> AttributeConfig list \<Rightarrow> AttributeConfig list" where
  "add_axes vars signal_name attrs =
     (if \<exists>a \<in> set attrs. ac_name a = ''axes'' then attrs
      else
        case map_of vars signal_name of
          Some c \<Rightarrow>
            (case vc_axes c of
               Some (ax # axs) \<Rightarrow> attrs @ [text_attribute ''axes'' (J_array (map J_string (ax # axs)))]
             | _ \<Rightarrow> attrs)
        | None \<Rightarrow> attrs)"

fun add_time_axis :: "AttributeConfig list \<Rightarrow> exn + AttributeConfig list" where
  "add_time_axis [] = Inr []"
| "add_time_axis (a # as) =
     (if ac_name a = ''axes'' then
        (if is_array (ac_data a) then
           map_sum id (\<lambda>axes. a\<lparr>ac_data := J_array (map J_string (''time'' # axes))\<rparr> # as)
             (get_vector json_get_string (ac_data a))
         else Inr (a # as))
      else map_sum id ((#) a) (add_time_axis as))"

fun write_attributes :: "json_lib \<Rightarrow> 'h hdf5 \<Rightarrow> node \<Rightarrow> AttributeConfig list \<Rightarrow> 'h \<Rightarrow> 'h" where
  "write_attributes jl lib g [] h = h"
| "write_attributes jl lib g (a # as) h = write_attributes jl lib g as (snd (add_to_hdf5 jl lib a g h))"

definition group_attributes :: "json_lib \<Rightarrow> da00_Writer \<Rightarrow> (exn + AttributeConfig list) option" where
  "group_attributes jl w =
     bindR (case dw_VariablesField w of
              [] \<Rightarrow> Some (Inr [])
            | config # _ \<Rightarrow> map_option (map_sum id vc_name) (VariableConfig_of_json jl config)) (\<lambda>first_variable_name.
     bindR (collect_attributes jl (dw_AttributesField w)) (\<lambda>attrs.
       let (attrs, signal_is_variable, signal_name) =
             add_signal first_variable_name (attrs, fold (note_signal (dw_VariableConfigMap w)) attrs (False, False, []));
           attrs = add_axes (dw_VariableConfigMap w) signal_name attrs
       in Some (if signal_is_variable then add_time_axis attrs else Inr attrs)))"

definition handle_group_attributes ::
  "json_lib \<Rightarrow> 'h hdf5 \<Rightarrow> node \<Rightarrow> da00_Writer \<Rightarrow> 'h \<Rightarrow> (exn option \<times> 'h) option" where
  "handle_group_attributes jl lib g w h =
     map_option (\<lambda>r. case r of Inl e \<Rightarrow> (Some e, h) | Inr attrs \<Rightarrow> (None, write_attributes jl lib g attrs h))
       (group_attributes jl w)"

section \<open>Datasets\<close>

definition complete_variable :: "VariableConfig \<Rightarrow> bool" where
  "complete_variable c \<longleftrightarrow> vc_dtype c \<noteq> None \<and> vc_shape c \<noteq> None"

definition complete_constant :: "VariableConfig \<Rightarrow> bool" where
  "complete_constant c \<longleftrightarrow> complete_variable c \<or> vc_data c \<noteq> None"

fun insert_each ::
  "(VariableConfig \<Rightarrow> 'h \<Rightarrow> (exn option \<times> 'h) option) \<Rightarrow> VariableConfig list \<Rightarrow> 'h \<Rightarrow> (exn option \<times> 'h) option" where
  "insert_each f [] h = Some (None, h)"
| "insert_each f (c # cs) h = and_thenR (f c h) (insert_each f cs)"

text \<open>The chunk size and the attributes come before the \<^verbatim>\<open>try\<close>: their exceptions leave the function.\<close>

definition da00_init_hdf ::
  "'f array_env \<Rightarrow> 'h hdf5 \<Rightarrow> ('h, 'f) array_lib \<Rightarrow> node \<Rightarrow> da00_Writer \<Rightarrow> 'h \<Rightarrow> ((exn + InitResult) \<times> 'h) option" where
  "da00_init_hdf env lib L g w h =
     (case dw_ChunkSize w of
        [] \<Rightarrow> Some (Inl (Out_Of_Range ''vector::_M_range_check''), h)
      | chunk_size # _ \<Rightarrow>
          (case handle_group_attributes (de_json env) lib g w h of
             None \<Rightarrow> None
           | Some (Some e, h) \<Rightarrow> Some (Inl e, h)
           | Some (None, h) \<Rightarrow>
               map_option (\<lambda>(r, h). (Inr (if r = None then IR_OK else IR_ERROR), h))
                 (and_thenR (and_thenR
                   (insert_each (insert_variable_dataset L g (dw_ChunkSize w))
                      (filter complete_variable (map snd (dw_VariableConfigMap w))) h)
                   (insert_each (insert_constant_dataset env L g)
                      (filter complete_constant (map snd (dw_ConstantConfigMap w)))))
                   (\<lambda>h. Some (create_datasets (dataset_lib.truncate L) g
                          (map (\<lambda>c. (c, chunk_size)) [Time, CueIndex, CueTimestampZero]) h)))))"

fun reopen_each :: "('h, 'f, 'z) dataset_lib_scheme \<Rightarrow> node \<Rightarrow> 'h \<Rightarrow> (string \<times> VariableConfig) list \<Rightarrow> (string \<times> dpath) list
     \<Rightarrow> exn option \<times> (string \<times> dpath) list" where
  "reopen_each L g h [] ptrs = (None, ptrs)"
| "reopen_each L g h ((name, c) # cs) ptrs =
     (case dl_open L h (g, vc_name c) of
        Some e \<Rightarrow> (Some e, ptrs)
      | None \<Rightarrow> reopen_each L g h cs (smap_insert name (g, vc_name c) ptrs))"

definition da00_reopen ::
  "('h, 'f) array_lib \<Rightarrow> node \<Rightarrow> da00_Writer \<Rightarrow> 'h \<Rightarrow> InitResult \<times> da00_Writer" where
  "da00_reopen L g w h =
     (case reopen_each L g h (filter (complete_variable \<circ> snd) (dw_VariableConfigMap w)) (dw_VariablePtrs w) of
        (Some e, ptrs) \<Rightarrow> (IR_ERROR, w\<lparr>dw_VariablePtrs := ptrs\<rparr>)
      | (None, ptrs) \<Rightarrow> let w = w\<lparr>dw_VariablePtrs := ptrs\<rparr> in
      case reopen_each L g h (filter (complete_constant \<circ> snd) (dw_ConstantConfigMap w)) (dw_ConstantPtrs w) of
        (Some e, ptrs) \<Rightarrow> (IR_ERROR, w\<lparr>dw_ConstantPtrs := ptrs\<rparr>)
      | (None, ptrs) \<Rightarrow> let w = w\<lparr>dw_ConstantPtrs := ptrs\<rparr> in
      case open_dataset (dataset_lib.truncate L) CueIndex g h of
        Inl e \<Rightarrow> (IR_ERROR, w)
      | Inr d \<Rightarrow> let w = w\<lparr>dw_CueIndex := d\<rparr> in
      case open_dataset (dataset_lib.truncate L) CueTimestampZero g h of
        Inl e \<Rightarrow> (IR_ERROR, w)
      | Inr d \<Rightarrow> let w = w\<lparr>dw_CueTimestampZero := d\<rparr> in
      case open_dataset (dataset_lib.truncate L) Time g h of
        Inl e \<Rightarrow> (IR_ERROR, w)
      | Inr d \<Rightarrow> (IR_OK, w\<lparr>dw_Timestamp := d\<rparr>))"

section \<open>The first message\<close>

text \<open>The result is the exception, the map of configurations and the file.\<close>

fun complete_variables ::
  "('h, 'f) array_lib \<Rightarrow> (string \<times> dpath) list \<Rightarrow> da00_Variable list \<Rightarrow> (string \<times> VariableConfig) list \<Rightarrow> 'h
     \<Rightarrow> exn option \<times> (string \<times> VariableConfig) list \<times> 'h" where
  "complete_variables L ptrs [] m h = (None, m, h)"
| "complete_variables L ptrs (fbv # fbvs) m h =
     (let fb = VariableConfig_of_buffer fbv in
      case map_of m (vc_name fb) of
        None \<Rightarrow> complete_variables L ptrs fbvs m h
      | Some v \<Rightarrow>
          (case update_from fb False v of
             (Inl e, v) \<Rightarrow> (Some e, smap_insert (vc_name fb) v m, h)
           | (Inr (inconsistent, changed), v) \<Rightarrow>
               let m = smap_insert (vc_name fb) v m in
               (case (if changed then map_of ptrs (vc_name fb) else None) of
                  None \<Rightarrow> complete_variables L ptrs fbvs m h
                | Some p \<Rightarrow>
                    (case update_variable L p v h of
                       (Some e, h) \<Rightarrow> (Some e, m, h)
                     | (None, h) \<Rightarrow> complete_variables L ptrs fbvs m h))))"

definition complete_constant_dataset ::
  "'f array_env \<Rightarrow> ('h, 'f) array_lib \<Rightarrow> (string \<times> dpath) list \<Rightarrow> da00_Variable \<Rightarrow> bool \<Rightarrow> bool \<Rightarrow> VariableConfig \<Rightarrow> 'h
     \<Rightarrow> (exn option \<times> 'h) option" where
  "complete_constant_dataset env L ptrs fbv changed needs_data v h =
     (case (if changed \<or> needs_data then map_of ptrs (dv_name fbv) else None) of
        None \<Rightarrow> Some (None, h)
      | Some p \<Rightarrow>
          and_thenR (Some (if changed then update_constant L p v h else (None, h)))
            (\<lambda>h. if needs_data then write_constant_dataset env L p (the (dv_data fbv)) v h else Some (None, h)))"

fun complete_constants ::
  "'f array_env \<Rightarrow> ('h, 'f) array_lib \<Rightarrow> (string \<times> dpath) list \<Rightarrow> da00_Variable list \<Rightarrow> (string \<times> VariableConfig) list \<Rightarrow> 'h
     \<Rightarrow> (exn option \<times> (string \<times> VariableConfig) list \<times> 'h) option" where
  "complete_constants env L ptrs [] m h = Some (None, m, h)"
| "complete_constants env L ptrs (fbv # fbvs) m h =
     (let fb = VariableConfig_of_buffer fbv in
      case map_of m (vc_name fb) of
        None \<Rightarrow> complete_constants env L ptrs fbvs m h
      | Some v \<Rightarrow>
          (case update_from fb False v of
             (Inl e, v) \<Rightarrow> Some (Some e, smap_insert (vc_name fb) v m, h)
           | (Inr (inconsistent, changed), v) \<Rightarrow>
               let m = smap_insert (vc_name fb) v m in
               (case (case (vc_data v, dv_data fbv) of
                        (None, Some _) \<Rightarrow> Some (Inr True)
                      | (Some d, Some bs) \<Rightarrow> map_option (map_sum id (\<lambda>_. False)) (compare_data (de_json env) bs d)
                      | _ \<Rightarrow> Some (Inr False)) of
                  None \<Rightarrow> None
                | Some (Inl e) \<Rightarrow> Some (Some e, m, h)
                | Some (Inr needs_data) \<Rightarrow>
                    (case complete_constant_dataset env L ptrs fbv changed needs_data v h of
                       None \<Rightarrow> None
                     | Some (Some e, h) \<Rightarrow> Some (Some e, m, h)
                     | Some (None, h) \<Rightarrow> complete_constants env L ptrs fbvs m h))))"

definition handle_first_message ::
  "'f array_env \<Rightarrow> ('h, 'f) array_lib \<Rightarrow> da00_DataArray \<Rightarrow> da00_Writer \<Rightarrow> 'h \<Rightarrow> (exn option \<times> da00_Writer \<times> 'h) option" where
  "handle_first_message env L msg w h =
     (case complete_variables L (dw_VariablePtrs w) (da_data msg) (dw_VariableConfigMap w) h of
        (Some e, m, h) \<Rightarrow> Some (Some e, w\<lparr>dw_VariableConfigMap := m\<rparr>, h)
      | (None, m, h) \<Rightarrow> let w = w\<lparr>dw_VariableConfigMap := m\<rparr> in
          map_option (\<lambda>(r, m, h). (r, w\<lparr>dw_ConstantConfigMap := m\<rparr>, h))
            (complete_constants env L (dw_ConstantPtrs w) (da_data msg) (dw_ConstantConfigMap w) h))"

section \<open>Writing\<close>

text \<open>\<^verbatim>\<open>VariableConfigMap[name]\<close>, which inserts a default configuration when there is none.\<close>

definition default_VariableConfig :: VariableConfig where
  "default_VariableConfig =
     \<lparr>vc_name = [], vc_unit = None, vc_label = None, vc_source = None, vc_dtype = None, vc_shape = None, vc_axes = None,
      vc_data = None\<rparr>"

definition config_at :: "string \<Rightarrow> (string \<times> VariableConfig) list \<Rightarrow> VariableConfig \<times> (string \<times> VariableConfig) list" where
  "config_at name m =
     (case map_of m name of
        Some c \<Rightarrow> (c, m)
      | None \<Rightarrow> (default_VariableConfig, smap_insert name default_VariableConfig m))"

fun append_present ::
  "'f array_env \<Rightarrow> ('h, 'f, 'z) dataset_lib_scheme \<Rightarrow> (string \<times> dpath) list \<Rightarrow> da00_Variable list \<Rightarrow> (string \<times> VariableConfig) list
     \<Rightarrow> 'h \<Rightarrow> (exn option \<times> (string \<times> VariableConfig) list \<times> 'h) option" where
  "append_present env L ptrs [] m h = Some (None, m, h)"
| "append_present env L ptrs (fbv # fbvs) m h =
     (case map_of ptrs (dv_name fbv) of
        None \<Rightarrow> append_present env L ptrs fbvs m h
      | Some p \<Rightarrow>
          let (c, m) = config_at (dv_name fbv) m in
          (case variable_append env L p fbv c h of
             None \<Rightarrow> None
           | Some (Some e, h) \<Rightarrow> Some (Some e, m, h)
           | Some (None, h) \<Rightarrow> append_present env L ptrs fbvs m h))"

definition variable_order :: "(string \<times> dpath) list \<Rightarrow> da00_Variable list \<Rightarrow> string list" where
  "variable_order ptrs fbvs = filter (\<lambda>n. map_of ptrs n \<noteq> None) (map dv_name fbvs)"

fun append_missing ::
  "'f array_env \<Rightarrow> ('h, 'f, 'z) dataset_lib_scheme \<Rightarrow> string list \<Rightarrow> (string \<times> dpath) list \<Rightarrow> (string \<times> VariableConfig) list
     \<Rightarrow> 'h \<Rightarrow> (exn option \<times> (string \<times> VariableConfig) list \<times> 'h) option" where
  "append_missing env L order [] m h = Some (None, m, h)"
| "append_missing env L order ((name, p) # ptrs) m h =
     (if name \<in> set order then append_missing env L order ptrs m h
      else
        let (c, m) = config_at name m in
        (case variable_append_missing env L p c h of
           None \<Rightarrow> None
         | Some (Some e, h) \<Rightarrow> Some (Some e, m, h)
         | Some (None, h) \<Rightarrow> append_missing env L order ptrs m h))"

definition append_row ::
  "'f array_env \<Rightarrow> ('h, 'f, 'z) dataset_lib_scheme \<Rightarrow> (string \<times> dpath) list \<Rightarrow> da00_Variable list \<Rightarrow> (string \<times> VariableConfig) list
     \<Rightarrow> 'h \<Rightarrow> (exn option \<times> (string \<times> VariableConfig) list \<times> 'h) option" where
  "append_row env L ptrs fbvs m h =
     (case append_present env L ptrs fbvs m h of
        None \<Rightarrow> None
      | Some (Some e, m, h) \<Rightarrow> Some (Some e, m, h)
      | Some (None, m, h) \<Rightarrow>
          let order = variable_order ptrs fbvs in
          if length order \<noteq> length ptrs then append_missing env L order ptrs m h else Some (None, m, h))"

definition da00_cue ::
  "('h, 'f) dataset_lib \<Rightarrow> int \<Rightarrow> da00_Writer \<Rightarrow> 'h \<Rightarrow> (exn + bool) \<times> da00_Writer \<times> 'h" where
  "da00_cue L timestamp w h =
     (let w = w\<lparr>dw_NrOfWrites := u64 (int (dw_NrOfWrites w) + 1), dw_CueCounter := u64 (int (dw_CueCounter w) + 1)\<rparr> in
      if dw_CueCounter w = dw_CueInterval w then
        (case appendElement L (HV_int (int (u64 (int (dw_NrOfWrites w) - 1)))) (dw_CueIndex w) h of
           (Some e, d, h) \<Rightarrow> (Inl e, w\<lparr>dw_CueIndex := d\<rparr>, h)
         | (None, d, h) \<Rightarrow> let w = w\<lparr>dw_CueIndex := d\<rparr> in
         case appendElement L (HV_int timestamp) (dw_CueTimestampZero w) h of
           (Some e, d, h) \<Rightarrow> (Inl e, w\<lparr>dw_CueTimestampZero := d\<rparr>, h)
         | (None, d, h) \<Rightarrow> (Inr True, w\<lparr>dw_CueTimestampZero := d, dw_CueCounter := 0\<rparr>, h))
      else (Inr True, w, h))"

definition da00_writeImpl ::
  "'f array_env \<Rightarrow> ('h, 'f) array_lib \<Rightarrow> da00_DataArray \<Rightarrow> da00_Writer \<Rightarrow> 'h
     \<Rightarrow> ((exn + bool) \<times> da00_Writer \<times> 'h) option" where
  "da00_writeImpl env L msg w h =
     (case (if dw_isFirstMessage w
            then map_option (\<lambda>(r, w, h). (r, if r = None then w\<lparr>dw_isFirstMessage := False\<rparr> else w, h))
                   (handle_first_message env L msg w h)
            else Some (None, w, h)) of
        None \<Rightarrow> None
      | Some (Some e, w, h) \<Rightarrow> Some (Inl e, w, h)
      | Some (None, w, h) \<Rightarrow>
          (case append_row env L (dw_VariablePtrs w) (da_data msg) (dw_VariableConfigMap w) h of
             None \<Rightarrow> None
           | Some (Some e, m, h) \<Rightarrow> Some (Inl e, w\<lparr>dw_VariableConfigMap := m\<rparr>, h)
           | Some (None, m, h) \<Rightarrow>
               let w = w\<lparr>dw_VariableConfigMap := m\<rparr> in
               Some (case appendElement (dataset_lib.truncate L) (HV_int (da_timestamp msg)) (dw_Timestamp w) h of
                       (Some e, d, h) \<Rightarrow> (Inl e, w\<lparr>dw_Timestamp := d\<rparr>, h)
                     | (None, d, h) \<Rightarrow>
                         da00_cue (dataset_lib.truncate L) (da_timestamp msg) (w\<lparr>dw_Timestamp := d\<rparr>) h)))"

section \<open>Rows in step\<close>

text \<open>What h5cpp documents of the extents of datasets. \<open>limit p\<close> are the maximum dimensions of the dataset: a
  resize within them succeeds, a write of a selection inside the extent with the right number of elements succeeds and
  changes no extent, and neither touches other datasets.\<close>

locale hdf5_extents =
  fixes L :: "('h, 'f) array_lib"
    and limit :: "dpath \<Rightarrow> nat list"
  assumes resizes: "dl_dims L h p \<noteq> [] \<Longrightarrow> list_all2 (\<le>) ds (limit p) \<Longrightarrow>
      \<exists>h'. dl_resize L p ds h = (None, h') \<and> dl_dims L h' = (dl_dims L h)(p := ds)"
    and extends: "dl_dims L h p = d # ds \<Longrightarrow> d + n \<le> hd (limit p) \<Longrightarrow>
      \<exists>h'. dl_extent L p 0 n h = (None, h') \<and> dl_dims L h' = (dl_dims L h)(p := (d + n) # ds)"
    and writes_inside: "list_all2 (\<lambda>(i, n) d. i + n \<le> d) (zip off block) (dl_dims L h p) \<Longrightarrow>
      length off = length block \<Longrightarrow> length vs = prod_list block \<Longrightarrow>
      \<exists>h'. dl_write L p off block vs h = (None, h') \<and> dl_dims L h' = dl_dims L h"
begin

text \<open>One more row in the datasets of a set.\<close>

definition one_row_more :: "dpath set \<Rightarrow> (dpath \<Rightarrow> nat list) \<Rightarrow> dpath \<Rightarrow> nat list" where
  "one_row_more P d = (\<lambda>q. if q \<in> P then Suc (hd (d q)) # tl (d q) else d q)"

lemma one_row_more_insert:
  assumes "d p = n # s" and "p \<notin> P"
  shows "one_row_more P (d(p := Suc n # s)) = one_row_more (insert p P) d"
  using assms by (auto simp: one_row_more_def fun_eq_iff)

lemma one_row_more_empty [simp]: "one_row_more {} d = d"
  by (simp add: one_row_more_def)

lemma append_row_array:
  assumes "dl_dims L h p = n # s" and "limit p = unlimited # s" and "n < unlimited" and "length vs = prod_list s"
  shows "\<exists>h'. da00_appendArray L p vs s h = Some (None, h') \<and> dl_dims L h' = (dl_dims L h)(p := Suc n # s)"
proof -
  have g: "grown_extent s s = s" unfolding grown_extent_def by (intro nth_equalityI) simp_all
  have "list_all2 (\<le>) (Suc n # s) (limit p)" using assms(2,3) by (simp add: list_all2_same)
  then obtain h1 where h1: "dl_resize L p (Suc n # s) h = (None, h1)" "dl_dims L h1 = (dl_dims L h)(p := Suc n # s)"
    using resizes [of h p] assms(1) by auto
  have "list_all2 (\<lambda>(i, m) d. i + m \<le> d) (zip (replicate (length s) 0) s) s"
    by (simp add: list_all2_conv_all_nth)
  then have "list_all2 (\<lambda>(i, m) d. i + m \<le> d) (zip (n # replicate (length s) 0) (1 # s)) (dl_dims L h1 p)"
    using h1(2) by simp
  then obtain h2 where "dl_write L p (n # replicate (length s) 0) (1 # s) vs h1 = (None, h2)" "dl_dims L h2 = dl_dims L h1"
    using writes_inside [of "n # replicate (length s) 0" "1 # s" h1 p vs] assms(4) by auto
  with h1 assms(1) show ?thesis by (simp add: appendArray_dims g and_then_def)
qed

lemma append_element_row:
  assumes "dl_dims L h (ed_dataset d) = [k]" and "ed_NrOfElements d = k" and "limit (ed_dataset d) = [unlimited]"
    and "k < unlimited"
  shows "\<exists>h'. appendElement (dataset_lib.truncate L) v d h = (None, add_elements 1 d, h') \<and>
    dl_dims L h' = (dl_dims L h)(ed_dataset d := [Suc k])"
proof -
  obtain h1 where h1: "dl_extent L (ed_dataset d) 0 1 h = (None, h1)" "dl_dims L h1 = (dl_dims L h)(ed_dataset d := [k + 1])"
    using extends [of h "ed_dataset d" k "[]" 1] assms by auto
  obtain h2 where "dl_write L (ed_dataset d) [k] [1] [v] h1 = (None, h2)" "dl_dims L h2 = dl_dims L h1"
    using writes_inside [of "[k]" "[1]" h1 "ed_dataset d" "[v]"] h1(2) by auto
  with h1 assms(2) show ?thesis by (simp add: appendElement_def and_then_def dataset_lib.truncate_def)
qed

end

text \<open>A writer with \<open>n\<close> rows: every open variable is configured with a type and a shape, its dataset has that shape, \<open>n\<close>
  rows and no limit on them, and the datasets are different ones. The times count the rows, too.\<close>

definition variable_ready :: "(dpath \<Rightarrow> nat list) \<Rightarrow> (dpath \<Rightarrow> nat list) \<Rightarrow> nat \<Rightarrow> (string \<times> VariableConfig) list \<Rightarrow> string \<times> dpath \<Rightarrow> bool" where
  "variable_ready limit dims n m np \<longleftrightarrow>
     (case map_of m (fst np) of
        None \<Rightarrow> False
      | Some c \<Rightarrow>
          (case (vc_dtype c, vc_shape c) of
             (Some T, Some s) \<Rightarrow>
               T \<noteq> D_unknown \<and> dims (snd np) = n # s \<and> limit (snd np) = unlimited # s \<and> prod_list s < 2 ^ 31
           | _ \<Rightarrow> False))"

definition counts_rows :: "(dpath \<Rightarrow> nat list) \<Rightarrow> (dpath \<Rightarrow> nat list) \<Rightarrow> nat \<Rightarrow> ExtensibleDatasetBase \<Rightarrow> bool" where
  "counts_rows limit dims k d \<longleftrightarrow>
     dims (ed_dataset d) = [k] \<and> ed_NrOfElements d = k \<and> limit (ed_dataset d) = [unlimited]"

definition in_step :: "(dpath \<Rightarrow> nat list) \<Rightarrow> (dpath \<Rightarrow> nat list) \<Rightarrow> nat \<Rightarrow> da00_Writer \<Rightarrow> bool" where
  "in_step limit dims n w \<longleftrightarrow>
     \<not> dw_isFirstMessage w \<and> distinct (map fst (dw_VariablePtrs w)) \<and>
     distinct (map snd (dw_VariablePtrs w) @ map ed_dataset [dw_Timestamp w, dw_CueIndex w, dw_CueTimestampZero w]) \<and>
     list_all (variable_ready limit dims n (dw_VariableConfigMap w)) (dw_VariablePtrs w) \<and>
     counts_rows limit dims n (dw_Timestamp w) \<and>
     (\<exists>k \<le> n. counts_rows limit dims k (dw_CueIndex w)) \<and> (\<exists>k \<le> n. counts_rows limit dims k (dw_CueTimestampZero w))"

text \<open>A message that fits: no variable twice, and the configured variables with their shape, enough data and no more axes
  than configured. Other variables may be there or not, and configured ones may be missing.\<close>

definition variable_fits :: "(string \<times> VariableConfig) list \<Rightarrow> da00_Variable \<Rightarrow> bool" where
  "variable_fits m v \<longleftrightarrow>
     (case map_of m (dv_name v) of
        None \<Rightarrow> True
      | Some c \<Rightarrow>
          (case (vc_shape c, dv_shape v, dv_data v) of
             (Some s, Some s', Some bs) \<Rightarrow>
               s' = s \<and> dv_data_type v \<noteq> D_unknown \<and> prod_list s * dtype_size (dv_data_type v) \<le> length bs \<and>
               (vc_axes c = None \<or> (\<exists>as bx. vc_axes c = Some as \<and> dv_axes v = Some bx \<and> length bx \<le> length as))
           | _ \<Rightarrow> False))"

definition message_fits :: "da00_Writer \<Rightarrow> da00_DataArray \<Rightarrow> bool" where
  "message_fits w msg \<longleftrightarrow>
     distinct (map dv_name (da_data msg)) \<and> list_all (variable_fits (dw_VariableConfigMap w)) (da_data msg)"

definition decodes :: "'f array_env \<Rightarrow> bool" where
  "decodes env \<longleftrightarrow> (\<forall>T bs n. length (de_decode env T bs n) = n)"

lemma u64_elements_per_row:
  assumes "prod_list s < 2 ^ 31"
  shows "elements_per_row s = int (prod_list s)" and "u64 (elements_per_row s) = prod_list s"
proof -
  show e: "elements_per_row s = int (prod_list s)" using assms by (simp add: elements_per_row_product s32_id)
  show "u64 (elements_per_row s) = prod_list s" unfolding e using assms by (simp add: u64_id)
qed

context hdf5_extents
begin

lemma variable_append_row:
  assumes "decodes env" and "variable_ready limit (dl_dims L h) n m (dv_name v, p)" and "map_of m (dv_name v) = Some c"
    and "variable_fits m v" and "n < unlimited"
  shows "\<exists>h' s. variable_append env L p v c h = Some (None, h') \<and> dl_dims L h p = n # s \<and>
    dl_dims L h' = (dl_dims L h)(p := Suc n # s)"
proof -
  obtain T s where c: "vc_dtype c = Some T" "vc_shape c = Some s" "dl_dims L h p = n # s" "limit p = unlimited # s"
    "prod_list s < 2 ^ 31"
    using assms(2,3) by (auto simp: variable_ready_def split: option.splits)
  then obtain bs where v: "dv_shape v = Some s" "dv_data v = Some bs" "dv_data_type v \<noteq> D_unknown"
    "prod_list s * dtype_size (dv_data_type v) \<le> length bs"
    "vc_axes c = None \<or> (\<exists>as bx. vc_axes c = Some as \<and> dv_axes v = Some bx \<and> length bx \<le> length as)"
    using assms(3,4) by (auto simp: variable_fits_def split: option.splits)
  from append_row_array [OF c(3,4) assms(5), of "de_decode env (dv_data_type v) bs (prod_list s)"] assms(1)
  obtain h' where "da00_appendArray L p (de_decode env (dv_data_type v) bs (prod_list s)) s h = Some (None, h')"
    "dl_dims L h' = (dl_dims L h)(p := Suc n # s)" by (auto simp: decodes_def)
  with c v show ?thesis
    by (auto simp: variable_append_def append_variable_def u64_elements_per_row(2) [OF c(5)])
qed

lemma variable_missing_row:
  assumes "variable_ready limit (dl_dims L h) n m (name, p)" and "map_of m name = Some c" and "n < unlimited"
  shows "\<exists>h' s. variable_append_missing env L p c h = Some (None, h') \<and> dl_dims L h p = n # s \<and>
    dl_dims L h' = (dl_dims L h)(p := Suc n # s)"
proof -
  obtain T s where c: "vc_dtype c = Some T" "T \<noteq> D_unknown" "vc_shape c = Some s" "dl_dims L h p = n # s"
    "limit p = unlimited # s" "prod_list s < 2 ^ 31"
    using assms(1,2) by (auto simp: variable_ready_def split: option.splits)
  from append_row_array [OF c(4,5) assms(3), of "replicate (prod_list s) (missing_value (de_nan env) T)"]
  show ?thesis
    using c by (auto simp: variable_append_missing_def append_missing_variable_def u64_elements_per_row [OF c(6)])
qed

lemma ready_elsewhere:
  assumes "variable_ready limit d n m np" and "snd np \<noteq> p"
  shows "variable_ready limit (d(p := x)) n m np"
  using assms by (auto simp: variable_ready_def split: option.splits)

lemma ready_config: "variable_ready limit d n m (name, p) \<Longrightarrow> \<exists>c. map_of m name = Some c"
  by (auto simp: variable_ready_def split: option.splits)

lemma append_present_rows:
  assumes "decodes env" and "n < unlimited" and "distinct (map fst ptrs)" and "distinct (map snd ptrs)"
    and "distinct (map dv_name fbvs)" and "list_all (variable_fits m) fbvs"
    and "\<And>np. np \<in> set ptrs \<Longrightarrow> fst np \<in> dv_name ` set fbvs \<Longrightarrow> variable_ready limit (dl_dims L h) n m np"
  shows "\<exists>h'. append_present env L ptrs fbvs m h = Some (None, m, h') \<and>
    dl_dims L h' = one_row_more {p. \<exists>v \<in> set fbvs. map_of ptrs (dv_name v) = Some p} (dl_dims L h)"
  using assms(5-7)
proof (induction fbvs arbitrary: h)
  case Nil
  then show ?case by simp
next
  case (Cons v fbvs)
  show ?case
  proof (cases "map_of ptrs (dv_name v)")
    case None
    have "\<exists>h'. append_present env L ptrs fbvs m h = Some (None, m, h') \<and>
        dl_dims L h' = one_row_more {p. \<exists>v \<in> set fbvs. map_of ptrs (dv_name v) = Some p} (dl_dims L h)"
      using Cons.prems by (intro Cons.IH) auto
    with None show ?thesis by simp
  next
    case (Some p)
    then have mem: "(dv_name v, p) \<in> set ptrs" by (rule map_of_SomeD)
    have ready: "variable_ready limit (dl_dims L h) n m (dv_name v, p)" using Cons.prems(3) [OF mem] by simp
    then obtain c where c: "map_of m (dv_name v) = Some c" using ready_config by blast
    have "variable_fits m v" using Cons.prems(2) by simp
    from variable_append_row [OF assms(1) ready c this assms(2)] obtain h1 s where
      h1: "variable_append env L p v c h = Some (None, h1)" "dl_dims L h p = n # s"
      "dl_dims L h1 = (dl_dims L h)(p := Suc n # s)" by blast
    have other: "q \<noteq> p" if "(name, q) \<in> set ptrs" "name \<noteq> dv_name v" for name q
      using that mem assms(4) by (metis distinct_map inj_on_contraD old.prod.inject snd_conv)
    have "variable_ready limit (dl_dims L h1) n m np" if "np \<in> set ptrs" "fst np \<in> dv_name ` set fbvs" for np
    proof -
      have "fst np \<noteq> dv_name v" using that(2) Cons.prems(1) by auto
      then show ?thesis
        unfolding h1(3) using that other [of "fst np" "snd np"] Cons.prems(3) [OF that(1)] by (intro ready_elsewhere) auto
    qed
    then have "\<exists>h2. append_present env L ptrs fbvs m h1 = Some (None, m, h2) \<and>
        dl_dims L h2 = one_row_more {p. \<exists>v \<in> set fbvs. map_of ptrs (dv_name v) = Some p} (dl_dims L h1)"
      using Cons.prems(1,2) by (intro Cons.IH) auto
    then obtain h2 where h2: "append_present env L ptrs fbvs m h1 = Some (None, m, h2)"
      "dl_dims L h2 = one_row_more {p. \<exists>v \<in> set fbvs. map_of ptrs (dv_name v) = Some p} (dl_dims L h1)" by blast
    have "p \<notin> {p. \<exists>v \<in> set fbvs. map_of ptrs (dv_name v) = Some p}"
    proof
      assume "p \<in> {p. \<exists>v \<in> set fbvs. map_of ptrs (dv_name v) = Some p}"
      then obtain u where "u \<in> set fbvs" "(dv_name u, p) \<in> set ptrs" by (auto dest: map_of_SomeD)
      moreover from this have "dv_name u \<noteq> dv_name v" using Cons.prems(1) by (auto simp: image_iff)
      ultimately show False using other by blast
    qed
    then have "dl_dims L h2 = one_row_more (insert p {p. \<exists>v \<in> set fbvs. map_of ptrs (dv_name v) = Some p}) (dl_dims L h)"
      using h2(2) h1 by (simp add: one_row_more_insert)
    moreover have "insert p {p. \<exists>v \<in> set fbvs. map_of ptrs (dv_name v) = Some p} =
        {p. \<exists>v \<in> set (v # fbvs). map_of ptrs (dv_name v) = Some p}" using Some by auto
    ultimately show ?thesis using Some c h1(1) h2(1) by (simp add: config_at_def)
  qed
qed

lemma append_missing_rows:
  assumes "n < unlimited" and "distinct (map snd ptrs)"
    and "\<And>np. np \<in> set ptrs \<Longrightarrow> fst np \<notin> set order \<Longrightarrow> variable_ready limit (dl_dims L h) n m np"
  shows "\<exists>h'. append_missing env L order ptrs m h = Some (None, m, h') \<and>
    dl_dims L h' = one_row_more (snd ` {np \<in> set ptrs. fst np \<notin> set order}) (dl_dims L h)"
  using assms(2,3)
proof (induction ptrs arbitrary: h)
  case Nil
  then show ?case by simp
next
  case (Cons np ptrs)
  obtain name p where np: "np = (name, p)" by (cases np)
  have set_eq: "{np' \<in> set (np # ptrs). fst np' \<notin> set order} =
      (if name \<in> set order then {} else {np}) \<union> {np \<in> set ptrs. fst np \<notin> set order}" using np by auto
  show ?case
  proof (cases "name \<in> set order")
    case True
    with Cons show ?thesis unfolding set_eq by (simp add: np)
  next
    case False
    have ready: "variable_ready limit (dl_dims L h) n m (name, p)" using Cons.prems(2) [of np] False np by simp
    then obtain c where c: "map_of m name = Some c" using ready_config by blast
    from variable_missing_row [OF ready c assms(1)] obtain h1 s where
      h1: "variable_append_missing env L p c h = Some (None, h1)" "dl_dims L h p = n # s"
      "dl_dims L h1 = (dl_dims L h)(p := Suc n # s)" by blast
    have p: "p \<notin> snd ` set ptrs" using Cons.prems(1) np by simp
    have "variable_ready limit (dl_dims L h1) n m np'" if "np' \<in> set ptrs" "fst np' \<notin> set order" for np'
      unfolding h1(3) using that p Cons.prems(2) [of np'] by (intro ready_elsewhere) force+
    then have "\<exists>h2. append_missing env L order ptrs m h1 = Some (None, m, h2) \<and>
        dl_dims L h2 = one_row_more (snd ` {np \<in> set ptrs. fst np \<notin> set order}) (dl_dims L h1)"
      using Cons.prems(1) by (intro Cons.IH) auto
    then obtain h2 where h2: "append_missing env L order ptrs m h1 = Some (None, m, h2)"
      "dl_dims L h2 = one_row_more (snd ` {np \<in> set ptrs. fst np \<notin> set order}) (dl_dims L h1)" by blast
    have "p \<notin> snd ` {np \<in> set ptrs. fst np \<notin> set order}" using p by auto
    then show ?thesis
      unfolding set_eq using False np c h1 h2 by (simp add: config_at_def one_row_more_insert)
  qed
qed

lemma one_row_more_union:
  assumes "P \<inter> Q = {}"
  shows "one_row_more Q (one_row_more P d) = one_row_more (P \<union> Q) d"
  using assms by (auto simp: one_row_more_def fun_eq_iff)

lemma ready_untouched:
  assumes "variable_ready limit d n m np" and "snd np \<notin> P"
  shows "variable_ready limit (one_row_more P d) n m np"
  using assms by (auto simp: variable_ready_def one_row_more_def split: option.splits)

lemma append_row_rows:
  assumes "decodes env" and "n < unlimited" and "distinct (map fst ptrs)" and "distinct (map snd ptrs)"
    and "distinct (map dv_name fbvs)" and "list_all (variable_fits m) fbvs"
    and "list_all (variable_ready limit (dl_dims L h) n m) ptrs"
  shows "\<exists>h'. append_row env L ptrs fbvs m h = Some (None, m, h') \<and>
    dl_dims L h' = one_row_more (snd ` set ptrs) (dl_dims L h)"
proof -
  let ?order = "variable_order ptrs fbvs"
  let ?P = "{p. \<exists>v \<in> set fbvs. map_of ptrs (dv_name v) = Some p}"
  let ?Q = "snd ` {np \<in> set ptrs. fst np \<notin> set ?order}"
  have order: "set ?order = fst ` set ptrs \<inter> dv_name ` set fbvs" "distinct ?order"
    using assms(5) by (auto simp: variable_order_def map_of_eq_None_iff)
  have P: "?P = snd ` {np \<in> set ptrs. fst np \<in> set ?order}"
  proof (intro set_eqI iffI)
    fix p assume "p \<in> ?P"
    then obtain v where "v \<in> set fbvs" "(dv_name v, p) \<in> set ptrs" by (auto dest: map_of_SomeD)
    then show "p \<in> snd ` {np \<in> set ptrs. fst np \<in> set ?order}" unfolding order by force
  next
    fix p assume "p \<in> snd ` {np \<in> set ptrs. fst np \<in> set ?order}"
    then obtain v where "v \<in> set fbvs" "(dv_name v, p) \<in> set ptrs" unfolding order by auto
    then show "p \<in> ?P" using assms(3) by (auto intro: map_of_is_SomeI)
  qed
  have disj: "?P \<inter> ?Q = {}" unfolding P using assms(4) by (fastforce simp: distinct_map inj_on_def)
  have union: "?P \<union> ?Q = snd ` set ptrs" unfolding P by auto
  have ready: "variable_ready limit (dl_dims L h) n m np" if "np \<in> set ptrs" for np
    using assms(7) that by (simp add: list_all_iff)
  from append_present_rows [OF assms(1-6), of h] ready obtain h1 where
    h1: "append_present env L ptrs fbvs m h = Some (None, m, h1)" "dl_dims L h1 = one_row_more ?P (dl_dims L h)" by blast
  show ?thesis
  proof (cases "length ?order = length ptrs")
    case True
    have "set ?order = fst ` set ptrs"
    proof (rule card_subset_eq)
      show "card (set ?order) = card (fst ` set ptrs)"
        using True order(2) assms(3) by (metis distinct_card length_map set_map)
    qed (simp_all add: order(1))
    then have "?P = snd ` set ptrs" unfolding P by auto
    then show ?thesis using True h1 by (simp add: append_row_def)
  next
    case False
    have "variable_ready limit (dl_dims L h1) n m np" if "np \<in> set ptrs" "fst np \<notin> set ?order" for np
    proof -
      have "snd np \<notin> ?P" using disj that by blast
      then show ?thesis unfolding h1(2) using ready [OF that(1)] by (rule ready_untouched [rotated])
    qed
    from append_missing_rows [OF assms(2,4) this] obtain h2 where
      "append_missing env L ?order ptrs m h1 = Some (None, m, h2)" "dl_dims L h2 = one_row_more ?Q (dl_dims L h1)" by blast
    then show ?thesis using False h1 by (simp add: append_row_def one_row_more_union [OF disj] union)
  qed
qed

lemma counts_other:
  assumes "counts_rows limit d k x" and "ed_dataset x \<noteq> p"
  shows "counts_rows limit (d(p := y)) k x"
  using assms by (simp add: counts_rows_def)

lemma counts_next:
  assumes "counts_rows limit (dl_dims L h) k x" and "k < unlimited"
  shows "\<exists>h'. appendElement (dataset_lib.truncate L) v x h = (None, add_elements 1 x, h') \<and>
    dl_dims L h' = (dl_dims L h)(ed_dataset x := [Suc k]) \<and> counts_rows limit (dl_dims L h') (Suc k) (add_elements 1 x)"
  using append_element_row [of h x k v] assms by (auto simp: counts_rows_def add_elements_def)

lemma ready_next:
  assumes "variable_ready limit d n m np"
  shows "variable_ready limit (one_row_more P d) (Suc n) m np \<longleftrightarrow> snd np \<in> P"
  using assms by (auto simp: variable_ready_def one_row_more_def split: option.splits)

lemma ready_cong:
  assumes "d' (snd np) = d (snd np)"
  shows "variable_ready limit d' n m np = variable_ready limit d n m np"
  using assms by (auto simp: variable_ready_def split: option.splits)

lemma counts_cong:
  assumes "d' (ed_dataset x) = d (ed_dataset x)"
  shows "counts_rows limit d' k x = counts_rows limit d k x"
  using assms by (simp add: counts_rows_def)

text \<open>The cue, which is written every \<open>dw_CueInterval\<close> messages.\<close>

lemma cue_rows:
  assumes "counts_rows limit (dl_dims L h) i (dw_CueIndex w)" and "counts_rows limit (dl_dims L h) k (dw_CueTimestampZero w)"
    and "i < unlimited" and "k < unlimited" and "ed_dataset (dw_CueIndex w) \<noteq> ed_dataset (dw_CueTimestampZero w)"
  shows "\<exists>w' h' i' k'. da00_cue (dataset_lib.truncate L) t w h = (Inr True, w', h') \<and> i' \<le> Suc i \<and> k' \<le> Suc k \<and>
    counts_rows limit (dl_dims L h') i' (dw_CueIndex w') \<and> counts_rows limit (dl_dims L h') k' (dw_CueTimestampZero w') \<and>
    (\<forall>q. q \<noteq> ed_dataset (dw_CueIndex w) \<and> q \<noteq> ed_dataset (dw_CueTimestampZero w) \<longrightarrow> dl_dims L h' q = dl_dims L h q) \<and>
    w' = w\<lparr>dw_NrOfWrites := dw_NrOfWrites w', dw_CueCounter := dw_CueCounter w', dw_CueIndex := dw_CueIndex w',
           dw_CueTimestampZero := dw_CueTimestampZero w'\<rparr> \<and>
    ed_dataset (dw_CueIndex w') = ed_dataset (dw_CueIndex w) \<and>
    ed_dataset (dw_CueTimestampZero w') = ed_dataset (dw_CueTimestampZero w)"
proof -
  let ?w = "w\<lparr>dw_NrOfWrites := u64 (int (dw_NrOfWrites w) + 1), dw_CueCounter := u64 (int (dw_CueCounter w) + 1)\<rparr>"
  let ?v = "HV_int (int (u64 (int (dw_NrOfWrites ?w) - 1)))"
  obtain h1 where h1: "appendElement (dataset_lib.truncate L) ?v (dw_CueIndex w) h = (None, add_elements 1 (dw_CueIndex w), h1)"
    "dl_dims L h1 = (dl_dims L h)(ed_dataset (dw_CueIndex w) := [Suc i])"
    "counts_rows limit (dl_dims L h1) (Suc i) (add_elements 1 (dw_CueIndex w))"
    using counts_next [OF assms(1,3)] by blast
  have "counts_rows limit (dl_dims L h1) k (dw_CueTimestampZero w)"
    unfolding h1(2) using assms(2,5) by (intro counts_other) auto
  then obtain h2 where h2: "appendElement (dataset_lib.truncate L) (HV_int t) (dw_CueTimestampZero w) h1 =
      (None, add_elements 1 (dw_CueTimestampZero w), h2)"
    "dl_dims L h2 = (dl_dims L h1)(ed_dataset (dw_CueTimestampZero w) := [Suc k])"
    "counts_rows limit (dl_dims L h2) (Suc k) (add_elements 1 (dw_CueTimestampZero w))"
    using counts_next [OF _ assms(4)] by blast
  have i2: "counts_rows limit (dl_dims L h2) (Suc i) (add_elements 1 (dw_CueIndex w))"
    unfolding h2(2) using h1(3) assms(5) by (intro counts_other) (auto simp: add_elements_def)
  show ?thesis
  proof (cases "dw_CueCounter ?w = dw_CueInterval w")
    case True
    then have "da00_cue (dataset_lib.truncate L) t w h =
        (Inr True, ?w\<lparr>dw_CueIndex := add_elements 1 (dw_CueIndex w),
           dw_CueTimestampZero := add_elements 1 (dw_CueTimestampZero w), dw_CueCounter := 0\<rparr>, h2)"
      using h1(1) h2(1) by (simp add: da00_cue_def Let_def)
    then show ?thesis
      using h1(2) h2(2,3) i2
      by (intro exI [of _ "?w\<lparr>dw_CueIndex := add_elements 1 (dw_CueIndex w),
           dw_CueTimestampZero := add_elements 1 (dw_CueTimestampZero w), dw_CueCounter := 0\<rparr>"] exI [of _ h2]
          exI [of _ "Suc i"] exI [of _ "Suc k"]) (simp add: add_elements_def)
  next
    case False
    then have "da00_cue (dataset_lib.truncate L) t w h = (Inr True, ?w, h)" by (simp add: da00_cue_def Let_def)
    then show ?thesis
      using assms(1,2) by (intro exI [of _ ?w] exI [of _ h] exI [of _ i] exI [of _ k]) simp
  qed
qed

text \<open>The first part of a write: a row for every variable, and the time.\<close>

lemma row_and_time:
  assumes "decodes env" and "in_step limit (dl_dims L h) n w" and "message_fits w msg" and "n < unlimited"
  obtains h1 h2 where
    "append_row env L (dw_VariablePtrs w) (da_data msg) (dw_VariableConfigMap w) h = Some (None, dw_VariableConfigMap w, h1)"
    "appendElement (dataset_lib.truncate L) (HV_int (da_timestamp msg)) (dw_Timestamp w) h1 =
      (None, add_elements 1 (dw_Timestamp w), h2)"
    "dl_dims L h2 =
      (one_row_more (snd ` set (dw_VariablePtrs w)) (dl_dims L h))(ed_dataset (dw_Timestamp w) := [Suc n])"
    "counts_rows limit (dl_dims L h2) (Suc n) (add_elements 1 (dw_Timestamp w))"
proof -
  let ?ptrs = "dw_VariablePtrs w" and ?m = "dw_VariableConfigMap w"
  note inv = assms(2) [unfolded in_step_def]
  from append_row_rows [OF assms(1,4), of ?ptrs "da_data msg" ?m h] inv assms(3) obtain h1 where
    h1: "append_row env L ?ptrs (da_data msg) ?m h = Some (None, ?m, h1)"
    "dl_dims L h1 = one_row_more (snd ` set ?ptrs) (dl_dims L h)" by (auto simp: message_fits_def)
  have "dl_dims L h1 (ed_dataset (dw_Timestamp w)) = dl_dims L h (ed_dataset (dw_Timestamp w))"
    using inv h1(2) by (auto simp: one_row_more_def)
  then have "counts_rows limit (dl_dims L h1) n (dw_Timestamp w)" using inv by (simp add: counts_rows_def)
  from counts_next [OF this assms(4)] obtain h2 where
    h2: "appendElement (dataset_lib.truncate L) (HV_int (da_timestamp msg)) (dw_Timestamp w) h1 =
      (None, add_elements 1 (dw_Timestamp w), h2)"
    "dl_dims L h2 = (dl_dims L h1)(ed_dataset (dw_Timestamp w) := [Suc n])"
    "counts_rows limit (dl_dims L h2) (Suc n) (add_elements 1 (dw_Timestamp w))" by blast
  show ?thesis by (rule that [OF h1(1) h2(1) _ h2(3)]) (simp add: h1(2) h2(2))
qed

lemma step_in_step:
  assumes "decodes env" and "in_step limit (dl_dims L h) n w" and "message_fits w msg" and "n < unlimited"
  shows "\<exists>w' h'. da00_writeImpl env L msg w h = Some (Inr True, w', h') \<and> in_step limit (dl_dims L h') (Suc n) w' \<and>
    dw_VariablePtrs w' = dw_VariablePtrs w \<and> dw_VariableConfigMap w' = dw_VariableConfigMap w"
proof -
  let ?ptrs = "dw_VariablePtrs w" and ?m = "dw_VariableConfigMap w"
  let ?t = "ed_dataset (dw_Timestamp w)" and ?i = "ed_dataset (dw_CueIndex w)" and ?k = "ed_dataset (dw_CueTimestampZero w)"
  note inv = assms(2) [unfolded in_step_def]
  obtain i k where ik: "i \<le> n" "k \<le> n" "counts_rows limit (dl_dims L h) i (dw_CueIndex w)"
    "counts_rows limit (dl_dims L h) k (dw_CueTimestampZero w)" using inv by blast
  have dist: "?t \<notin> snd ` set ?ptrs" "?i \<notin> snd ` set ?ptrs" "?k \<notin> snd ` set ?ptrs" "?t \<noteq> ?i" "?t \<noteq> ?k" "?i \<noteq> ?k"
    "distinct (map snd ?ptrs)" using inv by auto
  obtain h1 h2 where h1: "append_row env L ?ptrs (da_data msg) ?m h = Some (None, ?m, h1)"
    and h2: "appendElement (dataset_lib.truncate L) (HV_int (da_timestamp msg)) (dw_Timestamp w) h1 =
      (None, add_elements 1 (dw_Timestamp w), h2)"
    "dl_dims L h2 = (one_row_more (snd ` set ?ptrs) (dl_dims L h))(?t := [Suc n])"
    "counts_rows limit (dl_dims L h2) (Suc n) (add_elements 1 (dw_Timestamp w))"
    by (rule row_and_time [OF assms])
  have same2: "dl_dims L h2 q = dl_dims L h q" if "q \<notin> snd ` set ?ptrs" "q \<noteq> ?t" for q
    using that h2(2) by (simp add: one_row_more_def)
  define w2 where "w2 = w\<lparr>dw_VariableConfigMap := ?m, dw_Timestamp := add_elements 1 (dw_Timestamp w)\<rparr>"
  have "counts_rows limit (dl_dims L h2) i (dw_CueIndex w2)" "counts_rows limit (dl_dims L h2) k (dw_CueTimestampZero w2)"
    using ik(3,4) same2 [OF dist(2) dist(4) [symmetric]] same2 [OF dist(3) dist(5) [symmetric]]
    by (simp_all add: w2_def counts_rows_def)
  moreover have "i < unlimited" "k < unlimited" "ed_dataset (dw_CueIndex w2) \<noteq> ed_dataset (dw_CueTimestampZero w2)"
    using ik assms(4) dist(6) by (simp_all add: w2_def)
  ultimately obtain w3 h3 i' k' where w3: "da00_cue (dataset_lib.truncate L) (da_timestamp msg) w2 h2 = (Inr True, w3, h3)"
    "i' \<le> Suc i" "k' \<le> Suc k" "counts_rows limit (dl_dims L h3) i' (dw_CueIndex w3)"
    "counts_rows limit (dl_dims L h3) k' (dw_CueTimestampZero w3)"
    and same3: "\<forall>q. q \<noteq> ?i \<and> q \<noteq> ?k \<longrightarrow> dl_dims L h3 q = dl_dims L h2 q"
    and keep: "w3 = w2\<lparr>dw_NrOfWrites := dw_NrOfWrites w3, dw_CueCounter := dw_CueCounter w3, dw_CueIndex := dw_CueIndex w3,
           dw_CueTimestampZero := dw_CueTimestampZero w3\<rparr>"
      "ed_dataset (dw_CueIndex w3) = ?i" "ed_dataset (dw_CueTimestampZero w3) = ?k"
    using cue_rows [of h2 i w2 k "da_timestamp msg"] by (auto simp: w2_def)
  have fields: "dw_VariablePtrs w3 = ?ptrs" "dw_VariableConfigMap w3 = ?m" "\<not> dw_isFirstMessage w3"
    "dw_Timestamp w3 = add_elements 1 (dw_Timestamp w)"
    using inv by (subst keep(1), simp add: w2_def)+
  have ready: "variable_ready limit (dl_dims L h3) (Suc n) ?m np" if "np \<in> set ?ptrs" for np
  proof -
    have "snd np \<in> snd ` set ?ptrs" using that by simp
    then have "snd np \<noteq> ?t" "snd np \<noteq> ?i" "snd np \<noteq> ?k" using dist(1-3) by metis+
    then have "dl_dims L h3 (snd np) = one_row_more (snd ` set ?ptrs) (dl_dims L h) (snd np)"
      using same3 [rule_format, of "snd np"] h2(2) by simp
    moreover have "variable_ready limit (dl_dims L h) n ?m np" using inv that by (simp add: list_all_iff)
    then have "variable_ready limit (one_row_more (snd ` set ?ptrs) (dl_dims L h)) (Suc n) ?m np" using that by (simp add: ready_next)
    ultimately show ?thesis using ready_cong by blast
  qed
  have "counts_rows limit (dl_dims L h3) (Suc n) (dw_Timestamp w3)"
    using h2(3) same3 [rule_format, of ?t] dist(4,5) fields(4) by (simp add: counts_rows_def add_elements_def)
  moreover have "i' \<le> Suc n" "k' \<le> Suc n" using w3(2,3) ik(1,2) by simp_all
  ultimately have "in_step limit (dl_dims L h3) (Suc n) w3"
    using inv fields keep(2,3) ready w3(4,5) by (auto simp: in_step_def list_all_iff add_elements_def)
  moreover have "da00_writeImpl env L msg w h = Some (Inr True, w3, h3)"
    using inv h1 h2(1) w3(1) by (simp add: da00_writeImpl_def w2_def Let_def)
  ultimately show ?thesis using fields by blast
qed

end

text \<open>The messages of a job one after the other; the writer is given up at the first that fails.\<close>

fun da00_writes ::
  "'f array_env \<Rightarrow> ('h, 'f) array_lib \<Rightarrow> da00_DataArray list \<Rightarrow> da00_Writer \<Rightarrow> 'h \<Rightarrow> (da00_Writer \<times> 'h) option" where
  "da00_writes env L [] w h = Some (w, h)"
| "da00_writes env L (msg # msgs) w h =
     (case da00_writeImpl env L msg w h of
        Some (Inr _, w, h) \<Rightarrow> da00_writes env L msgs w h
      | _ \<Rightarrow> None)"

lemma message_fits_cong:
  "dw_VariableConfigMap w' = dw_VariableConfigMap w \<Longrightarrow> message_fits w' msg = message_fits w msg"
  by (simp add: message_fits_def)


text \<open>Files of which only the extents are kept.\<close>

type_synonym extents = "(dpath \<times> nat list) list"

definition dims_of :: "extents \<Rightarrow> dpath \<Rightarrow> nat list" where
  "dims_of h p = (case map_of h p of None \<Rightarrow> [] | Some d \<Rightarrow> d)"

definition extents_lib :: "(extents, 'f) array_lib" where
  "extents_lib =
     \<lparr>dl_create = \<lambda>p T ds chunk h. (None, (p, ds) # h), dl_open = \<lambda>h p. if map_of h p = None then Some (Runtime_Error []) else None,
      dl_dims = dims_of, dl_string_size = \<lambda>h p. 0,
      dl_extent = \<lambda>p i n h. (None, (p, (dims_of h p)[i := dims_of h p ! i + n]) # h),
      dl_resize = \<lambda>p ds h. (None, (p, ds) # h), dl_write = \<lambda>p off block vs h. (None, h), dl_attr = \<lambda>p k v h. (None, h),
      ar_create = \<lambda>p T ds m c h. (None, (p, ds) # h), ar_max_dims = \<lambda>h p. [], ar_scalar = \<lambda>h p. False,
      ar_write_all = \<lambda>p vs h. (None, h), ar_attr_exists = \<lambda>h p a. False, ar_attr_read = \<lambda>h p a. Inr [],
      ar_attr_create = \<lambda>p a n h. (None, h), ar_attr_write = \<lambda>p a v h. (None, h)\<rparr>"

interpretation exl: hdf5_extents extents_lib limit for limit
  by unfold_locales (auto simp: extents_lib_def dims_of_def fun_eq_iff)

definition plain_env :: "int array_env" where
  "plain_env =
     \<lparr>de_json = plain_json,
      de_number = \<lambda>T. \<lparr>nt_get = \<lambda>j. Inr (HV_int 0), nt_of_int = HV_int, nt_step = \<lambda>f l n. None, nt_at = \<lambda>f i s. f\<rparr>,
      de_decode = \<lambda>T bs n. replicate n (HV_int 0), de_nan = 0\<rparr>"

definition two_variables :: da00_Writer where
  "two_variables =
     \<lparr>dw_Timestamp = \<lparr>ed_dataset = ([], ''time''), ed_NrOfElements = 0\<rparr>,
      dw_CueIndex = \<lparr>ed_dataset = ([], ''cue_index''), ed_NrOfElements = 0\<rparr>,
      dw_CueTimestampZero = \<lparr>ed_dataset = ([], ''cue_timestamp_zero''), ed_NrOfElements = 0\<rparr>,
      dw_CueInterval = 2, dw_ChunkSize = [1], dw_VariablesField = [], dw_ConstantsField = [], dw_AttributesField = [],
      dw_CueCounter = 0, dw_NrOfWrites = 0, dw_isFirstMessage = False,
      dw_VariableConfigMap =
        [(''a'', sample_variable\<lparr>vc_name := ''a'', vc_shape := Some [1]\<rparr>),
         (''b'', sample_variable\<lparr>vc_name := ''b'', vc_shape := Some [1]\<rparr>)],
      dw_ConstantConfigMap = [], dw_VariablePtrs = [(''a'', ([], ''a'')), (''b'', ([], ''b''))], dw_ConstantPtrs = []\<rparr>"

definition empty_extents :: extents where
  "empty_extents =
     [(([], ''a''), [0, 1]), (([], ''b''), [0, 1]), (([], ''time''), [0]), (([], ''cue_index''), [0]),
      (([], ''cue_timestamp_zero''), [0])]"

definition two_limits :: "dpath \<Rightarrow> nat list" where
  "two_limits p = (if snd p \<in> {''a'', ''b''} then [unlimited, 1] else [unlimited])"

definition variable_message :: "string list \<Rightarrow> da00_DataArray" where
  "variable_message names =
     \<lparr>da_timestamp = 0,
      da_data = map (\<lambda>n. \<lparr>dv_name = n, dv_unit = None, dv_label = None, dv_data_type = D_int8, dv_shape = Some [1],
                         dv_axes = None, dv_data = Some ''x''\<rparr>) names\<rparr>"


text \<open>Without that condition the datasets drift apart: the check for missing variables compares the number of variables of the
  message with that of the writer, so a variable that comes twice hides one that is missing.\<close>

lemma da00_duplicate_variable:
  "map_option (\<lambda>(w, h). map (\<lambda>p. dims_of h ([], p)) [''a'', ''b'', ''time''])
     (da00_writes plain_env extents_lib [variable_message [''a'', ''a'']] two_variables empty_extents) =
   Some [[2, 1], [0, 1], [1]]"
  by code_simp

end
