(* ===== verification/Kafka_Client.thy ===== *)
theory Kafka_Client
  imports Kafka_Settings Time_Utility Flatbuffer Filter_Interfaces
begin

text \<open>
  \<^verbatim>\<open>src/Kafka\<close>: the wrappers around librdkafka. The library is a third-party package; its operations on
  a consumer handle are the record \<open>rdkafka\<close>, an argument of the definitions. An operation of the library
  returns an error code, which the wrappers turn into exceptions; formatted numbers are left out of their
  texts. The metadata object that \<^verbatim>\<open>getTopicMetadata\<close> receives through a pointer passed by value is
  never freed; memory is not modelled.
\<close>

datatype rd_error =
    ERR_NO_ERROR
  | ERR__TIMED_OUT
  | ERR__PARTITION_EOF
  | ERR__QUEUE_FULL
  | ERR_MSG_SIZE_TOO_LARGE
  | ERR_other int

text \<open>Topic, partition and offset; and the error code of a partition after an offset query.\<close>

type_synonym topic_partition = "string \<times> int \<times> int"

record rd_message =
  rdm_err :: rd_error
  rdm_timestamp :: int
  rdm_timestamp_type :: MessageTimestampType
  rdm_offset :: int
  rdm_partition :: int
  rdm_topic_name :: string
  rdm_payload :: bytes

record 'k rdkafka =
  rk_create :: "(string \<times> string) list \<Rightarrow> 'k option"
  rk_conf_ok :: "string \<Rightarrow> string \<Rightarrow> bool"
  rk_subscription :: "'k \<Rightarrow> rd_error \<times> string list"
  rk_subscribe :: "string list \<Rightarrow> 'k \<Rightarrow> rd_error \<times> 'k"
  rk_assignment :: "'k \<Rightarrow> rd_error \<times> topic_partition list"
  rk_assign :: "topic_partition list \<Rightarrow> 'k \<Rightarrow> rd_error \<times> 'k"
  rk_metadata :: "int \<Rightarrow> 'k \<Rightarrow> rd_error \<times> (string \<times> int list) list"
  rk_offsetsForTimes :: "topic_partition list \<Rightarrow> int \<Rightarrow> 'k \<Rightarrow> rd_error \<times> (topic_partition \<times> rd_error) list"
  rk_consume :: "int \<Rightarrow> 'k \<Rightarrow> rd_message \<times> 'k"
  rk_err2str :: "rd_error \<Rightarrow> string"

section \<open>Configuration\<close>

text \<open>\<^verbatim>\<open>ssl_key|.+password|.+secret|.+key\.pem\<close>, matched against the whole key.\<close>

definition proper_suffix :: "string \<Rightarrow> string \<Rightarrow> bool" where
  "proper_suffix s k \<longleftrightarrow> length s < length k \<and> drop (length k - length s) k = s"

definition IsSensitive :: "string \<Rightarrow> bool" where
  "IsSensitive k \<longleftrightarrow> k = ''ssl_key'' \<or> proper_suffix ''password'' k \<or> proper_suffix ''secret'' k \<or>
     proper_suffix ''key.pem'' k"

text \<open>The settings that are applied, and the key and value pairs that are logged.\<close>

definition configureKafka ::
  "'k rdkafka \<Rightarrow> BrokerSettings \<Rightarrow> (string \<times> string) list \<times> (string \<times> string) list" where
  "configureKafka rd Settings =
     (filter (\<lambda>(Key, Value). rk_conf_ok rd Key Value) (bs_KafkaConfiguration Settings),
      map (\<lambda>(Key, Value). (Key, if IsSensitive Key then ''<REDACTED>'' else Value))
        (bs_KafkaConfiguration Settings))"

section \<open>Consumer\<close>

record 'k Consumer =
  cn_ConsumerBrokerSettings :: BrokerSettings
  cn_KafkaConsumer :: 'k

text \<open>The constructor does not initialise \<^verbatim>\<open>ConsumerBrokerSettings\<close>, which therefore has its default
  value.\<close>

definition make_Consumer :: "'k \<Rightarrow> 'k Consumer" where
  "make_Consumer k = \<lparr>cn_ConsumerBrokerSettings = default_BrokerSettings, cn_KafkaConsumer = k\<rparr>"

definition createConsumer :: "'k rdkafka \<Rightarrow> string \<Rightarrow> BrokerSettings \<Rightarrow> exn + 'k Consumer" where
  "createConsumer rd GroupIdStr Settings =
     (let conf = bs_KafkaConfiguration Settings;
          SettingsCopy = (if map_of conf ''group.id'' = None
            then Settings\<lparr>bs_KafkaConfiguration := smap_insert ''group.id'' GroupIdStr conf\<rparr> else Settings);
          Conf = (''metadata.broker.list'', bs_Address SettingsCopy) # fst (configureKafka rd SettingsCopy)
      in case rk_create rd Conf of
           None \<Rightarrow> Inl (Runtime_Error ''cannot create Kafka consumer'')
         | Some k \<Rightarrow> Inr (make_Consumer k))"

definition addPartitionAtOffset ::
  "'k rdkafka \<Rightarrow> string \<Rightarrow> int \<Rightarrow> int \<Rightarrow> 'k Consumer \<Rightarrow> exn option \<times> 'k Consumer" where
  "addPartitionAtOffset rd Topic PartitionId Offset c =
     (case rk_assignment rd (cn_KafkaConsumer c) of
        (ErrorCode, Assignments) \<Rightarrow>
          if ErrorCode \<noteq> ERR_NO_ERROR then
            (Some (Runtime_Error (''Could not assign topic-partition of topic '' @ Topic @
               ''. Could not get current assignments. RdKafka error: \"'' @ rk_err2str rd ErrorCode @ ''\"'')), c)
          else
            (case rk_assign rd (Assignments @ [(Topic, PartitionId, Offset)]) (cn_KafkaConsumer c) of
               (ReturnCode, k) \<Rightarrow>
                 (if ReturnCode \<noteq> ERR_NO_ERROR
                  then Some (Runtime_Error (''Could not assign topic-partition of topic '' @ Topic @
                    '', RdKafka error: \"'' @ rk_err2str rd ReturnCode @ ''\"''))
                  else None, c\<lparr>cn_KafkaConsumer := k\<rparr>)))"

definition addTopic :: "'k rdkafka \<Rightarrow> string \<Rightarrow> 'k Consumer \<Rightarrow> exn option \<times> 'k Consumer" where
  "addTopic rd Topic c =
     (case rk_subscription rd (cn_KafkaConsumer c) of
        (ErrorCode, Topics) \<Rightarrow>
          if ErrorCode \<noteq> ERR_NO_ERROR then
            (Some (Runtime_Error (''Could not get current topic subscriptions. RdKafka error: \"'' @
               rk_err2str rd ErrorCode @ ''\"'')), c)
          else
            (case rk_subscribe rd (Topics @ [Topic]) (cn_KafkaConsumer c) of
               (ErrorCode, k) \<Rightarrow>
                 (if ErrorCode \<noteq> ERR_NO_ERROR
                  then Some (Runtime_Error (''Unable to add topic \"'' @ Topic @
                    ''\" to list of subscribed topics. RdKafka error: \"'' @ rk_err2str rd ErrorCode @ ''\"''))
                  else None, c\<lparr>cn_KafkaConsumer := k\<rparr>)))"

definition find_topic :: "string \<Rightarrow> (string \<times> int list) list \<Rightarrow> exn + (string \<times> int list)" where
  "find_topic Topic Topics =
     (case find (\<lambda>t. fst t = Topic) Topics of
        None \<Rightarrow> Inl (Metadata_Exception (''Topic \"'' @ Topic @ ''\" not listed by broker.''))
      | Some t \<Rightarrow> Inr t)"

definition getTopicMetadata :: "'k rdkafka \<Rightarrow> string \<Rightarrow> 'k Consumer \<Rightarrow> exn + (string \<times> int list)" where
  "getTopicMetadata rd Topic c =
     (case rk_metadata rd (toMilliSeconds_duration (bs_MaxMetadataTimeout (cn_ConsumerBrokerSettings c)))
         (cn_KafkaConsumer c) of
        (ReturnCode, Topics) \<Rightarrow>
          if ReturnCode \<noteq> ERR_NO_ERROR then
            Inl (Metadata_Exception (''Failed to query broker for available partitions on topic \"'' @ Topic @
              ''\". Error was: '' @ rk_err2str rd ReturnCode))
          else find_topic Topic Topics)"

definition assignAllPartitions ::
  "'k rdkafka \<Rightarrow> string \<Rightarrow> time_point \<Rightarrow> 'k Consumer \<Rightarrow> exn option \<times> 'k Consumer" where
  "assignAllPartitions rd Topic StartTimestamp c =
     (case getTopicMetadata rd Topic c of
        Inl e \<Rightarrow> (Some e, c)
      | Inr (_, ids) \<Rightarrow>
          let TopicPartitions = map (\<lambda>i. (Topic, i, toMilliSeconds StartTimestamp)) ids in
          case rk_offsetsForTimes rd TopicPartitions
                 (toMilliSeconds_duration (bs_MaxMetadataTimeout (cn_ConsumerBrokerSettings c)))
                 (cn_KafkaConsumer c) of
            (ErrorCode, found) \<Rightarrow>
              if ErrorCode \<noteq> ERR_NO_ERROR then
                (Some (Runtime_Error (''Could not get offsets in topic \"'' @ Topic @ ''\"'' @
                   '' for the provided timestamp. RdKafka error: \"'' @ rk_err2str rd ErrorCode @ ''\"'')), c)
              else
                (case rk_assign rd (map fst found) (cn_KafkaConsumer c) of
                   (ErrorCode, k) \<Rightarrow>
                     (if ErrorCode \<noteq> ERR_NO_ERROR
                      then Some (Runtime_Error (''Could not assign topic-partitions. RdKafka error: \"'' @
                        rk_err2str rd ErrorCode @ ''\"''))
                      else None, c\<lparr>cn_KafkaConsumer := k\<rparr>)))"

definition consumer_poll :: "'k rdkafka \<Rightarrow> 'k Consumer \<Rightarrow> (PollStatus \<times> Msg) \<times> 'k Consumer" where
  "consumer_poll rd c =
     (let (m, k) = rk_consume rd (toMilliSeconds_duration (bs_PollTimeout (cn_ConsumerBrokerSettings c)))
            (cn_KafkaConsumer c)
      in (case rdm_err m of
            ERR_NO_ERROR \<Rightarrow>
              (PS_Message,
               \<lparr>msg_Data = rdm_payload m,
                msg_MetaData =
                  \<lparr>md_Timestamp = rdm_timestamp m, md_TimestampType = rdm_timestamp_type m,
                   md_Offset = rdm_offset m, md_Partition = rdm_partition m,
                   md_topic = rdm_topic_name m\<rparr>\<rparr>)
          | ERR__TIMED_OUT \<Rightarrow> (PS_TimedOut, empty_Msg)
          | ERR__PARTITION_EOF \<Rightarrow> (PS_EndOfPartition, empty_Msg)
          | _ \<Rightarrow> (PS_Error, empty_Msg), c\<lparr>cn_KafkaConsumer := k\<rparr>))"

definition createConsumerAtOffset ::
  "'k rdkafka \<Rightarrow> string \<Rightarrow> BrokerSettings \<Rightarrow> string \<Rightarrow> int \<Rightarrow> int \<Rightarrow> exn + 'k Consumer" where
  "createConsumerAtOffset rd GroupIdStr settings topic partition_id offset =
     (case createConsumer rd GroupIdStr settings of
        Inl e \<Rightarrow> Inl e
      | Inr c \<Rightarrow>
          (case addPartitionAtOffset rd topic partition_id offset c of
             (Some e, _) \<Rightarrow> Inl e
           | (None, c) \<Rightarrow> Inr c))"

section \<open>Metadata queries\<close>

text \<open>In contrast to \<open>configureKafka\<close>, a setting that librdkafka refuses makes the query fail.\<close>

definition getKafkaHandle :: "'k rdkafka \<Rightarrow> string \<Rightarrow> BrokerSettings \<Rightarrow> exn + 'k" where
  "getKafkaHandle rd Broker Settings =
     (case find (\<lambda>(k, v). \<not> rk_conf_ok rd k v) (bs_KafkaConfiguration Settings) of
        Some (k, v) \<Rightarrow>
          Inl (Metadata_Exception (''Got error when configuring metadata brokers \"'' @ k @ ''\" setting''))
      | None \<Rightarrow>
          if \<not> rk_conf_ok rd ''metadata.broker.list'' Broker then
            Inl (Metadata_Exception ''Got error when configuring metadata brokers'')
          else
            (case rk_create rd (bs_KafkaConfiguration Settings @ [(''metadata.broker.list'', Broker)]) of
               None \<Rightarrow> Inl (Metadata_Exception ''Unable to create kafka handle.'')
             | Some k \<Rightarrow> Inr k))"

definition collect_offset ::
  "topic_partition \<times> rd_error \<Rightarrow> exn + (int \<times> int) list \<Rightarrow> exn + (int \<times> int) list" where
  "collect_offset p acc =
     (case acc of
        Inl e \<Rightarrow> Inl e
      | Inr os \<Rightarrow>
          (case p of
             ((_, i, offs), err) \<Rightarrow>
               if err \<noteq> ERR_NO_ERROR
               then Inl (Metadata_Exception ''Error for partition when retrieving offset for timestamp.'')
               else Inr (os @ [(i, offs)])))"

definition getOffsetForTime ::
  "'k rdkafka \<Rightarrow> string \<Rightarrow> string \<Rightarrow> int list \<Rightarrow> time_point \<Rightarrow> duration \<Rightarrow> BrokerSettings
     \<Rightarrow> exn + (int \<times> int) list" where
  "getOffsetForTime rd Broker Topic Partitions Time TimeOut Settings =
     (case getKafkaHandle rd Broker Settings of
        Inl e \<Rightarrow> Inl e
      | Inr k \<Rightarrow>
          (case rk_offsetsForTimes rd (map (\<lambda>i. (Topic, i, toMilliSeconds Time)) Partitions)
                  (toMilliSeconds_duration TimeOut) k of
             (ReturnCode, found) \<Rightarrow>
               if ReturnCode \<noteq> ERR_NO_ERROR
               then Inl (Metadata_Exception ''Failed to query broker for offset corresponding to timestamp.'')
               else fold collect_offset found (Inr [])))"

definition enquirer_getPartitionsForTopic ::
  "'k rdkafka \<Rightarrow> string \<Rightarrow> string \<Rightarrow> duration \<Rightarrow> BrokerSettings \<Rightarrow> exn + int list" where
  "enquirer_getPartitionsForTopic rd Broker Topic TimeOut Settings =
     (case getKafkaHandle rd Broker Settings of
        Inl e \<Rightarrow> Inl e
      | Inr k \<Rightarrow>
          (case rk_metadata rd (toMilliSeconds_duration TimeOut) k of
             (ReturnCode, Topics) \<Rightarrow>
               if ReturnCode \<noteq> ERR_NO_ERROR
               then Inl (Metadata_Exception (''Failed to query broker '' @ Broker @
                 '' for available partitions on topic '' @ Topic @ ''. Error was: '' @ rk_err2str rd ReturnCode))
               else map_sum id snd (find_topic Topic Topics)))"

text \<open>The result is a \<^verbatim>\<open>std::set\<close>, whose elements are in ascending order.\<close>

definition getTopicList :: "'k rdkafka \<Rightarrow> string \<Rightarrow> duration \<Rightarrow> BrokerSettings \<Rightarrow> exn + string list" where
  "getTopicList rd Broker TimeOut Settings =
     (case getKafkaHandle rd Broker Settings of
        Inl e \<Rightarrow> Inl e
      | Inr k \<Rightarrow>
          (case rk_metadata rd (toMilliSeconds_duration TimeOut) k of
             (ReturnCode, Topics) \<Rightarrow>
               if ReturnCode \<noteq> ERR_NO_ERROR
               then Inl (Metadata_Exception ''Failed to query broker for available partitions.'')
               else Inr (map fst (fold (\<lambda>t. smap_insert (fst t) ()) Topics []))))"

section \<open>Producer\<close>

record ProducerStats =
  ps_produced :: nat
  ps_produce_fail :: nat
  ps_local_queue_full :: nat
  ps_msg_too_large :: nat
  ps_produced_bytes :: nat
  ps_TotalMessagesProduced :: nat

text \<open>\<^verbatim>\<open>ProducerTopic::produce\<close>, given the result of librdkafka's \<^verbatim>\<open>produce\<close>.\<close>

definition produce :: "rd_error \<Rightarrow> bytes \<Rightarrow> ProducerStats \<Rightarrow> int \<times> ProducerStats" where
  "produce result message s =
     (case result of
        ERR_NO_ERROR \<Rightarrow>
          (0, s\<lparr>ps_produced := Suc (ps_produced s), ps_produced_bytes := ps_produced_bytes s + length message,
                ps_TotalMessagesProduced := Suc (ps_TotalMessagesProduced s)\<rparr>)
      | ERR__QUEUE_FULL \<Rightarrow> (1, s\<lparr>ps_local_queue_full := Suc (ps_local_queue_full s)\<rparr>)
      | ERR_MSG_SIZE_TOO_LARGE \<Rightarrow> (1, s\<lparr>ps_msg_too_large := Suc (ps_msg_too_large s)\<rparr>)
      | _ \<Rightarrow> (1, s\<lparr>ps_produce_fail := Suc (ps_produce_fail s)\<rparr>))"

section \<open>Properties\<close>

lemma smap_keys_fold:
  "smap_ok m \<Longrightarrow> smap_ok (fold (\<lambda>t. smap_insert (fst t) ()) ts m) \<and>
     fst ` set (fold (\<lambda>t. smap_insert (fst t) ()) ts m) = fst ` set m \<union> fst ` set ts"
  by (induction ts arbitrary: m) (auto simp: smap_ok_insert set_keys_smap_insert)

text \<open>When a query for the topics of the broker succeeds, its result has exactly the topics the
  broker lists, in ascending order and each once; it fails only with a \<^verbatim>\<open>MetadataException\<close>, which is
  what the callers catch in order to try again.\<close>

theorem topic_list_complete:
  "case getTopicList rd Broker TimeOut Settings of
     Inl e \<Rightarrow> \<exists>msg. e = Metadata_Exception msg
   | Inr names \<Rightarrow> sorted_wrt (<) names \<and>
       (\<exists>k. getKafkaHandle rd Broker Settings = Inr k \<and>
          set names = fst ` set (snd (rk_metadata rd (toMilliSeconds_duration TimeOut) k)))"
proof (cases "getKafkaHandle rd Broker Settings")
  case (Inl e)
  then show ?thesis
    by (auto simp: getTopicList_def getKafkaHandle_def split: option.splits if_splits)
next
  case (Inr k)
  obtain code ts where q: "rk_metadata rd (toMilliSeconds_duration TimeOut) k = (code, ts)" by fastforce
  show ?thesis
    using smap_keys_fold [of "[]" ts] by (auto simp: getTopicList_def Inr q smap_ok_def)
qed

text \<open>A consumer does not use the settings it was created with: whatever poll timeout and metadata
  timeout are configured, it polls for 100 ms and waits 10 s for metadata.\<close>

theorem consumer_ignores_configured_timeouts:
  assumes "createConsumer rd GroupId Settings = Inr c"
  shows "consumer_poll rd c =
     (let (m, k) = rk_consume rd 100 (cn_KafkaConsumer c) in
      (fst (consumer_poll (rd\<lparr>rk_consume := \<lambda>t k'. (m, k)\<rparr>) c), c\<lparr>cn_KafkaConsumer := k\<rparr>)) \<and>
     toMilliSeconds_duration (bs_PollTimeout (cn_ConsumerBrokerSettings c)) = 100 \<and>
     toMilliSeconds_duration (bs_MaxMetadataTimeout (cn_ConsumerBrokerSettings c)) = 10000"
proof -
  have "cn_ConsumerBrokerSettings c = default_BrokerSettings"
    using assms by (auto simp: createConsumer_def make_Consumer_def Let_def split: option.splits if_splits)
  then have t: "toMilliSeconds_duration (bs_PollTimeout (cn_ConsumerBrokerSettings c)) = 100"
    "toMilliSeconds_duration (bs_MaxMetadataTimeout (cn_ConsumerBrokerSettings c)) = 10000"
    by (simp_all add: default_BrokerSettings_def millis_def seconds_def s64_def toMilliSeconds_duration_def
        signed_divide_int_def)
  then show ?thesis by (simp add: consumer_poll_def Let_def split: prod.splits)
qed

text \<open>A client without messages, for witnesses.\<close>

definition idle_rdkafka :: "topic_partition list rdkafka" where
  "idle_rdkafka =
     \<lparr>rk_create = (\<lambda>c. Some []), rk_conf_ok = (\<lambda>k v. True),
      rk_subscription = (\<lambda>k. (ERR_NO_ERROR, map fst k)),
      rk_subscribe = (\<lambda>ts k. (ERR_NO_ERROR, map (\<lambda>t. (t, 0, 0)) ts)),
      rk_assignment = (\<lambda>k. (ERR_NO_ERROR, k)), rk_assign = (\<lambda>ps k. (ERR_NO_ERROR, ps)),
      rk_metadata = (\<lambda>t k. (ERR_NO_ERROR, [(''commands'', [0])])),
      rk_offsetsForTimes = (\<lambda>ps t k. (ERR_NO_ERROR, map (\<lambda>p. (p, ERR_NO_ERROR)) ps)),
      rk_consume = (\<lambda>t k. (\<lparr>rdm_err = ERR__TIMED_OUT, rdm_timestamp = 0,
         rdm_timestamp_type = MSG_TIMESTAMP_NOT_AVAILABLE, rdm_offset = 0, rdm_partition = 0,
         rdm_topic_name = [], rdm_payload = []\<rparr>, k)),
      rk_err2str = (\<lambda>e. [])\<rparr>"

theorem consumer_ignores_configured_timeouts_witness:
  "createConsumer idle_rdkafka ''g'' (default_BrokerSettings\<lparr>bs_PollTimeout := seconds 5\<rparr>) =
     Inr (make_Consumer []) \<and>
   toMilliSeconds_duration (bs_PollTimeout (cn_ConsumerBrokerSettings (make_Consumer ([] :: topic_partition list)))) = 100"
proof -
  have c: "createConsumer idle_rdkafka ''g'' (default_BrokerSettings\<lparr>bs_PollTimeout := seconds 5\<rparr>) =
      Inr (make_Consumer [])" by (simp add: createConsumer_def idle_rdkafka_def)
  from consumer_ignores_configured_timeouts [OF c] c show ?thesis by blast
qed

end
