(* ===== verification/Kafka_Producer.thy ===== *)
theory Kafka_Producer
  imports Kafka_Client "HOL-Library.Multiset"
begin

text \<open>
  \<^verbatim>\<open>src/Kafka/Producer.{h,cpp}\<close>, \<^verbatim>\<open>ProducerTopic.cpp\<close>, \<^verbatim>\<open>ProducerDeliveryCb.h\<close> and \<^verbatim>\<open>KafkaEventCb.h\<close>: sending messages, with
  the memory of the messages; and \<^verbatim>\<open>StubConsumer\<close> of \<^verbatim>\<open>Consumer.h\<close>, which plays back a list of messages.

  librdkafka is the record \<open>producer_lib\<close>, an argument. A message is given to it as a pointer, a number here; the library hands the pointer back
  to the delivery callback when it is polled. \<open>pd_released\<close> are the messages that the library has, \<open>pd_freed\<close> the messages
  that have been deleted, in order.
\<close>

record 'p producer_lib =
  pl_create :: "(string \<times> string) list \<Rightarrow> 'p option"
  pl_outq_len :: "'p \<Rightarrow> nat"
  pl_poll :: "int \<Rightarrow> 'p \<Rightarrow> nat \<times> (nat \<times> rd_error) list \<times> 'p"
  pl_produce :: "bytes \<Rightarrow> nat \<Rightarrow> 'p \<Rightarrow> rd_error \<times> 'p"

record ProducerCounters = ProducerStats +
  ps_produce_cb :: nat
  ps_produce_cb_fail :: nat
  ps_poll_served :: nat
  ps_out_queue :: nat

record 'p Producer =
  pd_Settings :: BrokerSettings
  pd_ProducerID :: int
  pd_Stats :: ProducerCounters
  pd_Ptr :: 'p
  pd_released :: "nat list"
  pd_freed :: "nat list"

definition no_counts :: ProducerCounters where
  "no_counts =
     \<lparr>ps_produced = 0, ps_produce_fail = 0, ps_local_queue_full = 0, ps_msg_too_large = 0, ps_produced_bytes = 0,
      ps_TotalMessagesProduced = 0, ps_produce_cb = 0, ps_produce_cb_fail = 0, ps_poll_served = 0, ps_out_queue = 0\<rparr>"

text \<open>The configuration that \<^verbatim>\<open>setConf\<close> leaves: the settings, then the list of brokers.\<close>

definition setConf :: "'k rdkafka \<Rightarrow> BrokerSettings \<Rightarrow> (string \<times> string) list" where
  "setConf rd Settings = fst (configureKafka rd Settings) @ [(''metadata.broker.list'', bs_Address Settings)]"

definition make_Producer :: "'k rdkafka \<Rightarrow> 'p producer_lib \<Rightarrow> int \<Rightarrow> BrokerSettings \<Rightarrow> exn + 'p Producer" where
  "make_Producer rd L n Settings =
     (case pl_create L (setConf rd Settings) of
        None \<Rightarrow> Inl (Runtime_Error ''can not create Kafka handle'')
      | Some k \<Rightarrow>
          Inr \<lparr>pd_Settings = Settings, pd_ProducerID = n, pd_Stats = no_counts, pd_Ptr = k, pd_released = [], pd_freed = []\<rparr>)"

text \<open>The delivery callback deletes the message.\<close>

definition dr_cb :: "nat \<times> rd_error \<Rightarrow> 'p Producer \<Rightarrow> 'p Producer" where
  "dr_cb report p =
     (case report of
        (msg, err) \<Rightarrow>
          (let s = pd_Stats p;
               s = (if err \<noteq> ERR_NO_ERROR then s\<lparr>ps_produce_cb_fail := Suc (ps_produce_cb_fail s)\<rparr>
                    else s\<lparr>ps_produce_cb := Suc (ps_produce_cb s)\<rparr>)
           in p\<lparr>pd_Stats := s, pd_released := remove1 msg (pd_released p), pd_freed := pd_freed p @ [msg]\<rparr>))"

definition serve :: "'p producer_lib \<Rightarrow> int \<Rightarrow> 'p Producer \<Rightarrow> nat \<times> 'p Producer" where
  "serve L t p =
     (case pl_poll L t (pd_Ptr p) of (served, reports, k) \<Rightarrow> (served, fold dr_cb reports (p\<lparr>pd_Ptr := k\<rparr>)))"

definition outputQueueLength :: "'p producer_lib \<Rightarrow> 'p Producer \<Rightarrow> nat" where
  "outputQueueLength L p = pl_outq_len L (pd_Ptr p)"

definition producer_poll :: "'p producer_lib \<Rightarrow> 'p Producer \<Rightarrow> 'p Producer" where
  "producer_poll L p =
     (let (EventsHandled, p) = serve L (toMilliSeconds_duration (bs_PollTimeout (pd_Settings p))) p;
          OutputQueueLength = outputQueueLength L p; s = pd_Stats p
      in p\<lparr>pd_Stats := s\<lparr>ps_poll_served := ps_poll_served s + EventsHandled, ps_out_queue := OutputQueueLength\<rparr>\<rparr>)"

text \<open>\<^verbatim>\<open>Producer::produce\<close>, with a non-blocking poll before it.\<close>

definition producer_produce :: "'p producer_lib \<Rightarrow> bytes \<Rightarrow> nat \<Rightarrow> 'p Producer \<Rightarrow> rd_error \<times> 'p Producer" where
  "producer_produce L Payload msg p =
     (let (_, p) = serve L 0 p; (e, k) = pl_produce L Payload msg (pd_Ptr p) in (e, p\<lparr>pd_Ptr := k\<rparr>))"

text \<open>\<^verbatim>\<open>ProducerTopic::produce\<close>: a message that librdkafka accepts is released to it, any other is deleted on return.\<close>

definition count_produced :: "rd_error \<Rightarrow> bytes \<Rightarrow> ProducerCounters \<Rightarrow> int \<times> ProducerCounters" where
  "count_produced e message s =
     (let (result, t) = produce e message (ProducerStats.truncate s)
      in (result, ProducerStats.extend t \<lparr>ps_produce_cb = ps_produce_cb s, ps_produce_cb_fail = ps_produce_cb_fail s,
                    ps_poll_served = ps_poll_served s, ps_out_queue = ps_out_queue s\<rparr>))"

definition topic_produce :: "'p producer_lib \<Rightarrow> bytes \<Rightarrow> nat \<Rightarrow> 'p Producer \<Rightarrow> int \<times> 'p Producer" where
  "topic_produce L message msg p =
     (let (e, p) = producer_produce L message msg p; (result, s) = count_produced e message (pd_Stats p);
          p = p\<lparr>pd_Stats := s\<rparr>
      in (result, if e = ERR_NO_ERROR then p\<lparr>pd_released := pd_released p @ [msg]\<rparr> else p\<lparr>pd_freed := pd_freed p @ [msg]\<rparr>))"

text \<open>The loop of the destructor, and whether it gives up on messages.\<close>

fun drain :: "'p producer_lib \<Rightarrow> nat \<Rightarrow> 'p Producer \<Rightarrow> 'p Producer" where
  "drain L 0 p = p"
| "drain L (Suc n) p = (if outputQueueLength L p = 0 then p else drain L n (snd (serve L 100 p)))"

definition destroy_Producer :: "'p producer_lib \<Rightarrow> 'p Producer \<Rightarrow> bool \<times> 'p Producer" where
  "destroy_Producer L p = (let p = drain L 80 p in (outputQueueLength L p > 0, p))"

section \<open>Events\<close>

datatype rd_severity = SEV_DEBUG | SEV_INFO | SEV_NOTICE | SEV_WARNING | SEV_ERROR | SEV_CRITICAL | SEV_ALERT | SEV_EMERG

datatype LogSeverity = LS_Critical | LS_Error | LS_Warn | LS_Info | LS_Debug | LS_Trace

datatype rd_event_type = EVENT_ERROR | EVENT_STATS | EVENT_LOG | EVENT_other

record rd_event =
  ev_type :: rd_event_type
  ev_severity :: rd_severity
  ev_fac :: string
  ev_str :: string

fun LogLevels :: "rd_severity \<Rightarrow> LogSeverity" where
  "LogLevels SEV_DEBUG = LS_Debug"
| "LogLevels SEV_INFO = LS_Info"
| "LogLevels SEV_NOTICE = LS_Info"
| "LogLevels SEV_WARNING = LS_Warn"
| "LogLevels SEV_ERROR = LS_Error"
| "LogLevels _ = LS_Critical"

fun contains :: "string \<Rightarrow> string \<Rightarrow> bool" where
  "contains [] p = (p = [])"
| "contains (x # s) p = (take (length p) (x # s) = p \<or> contains s p)"

text \<open>The level at which an event is logged, if it is.\<close>

definition event_cb :: "rd_event \<Rightarrow> LogSeverity option" where
  "event_cb e =
     (case ev_type e of
        EVENT_ERROR \<Rightarrow> Some (LogLevels (ev_severity e))
      | EVENT_STATS \<Rightarrow> None
      | EVENT_LOG \<Rightarrow>
          if contains (ev_fac e) ''CONFWARN'' then
            if contains (ev_str e) ''is a producer property and will be ignored by this consumer'' \<or>
               contains (ev_str e) ''is a consumer property and will be ignored by this producer'' then None
            else Some LS_Debug
          else Some (LogLevels (ev_severity e))
      | EVENT_other \<Rightarrow> Some (LogLevels (ev_severity e)))"

section \<open>The stub consumer\<close>

record StubConsumer =
  sc_offset :: nat
  sc_topic :: string
  sc_partition :: int
  sc_messages :: "Msg list"
  sc_at_end_of_partition :: bool
  sc_valid_topics :: "string list"

definition make_StubConsumer :: "Msg list \<Rightarrow> string list \<Rightarrow> StubConsumer" where
  "make_StubConsumer messages valid_topics =
     \<lparr>sc_offset = 0, sc_topic = [], sc_partition = 0, sc_messages = messages, sc_at_end_of_partition = False,
      sc_valid_topics = valid_topics\<rparr>"

definition is_topic_valid :: "string \<Rightarrow> StubConsumer \<Rightarrow> bool" where
  "is_topic_valid topic c \<longleftrightarrow> sc_valid_topics c = [] \<or> topic \<in> set (sc_valid_topics c)"

definition stub_addPartitionAtOffset :: "string \<Rightarrow> int \<Rightarrow> StubConsumer \<Rightarrow> exn option \<times> StubConsumer" where
  "stub_addPartitionAtOffset Topic PartitionId c =
     (if \<not> is_topic_valid Topic c then (Some (Runtime_Error ''Could not add partition at offset''), c)
      else (None, c\<lparr>sc_topic := Topic, sc_partition := PartitionId\<rparr>))"

definition stub_addTopic :: "string \<Rightarrow> StubConsumer \<Rightarrow> exn option \<times> StubConsumer" where
  "stub_addTopic Topic c =
     (if \<not> is_topic_valid Topic c then (Some (Runtime_Error ''Could not add topic''), c) else (None, c\<lparr>sc_topic := Topic\<rparr>))"

definition stub_assignAllPartitions :: "string \<Rightarrow> StubConsumer \<Rightarrow> exn option \<times> StubConsumer" where
  "stub_assignAllPartitions Topic c =
     (if \<not> is_topic_valid Topic c then (Some (Runtime_Error ''Could not assign all partitions''), c)
      else (None, c\<lparr>sc_topic := Topic\<rparr>))"

text \<open>The loop of \<^verbatim>\<open>poll\<close> over the messages from the offset on.\<close>

fun next_of_topic :: "string \<Rightarrow> nat \<Rightarrow> Msg list \<Rightarrow> Msg option \<times> nat" where
  "next_of_topic t n [] = (None, n)"
| "next_of_topic t n (m # ms) = (if md_topic (msg_MetaData m) = t then (Some m, Suc n) else next_of_topic t (Suc n) ms)"

definition stub_poll :: "StubConsumer \<Rightarrow> (PollStatus \<times> Msg) \<times> StubConsumer" where
  "stub_poll c =
     (case next_of_topic (sc_topic c) (sc_offset c) (drop (sc_offset c) (sc_messages c)) of
        (Some m, n) \<Rightarrow> ((PS_Message, m), c\<lparr>sc_offset := n\<rparr>)
      | (None, n) \<Rightarrow>
          if sc_at_end_of_partition c then ((PS_TimedOut, empty_Msg), c\<lparr>sc_offset := n\<rparr>)
          else ((PS_EndOfPartition, empty_Msg), c\<lparr>sc_offset := n, sc_at_end_of_partition := True\<rparr>))"

fun stub_polls :: "nat \<Rightarrow> StubConsumer \<Rightarrow> (PollStatus \<times> Msg) list" where
  "stub_polls 0 c = []"
| "stub_polls (Suc n) c = (let (r, c) = stub_poll c in r # stub_polls n c)"

section \<open>Messages are deleted once\<close>

text \<open>What librdkafka promises: every message it has accepted, and no other, is reported once.\<close>

locale delivery_reports =
  fixes L :: "'p producer_lib" and outstanding :: "'p \<Rightarrow> nat multiset"
  assumes poll_reports: "pl_poll L t k = (served, reports, k') \<Longrightarrow> mset (map fst reports) + outstanding k' = outstanding k"
    and produce_accepts: "pl_produce L payload msg k = (e, k') \<Longrightarrow>
      outstanding k' = outstanding k + (if e = ERR_NO_ERROR then {#msg#} else {#})"
begin

definition accounted :: "nat multiset \<Rightarrow> 'p Producer \<Rightarrow> bool" where
  "accounted given p \<longleftrightarrow>
     outstanding (pd_Ptr p) = mset (pd_released p) \<and> given = mset (pd_released p) + mset (pd_freed p) \<and>
     ps_produced (pd_Stats p) = ps_produce_cb (pd_Stats p) + ps_produce_cb_fail (pd_Stats p) + length (pd_released p)"

lemma dr_cb_frees:
  assumes "mset (map fst reports) \<subseteq># mset (pd_released p)"
  shows "let q = fold dr_cb reports p in
    mset (pd_released q) = mset (pd_released p) - mset (map fst reports) \<and>
    mset (pd_freed q) = mset (pd_freed p) + mset (map fst reports) \<and> pd_Ptr q = pd_Ptr p \<and>
    ps_produced (pd_Stats q) = ps_produced (pd_Stats p) \<and>
    ps_produce_cb (pd_Stats q) + ps_produce_cb_fail (pd_Stats q) =
      ps_produce_cb (pd_Stats p) + ps_produce_cb_fail (pd_Stats p) + length reports"
  using assms
proof (induction reports arbitrary: p)
  case (Cons r reports)
  obtain m e where r: "r = (m, e)" by (cases r)
  have "mset (map fst reports) \<subseteq># mset (pd_released (dr_cb r p))"
    using Cons.prems by (simp add: r dr_cb_def Let_def insert_subset_eq_iff)
  from Cons.IH [OF this] show ?case by (simp add: r dr_cb_def Let_def)
qed simp

lemma serve_accounted:
  assumes "accounted given p"
  shows "accounted given (snd (serve L t p))"
proof -
  obtain served reports k where k: "pl_poll L t (pd_Ptr p) = (served, reports, k)" by (cases "pl_poll L t (pd_Ptr p)") auto
  have o: "mset (map fst reports) + outstanding k = mset (pd_released p)"
    using poll_reports [OF k] assms by (simp add: accounted_def)
  then have "mset (map fst reports) \<subseteq># mset (pd_released p)" by (metis mset_subset_eq_add_left)
  then have s: "mset (map fst reports) \<subseteq># mset (pd_released (p\<lparr>pd_Ptr := k\<rparr>))" by simp
  define q where "q = fold dr_cb reports (p\<lparr>pd_Ptr := k\<rparr>)"
  have q: "mset (pd_released q) = mset (pd_released p) - mset (map fst reports)"
    "mset (pd_freed q) = mset (pd_freed p) + mset (map fst reports)" "pd_Ptr q = k"
    "ps_produced (pd_Stats q) = ps_produced (pd_Stats p)"
    "ps_produce_cb (pd_Stats q) + ps_produce_cb_fail (pd_Stats q) =
      ps_produce_cb (pd_Stats p) + ps_produce_cb_fail (pd_Stats p) + length reports"
    using dr_cb_frees [OF s] by (simp_all add: q_def Let_def)
  have rel: "mset (pd_released q) = outstanding k" using q(1) o by (metis add_diff_cancel_left')
  moreover have "length (pd_released p) = length reports + length (pd_released q)"
    using arg_cong [OF o, of size] rel by (metis length_map size_mset size_union)
  moreover have "given = mset (pd_released q) + mset (pd_freed q)"
    using assms o q(2) rel by (simp add: accounted_def ac_simps)
  ultimately have "accounted given q" using assms q(3-5) by (simp add: accounted_def)
  then show ?thesis using k by (simp add: serve_def q_def)
qed

lemma poll_accounted:
  assumes "accounted given p"
  shows "accounted given (producer_poll L p)"
proof -
  obtain n q where q: "serve L (toMilliSeconds_duration (bs_PollTimeout (pd_Settings p))) p = (n, q)" by fastforce
  then have "accounted given q" using serve_accounted [OF assms] by (metis snd_conv)
  then show ?thesis by (simp add: producer_poll_def q Let_def accounted_def)
qed

lemma produce_accounted:
  assumes "accounted given p"
  shows "accounted (given + {#msg#}) (snd (topic_produce L message msg p))"
proof -
  obtain n q where q: "serve L 0 p = (n, q)" by fastforce
  then have a: "accounted given q" using serve_accounted [OF assms] by (metis snd_conv)
  obtain e k where k: "pl_produce L message msg (pd_Ptr q) = (e, k)" by fastforce
  show ?thesis
    using a produce_accepts [OF k]
    by (cases e) (auto simp: topic_produce_def producer_produce_def q k Let_def accounted_def count_produced_def produce_def
      ProducerStats.defs split: prod.splits)
qed

lemma drain_accounted: "accounted given p \<Longrightarrow> accounted given (drain L n p)"
  by (induction n arbitrary: p) (auto intro: serve_accounted)

end

text \<open>The messages that are sent and the polls in between.\<close>

datatype producer_action = Send_Message bytes nat | Poll_Events

fun act :: "'p producer_lib \<Rightarrow> producer_action \<Rightarrow> 'p Producer \<Rightarrow> 'p Producer" where
  "act L (Send_Message message msg) p = snd (topic_produce L message msg p)"
| "act L Poll_Events p = producer_poll L p"

fun pointer_of :: "producer_action \<Rightarrow> nat list" where
  "pointer_of (Send_Message _ msg) = [msg]"
| "pointer_of Poll_Events = []"

lemma actions_accounted:
  assumes "delivery_reports L outstanding" and "delivery_reports.accounted outstanding given p"
  shows "delivery_reports.accounted outstanding (given + mset (concat (map pointer_of actions))) (fold (act L) actions p)"
  using assms(2)
proof (induction actions arbitrary: given p)
  case (Cons a actions)
  show ?case
  proof (cases a)
    case (Send_Message message msg)
    then show ?thesis using Cons.IH [OF delivery_reports.produce_accounted [OF assms(1) Cons.prems]] by (simp add: ac_simps)
  next
    case Poll_Events
    then show ?thesis using Cons.IH [OF delivery_reports.poll_accounted [OF assms(1) Cons.prems]] by simp
  qed
qed simp

text \<open>C23: The memory of a message is handed over to librdkafka when it accepts the message and deleted by the delivery callback,
  or deleted at once when it does not. Whatever is sent and however the reports come, every message has been deleted exactly once or is
  still held by the library, the number of messages produced is that of the reports plus those still held, and when the destructor does not give up
  all messages have been deleted.\<close>

theorem producer_frees_once:
  assumes "delivery_reports L outstanding" and "\<And>k. pl_outq_len L k = 0 \<Longrightarrow> outstanding k = {#}"
    and "\<And>c k. pl_create L c = Some k \<Longrightarrow> outstanding k = {#}"
    and "make_Producer rd L n Settings = Inr p" and "distinct (concat (map pointer_of actions))"
  shows "let q = fold (act L) actions p; s = pd_Stats q; (gave_up, r) = destroy_Producer L q in
    distinct (pd_freed q @ pd_released q) \<and> set (pd_freed q @ pd_released q) = set (concat (map pointer_of actions)) \<and>
    ps_produced s = ps_produce_cb s + ps_produce_cb_fail s + length (pd_released q) \<and>
    (\<not> gave_up \<longrightarrow> mset (pd_freed r) = mset (concat (map pointer_of actions)))"
proof -
  let ?q = "fold (act L) actions p" and ?ids = "concat (map pointer_of actions)"
  note acc = delivery_reports.accounted_def [OF assms(1)]
  have "delivery_reports.accounted outstanding {#} p"
    using assms(3,4) by (auto simp: make_Producer_def acc no_counts_def split: option.splits)
  from actions_accounted [OF assms(1) this, of actions]
  have q: "delivery_reports.accounted outstanding (mset ?ids) ?q" by simp
  then have m: "mset (pd_freed ?q @ pd_released ?q) = mset ?ids" by (simp add: acc ac_simps)
  then have "distinct (pd_freed ?q @ pd_released ?q)" "set (pd_freed ?q @ pd_released ?q) = set ?ids"
    using assms(5) by (metis distinct_count_atmost_1 mset_eq_setD)+ 
  moreover have "mset (pd_freed (drain L 80 ?q)) = mset ?ids" if "outputQueueLength L (drain L 80 ?q) = 0"
  proof -
    have "outstanding (pd_Ptr (drain L 80 ?q)) = {#}" using assms(2) that by (simp add: outputQueueLength_def)
    then show ?thesis using delivery_reports.drain_accounted [OF assms(1) q, of 80] by (simp add: acc)
  qed
  ultimately show ?thesis using q by (simp add: destroy_Producer_def Let_def acc)
qed

text \<open>A library that holds two messages at most and reports all of them when it is polled.\<close>

definition short_queue :: "nat list producer_lib" where
  "short_queue =
     \<lparr>pl_create = \<lambda>c. Some [], pl_outq_len = length,
      pl_poll = \<lambda>t k. if t = 0 then (0, [], k) else (length k, map (\<lambda>m. (m, ERR_NO_ERROR)) k, []),
      pl_produce = \<lambda>payload msg k. if length k < 2 then (ERR_NO_ERROR, k @ [msg]) else (ERR__QUEUE_FULL, k)\<rparr>"

interpretation short_queue: delivery_reports short_queue mset
  by unfold_locales (auto simp: short_queue_def image_mset.compositionality comp_def split: if_splits)

definition sample_producer :: "nat list Producer" where
  "sample_producer =
     \<lparr>pd_Settings = default_BrokerSettings, pd_ProducerID = 0, pd_Stats = no_counts, pd_Ptr = [], pd_released = [], pd_freed = []\<rparr>"

theorem producer_frees_once_witness:
  "mset (pd_freed (snd (destroy_Producer short_queue
     (fold (act short_queue) [Send_Message ''a'' 1, Send_Message ''b'' 2, Send_Message ''c'' 3] sample_producer)))) = {#1, 2, 3#}"
proof -
  let ?acts = "[Send_Message ''a'' 1, Send_Message ''b'' 2, Send_Message ''c'' 3]"
  have p: "make_Producer idle_rdkafka short_queue 0 default_BrokerSettings = Inr sample_producer"
    by (simp add: make_Producer_def short_queue_def sample_producer_def)
  have "\<not> fst (destroy_Producer short_queue (fold (act short_queue) ?acts sample_producer))" by code_simp
  moreover have "let q = fold (act short_queue) ?acts sample_producer; s = pd_Stats q; (gave_up, r) = destroy_Producer short_queue q in
    distinct (pd_freed q @ pd_released q) \<and> set (pd_freed q @ pd_released q) = set (concat (map pointer_of ?acts)) \<and>
    ps_produced s = ps_produce_cb s + ps_produce_cb_fail s + length (pd_released q) \<and>
    (\<not> gave_up \<longrightarrow> mset (pd_freed r) = mset (concat (map pointer_of ?acts)))"
    by (rule producer_frees_once [OF short_queue.delivery_reports_axioms _ _ p]) (auto simp: short_queue_def)
  ultimately show ?thesis unfolding Let_def by (auto simp del: fold_simps simp: case_prod_beta)
qed

section \<open>What the stub delivers\<close>

abbreviation of_topic :: "string \<Rightarrow> Msg \<Rightarrow> bool" where
  "of_topic t m \<equiv> md_topic (msg_MetaData m) = t"

lemma next_of_topic_none: "\<not> list_ex (of_topic t) ms \<Longrightarrow> next_of_topic t n ms = (None, n + length ms)"
  by (induction ms arbitrary: n) auto

lemma next_of_topic_some:
  "next_of_topic t n (before @ m # ms) = (Some m, n + Suc (length before))" if "\<not> list_ex (of_topic t) before" "of_topic t m"
  using that by (induction before arbitrary: n) auto

lemma stub_end:
  assumes "\<not> list_ex (of_topic (sc_topic c)) (drop (sc_offset c) (sc_messages c))"
  shows "stub_poll c = ((if sc_at_end_of_partition c then PS_TimedOut else PS_EndOfPartition, empty_Msg),
    c\<lparr>sc_offset := sc_offset c + (length (sc_messages c) - sc_offset c), sc_at_end_of_partition := True\<rparr>)"
  using next_of_topic_none [OF assms, of "sc_offset c"] by (simp add: stub_poll_def)

lemma stub_timeouts:
  assumes "\<not> list_ex (of_topic (sc_topic c)) (drop (sc_offset c) (sc_messages c))" and "sc_at_end_of_partition c"
  shows "stub_polls k c = replicate k (PS_TimedOut, empty_Msg)"
  using assms
proof (induction k arbitrary: c)
  case (Suc k)
  then show ?case using stub_end [OF Suc.prems(1)] by simp
qed simp

lemma stub_rest:
  assumes "filter (of_topic (sc_topic c)) (drop (sc_offset c) (sc_messages c)) = ms" and "\<not> sc_at_end_of_partition c"
  shows "stub_polls (length ms + Suc k) c =
    map (Pair PS_Message) ms @ (PS_EndOfPartition, empty_Msg) # replicate k (PS_TimedOut, empty_Msg)"
  using assms
proof (induction ms arbitrary: c)
  case Nil
  then have "\<not> list_ex (of_topic (sc_topic c)) (drop (sc_offset c) (sc_messages c))"
    by (auto simp: filter_empty_conv list_ex_iff)
  note e = stub_end [OF this]
  show ?case using e Nil.prems(2) by (simp add: stub_timeouts)
next
  case (Cons m ms)
  from filter_eq_ConsD [OF Cons.prems(1)] obtain before after where
    d: "drop (sc_offset c) (sc_messages c) = before @ m # after" "\<not> list_ex (of_topic (sc_topic c)) before"
    "of_topic (sc_topic c) m" "ms = filter (of_topic (sc_topic c)) after" by (auto simp: list_ex_iff)
  let ?c = "c\<lparr>sc_offset := sc_offset c + Suc (length before)\<rparr>"
  have p: "stub_poll c = ((PS_Message, m), ?c)" using next_of_topic_some [OF d(2,3)] by (simp add: stub_poll_def d(1))
  have "drop (sc_offset c + Suc (length before)) (sc_messages c) = after"
    using arg_cong [OF d(1), of "drop (Suc (length before))"] by (simp add: add.commute)
  then show ?case using Cons.IH [of ?c] Cons.prems(2) d(4) p by simp
qed

text \<open>The stub delivers the messages of its topic, all of them and in their order, then the end of the partition once, and
  from then on nothing but timeouts.\<close>

theorem stub_plays_back:
  assumes "stub_addTopic t (make_StubConsumer messages valid) = (None, c)"
  shows "stub_polls (length (filter (of_topic t) messages) + Suc k) c =
    map (Pair PS_Message) (filter (of_topic t) messages) @ (PS_EndOfPartition, empty_Msg) # replicate k (PS_TimedOut, empty_Msg)"
proof -
  have "sc_topic c = t" "sc_offset c = 0" "sc_messages c = messages" "\<not> sc_at_end_of_partition c"
    using assms by (auto simp: stub_addTopic_def make_StubConsumer_def split: if_splits)
  then show ?thesis using stub_rest [of c "filter (of_topic t) messages" k] by simp
qed

theorem stub_plays_back_witness:
  "\<exists>c. stub_addTopic ''a'' (make_StubConsumer [empty_Msg, empty_Msg\<lparr>msg_MetaData := empty_MetaData\<lparr>md_topic := ''a''\<rparr>\<rparr>] []) = (None, c) \<and>
     map fst (stub_polls 4 c) = [PS_Message, PS_EndOfPartition, PS_TimedOut, PS_TimedOut]"
proof -
  let ?msgs = "[empty_Msg, empty_Msg\<lparr>msg_MetaData := empty_MetaData\<lparr>md_topic := ''a''\<rparr>\<rparr>]"
  obtain c where c: "stub_addTopic ''a'' (make_StubConsumer ?msgs []) = (None, c)"
    by (simp add: stub_addTopic_def make_StubConsumer_def is_topic_valid_def)
  have f: "filter (of_topic ''a'') ?msgs = [empty_Msg\<lparr>msg_MetaData := empty_MetaData\<lparr>md_topic := ''a''\<rparr>\<rparr>]"
    by (simp add: empty_Msg_def empty_MetaData_def)
  have "map fst (stub_polls 4 c) = map fst (stub_polls (Suc (Suc (Suc (Suc 0)))) c)"
    by (rule arg_cong [of _ _ "\<lambda>n. map fst (stub_polls n c)"]) simp
  also have "\<dots> = [PS_Message, PS_EndOfPartition, PS_TimedOut, PS_TimedOut]"
    using stub_plays_back [OF c, of "Suc (Suc 0)", unfolded f] by (simp del: stub_polls.simps)
  finally have "map fst (stub_polls 4 c) = [PS_Message, PS_EndOfPartition, PS_TimedOut, PS_TimedOut]" .
  with c show ?thesis by (intro exI conjI)
qed

section \<open>The factory of stub consumers\<close>

definition stub_createConsumer :: "Msg list \<Rightarrow> string list \<Rightarrow> StubConsumer" where
  "stub_createConsumer messages valid_topics = make_StubConsumer messages valid_topics"

text \<open>The valid topics are not passed on here.\<close>

definition stub_createConsumerAtOffset :: "Msg list \<Rightarrow> string \<Rightarrow> int \<Rightarrow> exn option \<times> StubConsumer" where
  "stub_createConsumerAtOffset messages topic partition_id = stub_addPartitionAtOffset topic partition_id (make_StubConsumer messages [])"

text \<open>So a consumer at an offset is made for any topic, and starts with the first message, whatever the offset.\<close>

lemma stub_consumer_at_offset:
  "fst (stub_createConsumerAtOffset messages topic partition_id) = None \<and>
   snd (stub_createConsumerAtOffset messages topic partition_id) =
     (make_StubConsumer messages [])\<lparr>sc_topic := topic, sc_partition := partition_id\<rparr>"
  by (simp add: stub_createConsumerAtOffset_def stub_addPartitionAtOffset_def is_topic_valid_def make_StubConsumer_def)

end
