(* ===== verification/Message_Generators.thy ===== *)
theory Message_Generators
  imports Da00_Writer Event_Writer Kafka_Producer
begin

text \<open>
  \<^verbatim>\<open>src/FlatBufferGenerators.h\<close>, which makes messages from JSON for the demonstration program \<^verbatim>\<open>apps/file-maker.cpp\<close>, and that
  program's own functions; and the checks of message types against configured types in the writer modules f144, se00 and ad00.

  The generated builders put the values they are given into a buffer, and the generated accessors read them back: a generated message is
  the record of its values that the writer modules work on. The conversions of the JSON library are arguments. Results are
  \<open>(exn + 'a) option\<close>, with \<open>None\<close> for the constant access to a missing member.
\<close>

section \<open>Message types\<close>

datatype type_check = TC_same | TC_differs string string | TC_out_of_range

text \<open>The body that the three functions share; \<^verbatim>\<open>at\<close> throws for a missing key, and the exception is caught and logged.\<close>

definition check_type ::
  "('m \<times> 't) list \<Rightarrow> ('t \<times> string) list \<Rightarrow> ('m \<times> string) list \<Rightarrow> 't \<Rightarrow> 'm \<Rightarrow> type_check" where
  "check_type TypeComparison ConfigTypeString MsgTypeString ConfigType MsgType =
     (case map_of TypeComparison MsgType of
        None \<Rightarrow> TC_out_of_range
      | Some t \<Rightarrow>
          if t \<noteq> ConfigType then
            (case (map_of ConfigTypeString ConfigType, map_of MsgTypeString MsgType) of
               (Some c, Some m) \<Rightarrow> TC_differs c m
             | _ \<Rightarrow> TC_out_of_range)
          else TC_same)"

text \<open>The initialiser of the table of f144 has the key \<^verbatim>\<open>ArrayByte\<close> twice; the first entry stays.\<close>

definition f144_msgTypeIsConfigType :: "element_type \<Rightarrow> f144_value \<Rightarrow> type_check" where
  "f144_msgTypeIsConfigType =
     check_type
       [(V_ArrayByte, int8), (V_Byte, int8), (V_ArrayUByte, uint8), (V_ArrayByte, uint8), (V_ArrayShort, int16), (V_Short, int16),
        (V_ArrayUShort, uint16), (V_UShort, uint16), (V_ArrayInt, int32), (V_Int, int32), (V_ArrayUInt, uint32), (V_UInt, uint32),
        (V_ArrayLong, int64), (V_Long, int64), (V_ArrayULong, uint64), (V_ULong, uint64), (V_ArrayFloat, float32), (V_Float, float32),
        (V_ArrayDouble, float64), (V_Double, float64)]
       [(int8, ''int8''), (uint8, ''uint8''), (int16, ''int16''), (uint16, ''uint16''), (int32, ''int32''), (uint32, ''uint32''),
        (int64, ''int64''), (uint64, ''uint64''), (float32, ''float32''), (float64, ''float64'')]
       [(V_ArrayByte, ''int8''), (V_Byte, ''int8''), (V_ArrayUByte, ''uint8''), (V_UByte, ''uint8''), (V_ArrayShort, ''int16''),
        (V_Short, ''int16''), (V_ArrayUShort, ''uint16''), (V_UShort, ''uint16''), (V_ArrayInt, ''int32''), (V_Int, ''int32''),
        (V_ArrayUInt, ''uint32''), (V_UInt, ''uint32''), (V_ArrayLong, ''int64''), (V_Long, ''int64''), (V_ArrayULong, ''uint64''),
        (V_ULong, ''uint64''), (V_ArrayFloat, ''float32''), (V_Float, ''float32''), (V_ArrayDouble, ''float64''), (V_Double, ''float64'')]"

definition se00_msgTypeIsConfigType :: "element_type \<Rightarrow> ValueUnion \<Rightarrow> type_check" where
  "se00_msgTypeIsConfigType =
     check_type
       [(Int8Array, int8), (UInt8Array, uint8), (Int16Array, int16), (UInt16Array, uint16), (Int32Array, int32), (UInt32Array, uint32),
        (Int64Array, int64), (UInt64Array, uint64), (FloatArray, float32), (DoubleArray, float64)]
       [(int8, ''int8''), (uint8, ''uint8''), (int16, ''int16''), (uint16, ''uint16''), (int32, ''int32''), (uint32, ''uint32''),
        (int64, ''int64''), (uint64, ''uint64''), (float32, ''float''), (float64, ''double'')]
       [(Int8Array, ''int8''), (UInt8Array, ''uint8''), (Int16Array, ''int16''), (UInt16Array, ''uint16''), (Int32Array, ''int32''),
        (UInt32Array, ''uint32''), (Int64Array, ''int64''), (UInt64Array, ''uint64''), (DoubleArray, ''double''), (FloatArray, ''float'')]"

definition ad00_msgTypeIsConfigType :: "DType \<Rightarrow> DType \<Rightarrow> type_check" where
  "ad00_msgTypeIsConfigType =
     (let same = map (\<lambda>t. (t, t)) [D_int8, D_uint8, D_int16, D_uint16, D_int32, D_uint32, D_int64, D_uint64, D_float32, D_float64];
          names = [(D_int8, ''int8''), (D_uint8, ''uint8''), (D_int16, ''int16''), (D_uint16, ''uint16''), (D_int32, ''int32''),
                   (D_uint32, ''uint32''), (D_int64, ''int64''), (D_uint64, ''uint64''), (D_float32, ''float32''), (D_float64, ''float64'')]
      in check_type same names names)"

section \<open>Members of the description of a message\<close>

definition const_member :: "string \<Rightarrow> json \<Rightarrow> (exn + json) option" where
  "const_member key item =
     (case item of
        J_object ms \<Rightarrow> (case map_of ms key of None \<Rightarrow> None | Some v \<Rightarrow> Some (Inr v))
      | _ \<Rightarrow> Some (Inl (Json_Type_Error ''cannot use operator[] with a string argument'')))"

definition member_as :: "(json \<Rightarrow> exn + 'a) \<Rightarrow> string \<Rightarrow> json \<Rightarrow> (exn + 'a) option" where
  "member_as get key item = bindR (const_member key item) (\<lambda>v. Some (get v))"

text \<open>A comparison with a string literal is false for a value that is not a string.\<close>

definition member_is :: "string \<Rightarrow> string \<Rightarrow> json \<Rightarrow> (exn + bool) option" where
  "member_is key literal item = bindR (const_member key item) (\<lambda>v. Some (Inr (v = J_string literal)))"

definition ms_to_ns :: "int \<Rightarrow> int" where
  "ms_to_ns t = s64 (t * 1000000)"

section \<open>The generators\<close>

definition create_f144_message_double :: "string \<Rightarrow> 'f \<Rightarrow> int \<Rightarrow> 'f f144_LogData" where
  "create_f144_message_double source v timestamp_ms =
     \<lparr>lg_source_name = source, lg_timestamp = ms_to_ns timestamp_ms, lg_value_type = V_Double, lg_value = HV_float v\<rparr>"

text \<open>\<^verbatim>\<open>ConnectionInfo\<close> and \<^verbatim>\<open>Severity\<close> are enumerations of the generated code; the names stand for their numbers.
  \<open>uninitialized_vector len elemsize bs\<close> are the bytes that a reader of the finished buffer sees of a vector made with
  \<^verbatim>\<open>CreateUninitializedVector(len, elemsize, ...)\<close>, after \<open>bs\<close> was copied to its place.\<close>

record fb_enums =
  uninitialized_vector :: "nat \<Rightarrow> nat \<Rightarrow> bytes \<Rightarrow> bytes"
  CONNECTED :: int
  DISCONNECTED :: int
  ALARM_OK :: int
  ALARM_MINOR :: int
  ALARM_MAJOR :: int
  ALARM_INVALID :: int

definition create_ep01_message_double :: "string \<Rightarrow> int \<Rightarrow> int \<Rightarrow> ep01_Info" where
  "create_ep01_message_double source status timestamp_ms =
     \<lparr>ep_source_name = Some source, ep_timestamp = ms_to_ns timestamp_ms, ep_status = status\<rparr>"

definition create_al00_message_double :: "string \<Rightarrow> int \<Rightarrow> int \<Rightarrow> string \<Rightarrow> al00_Alarm" where
  "create_al00_message_double source timestamp_ms severity message =
     \<lparr>al_source_name = Some source, al_timestamp = ms_to_ns timestamp_ms, al_severity = severity, al_message = message\<rparr>"

definition create_ev44_message :: "string \<Rightarrow> int \<Rightarrow> int list \<Rightarrow> int list \<Rightarrow> Event44Message" where
  "create_ev44_message source timestamp_ns time_of_flight pixel_ids =
     \<lparr>em_source_name = source, em_reference_time = [ms_to_ns timestamp_ns], em_reference_time_index = [0],
      em_time_of_flight = time_of_flight, em_pixel_id = pixel_ids\<rparr>"

text \<open>The bytes of an integer in memory, on a little-endian machine.\<close>

definition raw_bytes :: "nat \<Rightarrow> int \<Rightarrow> bytes" where
  "raw_bytes n v = map (\<lambda>i. char_of (nat (v div 256 ^ i mod 256))) [0..<n]"

definition create_ad00_message_uint16 :: "string \<Rightarrow> int list list \<Rightarrow> int \<Rightarrow> ad00_ADArray" where
  "create_ad00_message_uint16 source values_2d timestamp_ms =
     (let rows = length values_2d;
          cols = (if values_2d = [] then 0 else length (values_2d ! 0));
          flat_values = concat values_2d
      in \<lparr>ad_source_name = source, ad_timestamp = ms_to_ns timestamp_ms, ad_data_type = D_uint16,
          ad_dimensions = [rows, cols], ad_data = concat (map (raw_bytes 2) flat_values)\<rparr>)"

definition create_da00_message_int32s :: "fb_enums \<Rightarrow> string \<Rightarrow> string \<Rightarrow> int \<Rightarrow> int list \<Rightarrow> da00_DataArray" where
  "create_da00_message_int32s en name axis_name timestamp_ns data =
     \<lparr>da_timestamp = ms_to_ns timestamp_ns,
      da_data = [\<lparr>dv_name = name, dv_unit = None, dv_label = None, dv_data_type = D_int32, dv_shape = Some [length data],
                  dv_axes = Some [axis_name], dv_data = Some (uninitialized_vector en (length data) 4 (concat (map (raw_bytes 4) data)))\<rparr>]\<rparr>"

datatype 'f generated =
    G_f144 "'f f144_LogData"
  | G_ep01 ep01_Info
  | G_al00 al00_Alarm
  | G_ev44 Event44Message
  | G_ad00 ad00_ADArray
  | G_da00 string da00_DataArray

definition convert_to_raw_flatbuffer ::
  "json_lib \<Rightarrow> (json \<Rightarrow> exn + 'f) \<Rightarrow> fb_enums \<Rightarrow> json \<Rightarrow> (exn + 'f generated) option" where
  "convert_to_raw_flatbuffer jl get_double en item =
     bindR (member_as json_get_string ''schema'' item) (\<lambda>schema.
     if schema = ''f144'' then
       bindR (member_as json_get_string ''source_name'' item) (\<lambda>source.
       bindR (member_as get_double ''value'' item) (\<lambda>v.
       bindR (member_as (get_int jl ''int64'') ''timestamp'' item) (\<lambda>t.
       Some (Inr (G_f144 (create_f144_message_double source v t))))))
     else if schema = ''ep01'' then
       bindR (member_is ''connection_status'' ''ConnectionInfo::CONNECTED'' item) (\<lambda>connected.
       bindR (member_as json_get_string ''source_name'' item) (\<lambda>source.
       bindR (member_as (get_int jl ''int64'') ''timestamp'' item) (\<lambda>t.
       Some (Inr (G_ep01 (create_ep01_message_double source (if connected then CONNECTED en else DISCONNECTED en) t))))))
     else if schema = ''al00'' then
       bindR (member_is ''severity'' ''Severity::INVALID'' item) (\<lambda>is_invalid.
       bindR (member_is ''severity'' ''Severity::MAJOR'' item) (\<lambda>is_major.
       bindR (member_is ''severity'' ''Severity::MINOR'' item) (\<lambda>is_minor.
       bindR (member_as json_get_string ''source_name'' item) (\<lambda>source.
       bindR (member_as (get_int jl ''int64'') ''timestamp'' item) (\<lambda>t.
       bindR (member_as json_get_string ''message'' item) (\<lambda>message.
       Some (Inr (G_al00 (create_al00_message_double source t
         (if is_invalid then ALARM_INVALID en else if is_major then ALARM_MAJOR en else if is_minor then ALARM_MINOR en
          else ALARM_OK en) message)))))))))
     else if schema = ''ev44'' then
       bindR (member_as json_get_string ''source_name'' item) (\<lambda>source.
       bindR (member_as (get_int jl ''int64'') ''message_id'' item) (\<lambda>_.
       bindR (member_as (get_int jl ''int64'') ''reference_time'' item) (\<lambda>t.
       bindR (member_as (get_vector (get_int jl ''int32'')) ''time_of_flight'' item) (\<lambda>tofs.
       bindR (member_as (get_vector (get_int jl ''int32'')) ''pixel_ids'' item) (\<lambda>ids.
       Some (Inr (G_ev44 (create_ev44_message source t tofs ids))))))))
     else if schema = ''ad00'' then
       bindR (member_as (get_vector (get_vector (get_int jl ''uint16''))) ''data'' item) (\<lambda>data.
       bindR (member_as json_get_string ''source_name'' item) (\<lambda>source.
       bindR (member_as (get_int jl ''int64'') ''timestamp'' item) (\<lambda>t.
       Some (Inr (G_ad00 (create_ad00_message_uint16 source data t))))))
     else if schema = ''da00'' then
       bindR (member_as (get_vector (get_int jl ''int32'')) ''data'' item) (\<lambda>data.
       bindR (member_as json_get_string ''source_name'' item) (\<lambda>source.
       bindR (member_as json_get_string ''name'' item) (\<lambda>name.
       bindR (member_as json_get_string ''axis_name'' item) (\<lambda>axis_name.
       bindR (member_as (get_int jl ''int64'') ''timestamp'' item) (\<lambda>t.
       Some (Inr (G_da00 source (create_da00_message_int32s en name axis_name t data))))))))
     else Some (Inl (Runtime_Error (''Unknown schema '' @ schema))))"

section \<open>The demonstration program\<close>

definition add_message_fm :: "Msg list \<Rightarrow> bytes \<Rightarrow> int \<Rightarrow> string \<Rightarrow> int \<Rightarrow> int \<Rightarrow> Msg list" where
  "add_message_fm messages flatbuffer timestamp topic off part =
     messages @ [\<lparr>msg_Data = flatbuffer,
                   msg_MetaData = empty_MetaData\<lparr>md_Timestamp := timestamp, md_Offset := off, md_Partition := part, md_topic := topic\<rparr>\<rparr>]"

text \<open>The loop that fills the stub consumers; \<open>serialise\<close> is the generated code that makes the buffer. The items are not
  constant here: \<^verbatim>\<open>operator[]\<close> adds a null for a member that is missing.\<close>

definition item_as :: "(json \<Rightarrow> exn + 'a) \<Rightarrow> string \<Rightarrow> json \<Rightarrow> (exn + 'a) option" where
  "item_as get key item =
     Some (case item of
        J_object ms \<Rightarrow> get (case map_of ms key of None \<Rightarrow> J_null | Some v \<Rightarrow> v)
      | J_null \<Rightarrow> get J_null
      | _ \<Rightarrow> Inl (Json_Type_Error ''cannot use operator[] with a string argument''))"

fun fill_messages ::
  "json_lib \<Rightarrow> (json \<Rightarrow> exn + 'f) \<Rightarrow> fb_enums \<Rightarrow> ('f generated \<Rightarrow> bytes) \<Rightarrow> int \<Rightarrow> json list \<Rightarrow> Msg list
     \<Rightarrow> (exn + Msg list) option" where
  "fill_messages jl get_double en serialise off [] messages = Some (Inr messages)"
| "fill_messages jl get_double en serialise off (it # its) messages =
     bindR (convert_to_raw_flatbuffer jl get_double en it) (\<lambda>msg.
     bindR (item_as (get_int jl ''int64'') ''kafka_timestamp'' it) (\<lambda>timestamp_ms.
     bindR (item_as json_get_string ''topic'' it) (\<lambda>topic.
     fill_messages jl get_double en serialise (off + 1) its (add_message_fm messages (serialise msg) timestamp_ms topic off 0))))"

definition stub_getTopicList :: "string list" where
  "stub_getTopicList = [''local_choppers'', ''local_detector'', ''local_motion'', ''local_nicos_devices'', ''local_sample_env'']"

definition stub_getOffsetForTime :: "(int \<times> int) list" where
  "stub_getOffsetForTime = [(0, 0)]"

definition stub_getPartitionsForTopic :: "int list" where
  "stub_getPartitionsForTopic = [0]"

text \<open>What the two programs ask the job creator for: \<open>structure\<close> is the result of reading the JSON file.\<close>

definition template_file :: "string \<Rightarrow> string" where
  "template_file instrument_name = ''../../nexus/'' @ instrument_name @ ''/'' @ instrument_name @ ''.hdf''"

definition file_maker_start :: "exn + string \<Rightarrow> string \<Rightarrow> exn + (StartMessage \<times> string \<times> StreamerOptions)" where
  "file_maker_start structure instrument_name =
     (case structure of
        Inl e \<Rightarrow> Inl e
      | Inr text \<Rightarrow>
          let start_info = empty_StartMessage\<lparr>sm_NexusStructure := text\<rparr>;
              (start_info, template_path) =
                (if instrument_name \<noteq> [] then (start_info\<lparr>sm_InstrumentName := instrument_name\<rparr>, template_file instrument_name)
                 else (start_info, []))
          in Inr (start_info\<lparr>sm_JobID := ''some_job_id''\<rparr>, template_path,
                  default_StreamerOptions\<lparr>so_StartTimestamp := millis 10000, so_StopTimestamp := millis 15000\<rparr>))"

definition template_maker_start :: "string \<Rightarrow> exn + string \<Rightarrow> string \<Rightarrow> exn + (StartMessage \<times> string)" where
  "template_maker_start json_file structure instrument_name =
     (if json_file = [] then Inl (Runtime_Error ''No JSON file provided'')
      else case structure of
        Inl e \<Rightarrow> Inl e
      | Inr text \<Rightarrow>
          if instrument_name = [] then Inl (Runtime_Error ''No instrument name provided'')
          else Inr (empty_StartMessage\<lparr>sm_NexusStructure := text, sm_InstrumentName := instrument_name, sm_JobID := ''some_job_id''\<rparr>,
                    template_file instrument_name))"

section \<open>Properties\<close>

text \<open>The type of the values in a message of each kind, as the schema has it.\<close>

fun value_element_type :: "f144_value \<Rightarrow> element_type option" where
  "value_element_type V_Byte = Some int8" | "value_element_type V_ArrayByte = Some int8"
| "value_element_type V_UByte = Some uint8" | "value_element_type V_ArrayUByte = Some uint8"
| "value_element_type V_Short = Some int16" | "value_element_type V_ArrayShort = Some int16"
| "value_element_type V_UShort = Some uint16" | "value_element_type V_ArrayUShort = Some uint16"
| "value_element_type V_Int = Some int32" | "value_element_type V_ArrayInt = Some int32"
| "value_element_type V_UInt = Some uint32" | "value_element_type V_ArrayUInt = Some uint32"
| "value_element_type V_Long = Some int64" | "value_element_type V_ArrayLong = Some int64"
| "value_element_type V_ULong = Some uint64" | "value_element_type V_ArrayULong = Some uint64"
| "value_element_type V_Float = Some float32" | "value_element_type V_ArrayFloat = Some float32"
| "value_element_type V_Double = Some float64" | "value_element_type V_ArrayDouble = Some float64"
| "value_element_type V_NONE = None"

fun union_element_type :: "ValueUnion \<Rightarrow> element_type option" where
  "union_element_type Int8Array = Some int8" | "union_element_type UInt8Array = Some uint8"
| "union_element_type Int16Array = Some int16" | "union_element_type UInt16Array = Some uint16"
| "union_element_type Int32Array = Some int32" | "union_element_type UInt32Array = Some uint32"
| "union_element_type Int64Array = Some int64" | "union_element_type UInt64Array = Some uint64"
| "union_element_type FloatArray = Some float32" | "union_element_type DoubleArray = Some float64"
| "union_element_type Unknown_Values = None"

definition types_agree :: "'t option \<Rightarrow> 't \<Rightarrow> type_check \<Rightarrow> bool" where
  "types_agree actual configured result \<longleftrightarrow>
     (case actual of
        None \<Rightarrow> result = TC_out_of_range
      | Some t \<Rightarrow> if t = configured then result = TC_same else (\<exists>c m. result = TC_differs c m \<and> c \<noteq> m))"



lemma raw_bytes_length: "length (concat (map (raw_bytes n) xs)) = n * length xs"
  by (induction xs) (simp_all add: raw_bytes_def)

text \<open>An image whose rows all have the same length makes a message that the ad00 writer reads within its bounds, whatever
  the size of the rows; one whose rows have not makes the writer read beyond the message when the first row is longer than the average.\<close>

theorem generated_images_in_bounds:
  assumes "dl_dims L h (xw_Values w) = [n, r, c]" and "length rows * length (hd rows) < 2 ^ 64"
  shows "ad00_writeImpl L dec (create_ad00_message_uint16 source rows t) w h \<noteq> None \<longleftrightarrow>
    length rows * length (hd rows) \<le> length (concat rows)"
proof -
  let ?m = "create_ad00_message_uint16 source rows t"
  have d: "ad_dimensions ?m = [length rows, if rows = [] then 0 else length (hd rows)]" "ad_data_type ?m = D_uint16"
    "length (ad_data ?m) = 2 * length (concat rows)"
    using raw_bytes_length [of 2 "concat rows"] by (simp_all add: create_ad00_message_uint16_def Let_def hd_conv_nth)
  then have e: "ad00_elements (ad_dimensions ?m) = length rows * length (hd rows)"
    using assms(2) by (cases rows) (simp_all add: ad00_elements_product)
  have "appendArray_shape L (xw_Values w) xs (ad_dimensions ?m) h \<noteq> None" for xs using assms(1) by (simp add: appendArray_shape_def)
  then have "appendData L dec (xw_Values w) ?m h = None \<longleftrightarrow> length (concat rows) < length rows * length (hd rows)"
    using assms(1) d e by (simp add: appendData_def Let_def)
  then show ?thesis using d(2) by (auto simp: ad00_writeImpl_def Let_def split: option.splits prod.splits) (rule prod_cases3, intro exI, assumption)
qed

lemma rectangular_images:
  assumes "\<forall>r \<in> set rows. length r = k" and "rows \<noteq> []"
  shows "length (concat rows) = length rows * length (hd rows)"
proof -
  have "length (concat rows) = length rows * k" using assms(1) by (induction rows) auto
  then show ?thesis using assms by (cases rows) auto
qed

theorem generated_images_in_bounds_witness:
  "ad00_writeImpl (list_datasets\<lparr>dl_dims := \<lambda>h p. [0, 1, 1]\<rparr>) (\<lambda>T d n. []) (create_ad00_message_uint16 ''s'' [[1, 2], [3]] 0) sample_ad00 [] = None"
proof -
  have "(\<not> ad00_writeImpl (list_datasets\<lparr>dl_dims := \<lambda>h p. [0, 1, 1]\<rparr>) (\<lambda>T d n. []) (create_ad00_message_uint16 ''s'' [[1, 2], [3]] 0)
           sample_ad00 [] \<noteq> None)"
    by (subst generated_images_in_bounds [where n = 0 and r = 1 and c = 1]) simp_all
  then show ?thesis by blast
qed

text \<open>The file maker reads the template that the template maker wrote for the same instrument.\<close>

lemma template_found:
  assumes "template_maker_start json_file structure i = Inr (start_info, written)"
  shows "\<exists>so. file_maker_start structure i = Inr (start_info, written, so)"
  using assms by (auto simp: template_maker_start_def file_maker_start_def split: if_splits sum.splits)

text \<open>The payload of a generated data array is made as a vector of as many elements as there are numbers, and read as a vector of
  bytes: with a library whose vectors have the length they were made with, a reader sees a quarter of the bytes that the shape of the
  variable needs, and the message never fits a writer that knows the variable.\<close>

lemma generated_data_array_short:
  assumes "\<And>len elemsize bs. length (uninitialized_vector en len elemsize bs) = len"
    and "map_of (dw_VariableConfigMap w) name = Some c" and "data \<noteq> []"
  shows "\<not> message_fits w (create_da00_message_int32s en name axis_name t data)"
  using assms by (cases "vc_shape c") (auto simp: message_fits_def variable_fits_def create_da00_message_int32s_def)

section \<open>The metadata of data arrays\<close>

text \<open>The extractor of da00; the name is read through a pointer that is not checked.\<close>

record da00_named_array = da00_DataArray +
  da_source_name :: "string option"

definition da00_timestamp :: "'x da00_DataArray_scheme \<Rightarrow> int" where
  "da00_timestamp m = da_timestamp m mod 2 ^ 64"

definition da00_source_name :: "da00_named_array \<Rightarrow> string option" where
  "da00_source_name m = da_source_name m"

text \<open>The message generators and the extractors agree on times that fit: what was given in milliseconds comes back in nanoseconds.\<close>

lemma generated_timestamps:
  assumes "0 \<le> t" and "t * 1000000 < 2 ^ 63"
  shows "f144_timestamp (create_f144_message_double source v t) = t * 1000000"
    and "ep01_timestamp (create_ep01_message_double source status t) = t * 1000000"
    and "al00_timestamp (create_al00_message_double source t severity message) = t * 1000000"
    and "ad00_timestamp (create_ad00_message_uint16 source rows t) = t * 1000000"
    and "da00_timestamp (create_da00_message_int32s en name axis_name t data) = t * 1000000"
    and "ev44_timestamp (em_reference_time (create_ev44_message source t tofs ids)) = Some (t * 1000000)"
proof -
  have "ms_to_ns t mod 2 ^ 64 = t * 1000000" using assms by (simp add: ms_to_ns_def s64_id in_s64_def)
  then show "f144_timestamp (create_f144_message_double source v t) = t * 1000000"
    "ep01_timestamp (create_ep01_message_double source status t) = t * 1000000"
    "al00_timestamp (create_al00_message_double source t severity message) = t * 1000000"
    "ad00_timestamp (create_ad00_message_uint16 source rows t) = t * 1000000"
    "da00_timestamp (create_da00_message_int32s en name axis_name t data) = t * 1000000"
    "ev44_timestamp (em_reference_time (create_ev44_message source t tofs ids)) = Some (t * 1000000)"
    by (simp_all add: f144_timestamp_def create_f144_message_double_def ep01_timestamp_def create_ep01_message_double_def
        al00_timestamp_def create_al00_message_double_def ad00_timestamp_def create_ad00_message_uint16_def da00_timestamp_def
        create_da00_message_int32s_def ev44_timestamp_def create_ev44_message_def Let_def)
qed

end
