(* ===== verification/Regex_Match.thy ===== *)
theory Regex_Match
  imports K2N_Prelude
begin

text \<open>
  \<^verbatim>\<open>std::regex_match\<close> with the default (ECMAScript) grammar, as far as the program uses it: character classes, sequences,
  ordered alternatives, greedy repetition and capture groups. Matching backtracks: \<open>matches\<close> gives all ways to match a prefix
  of the input, in the order in which the matcher tries them, each with the rest of the input and the captures. The match
  is the first that leaves no rest.
\<close>

datatype regex =
    RClass "char \<Rightarrow> bool"
  | REmpty
  | RSeq regex regex
  | RAlt regex regex
  | RStar regex
  | RGroup nat regex

type_synonym captures = "(nat \<times> string) list"

definition RPlus :: "regex \<Rightarrow> regex" where
  "RPlus r = RSeq r (RStar r)"

definition ROpt :: "regex \<Rightarrow> regex" where
  "ROpt r = RAlt r REmpty"

definition RChar :: "char \<Rightarrow> regex" where
  "RChar c = RClass (\<lambda>d. d = c)"

definition RString :: "string \<Rightarrow> regex" where
  "RString s = foldr (\<lambda>c. RSeq (RChar c)) s REmpty"

definition RAlts :: "regex list \<Rightarrow> regex" where
  "RAlts rs = foldr RAlt (butlast rs) (last rs)"

function matches :: "regex \<Rightarrow> string \<Rightarrow> captures \<Rightarrow> (string \<times> captures) list" where
  "matches (RClass P) s c = (case s of [] \<Rightarrow> [] | x # s' \<Rightarrow> if P x then [(s', c)] else [])"
| "matches REmpty s c = [(s, c)]"
| "matches (RSeq a b) s c = concat (map (\<lambda>(s', c'). matches b s' c') (matches a s c))"
| "matches (RAlt a b) s c = matches a s c @ matches b s c"
| "matches (RStar r) s c =
     concat (map (\<lambda>(s', c'). matches (RStar r) s' c') (filter (\<lambda>m. length (fst m) < length s) (matches r s c))) @ [(s, c)]"
| "matches (RGroup n r) s c = map (\<lambda>(s', c'). (s', (n, take (length s - length s') s) # c')) (matches r s c)"
  by pat_completeness auto
termination by (relation "measures [\<lambda>(r, s, c). size r, \<lambda>(r, s, c). length s]") auto

lemmas star_unfold = matches.simps(5)

declare matches.simps(5) [simp del]

definition regex_match :: "regex \<Rightarrow> string \<Rightarrow> captures option" where
  "regex_match r s = map_option snd (find (\<lambda>m. fst m = []) (matches r s []))"

text \<open>Captures are looked up by number; a group that is repeated keeps its last iteration.\<close>

definition group_matched :: "captures \<Rightarrow> nat \<Rightarrow> bool" where
  "group_matched c n \<longleftrightarrow> map_of c n \<noteq> None"

definition group_str :: "captures \<Rightarrow> nat \<Rightarrow> string" where
  "group_str c n = (case map_of c n of None \<Rightarrow> [] | Some s \<Rightarrow> s)"

text \<open>Facts about what is tried first.\<close>

definition tries_first :: "regex \<Rightarrow> string \<Rightarrow> captures \<Rightarrow> string \<Rightarrow> captures \<Rightarrow> bool" where
  "tries_first r s c s' c' \<longleftrightarrow> (\<exists>ms. matches r s c = (s', c') # ms)"

named_theorems first_try \<open>what a regular expression tries first\<close>

lemma first_full: "tries_first r s [] [] c \<Longrightarrow> regex_match r s = Some c"
  by (auto simp: tries_first_def regex_match_def)

lemma first_seq [first_try]:
  "tries_first a s c s' c' \<Longrightarrow> tries_first b s' c' s'' c'' \<Longrightarrow> tries_first (RSeq a b) s c s'' c''"
  by (auto simp: tries_first_def)

lemma first_alt: "tries_first a s c s' c' \<Longrightarrow> tries_first (RAlt a b) s c s' c'"
  by (auto simp: tries_first_def)

lemma first_alt_other: "matches a s c = [] \<Longrightarrow> tries_first b s c s' c' \<Longrightarrow> tries_first (RAlt a b) s c s' c'"
  by (auto simp: tries_first_def)

lemma first_empty [first_try]: "tries_first REmpty s c s c"
  by (auto simp: tries_first_def)

lemma first_opt: "tries_first a s c s' c' \<Longrightarrow> tries_first (ROpt a) s c s' c'"
  unfolding ROpt_def by (rule first_alt)

lemma first_opt_none: "matches a s c = [] \<Longrightarrow> tries_first (ROpt a) s c s c"
  unfolding ROpt_def by (auto intro: first_alt_other first_empty)

lemma first_class [first_try]: "P x \<Longrightarrow> tries_first (RClass P) (x # s) c s c"
  by (auto simp: tries_first_def)

lemma first_group: "tries_first r (u @ s) c s c' \<Longrightarrow> tries_first (RGroup n r) (u @ s) c s ((n, u) # c')"
  by (auto simp: tries_first_def)

lemma class_none: "s = [] \<or> \<not> P (hd s) \<Longrightarrow> matches (RClass P) s c = []"
  by (cases s) auto

lemma seq_none: "matches a s c = [] \<Longrightarrow> matches (RSeq a b) s c = []"
  by simp

lemma group_none: "matches a s c = [] \<Longrightarrow> matches (RGroup n a) s c = []"
  by simp

lemma string_none: "take (length u) s \<noteq> u \<Longrightarrow> matches (RString u) s c = []"
proof (induction u arbitrary: s)
  case (Cons x u)
  then show ?case by (cases s) (auto simp: RString_def RChar_def)
qed simp

lemma first_string [first_try]: "tries_first (RString u) (u @ s) c s c"
proof (induction u)
  case Nil
  then show ?case by (simp add: RString_def first_empty)
next
  case (Cons x u)
  then have "tries_first (foldr (\<lambda>c. RSeq (RChar c)) u REmpty) (u @ s) c s c" by (simp add: RString_def)
  then show ?case unfolding RString_def RChar_def by (simp add: first_seq [OF first_class])
qed

lemma star_none: "matches r s c = [] \<Longrightarrow> matches (RStar r) s c = [(s, c)]"
  by (simp add: star_unfold)

lemma first_star_none: "matches r s c = [] \<Longrightarrow> tries_first (RStar r) s c s c"
  by (simp add: tries_first_def star_none)

lemma first_star:
  assumes "tries_first r s c s' c'" and "length s' < length s" and "tries_first (RStar r) s' c' s'' c''"
  shows "tries_first (RStar r) s c s'' c''"
  using assms unfolding tries_first_def star_unfold [of r s] by auto

text \<open>A repeated class takes all it can.\<close>

lemma first_star_class:
  assumes "list_all P u" and "s = [] \<or> \<not> P (hd s)"
  shows "tries_first (RStar (RClass P)) (u @ s) c s c"
  using assms(1)
proof (induction u)
  case Nil
  then show ?case using first_star_none class_none [of s P c] assms(2) by simp
next
  case (Cons x u)
  then have "P x" "tries_first (RStar (RClass P)) (u @ s) c s c" by simp_all
  then show ?case using first_star [OF first_class [of P x "u @ s" c]] by simp
qed

lemma first_plus_class:
  assumes "list_all P u" and "u \<noteq> []" and "s = [] \<or> \<not> P (hd s)"
  shows "tries_first (RPlus (RClass P)) (u @ s) c s c"
  using assms first_seq [OF first_class first_star_class] unfolding RPlus_def by (cases u) auto

text \<open>All the ways in which a repeated class can match.\<close>

lemma star_class_all:
  "set (matches (RStar (RClass P)) s c) = {(drop k s, c) | k. k \<le> length (takeWhile P s)}"
proof (induction s)
  case (Cons x s)
  show ?case
  proof (cases "P x")
    case True
    have "{(drop k (x # s), c) | k. k \<le> Suc (length (takeWhile P s))} =
        insert (x # s, c) {(drop k s, c) | k. k \<le> length (takeWhile P s)}"
      by (auto simp: drop_Cons' split: if_splits)
    then show ?thesis using True Cons by (simp add: star_unfold [of _ "x # s"])
  qed (simp add: star_unfold)
qed (simp add: star_unfold)

lemma plus_class_rests:
  assumes "(s', c') \<in> set (matches (RPlus (RClass P)) s c)"
  obtains k where "0 < k" "k \<le> length (takeWhile P s)" "s' = drop k s"
proof (cases s)
  case Nil
  then show ?thesis using assms by (simp add: RPlus_def)
next
  case (Cons x t)
  then have "P x" "(s', c') \<in> set (matches (RStar (RClass P)) t c)" using assms by (auto simp: RPlus_def split: if_splits)
  then obtain k where "s' = drop k t" "k \<le> length (takeWhile P t)" unfolding star_class_all by blast
  then show ?thesis using that [of "Suc k"] \<open>P x\<close> Cons by simp
qed

lemma group_plus_class_none:
  assumes "\<And>k d. 0 < k \<Longrightarrow> k \<le> length (takeWhile P s) \<Longrightarrow> matches b (drop k s) d = []"
  shows "matches (RSeq (RGroup n (RPlus (RClass P))) b) s c = []"
  using assms by (auto elim!: plus_class_rests)

end
