(* ===== verification/Carbon_Connection.thy ===== *)
theory Carbon_Connection
  imports K2N_Prelude "HOL-Library.Multiset"
begin

text \<open>
  \<^verbatim>\<open>src/Metrics/CarbonConnection.{h,cpp}\<close>, \<^verbatim>\<open>CarbonInterface.{h,cpp}\<close> and \<^verbatim>\<open>ConnectionStatus.h\<close>: the
  connection to a Carbon server, which looks the address up, connects, sends the queued messages and
  starts again when the connection breaks.

  The connection is a machine driven by the handlers of \<^verbatim>\<open>asio\<close>. The library is modelled by what its
  documentation says of the calls that the code makes: an asynchronous operation stays outstanding until it
  completes, with or without an error; closing the socket makes the operations on it complete with an error;
  an operation on a socket that is not open fails; \<^verbatim>\<open>async_write\<close> completes with all bytes or with an
  error. One thread runs the service, and the handlers run in the order in which they became ready.
  The component \<open>cc_sent\<close> is not a member of the class: it is what the sockets have taken so far. How the
  resolver answers, which operation completes next, and how many bytes a broken write has sent are left open.
\<close>

datatype Status = ADDR_LOOKUP | ADDR_RETRY_WAIT | CONNECT | SEND_LOOP

datatype ReconnectDelay = LONG | SHORT

record endpoint =
  ep_is_v6 :: bool
  ep_address :: string

definition no_endpoint :: endpoint where
  "no_endpoint = \<lparr>ep_is_v6 = False, ep_address = []\<rparr>"

record QueryResult =
  qr_EndpointList :: "endpoint list"
  qr_NextEndpoint :: nat

text \<open>\<^verbatim>\<open>std::sort\<close> is not stable: the order of addresses of the same kind is up to the library.\<close>

definition make_QueryResult :: "(endpoint list \<Rightarrow> endpoint list) \<Rightarrow> endpoint list \<Rightarrow> QueryResult" where
  "make_QueryResult sort_v6 Endpoints = \<lparr>qr_EndpointList = sort_v6 Endpoints, qr_NextEndpoint = 0\<rparr>"

definition getNextEndpoint :: "QueryResult \<Rightarrow> endpoint \<times> QueryResult" where
  "getNextEndpoint q =
     (if qr_NextEndpoint q < length (qr_EndpointList q)
      then (qr_EndpointList q ! qr_NextEndpoint q, q\<lparr>qr_NextEndpoint := qr_NextEndpoint q + 1\<rparr>)
      else (no_endpoint, q))"

definition qr_isDone :: "QueryResult \<Rightarrow> bool" where
  "qr_isDone q \<longleftrightarrow> length (qr_EndpointList q) \<le> qr_NextEndpoint q"

section \<open>The service\<close>

text \<open>Operations that have been started, and handlers that are ready to run with what they are called with:
  \<open>True\<close> is an error.\<close>

datatype operation =
    Resolving string string
  | Connecting endpoint QueryResult
  | Receiving
  | Writing string
  | Waiting ReconnectDelay

datatype handler =
    Resolved "endpoint list option"
  | Connected bool QueryResult
  | Received bool
  | Written bool nat
  | Waited
  | Wait_For_Message

record Connection_Impl =
  cc_ConnectionState :: Status
  cc_MessageBuffer :: string
  cc_HostAddress :: string
  cc_HostPort :: string
  cc_Messages :: "string list"
  cc_Socket_open :: bool
  cc_operations :: "operation list"
  cc_ready :: "handler list"
  cc_sent :: string

definition MessageAdditionLimit :: nat where
  "MessageAdditionLimit = 3000"

definition start_operation :: "operation \<Rightarrow> Connection_Impl \<Rightarrow> Connection_Impl" where
  "start_operation op c = c\<lparr>cc_operations := cc_operations c @ [op]\<rparr>"

definition post :: "handler \<Rightarrow> Connection_Impl \<Rightarrow> Connection_Impl" where
  "post h c = c\<lparr>cc_ready := cc_ready c @ [h]\<rparr>"

definition async_connect :: "endpoint \<Rightarrow> QueryResult \<Rightarrow> Connection_Impl \<Rightarrow> Connection_Impl" where
  "async_connect ep q c = start_operation (Connecting ep q) (c\<lparr>cc_Socket_open := True\<rparr>)"

definition async_receive :: "Connection_Impl \<Rightarrow> Connection_Impl" where
  "async_receive c = (if cc_Socket_open c then start_operation Receiving c else post (Received True) c)"

definition async_write :: "Connection_Impl \<Rightarrow> Connection_Impl" where
  "async_write c =
     (if cc_Socket_open c then start_operation (Writing (cc_MessageBuffer c)) c else post (Written True 0) c)"

text \<open>Closing the socket: the operations on it become ready with an error; a write may have sent some of its
  bytes.\<close>

fun on_socket :: "operation \<Rightarrow> bool" where
  "on_socket (Resolving _ _) = False"
| "on_socket (Waiting _) = False"
| "on_socket _ = True"

fun aborted :: "nat \<Rightarrow> operation \<Rightarrow> handler list" where
  "aborted part (Connecting _ q) = [Connected True q]"
| "aborted part Receiving = [Received True]"
| "aborted part (Writing d) = [Written True (min part (length d))]"
| "aborted part _ = []"

fun sent_before_abort :: "nat \<Rightarrow> operation \<Rightarrow> string" where
  "sent_before_abort part (Writing d) = take part d"
| "sent_before_abort part _ = []"

definition close_Socket :: "nat \<Rightarrow> Connection_Impl \<Rightarrow> Connection_Impl" where
  "close_Socket part c =
     c\<lparr>cc_Socket_open := False, cc_operations := filter (\<lambda>op. \<not> on_socket op) (cc_operations c),
       cc_ready := cc_ready c @ concat (map (aborted part) (cc_operations c)),
       cc_sent := cc_sent c @ concat (map (sent_before_abort part) (cc_operations c))\<rparr>"

section \<open>The handlers\<close>

definition setState :: "Status \<Rightarrow> Connection_Impl \<Rightarrow> Connection_Impl" where
  "setState NewState c = c\<lparr>cc_ConnectionState := NewState\<rparr>"

definition doAddressQuery :: "Connection_Impl \<Rightarrow> Connection_Impl" where
  "doAddressQuery c =
     (let c = setState ADDR_LOOKUP c in start_operation (Resolving (cc_HostAddress c) (cc_HostPort c)) c)"

text \<open>\<^verbatim>\<open>expires_after\<close> cancels a wait that is still outstanding; its handler ignores the error code.\<close>

definition expires_after :: "Connection_Impl \<Rightarrow> Connection_Impl" where
  "expires_after c =
     c\<lparr>cc_operations := filter (\<lambda>op. \<forall>d \<in> {LONG, SHORT}. op \<noteq> Waiting d) (cc_operations c),
       cc_ready := cc_ready c @
         map (\<lambda>_. Waited) (filter (\<lambda>op. \<exists>d \<in> {LONG, SHORT}. op = Waiting d) (cc_operations c))\<rparr>"

definition reconnect :: "ReconnectDelay \<Rightarrow> Connection_Impl \<Rightarrow> Connection_Impl" where
  "reconnect Delay c = setState ADDR_RETRY_WAIT (start_operation (Waiting Delay) (expires_after c))"

definition tryConnect :: "QueryResult \<Rightarrow> Connection_Impl \<Rightarrow> Connection_Impl" where
  "tryConnect AllEndpoints c =
     (let (CurrentEndpoint, AllEndpoints) = getNextEndpoint AllEndpoints
      in setState CONNECT (async_connect CurrentEndpoint AllEndpoints c))"

definition resolverHandler ::
  "(endpoint list \<Rightarrow> endpoint list) \<Rightarrow> endpoint list option \<Rightarrow> Connection_Impl \<Rightarrow> Connection_Impl" where
  "resolverHandler sort_v6 result c =
     (case result of
        None \<Rightarrow> reconnect LONG (setState ADDR_RETRY_WAIT c)
      | Some Endpoints \<Rightarrow> tryConnect (make_QueryResult sort_v6 Endpoints) c)"

definition trySendMessage :: "Connection_Impl \<Rightarrow> Connection_Impl" where
  "trySendMessage c =
     (if \<not> cc_Socket_open c then c
      else if MessageAdditionLimit < length (cc_MessageBuffer c) then async_write c
      else case cc_Messages c of
          NewMessage # rest \<Rightarrow>
            async_write (c\<lparr>cc_MessageBuffer := cc_MessageBuffer c @ NewMessage, cc_Messages := rest\<rparr>)
        | [] \<Rightarrow> if cc_MessageBuffer c \<noteq> [] then async_write c else post Wait_For_Message c)"

definition connectHandler :: "nat \<Rightarrow> bool \<Rightarrow> QueryResult \<Rightarrow> Connection_Impl \<Rightarrow> Connection_Impl" where
  "connectHandler part Error AllEndpoints c =
     (if \<not> Error then trySendMessage (async_receive (setState SEND_LOOP c))
      else
        let c = close_Socket part c
        in if qr_isDone AllEndpoints then reconnect LONG c else tryConnect AllEndpoints c)"

definition receiveHandler :: "nat \<Rightarrow> bool \<Rightarrow> Connection_Impl \<Rightarrow> Connection_Impl" where
  "receiveHandler part Error c =
     (if Error then reconnect SHORT (close_Socket part c) else async_receive c)"

definition sentMessageHandler :: "nat \<Rightarrow> bool \<Rightarrow> nat \<Rightarrow> Connection_Impl \<Rightarrow> Connection_Impl" where
  "sentMessageHandler part Error BytesSent c =
     (let c = (if BytesSent = length (cc_MessageBuffer c) then c\<lparr>cc_MessageBuffer := []\<rparr>
               else if 0 < BytesSent then c\<lparr>cc_MessageBuffer := drop BytesSent (cc_MessageBuffer c)\<rparr>
               else c)
      in if Error then close_Socket part c else trySendMessage c)"

definition waitForMessage :: "Connection_Impl \<Rightarrow> Connection_Impl" where
  "waitForMessage c =
     (if \<not> cc_Socket_open c then c
      else if cc_Messages c \<noteq> [] then trySendMessage c
      else post Wait_For_Message c)"

fun run_handler :: "(endpoint list \<Rightarrow> endpoint list) \<Rightarrow> nat \<Rightarrow> handler \<Rightarrow> Connection_Impl \<Rightarrow> Connection_Impl" where
  "run_handler sort_v6 part (Resolved r) c = resolverHandler sort_v6 r c"
| "run_handler sort_v6 part (Connected e q) c = connectHandler part e q c"
| "run_handler sort_v6 part (Received e) c = receiveHandler part e c"
| "run_handler sort_v6 part (Written e n) c = sentMessageHandler part e n c"
| "run_handler sort_v6 part Waited c = doAddressQuery c"
| "run_handler sort_v6 part Wait_For_Message c = waitForMessage c"

text \<open>The constructor, with \<^verbatim>\<open>std::to_string\<close> of the port.\<close>

fun digits :: "nat \<Rightarrow> string" where
  "digits n = (if n < 10 then [char_of (48 + n)] else digits (n div 10) @ [char_of (48 + n mod 10)])"

declare digits.simps [simp del]

definition to_string :: "int \<Rightarrow> string" where
  "to_string i = (if i < 0 then CHR ''-'' # digits (nat (- i)) else digits (nat i))"

definition make_Connection :: "string \<Rightarrow> int \<Rightarrow> Connection_Impl" where
  "make_Connection Host Port =
     doAddressQuery
       \<lparr>cc_ConnectionState = ADDR_LOOKUP, cc_MessageBuffer = [], cc_HostAddress = Host, cc_HostPort = to_string Port,
        cc_Messages = [], cc_Socket_open = False, cc_operations = [], cc_ready = [], cc_sent = []\<rparr>"

text \<open>\<^verbatim>\<open>sendMessage\<close>, called by another thread: \<open>room\<close> is whether the queue takes one more.
  The interface drops the result.\<close>

definition sendMessage :: "bool \<Rightarrow> string \<Rightarrow> Connection_Impl \<Rightarrow> bool \<times> Connection_Impl" where
  "sendMessage room Msg c = (if room then (True, c\<lparr>cc_Messages := cc_Messages c @ [Msg]\<rparr>) else (False, c))"

definition messageQueueSize :: "Connection_Impl \<Rightarrow> nat" where
  "messageQueueSize c = length (cc_Messages c)"

definition messageQueueEmpty :: "Connection_Impl \<Rightarrow> bool" where
  "messageQueueEmpty c \<longleftrightarrow> length (cc_Messages c) = 0"

definition getConnectionStatus :: "Connection_Impl \<Rightarrow> Status" where
  "getConnectionStatus c = cc_ConnectionState c"

section \<open>Runs\<close>

text \<open>How an operation can complete: the handler that becomes ready, and the bytes sent.\<close>

inductive completes :: "operation \<Rightarrow> handler \<Rightarrow> string \<Rightarrow> bool" where
  "completes (Resolving host port) (Resolved r) []"
| "completes (Connecting ep q) (Connected e q) []"
| "completes Receiving (Received e) []"
| "completes (Writing d) (Written False (length d)) d"
| "n \<le> length d \<Longrightarrow> completes (Writing d) (Written True n) (take n d)"
| "completes (Waiting delay) Waited []"

text \<open>The steps of a connection, on the state together with all that has been accepted for sending: a message
  arrives, an operation completes, or the service runs the next handler.\<close>

inductive carbon_step ::
  "(endpoint list \<Rightarrow> endpoint list) \<Rightarrow> string \<times> Connection_Impl \<Rightarrow> string \<times> Connection_Impl \<Rightarrow> bool" for sort_v6 where
  send: "carbon_step sort_v6 (accepted, c) (accepted @ (if room then Msg else []), snd (sendMessage room Msg c))"
| complete: "carbon_step sort_v6 (accepted, c)
      (accepted, c\<lparr>cc_operations := before @ after, cc_ready := cc_ready c @ [h], cc_sent := cc_sent c @ d\<rparr>)"
    if "cc_operations c = before @ op # after" and "completes op h d"
| run: "carbon_step sort_v6 (accepted, c) (accepted, run_handler sort_v6 part h (c\<lparr>cc_ready := rest\<rparr>))"
    if "cc_ready c = h # rest"

definition carbon_run :: "(endpoint list \<Rightarrow> endpoint list) \<Rightarrow> string \<Rightarrow> Connection_Impl \<Rightarrow> bool" where
  "carbon_run sort_v6 accepted c \<longleftrightarrow>
     (\<exists>Host Port. (carbon_step sort_v6)\<^sup>*\<^sup>* ([], make_Connection Host Port) (accepted, c))"

inductive_cases carbon_step_elim: "carbon_step sort_v6 (accepted, c) (accepted', c')"

inductive_cases completes_elim: "completes op h d"

section \<open>The invariant\<close>

text \<open>The state an operation or a ready handler belongs to; writing, and waiting for something to write, goes on
  beside them.\<close>

fun op_phase :: "operation \<Rightarrow> Status list" where
  "op_phase (Resolving _ _) = [ADDR_LOOKUP]"
| "op_phase (Connecting _ _) = [CONNECT]"
| "op_phase Receiving = [SEND_LOOP]"
| "op_phase (Waiting _) = [ADDR_RETRY_WAIT]"
| "op_phase (Writing _) = []"

fun handler_phase :: "handler \<Rightarrow> Status list" where
  "handler_phase (Resolved _) = [ADDR_LOOKUP]"
| "handler_phase (Connected _ _) = [CONNECT]"
| "handler_phase (Received _) = [SEND_LOOP]"
| "handler_phase Waited = [ADDR_RETRY_WAIT]"
| "handler_phase _ = []"

definition phases :: "Connection_Impl \<Rightarrow> Status multiset" where
  "phases c = mset (concat (map op_phase (cc_operations c)) @ concat (map handler_phase (cc_ready c)))"

fun op_writes :: "operation \<Rightarrow> bool" where
  "op_writes (Writing _) = True"
| "op_writes _ = False"

fun handler_sends :: "handler \<Rightarrow> bool" where
  "handler_sends (Written _ _) = True"
| "handler_sends Wait_For_Message = True"
| "handler_sends _ = False"

definition senders :: "Connection_Impl \<Rightarrow> nat" where
  "senders c = length (filter op_writes (cc_operations c)) + length (filter handler_sends (cc_ready c))"

text \<open>What the buffer holds beyond the bytes that a completed write has already sent.\<close>

fun transferred :: "handler list \<Rightarrow> nat" where
  "transferred [] = 0"
| "transferred (Written _ n # hs) = n + transferred hs"
| "transferred (_ # hs) = transferred hs"

definition unsent :: "Connection_Impl \<Rightarrow> string" where
  "unsent c = drop (transferred (cc_ready c)) (cc_MessageBuffer c) @ concat (cc_Messages c)"

definition stream_ok :: "string \<Rightarrow> Connection_Impl \<Rightarrow> bool" where
  "stream_ok accepted c \<longleftrightarrow>
     (\<forall>d. Writing d \<in> set (cc_operations c) \<longrightarrow> d = cc_MessageBuffer c) \<and>
     (Wait_For_Message \<in> set (cc_ready c) \<longrightarrow> cc_MessageBuffer c = []) \<and>
     transferred (cc_ready c) \<le> length (cc_MessageBuffer c) \<and> accepted = cc_sent c @ unsent c"

definition phase_ok :: "Connection_Impl \<Rightarrow> bool" where
  "phase_ok c \<longleftrightarrow>
     (case cc_ConnectionState c of
        ADDR_LOOKUP \<Rightarrow> \<not> cc_Socket_open c \<and> senders c = 0
      | CONNECT \<Rightarrow> cc_Socket_open c \<and> senders c = 0
      | SEND_LOOP \<Rightarrow> if cc_Socket_open c then senders c = 1 else senders c = 0 \<and> Receiving \<notin> set (cc_operations c)
      | ADDR_RETRY_WAIT \<Rightarrow>
          \<not> cc_Socket_open c \<and> senders c \<le> 1 \<and> \<not> list_ex op_writes (cc_operations c) \<and>
          (Waited \<in> set (cc_ready c) \<longrightarrow> last (cc_ready c) = Waited))"

definition carbon_inv :: "string \<Rightarrow> Connection_Impl \<Rightarrow> bool" where
  "carbon_inv accepted c \<longleftrightarrow> phases c = {#cc_ConnectionState c#} \<and> phase_ok c \<and> stream_ok accepted c"

lemmas carbon_simps = start_operation_def post_def setState_def phases_def senders_def unsent_def

lemma transferred_append [simp]: "transferred (xs @ ys) = transferred xs + transferred ys"
  by (induction xs rule: transferred.induct) simp_all

lemma transferred_none: "\<not> list_ex handler_sends hs \<Longrightarrow> transferred hs = 0"
  by (induction hs rule: transferred.induct) simp_all

lemma no_writes_filter: "length (filter op_writes ops) = 0 \<longleftrightarrow> \<not> list_ex op_writes ops"
  by (auto simp: filter_empty_conv list_ex_iff)

lemma no_senders_filter: "length (filter handler_sends hs) = 0 \<longleftrightarrow> \<not> list_ex handler_sends hs"
  by (auto simp: filter_empty_conv list_ex_iff)

subsection \<open>Completing, closing and waiting\<close>

lemma completes_phase: "completes op h d \<Longrightarrow> handler_phase h = op_phase op \<and> handler_sends h = op_writes op"
  by (auto elim: completes_elim)

lemma phases_close: "phases (close_Socket part c) = phases c"
proof -
  have "mset (concat (map op_phase (filter (\<lambda>op. \<not> on_socket op) ops)) @ concat (map handler_phase (concat (map (aborted part) ops))))
      = mset (concat (map op_phase ops))" for ops
  proof (induction ops)
    case (Cons op ops)
    then show ?case by (cases op) (auto simp: ac_simps)
  qed simp
  then show ?thesis by (simp add: phases_def close_Socket_def)
qed

lemma senders_close: "senders (close_Socket part c) = senders c"
proof -
  have "length (filter op_writes (filter (\<lambda>op. \<not> on_socket op) ops)) + length (filter handler_sends (concat (map (aborted part) ops)))
      = length (filter op_writes ops)" for ops
  proof (induction ops)
    case (Cons op ops)
    then show ?case by (cases op) simp_all
  qed simp
  then show ?thesis by (simp add: senders_def close_Socket_def)
qed

lemma close_no_writes: "\<not> list_ex op_writes (cc_operations (close_Socket part c))"
  by (auto simp: close_Socket_def list_ex_iff elim: op_writes.elims)

lemma close_no_receive: "Receiving \<notin> set (cc_operations (close_Socket part c))"
  by (simp add: close_Socket_def)

lemma close_state [simp]:
  "cc_ConnectionState (close_Socket part c) = cc_ConnectionState c" "cc_Socket_open (close_Socket part c) = False"
  by (simp_all add: close_Socket_def)

lemma aborted_no_wait [simp]: "Wait_For_Message \<notin> set (aborted part op)"
  by (cases op) simp_all

lemma aborted_quiet:
  "\<not> list_ex op_writes ops \<Longrightarrow>
     transferred (concat (map (aborted part) ops)) = 0 \<and> concat (map (sent_before_abort part) ops) = []"
proof (induction ops)
  case (Cons op ops)
  then show ?case by (cases op) simp_all
qed simp

lemma one_write:
  assumes "length (filter op_writes ops) = 1"
  obtains before d after where "ops = before @ Writing d # after" "\<not> list_ex op_writes before" "\<not> list_ex op_writes after"
  using assms
proof (induction ops arbitrary: thesis)
  case (Cons op ops)
  show ?case
  proof (cases "op_writes op")
    case True
    then obtain d where "op = Writing d" by (cases op) simp_all
    then show ?thesis using Cons.prems(1) [of "[]" d ops] Cons.prems(2) by (simp add: no_writes_filter [symmetric])
  next
    case False
    then have "length (filter op_writes ops) = 1" using Cons.prems(2) by simp
    then obtain before d after where "ops = before @ Writing d # after" "\<not> list_ex op_writes before"
      "\<not> list_ex op_writes after" using Cons.IH by blast
    then show ?thesis using Cons.prems(1) [of "op # before" d after] False by simp
  qed
qed simp

lemma stream_close:
  assumes "stream_ok accepted c" and "senders c \<le> 1"
  shows "stream_ok accepted (close_Socket part c)"
proof (cases "list_ex op_writes (cc_operations c)")
  case False
  then show ?thesis using assms(1) aborted_quiet [OF False, of part]
    by (auto simp: stream_ok_def close_Socket_def unsent_def)
next
  case True
  then have "length (filter op_writes (cc_operations c)) \<noteq> 0" using no_writes_filter by blast
  then have "length (filter op_writes (cc_operations c)) = 1" and "length (filter handler_sends (cc_ready c)) = 0"
    using assms(2) unfolding senders_def by linarith+
  moreover from this(2) have r: "\<not> list_ex handler_sends (cc_ready c)" using no_senders_filter by blast
  ultimately obtain before d after where o: "cc_operations c = before @ Writing d # after"
    "\<not> list_ex op_writes before" "\<not> list_ex op_writes after" by (elim one_write)
  then have "d = cc_MessageBuffer c" using assms(1) by (simp add: stream_ok_def)
  moreover have "Writing e \<notin> set before \<union> set after" for e using o(2,3) by (auto simp: list_ex_iff)
  ultimately show ?thesis
    using assms(1) o(1) aborted_quiet [OF o(2), of part] aborted_quiet [OF o(3), of part] transferred_none [OF r]
    by (auto simp: stream_ok_def close_Socket_def unsent_def min_def simp del: concat_eq_Nil_conv)
qed

text \<open>Starting to send again, when nothing is being sent.\<close>

lemma no_senders:
  assumes "senders c = 0"
  shows "Writing d \<notin> set (cc_operations c)" and "transferred (cc_ready c) = 0"
    and "\<not> list_ex op_writes (cc_operations c)" and "Wait_For_Message \<notin> set (cc_ready c)"
  using assms transferred_none [of "cc_ready c"] by (auto simp: senders_def filter_empty_conv list_ex_iff)

lemma try_send:
  assumes "stream_ok accepted c" and "senders c = 0" and "cc_Socket_open c"
  shows "stream_ok accepted (trySendMessage c) \<and> senders (trySendMessage c) = 1 \<and> phases (trySendMessage c) = phases c \<and>
    cc_ConnectionState (trySendMessage c) = cc_ConnectionState c \<and> cc_Socket_open (trySendMessage c)"
  using assms no_senders [OF assms(2)]
  by (auto simp: trySendMessage_def async_write_def stream_ok_def carbon_simps split: list.split)

lemma try_send_closed [simp]: "\<not> cc_Socket_open c \<Longrightarrow> trySendMessage c = c"
  by (simp add: trySendMessage_def)

lemma sent_message:
  assumes "n \<le> length (cc_MessageBuffer c)"
  shows "sentMessageHandler part e n c =
    (let c = c\<lparr>cc_MessageBuffer := drop n (cc_MessageBuffer c)\<rparr> in if e then close_Socket part c else trySendMessage c)"
  using assms by (auto simp: sentMessageHandler_def Let_def)

lemma wait_for_message:
  assumes "stream_ok accepted c" and "senders c = 0" and "cc_Socket_open c" and "cc_MessageBuffer c = []"
  shows "stream_ok accepted (waitForMessage c) \<and> senders (waitForMessage c) = 1 \<and> phases (waitForMessage c) = phases c \<and>
    cc_ConnectionState (waitForMessage c) = cc_ConnectionState c \<and> cc_Socket_open (waitForMessage c)"
proof (cases "cc_Messages c = []")
  case True
  then show ?thesis using assms no_senders [OF assms(2)] by (simp add: waitForMessage_def carbon_simps stream_ok_def)
next
  case False
  then show ?thesis using assms try_send [OF assms(1-3)] by (simp add: waitForMessage_def)
qed

text \<open>Waiting before the next attempt, when nothing else goes on.\<close>

lemma expires_after_idle:
  assumes "ADDR_RETRY_WAIT \<notin># phases c"
  shows "expires_after c = c"
proof -
  have "Waiting d \<notin> set (cc_operations c)" for d
  proof
    assume "Waiting d \<in> set (cc_operations c)"
    then have "ADDR_RETRY_WAIT \<in> set (concat (map op_phase (cc_operations c)))" by force
    then show False using assms by (simp add: phases_def)
  qed
  then have "filter (\<lambda>op. \<forall>d \<in> {LONG, SHORT}. op \<noteq> Waiting d) (cc_operations c) = cc_operations c"
    "filter (\<lambda>op. \<exists>d \<in> {LONG, SHORT}. op = Waiting d) (cc_operations c) = []"
    by (auto simp: filter_id_conv filter_empty_conv)
  then show ?thesis by (simp add: expires_after_def)
qed

subsection \<open>Every step keeps the invariant\<close>

text \<open>The connection without the handler that is about to run.\<close>

lemma next_handler:
  assumes "carbon_inv accepted c" and "cc_ready c = h # rest"
  defines "c' \<equiv> c\<lparr>cc_ready := rest\<rparr>"
  shows "mset (handler_phase h) + phases c' = {#cc_ConnectionState c'#}"
    and "senders c' = senders c - (if handler_sends h then 1 else 0)"
    and "\<not> (\<exists>e n. h = Written e n) \<Longrightarrow> stream_ok accepted c'"
proof -
  note inv = assms(1) [unfolded carbon_inv_def stream_ok_def unsent_def phases_def]
  show "mset (handler_phase h) + phases c' = {#cc_ConnectionState c'#}"
    using inv assms(2) by (simp add: c'_def phases_def ac_simps)
  show "senders c' = senders c - (if handler_sends h then 1 else 0)"
    using assms(2) by (simp add: c'_def senders_def)
  assume "\<not> (\<exists>e n. h = Written e n)"
  then have "transferred (h # rest) = transferred rest" by (cases h) auto
  then show "stream_ok accepted c'" using inv assms(2) by (simp add: c'_def stream_ok_def unsent_def)
qed

lemma idle_wait:
  assumes "phases c = {#}" and "stream_ok accepted c" and "senders c \<le> 1" and "\<not> cc_Socket_open c"
    and "\<not> list_ex op_writes (cc_operations c)"
  shows "carbon_inv accepted (reconnect Delay c)"
proof -
  have "expires_after c = c" using assms(1) by (simp add: expires_after_idle)
  moreover have "Waited \<notin> set (cc_ready c)"
    using assms(1) by (force simp: phases_def)
  ultimately show ?thesis
    using assms by (auto simp: reconnect_def carbon_inv_def phase_ok_def stream_ok_def carbon_simps)
qed

lemma idle_connect:
  assumes "phases c = {#}" and "stream_ok accepted c" and "senders c = 0"
  shows "carbon_inv accepted (tryConnect q c)"
  using assms by (auto simp: tryConnect_def async_connect_def carbon_inv_def phase_ok_def stream_ok_def carbon_simps split: prod.split)

lemma idle_query:
  assumes "phases c = {#}" and "stream_ok accepted c" and "senders c = 0" and "\<not> cc_Socket_open c"
  shows "carbon_inv accepted (doAddressQuery c)"
  using assms by (auto simp: doAddressQuery_def Let_def carbon_inv_def phase_ok_def stream_ok_def carbon_simps)

lemma run_resolved:
  assumes "carbon_inv accepted c" and "cc_ready c = Resolved r # rest"
  shows "carbon_inv accepted (resolverHandler sort_v6 r (c\<lparr>cc_ready := rest\<rparr>))"
proof -
  let ?c = "c\<lparr>cc_ready := rest\<rparr>"
  note n = next_handler [OF assms, simplified]
  then have p: "phases ?c = {#}" "cc_ConnectionState c = ADDR_LOOKUP" by (auto simp: add_mset_eq_single)
  then have q: "senders ?c = 0" "\<not> cc_Socket_open ?c" using assms(1) n(2) by (simp_all add: carbon_inv_def phase_ok_def)
  let ?d = "setState ADDR_RETRY_WAIT ?c"
  have d: "phases ?d = {#}" "stream_ok accepted ?d" "senders ?d = 0" "\<not> cc_Socket_open ?d"
    using p(1) n(3) q by (simp_all add: setState_def phases_def senders_def stream_ok_def unsent_def)
  then show ?thesis
    using idle_wait [OF d(1,2) _ d(4)] idle_connect [OF p(1) n(3) q(1)] no_senders(3) [OF d(3)] d(3)
    by (simp add: resolverHandler_def split: option.split)
qed

lemma run_connected:
  assumes "carbon_inv accepted c" and "cc_ready c = Connected e q # rest"
  shows "carbon_inv accepted (connectHandler part e q (c\<lparr>cc_ready := rest\<rparr>))"
proof -
  let ?c = "c\<lparr>cc_ready := rest\<rparr>"
  note n = next_handler [OF assms, simplified]
  then have p: "phases ?c = {#}" "cc_ConnectionState c = CONNECT" by (auto simp: add_mset_eq_single)
  then have o: "senders ?c = 0" "cc_Socket_open ?c" using assms(1) n(2) by (simp_all add: carbon_inv_def phase_ok_def)
  show ?thesis
  proof (cases e)
    case True
    let ?d = "close_Socket part ?c"
    have d: "phases ?d = {#}" "stream_ok accepted ?d" "senders ?d = 0" "\<not> cc_Socket_open ?d"
      using p(1) o(1) stream_close [OF n(3)] by (simp_all add: phases_close senders_close)
    show ?thesis
      using True idle_connect [OF d(1-3)] idle_wait [OF d(1,2) _ d(4) close_no_writes] d(3)
      by (simp add: connectHandler_def Let_def)
  next
    case False
    let ?d = "async_receive (setState SEND_LOOP ?c)"
    have d: "phases ?d = {#SEND_LOOP#}" "stream_ok accepted ?d" "senders ?d = 0" "cc_Socket_open ?d"
      "cc_ConnectionState ?d = SEND_LOOP"
      using p(1) o n(3) by (simp_all add: async_receive_def carbon_simps stream_ok_def)
    show ?thesis
      using False try_send [OF d(2-4)] d(1,5) by (simp add: connectHandler_def carbon_inv_def phase_ok_def)
  qed
qed

lemma run_received:
  assumes "carbon_inv accepted c" and "cc_ready c = Received e # rest"
  shows "carbon_inv accepted (receiveHandler part e (c\<lparr>cc_ready := rest\<rparr>))"
proof -
  let ?c = "c\<lparr>cc_ready := rest\<rparr>"
  note n = next_handler [OF assms, simplified]
  then have p: "phases ?c = {#}" "cc_ConnectionState c = SEND_LOOP" by (auto simp: add_mset_eq_single)
  then have o: "if cc_Socket_open ?c then senders ?c = 1 else senders ?c = 0 \<and> Receiving \<notin> set (cc_operations c)"
    using assms(1) n(2) by (auto simp: carbon_inv_def phase_ok_def)
  then have s: "senders ?c \<le> 1" by (auto split: if_splits)
  let ?d = "close_Socket part ?c"
  have d: "phases ?d = {#}" "stream_ok accepted ?d" "senders ?d \<le> 1" "\<not> cc_Socket_open ?d"
    using p(1) s stream_close [OF n(3) s] by (simp_all add: phases_close senders_close)
  show ?thesis
  proof (cases e)
    case True
    then show ?thesis using idle_wait [OF d close_no_writes] by (simp add: receiveHandler_def)
  next
    case False
    then show ?thesis
      using o p n(3) by (auto simp: receiveHandler_def async_receive_def carbon_inv_def phase_ok_def carbon_simps stream_ok_def)
  qed
qed

lemma run_waited:
  assumes "carbon_inv accepted c" and "cc_ready c = Waited # rest"
  shows "carbon_inv accepted (doAddressQuery (c\<lparr>cc_ready := rest\<rparr>))"
proof -
  let ?c = "c\<lparr>cc_ready := rest\<rparr>"
  note n = next_handler [OF assms, simplified]
  then have p: "phases ?c = {#}" "cc_ConnectionState c = ADDR_RETRY_WAIT" by (auto simp: add_mset_eq_single)
  then have o: "\<not> cc_Socket_open ?c" "\<not> list_ex op_writes (cc_operations c)" "last (cc_ready c) = Waited"
    using assms by (simp_all add: carbon_inv_def phase_ok_def)
  have "rest = []"
  proof (rule ccontr)
    assume "rest \<noteq> []"
    then have "Waited \<in> set rest" using o(3) assms(2) by (metis last_ConsR last_in_set)
    then show False using p(1) by (force simp: phases_def)
  qed
  then have "senders ?c = 0" using o(2) by (simp add: senders_def no_writes_filter [symmetric])
  then show ?thesis using idle_query [OF p(1) n(3) _ o(1)] by blast
qed

text \<open>A handler that sends runs either while the connection is up, or after it has been given up and before the next
  attempt, when the socket is closed and nothing comes of it.\<close>

lemma next_sender:
  assumes "carbon_inv accepted c" and "cc_ready c = h # rest" and "handler_sends h"
  defines "c' \<equiv> c\<lparr>cc_ready := rest\<rparr>"
  shows "phases c' = {#cc_ConnectionState c'#}" and "senders c' = 0"
    and "cc_ConnectionState c' = SEND_LOOP \<and> cc_Socket_open c' \<or>
      cc_ConnectionState c' = ADDR_RETRY_WAIT \<and> \<not> cc_Socket_open c' \<and> (Waited \<in> set rest \<longrightarrow> last rest = Waited)"
proof -
  have n: "handler_phase h = []" using assms(3) by (cases h) simp_all
  have "0 < senders c" using assms(2,3) by (simp add: senders_def)
  moreover have "phase_ok c" using assms(1) by (simp add: carbon_inv_def)
  ultimately show "cc_ConnectionState c' = SEND_LOOP \<and> cc_Socket_open c' \<or>
      cc_ConnectionState c' = ADDR_RETRY_WAIT \<and> \<not> cc_Socket_open c' \<and> (Waited \<in> set rest \<longrightarrow> last rest = Waited)"
    and "senders c' = 0"
    using next_handler(2) [OF assms(1,2)] assms(2,3)
    by (auto simp: phase_ok_def c'_def split: Status.splits if_splits)
  show "phases c' = {#cc_ConnectionState c'#}"
    using next_handler(1) [OF assms(1,2)] n by (simp add: c'_def)
qed

lemma waiting_inv:
  assumes "phases c = {#ADDR_RETRY_WAIT#}" and "cc_ConnectionState c = ADDR_RETRY_WAIT" and "senders c = 0"
    and "\<not> cc_Socket_open c" and "Waited \<in> set (cc_ready c) \<longrightarrow> last (cc_ready c) = Waited" and "stream_ok accepted c"
  shows "carbon_inv accepted c"
  using assms no_senders(3) by (simp add: carbon_inv_def phase_ok_def)

lemma close_waiting:
  assumes "phases c = {#ADDR_RETRY_WAIT#}" and "senders c = 0"
  shows "close_Socket part c = c\<lparr>cc_Socket_open := False\<rparr>"
proof -
  have quiet: "\<not> on_socket op" if op: "op \<in> set (cc_operations c)" for op
  proof
    assume "on_socket op"
    moreover have "\<not> op_writes op" using op no_senders(3) [OF assms(2)] by (auto simp: list_ex_iff)
    ultimately have "\<exists>s \<in> set (op_phase op). s \<noteq> ADDR_RETRY_WAIT" by (cases op) simp_all
    then obtain s where "s \<in># phases c" "s \<noteq> ADDR_RETRY_WAIT" using op by (force simp: phases_def)
    then show False using assms(1) by simp
  qed
  then have "aborted part op = []" "sent_before_abort part op = []" if "op \<in> set (cc_operations c)" for op
    using that by (cases op; force)+
  then have "concat (map (aborted part) (cc_operations c)) = []" "concat (map (sent_before_abort part) (cc_operations c)) = []"
    by simp_all
  then show ?thesis using quiet by (simp add: close_Socket_def filter_id_conv)
qed

lemma run_written:
  assumes "carbon_inv accepted c" and "cc_ready c = Written e n # rest"
  shows "carbon_inv accepted (sentMessageHandler part e n (c\<lparr>cc_ready := rest\<rparr>))"
proof -
  let ?c = "c\<lparr>cc_ready := rest\<rparr>"
  define d where "d = ?c\<lparr>cc_MessageBuffer := drop n (cc_MessageBuffer c)\<rparr>"
  note s = next_sender [OF assms, simplified]
  have len: "n \<le> length (cc_MessageBuffer ?c)"
    using assms by (auto simp: carbon_inv_def stream_ok_def)
  have d: "stream_ok accepted d" "senders d = 0" "phases d = {#cc_ConnectionState d#}"
    "cc_ConnectionState d = cc_ConnectionState c" "cc_Socket_open d = cc_Socket_open c" "cc_ready d = rest"
    using assms s(1,2) no_senders [OF s(2)]
    by (auto simp: d_def carbon_inv_def stream_ok_def unsent_def phases_def senders_def)
  have r: "sentMessageHandler part e n ?c = (if e then close_Socket part d else trySendMessage d)"
    using sent_message [OF len] by (simp add: d_def)
  from s(3) show ?thesis
  proof (elim disjE conjE)
    assume u: "cc_ConnectionState c = SEND_LOOP" "cc_Socket_open c"
    then show ?thesis
      using r d try_send [OF d(1,2)] stream_close [OF d(1)] close_no_receive
      by (simp add: carbon_inv_def phase_ok_def phases_close senders_close)
  next
    assume w: "cc_ConnectionState c = ADDR_RETRY_WAIT" "\<not> cc_Socket_open c" "Waited \<in> set rest \<longrightarrow> last rest = Waited"
    then have "close_Socket part d = d" using d close_waiting [of d part] by simp
    then show ?thesis using r w d waiting_inv [of d accepted] by simp
  qed
qed

lemma run_wait:
  assumes "carbon_inv accepted c" and "cc_ready c = Wait_For_Message # rest"
  shows "carbon_inv accepted (waitForMessage (c\<lparr>cc_ready := rest\<rparr>))"
proof -
  let ?c = "c\<lparr>cc_ready := rest\<rparr>"
  note s = next_sender [OF assms, simplified]
  have ok: "stream_ok accepted ?c" using next_handler(3) [OF assms] by simp
  have "cc_MessageBuffer ?c = []" using assms by (simp add: carbon_inv_def stream_ok_def)
  note wait = wait_for_message [OF ok s(2) _ this]
  from s(3) show ?thesis
  proof (elim disjE conjE)
    assume u: "cc_ConnectionState c = SEND_LOOP" "cc_Socket_open c"
    then show ?thesis
      using wait s(1) by (simp add: carbon_inv_def phase_ok_def)
  next
    assume w: "cc_ConnectionState c = ADDR_RETRY_WAIT" "\<not> cc_Socket_open c" "Waited \<in> set rest \<longrightarrow> last rest = Waited"
    then show ?thesis using s ok waiting_inv [of ?c accepted] by (simp add: waitForMessage_def)
  qed
qed

lemma inv_one_sender: "carbon_inv accepted c \<Longrightarrow> senders c \<le> 1"
  by (auto simp: carbon_inv_def phase_ok_def split: Status.splits if_splits)

lemma completes_bytes:
  "completes op h d \<Longrightarrow>
     h \<noteq> Wait_For_Message \<and>
     ((\<exists>b. op = Writing b \<and> transferred [h] \<le> length b \<and> d = take (transferred [h]) b) \<or>
      \<not> op_writes op \<and> transferred [h] = 0 \<and> d = [])"
  by (auto elim: completes_elim)

lemma complete_stream:
  assumes "stream_ok accepted c" and "senders c \<le> 1" and "cc_operations c = before @ op # after" and "completes op h d"
  shows "stream_ok accepted (c\<lparr>cc_operations := before @ after, cc_ready := cc_ready c @ [h], cc_sent := cc_sent c @ d\<rparr>)"
  using completes_bytes [OF assms(4)]
proof (elim conjE disjE exE)
  fix b assume b: "h \<noteq> Wait_For_Message" "op = Writing b" "transferred [h] \<le> length b" "d = take (transferred [h]) b"
  then have "length (filter handler_sends (cc_ready c)) = 0" using assms(2,3) by (simp add: senders_def)
  then have "transferred (cc_ready c) = 0" using transferred_none no_senders_filter by blast
  moreover have "b = cc_MessageBuffer c" using assms(1,3) b(2) by (simp add: stream_ok_def)
  ultimately show ?thesis
    using assms(1,3) b(1,3,4) by (simp add: stream_ok_def unsent_def del: transferred.simps)
next
  assume "h \<noteq> Wait_For_Message" "\<not> op_writes op" "transferred [h] = 0" "d = []"
  then show ?thesis using assms(1,3) by (simp add: stream_ok_def unsent_def del: transferred.simps)
qed

lemma complete_inv:
  assumes "carbon_inv accepted c" and "cc_operations c = before @ op # after" and "completes op h d"
  shows "carbon_inv accepted
    (c\<lparr>cc_operations := before @ after, cc_ready := cc_ready c @ [h], cc_sent := cc_sent c @ d\<rparr>)"
    (is "carbon_inv accepted ?c")
proof -
  note k = completes_phase [OF assms(3)]
  have p: "phases ?c = phases c" and s: "senders ?c = senders c"
    using assms(2) k by (simp_all add: phases_def senders_def)
  have "Waited \<notin> set (cc_ready c)" if "cc_ConnectionState c = ADDR_RETRY_WAIT"
  proof
    assume "Waited \<in> set (cc_ready c)"
    then obtain xs ys where "cc_ready c = xs @ Waited # ys" by (auto simp: in_set_conv_decomp)
    then have "op_phase op = []" using assms(1,2) that by (simp add: carbon_inv_def phases_def)
    then have "op_writes op" by (cases op) simp_all
    then show False using assms(1,2) that by (simp add: carbon_inv_def phase_ok_def)
  qed
  then have "phase_ok ?c"
    using assms(1,2) s by (auto simp: carbon_inv_def phase_ok_def split: Status.splits if_splits)
  moreover have "stream_ok accepted ?c"
    using assms complete_stream inv_one_sender [OF assms(1)] by (simp add: carbon_inv_def)
  ultimately show ?thesis using assms(1) p by (simp add: carbon_inv_def)
qed

lemma send_inv:
  assumes "carbon_inv accepted c"
  shows "carbon_inv (accepted @ (if room then Msg else [])) (snd (sendMessage room Msg c))"
  using assms by (auto simp: sendMessage_def carbon_inv_def phase_ok_def stream_ok_def carbon_simps split: Status.splits)

lemma carbon_step_inv: "carbon_step sort_v6 (accepted, c) (accepted', c') \<Longrightarrow> carbon_inv accepted c \<Longrightarrow> carbon_inv accepted' c'"
proof (erule carbon_step_elim)
  fix h rest part
  assume "carbon_inv accepted c" "cc_ready c = h # rest" "accepted' = accepted"
    "c' = run_handler sort_v6 part h (c\<lparr>cc_ready := rest\<rparr>)"
  then show "carbon_inv accepted' c'"
    by (cases h) (simp_all add: run_resolved run_connected run_received run_written run_waited run_wait)
qed (simp only: send_inv, blast intro: complete_inv)

lemma steps_inv:
  "(carbon_step sort_v6)\<^sup>*\<^sup>* (accepted, c) (accepted', c') \<Longrightarrow> carbon_inv accepted c \<Longrightarrow> carbon_inv accepted' c'"
  by (induction rule: rtranclp_induct2) (auto intro: carbon_step_inv)

lemma start_inv: "carbon_inv [] (make_Connection Host Port)"
  unfolding make_Connection_def by (rule idle_query) (simp_all add: phases_def senders_def stream_ok_def unsent_def)

lemma run_inv: "carbon_run sort_v6 accepted c \<Longrightarrow> carbon_inv accepted c"
  unfolding carbon_run_def using steps_inv start_inv by blast

section \<open>Recovery\<close>

text \<open>Steps during which no message arrives.\<close>

abbreviation reaches ::
  "(endpoint list \<Rightarrow> endpoint list) \<Rightarrow> string \<Rightarrow> Connection_Impl \<Rightarrow> Connection_Impl \<Rightarrow> bool" where
  "reaches sort_v6 accepted c c' \<equiv> (carbon_step sort_v6)\<^sup>*\<^sup>* (accepted, c) (accepted, c')"

lemma run_step:
  "cc_ready c = h # rest \<Longrightarrow> reaches sort_v6 accepted c (run_handler sort_v6 part h (c\<lparr>cc_ready := rest\<rparr>))"
  by (intro r_into_rtranclp carbon_step.run)

lemma complete_step:
  "cc_operations c = before @ op # after \<Longrightarrow> completes op h d \<Longrightarrow>
     reaches sort_v6 accepted c
       (c\<lparr>cc_operations := before @ after, cc_ready := cc_ready c @ [h], cc_sent := cc_sent c @ d\<rparr>)"
  by (intro r_into_rtranclp carbon_step.complete)

lemma inv_count:
  assumes "carbon_inv accepted c"
  shows "length (cc_operations c) + length (cc_ready c) = Suc (senders c)"
proof -
  have "length (concat (map op_phase ops)) + length (filter op_writes ops) = length ops" for ops
  proof (induction ops)
    case (Cons op ops)
    then show ?case by (cases op) simp_all
  qed simp
  moreover have "length (concat (map handler_phase hs)) + length (filter handler_sends hs) = length hs" for hs
  proof (induction hs)
    case (Cons h hs)
    then show ?case by (cases h) simp_all
  qed simp
  moreover have "size (phases c) = 1" using assms by (simp add: carbon_inv_def)
  ultimately show ?thesis unfolding phases_def senders_def size_mset length_append by (smt (verit) add.assoc add.commute plus_1_eq_Suc)
qed

lemma inv_driver:
  assumes "carbon_inv accepted c"
  shows "(\<exists>op \<in> set (cc_operations c). op_phase op = [cc_ConnectionState c]) \<or>
    (\<exists>h \<in> set (cc_ready c). handler_phase h = [cc_ConnectionState c])"
proof -
  have "cc_ConnectionState c \<in># phases c" using assms by (simp add: carbon_inv_def)
  then obtain xs where "xs \<in> op_phase ` set (cc_operations c) \<union> handler_phase ` set (cc_ready c)"
    "cc_ConnectionState c \<in> set xs" by (auto simp: phases_def)
  moreover have "op_phase op = [s]" if "s \<in> set (op_phase op)" for op s using that by (cases op) auto
  moreover have "handler_phase h = [s]" if "s \<in> set (handler_phase h)" for h s using that by (cases h) auto
  ultimately show ?thesis by blast
qed

text \<open>There is one handler at most that belongs to a state; whatever is ready before it sends.\<close>

lemma before_driver:
  assumes "carbon_inv accepted c" and "cc_ready c = h # rest" and "k \<in> set rest" and "handler_phase k \<noteq> []"
  shows "handler_sends h"
proof -
  have "k \<in> set rest \<Longrightarrow> mset (handler_phase k) \<subseteq># mset (concat (map handler_phase rest))" for k
    by (induction rest) (auto intro: subset_mset.add_increasing)
  then have "size (mset (handler_phase k)) \<le> size (phases (c\<lparr>cc_ready := rest\<rparr>))"
    using assms(3) by (intro size_mset_mono) (auto simp: phases_def intro: subset_mset.add_increasing)
  moreover have "size (mset (handler_phase h)) + size (phases (c\<lparr>cc_ready := rest\<rparr>)) = 1"
    using next_handler(1) [OF assms(1,2)] by (metis size_single size_union)
  moreover have "0 < length (handler_phase k)" using assms(4) by simp
  ultimately have "length (handler_phase h) = 0" unfolding size_mset by linarith
  then show ?thesis by (cases h) simp_all
qed

lemma sender_step:
  assumes "carbon_inv accepted c" and "cc_ready c = h # rest" and "handler_sends h"
  obtains c' ys where "reaches sort_v6 accepted c c'" "carbon_inv accepted c'" "cc_ConnectionState c' = cc_ConnectionState c"
    "cc_ready c' = rest @ ys"
proof -
  let ?c = "run_handler sort_v6 0 h (c\<lparr>cc_ready := rest\<rparr>)"
  have r: "reaches sort_v6 accepted c ?c" using assms(2) by (rule run_step)
  have "cc_ConnectionState ?c = cc_ConnectionState c" "\<exists>ys. cc_ready ?c = rest @ ys"
    using assms(3) by (cases h; auto simp: sentMessageHandler_def waitForMessage_def trySendMessage_def async_write_def
      close_Socket_def carbon_simps Let_def split: list.split)+
  then show ?thesis using that r steps_inv [OF r assms(1)] by blast
qed

text \<open>A handler that is ready gets its turn.\<close>

lemma driver_turn:
  assumes "carbon_inv accepted c" and "h \<in> set (cc_ready c)" and "handler_phase h = [cc_ConnectionState c]"
  shows "\<exists>c' rest. reaches sort_v6 accepted c c' \<and> carbon_inv accepted c' \<and> cc_ConnectionState c' = cc_ConnectionState c \<and>
    cc_ready c' = h # rest"
  using assms
proof (induction "length (takeWhile (\<lambda>k. k \<noteq> h) (cc_ready c))" arbitrary: c rule: less_induct)
  case less
  obtain k rest where k: "cc_ready c = k # rest" using less.prems(2) by (cases "cc_ready c") auto
  show ?case
  proof (cases "k = h")
    case True
    then show ?thesis using less.prems k by blast
  next
    case False
    then have h: "h \<in> set rest" using less.prems(2) k by simp
    then have "handler_sends k" using before_driver [OF less.prems(1) k h] less.prems(3) by simp
    then obtain c' ys where c': "reaches sort_v6 accepted c c'" "carbon_inv accepted c'"
      "cc_ConnectionState c' = cc_ConnectionState c" "cc_ready c' = rest @ ys"
      using sender_step [OF less.prems(1) k] by metis
    have "length (takeWhile (\<lambda>k. k \<noteq> h) (cc_ready c')) < length (takeWhile (\<lambda>k. k \<noteq> h) (cc_ready c))"
      using c'(4) k False h by (simp add: takeWhile_append1 [of h])
    from less.hyps [OF this c'(2)] c' h less.prems(3) show ?thesis by (auto intro: rtranclp_trans)
  qed
qed

lemma driver_completes:
  assumes "carbon_inv accepted c" and "op \<in> set (cc_operations c)" and "op_phase op = [cc_ConnectionState c]" and "completes op h []"
  shows "\<exists>c' rest. reaches sort_v6 accepted c c' \<and> carbon_inv accepted c' \<and> cc_ConnectionState c' = cc_ConnectionState c \<and>
    cc_ready c' = h # rest"
proof -
  obtain before after where o: "cc_operations c = before @ op # after" using assms(2) by (auto simp: in_set_conv_decomp)
  let ?c = "c\<lparr>cc_operations := before @ after, cc_ready := cc_ready c @ [h], cc_sent := cc_sent c @ []\<rparr>"
  have r: "reaches sort_v6 accepted c ?c" using o assms(4) by (rule complete_step)
  have "carbon_inv accepted ?c" using steps_inv [OF r assms(1)] .
  from driver_turn [OF this, of h sort_v6] obtain c' rest where "reaches sort_v6 accepted ?c c'" "carbon_inv accepted c'"
    "cc_ConnectionState c' = cc_ConnectionState c" "cc_ready c' = h # rest"
    using completes_phase [OF assms(4)] assms(3) by auto
  then show ?thesis using r by (blast intro: rtranclp_trans)
qed

text \<open>The bytes of a write that succeeds, and what is sent next.\<close>

definition delivered :: "(endpoint list \<Rightarrow> endpoint list) \<Rightarrow> string \<Rightarrow> Connection_Impl \<Rightarrow> bool" where
  "delivered sort_v6 accepted c \<longleftrightarrow> (\<exists>c'. reaches sort_v6 accepted c c' \<and> cc_sent c' = accepted)"

lemma delivered_step: "reaches sort_v6 accepted c c' \<Longrightarrow> delivered sort_v6 accepted c' \<Longrightarrow> delivered sort_v6 accepted c"
  unfolding delivered_def by (blast intro: rtranclp_trans)

lemma write_and_go_on:
  assumes "cc_operations c = [Receiving]" and "cc_ready c = []" and "cc_Socket_open c"
  shows "reaches sort_v6 accepted (async_write c)
    (trySendMessage (c\<lparr>cc_MessageBuffer := [], cc_sent := cc_sent c @ cc_MessageBuffer c\<rparr>))"
proof -
  let ?b = "cc_MessageBuffer c"
  let ?w = "async_write c\<lparr>cc_operations := [Receiving] @ [], cc_ready := cc_ready (async_write c) @ [Written False (length ?b)],
    cc_sent := cc_sent (async_write c) @ ?b\<rparr>"
  have "reaches sort_v6 accepted (async_write c) ?w"
    using assms by (intro complete_step [where op = "Writing ?b"] completes.intros) (simp_all add: async_write_def start_operation_def)
  moreover have "reaches sort_v6 accepted ?w (run_handler sort_v6 0 (Written False (length ?b)) (?w\<lparr>cc_ready := []\<rparr>))"
    using assms by (intro run_step) (simp add: async_write_def start_operation_def)
  moreover have "run_handler sort_v6 0 (Written False (length ?b)) (?w\<lparr>cc_ready := []\<rparr>) =
      trySendMessage (c\<lparr>cc_MessageBuffer := [], cc_sent := cc_sent c @ ?b\<rparr>)"
    using assms by (simp add: async_write_def start_operation_def sentMessageHandler_def Let_def)
      (intro arg_cong [where f = trySendMessage], simp)
  ultimately show ?thesis by (metis rtranclp_trans)
qed

lemma deliver:
  assumes "cc_operations c = [Receiving]" and "cc_ready c = []" and "cc_Socket_open c" and "stream_ok accepted c"
  shows "delivered sort_v6 accepted (trySendMessage c)"
  using assms
proof (induction "length (cc_Messages c) + (if cc_MessageBuffer c = [] then 0 else 1)" arbitrary: c rule: less_induct)
  case less
  have go: "delivered sort_v6 accepted (async_write d)"
    if d: "cc_operations d = [Receiving]" "cc_ready d = []" "cc_Socket_open d" "stream_ok accepted d"
      "length (cc_Messages d) < length (cc_Messages c) + (if cc_MessageBuffer c = [] then 0 else 1)" for d
  proof -
    have "stream_ok accepted (d\<lparr>cc_MessageBuffer := [], cc_sent := cc_sent d @ cc_MessageBuffer d\<rparr>)"
      using d by (simp add: stream_ok_def unsent_def)
    then show ?thesis using d by (intro delivered_step [OF write_and_go_on] less.hyps) simp_all
  qed
  show ?case
  proof (cases "cc_Messages c")
    case Nil
    show ?thesis
    proof (cases "cc_MessageBuffer c = []")
      case True
      then have "cc_sent (trySendMessage c) = accepted"
        using less.prems Nil by (simp add: trySendMessage_def post_def stream_ok_def unsent_def MessageAdditionLimit_def)
      then show ?thesis unfolding delivered_def by blast
    next
      case False
      then have "trySendMessage c = async_write c" using less.prems(3) Nil by (simp add: trySendMessage_def)
      then show ?thesis using go [OF less.prems] Nil False by simp
    qed
  next
    case (Cons m ms)
    show ?thesis
    proof (cases "MessageAdditionLimit < length (cc_MessageBuffer c)")
      case True
      then have "cc_MessageBuffer c \<noteq> []" "trySendMessage c = async_write c"
        using less.prems(3) by (auto simp: trySendMessage_def)
      then show ?thesis using go [OF less.prems] by simp
    next
      case False
      let ?d = "c\<lparr>cc_MessageBuffer := cc_MessageBuffer c @ m, cc_Messages := ms\<rparr>"
      have "trySendMessage c = async_write ?d" using less.prems(3) Cons False by (simp add: trySendMessage_def)
      moreover have "stream_ok accepted ?d" using less.prems Cons by (simp add: stream_ok_def unsent_def)
      ultimately show ?thesis using go [of ?d] less.prems Cons by simp
    qed
  qed
qed

text \<open>From each state to the next, up to a connection that sends.\<close>

lemma single_operation:
  assumes "carbon_inv accepted c" and "senders c = 0" and "op \<in> set (cc_operations c)"
  shows "cc_operations c = [op]" and "cc_ready c = []"
  using inv_count [OF assms(1)] assms(2,3)
  by (cases "cc_operations c"; auto simp: Suc_length_conv)+

lemma deliver_connecting:
  assumes "carbon_inv accepted c" and "cc_ConnectionState c = CONNECT" and "Connecting ep q \<in> set (cc_operations c)"
  shows "delivered sort_v6 accepted c"
proof -
  have s: "senders c = 0" "cc_Socket_open c" using assms by (simp_all add: carbon_inv_def phase_ok_def)
  note o = single_operation [OF assms(1) s(1) assms(3)]
  let ?w = "c\<lparr>cc_operations := [] @ [], cc_ready := cc_ready c @ [Connected False q], cc_sent := cc_sent c @ []\<rparr>"
  let ?d = "async_receive (setState SEND_LOOP (?w\<lparr>cc_ready := []\<rparr>))"
  have "reaches sort_v6 accepted c ?w"
    using o by (intro complete_step [where op = "Connecting ep q"] completes.intros) simp_all
  moreover have "reaches sort_v6 accepted ?w (run_handler sort_v6 0 (Connected False q) (?w\<lparr>cc_ready := []\<rparr>))"
    using o by (intro run_step) simp
  moreover have "run_handler sort_v6 0 (Connected False q) (?w\<lparr>cc_ready := []\<rparr>) = trySendMessage ?d"
    by (simp add: connectHandler_def)
  moreover have "delivered sort_v6 accepted (trySendMessage ?d)"
    using assms(1) o s(2) by (intro deliver) (simp_all add: async_receive_def carbon_simps stream_ok_def carbon_inv_def)
  ultimately show ?thesis by (metis delivered_step)
qed

lemma try_connect_operation: "\<exists>ep q. Connecting ep q \<in> set (cc_operations (tryConnect p c))"
  by (cases "getNextEndpoint p") (auto simp: tryConnect_def async_connect_def start_operation_def setState_def)

lemma try_connect_state [simp]: "cc_ConnectionState (tryConnect p c) = CONNECT"
  by (simp add: tryConnect_def setState_def split: prod.split)

lemma deliver_resolving:
  assumes "carbon_inv accepted c" and "cc_ConnectionState c = ADDR_LOOKUP" and "op \<in> set (cc_operations c)"
    and "op_phase op = [ADDR_LOOKUP]"
  shows "delivered sort_v6 accepted c"
proof -
  obtain host port where op: "op = Resolving host port" using assms(4) by (cases op) simp_all
  have c: "completes op (Resolved (Some [])) []" using op by (simp add: completes.intros)
  from driver_completes [OF assms(1,3) _ c] assms(2,4) obtain c' rest where c': "reaches sort_v6 accepted c c'"
    "carbon_inv accepted c'" "cc_ready c' = Resolved (Some []) # rest" by metis
  let ?d = "run_handler sort_v6 0 (Resolved (Some [])) (c'\<lparr>cc_ready := rest\<rparr>)"
  have r: "reaches sort_v6 accepted c' ?d" using c'(3) by (rule run_step)
  obtain ep q where "Connecting ep q \<in> set (cc_operations ?d)" "cc_ConnectionState ?d = CONNECT"
    using try_connect_operation by (simp add: resolverHandler_def) metis
  then have "delivered sort_v6 accepted ?d" using deliver_connecting steps_inv [OF r c'(2)] by blast
  then show ?thesis using delivered_step r c'(1) by blast
qed

lemma driver_found:
  assumes "carbon_inv accepted c"
    and "\<And>op. op \<in> set (cc_operations c) \<Longrightarrow> op_phase op = [cc_ConnectionState c] \<Longrightarrow> completes op (f op) []"
  obtains c' h rest where "reaches sort_v6 accepted c c'" "carbon_inv accepted c'"
    "cc_ConnectionState c' = cc_ConnectionState c" "cc_ready c' = h # rest" "handler_phase h = [cc_ConnectionState c]"
  using inv_driver [OF assms(1)] driver_turn [OF assms(1)] driver_completes [OF assms(1) _ _ assms(2)]
    completes_phase [OF assms(2)] by metis

lemma deliver_waiting:
  assumes "carbon_inv accepted c" and "cc_ConnectionState c = ADDR_RETRY_WAIT"
  shows "delivered sort_v6 accepted c"
proof -
  have "completes op Waited []" if "op_phase op = [cc_ConnectionState c]" for op
    using that assms(2) by (cases op) (auto intro: completes.intros)
  from driver_found [OF assms(1) this] obtain c' h rest where c': "reaches sort_v6 accepted c c'" "carbon_inv accepted c'"
    "cc_ready c' = h # rest" "handler_phase h = [ADDR_RETRY_WAIT]" using assms(2) by metis
  then have h: "h = Waited" by (cases h) simp_all
  let ?d = "run_handler sort_v6 0 Waited (c'\<lparr>cc_ready := rest\<rparr>)"
  have r: "reaches sort_v6 accepted c' ?d" using c'(3) h by (intro run_step) simp
  have "delivered sort_v6 accepted ?d"
    by (rule deliver_resolving [OF steps_inv [OF r c'(2)], where op = "Resolving (cc_HostAddress c') (cc_HostPort c')"])
      (simp_all add: doAddressQuery_def Let_def carbon_simps)
  then show ?thesis using delivered_step r c'(1) by blast
qed

lemma reconnect_state [simp]: "cc_ConnectionState (reconnect Delay c) = ADDR_RETRY_WAIT"
  by (simp add: reconnect_def setState_def)

lemma deliver_broken:
  assumes "carbon_inv accepted c" and "cc_ready c = Received True # rest"
  shows "delivered sort_v6 accepted c"
proof -
  let ?d = "run_handler sort_v6 0 (Received True) (c\<lparr>cc_ready := rest\<rparr>)"
  have r: "reaches sort_v6 accepted c ?d" using assms(2) by (rule run_step)
  have "cc_ConnectionState ?d = ADDR_RETRY_WAIT" by (simp add: receiveHandler_def)
  with steps_inv [OF r assms(1)] have "delivered sort_v6 accepted ?d" by (rule deliver_waiting)
  with r show ?thesis by (rule delivered_step)
qed

lemma deliver_connected:
  assumes "carbon_inv accepted c" and "cc_ConnectionState c = SEND_LOOP"
  shows "delivered sort_v6 accepted c"
proof -
  have f: "completes op (Received True) []" if "op_phase op = [SEND_LOOP]" for op
    using that by (cases op) (auto intro: completes.intros)
  obtain c' h rest where c': "reaches sort_v6 accepted c c'" "carbon_inv accepted c'" "cc_ConnectionState c' = SEND_LOOP"
    "cc_ready c' = h # rest" "handler_phase h = [SEND_LOOP]" using driver_found [OF assms(1), of "\<lambda>_. Received True"] f assms(2) by metis
  obtain e where h: "h = Received e" using c'(5) by (cases h) simp_all
  have "delivered sort_v6 accepted c'"
  proof (cases e)
    case True
    then show ?thesis using c'(2,4) h by (intro deliver_broken) simp_all
  next
    case False
    let ?d = "run_handler sort_v6 0 (Received False) (c'\<lparr>cc_ready := rest\<rparr>)"
    have r: "reaches sort_v6 accepted c' ?d" using c'(4) h False by (intro run_step) simp
    have i: "carbon_inv accepted ?d" using steps_inv [OF r c'(2)] .
    have s: "cc_ConnectionState ?d = SEND_LOOP" "Receiving \<in> set (cc_operations ?d) \<or> Received True \<in> set (cc_ready ?d)"
      using c'(3) by (simp_all add: receiveHandler_def async_receive_def carbon_simps)
    then obtain d rest' where "reaches sort_v6 accepted ?d d" "carbon_inv accepted d" "cc_ready d = Received True # rest'"
      using driver_turn [OF i] driver_completes [OF i _ _ f] by (metis handler_phase.simps(3) op_phase.simps(3))
    then show ?thesis using deliver_broken delivered_step r by blast
  qed
  then show ?thesis using delivered_step c'(1) by blast
qed

lemma deliver_connect:
  assumes "carbon_inv accepted c" and "cc_ConnectionState c = CONNECT"
  shows "delivered sort_v6 accepted c"
proof -
  have "completes op (case op of Connecting _ q \<Rightarrow> Connected False q | _ \<Rightarrow> Waited) []" if "op_phase op = [cc_ConnectionState c]" for op
    using that assms(2) by (cases op) (auto intro: completes.intros)
  from driver_found [OF assms(1) this] obtain c' h rest where c': "reaches sort_v6 accepted c c'" "carbon_inv accepted c'"
    "cc_ready c' = h # rest" "handler_phase h = [CONNECT]" using assms(2) by metis
  obtain e q where h: "h = Connected e q" using c'(4) by (cases h) simp_all
  let ?d = "run_handler sort_v6 0 h (c'\<lparr>cc_ready := rest\<rparr>)"
  have r: "reaches sort_v6 accepted c' ?d" using c'(3) by (rule run_step)
  have i: "carbon_inv accepted ?d" using steps_inv [OF r c'(2)] .
  have "delivered sort_v6 accepted ?d"
  proof (cases e)
    case True
    let ?k = "close_Socket 0 (c'\<lparr>cc_ready := rest\<rparr>)"
    have d: "?d = (if qr_isDone q then reconnect LONG ?k else tryConnect q ?k)"
      using True h by (simp add: connectHandler_def Let_def)
    obtain ep q' where "Connecting ep q' \<in> set (cc_operations (tryConnect q ?k))" using try_connect_operation by blast
    then show ?thesis using d deliver_waiting [OF i] deliver_connecting [OF i] by auto
  next
    case False
    have "cc_ConnectionState ?d = SEND_LOOP"
      using h False by (simp add: connectHandler_def trySendMessage_def async_write_def async_receive_def carbon_simps split: list.split)
    with i show ?thesis by (rule deliver_connected)
  qed
  then show ?thesis using delivered_step r c'(1) by blast
qed

lemma deliver_lookup:
  assumes "carbon_inv accepted c" and "cc_ConnectionState c = ADDR_LOOKUP"
  shows "delivered sort_v6 accepted c"
proof -
  have "completes op (Resolved None) []" if "op_phase op = [cc_ConnectionState c]" for op
    using that assms(2) by (cases op) (auto intro: completes.intros)
  from driver_found [OF assms(1) this] obtain c' h rest where c': "reaches sort_v6 accepted c c'" "carbon_inv accepted c'"
    "cc_ready c' = h # rest" "handler_phase h = [ADDR_LOOKUP]" using assms(2) by metis
  obtain x where h: "h = Resolved x" using c'(4) by (cases h) simp_all
  let ?d = "run_handler sort_v6 0 h (c'\<lparr>cc_ready := rest\<rparr>)"
  have r: "reaches sort_v6 accepted c' ?d" using c'(3) by (rule run_step)
  have i: "carbon_inv accepted ?d" using steps_inv [OF r c'(2)] .
  have "delivered sort_v6 accepted ?d"
    using h deliver_waiting [OF i] deliver_connect [OF i] by (cases x) (simp_all add: resolverHandler_def)
  then show ?thesis using delivered_step r c'(1) by blast
qed

text \<open>C20: At every moment exactly one of looking the address up, waiting, connecting and receiving goes on, and it is
  the one that \<open>getConnectionStatus\<close> names; at most one handler is sending, no handler touches the buffer while
  a write reads it, and what the sockets have taken followed by what is still held is exactly what has been accepted, in
  order: connections that break lose nothing and send nothing twice.\<close>

theorem carbon_stream_exact:
  assumes "carbon_run sort_v6 accepted c"
  shows "phases c = {#getConnectionStatus c#} \<and> senders c \<le> 1 \<and>
    (\<forall>d. Writing d \<in> set (cc_operations c) \<longrightarrow> d = cc_MessageBuffer c) \<and>
    accepted = cc_sent c @ drop (transferred (cc_ready c)) (cc_MessageBuffer c) @ concat (cc_Messages c)"
  using run_inv [OF assms] inv_one_sender [OF run_inv [OF assms]]
  by (simp add: carbon_inv_def stream_ok_def unsent_def getConnectionStatus_def)

text \<open>A connection that breaks in the middle of a message.\<close>

definition example_connection :: "nat \<Rightarrow> Connection_Impl" where
  "example_connection k =
     \<lparr>cc_ConnectionState = [ADDR_LOOKUP, ADDR_LOOKUP, CONNECT, CONNECT, SEND_LOOP, SEND_LOOP] ! k,
      cc_MessageBuffer = (if k < 4 then [] else ''ab''), cc_HostAddress = ''h'', cc_HostPort = to_string 80,
      cc_Messages = (if k < 4 then [''ab''] else []), cc_Socket_open = (2 \<le> k),
      cc_operations =
        [[Resolving ''h'' (to_string 80)], [], [Connecting no_endpoint \<lparr>qr_EndpointList = [], qr_NextEndpoint = 0\<rparr>], [],
         [Receiving, Writing ''ab''], [Receiving]] ! k,
      cc_ready =
        [[], [Resolved (Some [])], [], [Connected False \<lparr>qr_EndpointList = [], qr_NextEndpoint = 0\<rparr>], [], [Written True 1]] ! k,
      cc_sent = (if k < 5 then [] else ''a'')\<rparr>"

lemmas example_simps = example_connection_def make_Connection_def doAddressQuery_def sendMessage_def carbon_simps
  resolverHandler_def make_QueryResult_def tryConnect_def getNextEndpoint_def async_connect_def connectHandler_def
  trySendMessage_def async_receive_def async_write_def MessageAdditionLimit_def

lemma example_run: "carbon_run id ''ab'' (example_connection 5)"
proof -
  let ?S = "carbon_step id" and ?q = "\<lparr>qr_EndpointList = [], qr_NextEndpoint = 0\<rparr>"
  have s0: "?S ([], make_Connection ''h'' 80) (''ab'', example_connection 0)"
    using carbon_step.send [of id "[]" "make_Connection ''h'' 80" True "''ab''"] by (simp add: example_simps)
  have s1: "?S\<^sup>*\<^sup>* (''ab'', example_connection 0) (''ab'', example_connection 1)"
    using complete_step [of "example_connection 0" "[]" _ "[]" "Resolved (Some [])" "[]" id "''ab''"]
    by (simp add: example_connection_def completes.intros)
  have s2: "?S\<^sup>*\<^sup>* (''ab'', example_connection 1) (''ab'', example_connection 2)"
    using run_step [of "example_connection 1" "Resolved (Some [])" "[]" id "''ab''" 0] by (simp add: example_simps)
  have s3: "?S\<^sup>*\<^sup>* (''ab'', example_connection 2) (''ab'', example_connection 3)"
    using complete_step [of "example_connection 2" "[]" _ "[]" "Connected False ?q" "[]" id "''ab''"]
    by (simp add: example_connection_def completes.intros)
  have s4: "?S\<^sup>*\<^sup>* (''ab'', example_connection 3) (''ab'', example_connection 4)"
    using run_step [of "example_connection 3" "Connected False ?q" "[]" id "''ab''" 0] by (simp add: example_simps)
  have s5: "?S\<^sup>*\<^sup>* (''ab'', example_connection 4) (''ab'', example_connection 5)"
    using complete_step [of "example_connection 4" "[Receiving]" "Writing ''ab''" "[]" "Written True 1" "''a''" id "''ab''"]
      completes.intros(5) [of 1 "''ab''"] by (simp add: example_connection_def)
  note rtranclp_trans [OF rtranclp_trans [OF rtranclp_trans [OF rtranclp_trans [OF s1 s2] s3] s4] s5]
  with s0 show ?thesis unfolding carbon_run_def by (blast intro: converse_rtranclp_into_rtranclp)
qed

theorem carbon_stream_exact_witness:
  "''ab'' = cc_sent (example_connection 5) @ ''b'' \<and> phases (example_connection 5) = {#SEND_LOOP#}"
  using carbon_stream_exact [OF example_run] by (simp add: example_connection_def getConnectionStatus_def)



section \<open>The order of the addresses\<close>

text \<open>What \<^verbatim>\<open>std::sort\<close> promises of the addresses.\<close>

locale address_sort =
  fixes sort_v6 :: "endpoint list \<Rightarrow> endpoint list"
  assumes same_addresses: "mset (sort_v6 eps) = mset eps"
    and v4_first: "sorted (map ep_is_v6 (sort_v6 eps))"
begin

lemma address_count: "length (sort_v6 eps) = length eps"
  using same_addresses by (metis size_mset)

lemma v4_before_v6:
  assumes "i < j" and "j < length eps" and "ep_is_v6 (sort_v6 eps ! i)"
  shows "ep_is_v6 (sort_v6 eps ! j)"
  using sorted_nth_mono [OF v4_first, of i j] assms address_count by simp

end

interpretation stable_sort: address_sort "sort_key ep_is_v6"
  by unfold_locales simp_all

text \<open>The connection after the outstanding attempt has failed and its handler has run, and the address of the attempt.\<close>

definition attempt_fails :: "Connection_Impl \<Rightarrow> Connection_Impl" where
  "attempt_fails c =
     (case cc_operations c of [Connecting ep q] \<Rightarrow> connectHandler 0 True q (c\<lparr>cc_operations := []\<rparr>) | _ \<Rightarrow> c)"

definition tried :: "Connection_Impl \<Rightarrow> endpoint option" where
  "tried c = (case cc_operations c of [Connecting ep q] \<Rightarrow> Some ep | _ \<Rightarrow> None)"

lemma next_attempt:
  assumes "cc_operations c = [Connecting ep \<lparr>qr_EndpointList = eps, qr_NextEndpoint = n\<rparr>]" and "n < length eps"
  shows "cc_operations (attempt_fails c) = [Connecting (eps ! n) \<lparr>qr_EndpointList = eps, qr_NextEndpoint = Suc n\<rparr>]"
  using assms by (simp add: attempt_fails_def connectHandler_def close_Socket_def qr_isDone_def tryConnect_def getNextEndpoint_def
      async_connect_def setState_def start_operation_def Let_def)

lemma last_attempt:
  assumes "cc_operations c = [Connecting ep \<lparr>qr_EndpointList = eps, qr_NextEndpoint = length eps\<rparr>]"
  shows "cc_operations (attempt_fails c) = [Waiting LONG]" and "cc_ConnectionState (attempt_fails c) = ADDR_RETRY_WAIT"
  using assms by (simp_all add: attempt_fails_def connectHandler_def close_Socket_def qr_isDone_def reconnect_def
      expires_after_def setState_def start_operation_def Let_def)

lemma attempt:
  assumes "cc_operations c0 = []" and "k < length eps"
  shows "cc_operations ((attempt_fails ^^ k) (tryConnect \<lparr>qr_EndpointList = eps, qr_NextEndpoint = 0\<rparr> c0)) =
    [Connecting (eps ! k) \<lparr>qr_EndpointList = eps, qr_NextEndpoint = Suc k\<rparr>]"
  using assms(2)
proof (induction k)
  case 0
  then show ?case
    using assms(1) by (simp add: tryConnect_def getNextEndpoint_def async_connect_def setState_def start_operation_def)
next
  case (Suc k)
  then show ?case using next_attempt by simp
qed

text \<open>When the addresses of the server are known, each of them is tried once, those of IPv4 before those of
  IPv6; only when all attempts have failed does the connection wait ten seconds before it looks the address up again.\<close>

theorem carbon_tries_all:
  assumes "address_sort sort_v6" and "cc_operations c = []" and "eps \<noteq> []"
  defines "c0 \<equiv> resolverHandler sort_v6 (Some eps) c"
  shows "map (\<lambda>k. tried ((attempt_fails ^^ k) c0)) [0..<length eps] = map Some (sort_v6 eps) \<and>
    mset (sort_v6 eps) = mset eps \<and> sorted (map ep_is_v6 (sort_v6 eps)) \<and>
    cc_operations ((attempt_fails ^^ length eps) c0) = [Waiting LONG] \<and>
    getConnectionStatus ((attempt_fails ^^ length eps) c0) = ADDR_RETRY_WAIT"
proof -
  note laws = assms(1) [unfolded address_sort_def]
  have len: "length (sort_v6 eps) = length eps" using address_sort.address_count [OF assms(1)] .
  have c0: "c0 = tryConnect \<lparr>qr_EndpointList = sort_v6 eps, qr_NextEndpoint = 0\<rparr> c"
    by (simp add: c0_def resolverHandler_def make_QueryResult_def)
  have "tried ((attempt_fails ^^ k) c0) = Some (sort_v6 eps ! k)" if "k < length eps" for k
    using attempt [OF assms(2), of k "sort_v6 eps"] that len by (auto simp: c0 tried_def)
  then have "map (\<lambda>k. tried ((attempt_fails ^^ k) c0)) [0..<length eps] = map Some (sort_v6 eps)"
    using len by (intro nth_equalityI) simp_all
  moreover obtain n where n: "length eps = Suc n" using assms(3) by (cases eps) simp_all
  then have "cc_operations ((attempt_fails ^^ n) c0) =
      [Connecting (sort_v6 eps ! n) \<lparr>qr_EndpointList = sort_v6 eps, qr_NextEndpoint = Suc n\<rparr>]"
    using attempt [OF assms(2), of n "sort_v6 eps"] len c0 by auto
  then have "cc_operations ((attempt_fails ^^ length eps) c0) = [Waiting LONG] \<and>
      getConnectionStatus ((attempt_fails ^^ length eps) c0) = ADDR_RETRY_WAIT"
    using n len last_attempt [of "(attempt_fails ^^ n) c0" _ "sort_v6 eps"] by (simp add: getConnectionStatus_def)
  ultimately show ?thesis using laws by blast
qed

theorem carbon_tries_all_witness:
  "let v4 = \<lparr>ep_is_v6 = False, ep_address = ''10.0.0.1''\<rparr>; v6 = \<lparr>ep_is_v6 = True, ep_address = ''::1''\<rparr>;
       c0 = resolverHandler (sort_key ep_is_v6) (Some [v6, v4]) (example_connection 3)
   in map (\<lambda>k. tried ((attempt_fails ^^ k) c0)) [0..<2] = [Some v4, Some v6] \<and>
      getConnectionStatus ((attempt_fails ^^ 2) c0) = ADDR_RETRY_WAIT"
  using carbon_tries_all [OF stable_sort.address_sort_axioms, of "example_connection 3"
      "[\<lparr>ep_is_v6 = True, ep_address = ''::1''\<rparr>, \<lparr>ep_is_v6 = False, ep_address = ''10.0.0.1''\<rparr>]"]
  by (simp add: example_connection_def numeral_2_eq_2 Let_def)

section \<open>The destructor\<close>

text \<open>The destructor stops the service and joins its thread before it closes the socket: no handler runs any more, and the
  operations and handlers that are left are destroyed with the service.\<close>

definition destroy_Connection :: "nat \<Rightarrow> Connection_Impl \<Rightarrow> Connection_Impl" where
  "destroy_Connection part c = (close_Socket part c)\<lparr>cc_operations := [], cc_ready := []\<rparr>"

text \<open>Whenever it runs, what the server has received is the beginning of what was accepted; the rest is lost.\<close>

lemma destroyed_connection:
  assumes "carbon_run sort_v6 accepted c"
  shows "\<exists>lost. accepted = cc_sent (destroy_Connection part c) @ lost \<and> \<not> cc_Socket_open (destroy_Connection part c)"
  using stream_close [of accepted c part] run_inv [OF assms] inv_one_sender [OF run_inv [OF assms]]
  by (auto simp: carbon_inv_def stream_ok_def destroy_Connection_def close_Socket_def)

end
