(* ===== verification/Metrics_Registry.thy ===== *)
theory Metrics_Registry
  imports Carbon_Connection
begin

text \<open>
  \<^verbatim>\<open>src/Metrics/\<close>: \<^verbatim>\<open>Metric\<close>, \<^verbatim>\<open>InternalMetric\<close>, \<^verbatim>\<open>Reporter\<close>, \<^verbatim>\<open>Registrar\<close> and the two sinks. A counter is
  registered under a prefixed name with the reporters of the wanted kinds; a reporter passes all its counters to its sink
  again and again; the destructor of a counter removes it from its reporters.

  Reporters keep a raw pointer to the counter, so the metrics live in a heap, by address. \<open>None\<close> is a
  dereferenced pointer to a counter that no longer exists. Reporters are shared and are named by their position.
  Log lines are collected in the order in which they are written. The readings of the clock and whether the queue of the
  Carbon connection has room are arguments.
\<close>

datatype Severity = DEBUG | INFO | WARNING | ERROR

datatype LogTo = CARBON | LOG_MSG

record registered_Metric =
  rm_FullName :: string
  rm_Reporters :: "nat list"
  rm_MName :: string
  rm_MDesc :: string
  rm_SevLvl :: Severity
  rm_Counter :: int

definition make_Metric :: "string \<Rightarrow> string \<Rightarrow> Severity \<Rightarrow> registered_Metric" where
  "make_Metric Name Description Level =
     \<lparr>rm_FullName = [], rm_Reporters = [], rm_MName = Name, rm_MDesc = Description, rm_SevLvl = Level, rm_Counter = 0\<rparr>"

text \<open>The prefix and the postfix operator do the same: both return the new value.\<close>

definition metric_increment :: "registered_Metric \<Rightarrow> int \<times> registered_Metric" where
  "metric_increment m = (let m = m\<lparr>rm_Counter := s64 (rm_Counter m + 1)\<rparr> in (rm_Counter m, m))"

definition metric_assign :: "int \<Rightarrow> registered_Metric \<Rightarrow> int \<times> registered_Metric" where
  "metric_assign NewValue m = (let m = m\<lparr>rm_Counter := NewValue\<rparr> in (rm_Counter m, m))"

definition metric_add :: "int \<Rightarrow> registered_Metric \<Rightarrow> int \<times> registered_Metric" where
  "metric_add AddValue m = (let m = m\<lparr>rm_Counter := s64 (AddValue + rm_Counter m)\<rparr> in (rm_Counter m, m))"

definition setDeregistrationDetails :: "string \<Rightarrow> nat \<Rightarrow> registered_Metric \<Rightarrow> registered_Metric" where
  "setDeregistrationDetails NameWithPrefix reporter m =
     m\<lparr>rm_FullName := NameWithPrefix, rm_Reporters := rm_Reporters m @ [reporter]\<rparr>"

record InternalMetric =
  im_Name :: string
  im_FullName :: string
  im_Counter :: nat
  im_DescriptionString :: string
  im_LastValue :: int
  im_LastTime :: time_point
  im_ValueSeverity :: Severity

definition make_InternalMetric :: "time_point \<Rightarrow> nat \<Rightarrow> registered_Metric \<Rightarrow> string \<Rightarrow> InternalMetric" where
  "make_InternalMetric now a m FullName =
     \<lparr>im_Name = rm_MName m, im_FullName = FullName, im_Counter = a, im_DescriptionString = rm_MDesc m,
      im_LastValue = rm_Counter m, im_LastTime = now, im_ValueSeverity = rm_SevLvl m\<rparr>"

section \<open>Sinks\<close>

datatype MetricSink = LogSink | CarbonSink (cs_CarbonConnection: Connection_Impl)

datatype log_line =
    Events Severity int int string string
  | Sink_Unhealthy string
  | Removal_Failed string
  | Still_Registered string

fun getType :: "MetricSink \<Rightarrow> LogTo" where
  "getType LogSink = LOG_MSG"
| "getType (CarbonSink _) = CARBON"

fun isHealthy :: "MetricSink \<Rightarrow> bool" where
  "isHealthy LogSink = True"
| "isHealthy (CarbonSink c) = (messageQueueSize c = 0)"

text \<open>\<^verbatim>\<open>LogSink::reportMetric\<close>; the current value is that of the counter pointed to.\<close>

definition log_reportMetric :: "time_point \<Rightarrow> int \<Rightarrow> InternalMetric \<Rightarrow> InternalMetric \<times> log_line list" where
  "log_reportMetric Now CurrentValue m =
     (let ValueDiff = s64 (CurrentValue - im_LastValue m)
      in if ValueDiff \<noteq> 0 then
           (m\<lparr>im_LastValue := CurrentValue, im_LastTime := Now\<rparr>,
            [Events (im_ValueSeverity m) (s64 (Now - im_LastTime m) sdiv 1000000) ValueDiff (im_FullName m)
               (im_DescriptionString m)])
         else (m\<lparr>im_LastTime := Now\<rparr>, []))"

text \<open>\<^verbatim>\<open>CarbonSink::reportMetric\<close>: a line with name, value and seconds since the epoch.\<close>

definition carbon_line :: "string \<Rightarrow> int \<Rightarrow> time_point \<Rightarrow> string" where
  "carbon_line name v now = name @ '' '' @ to_string v @ '' '' @ to_string (now sdiv 1000000000) @ [CHR 0x0A]"

definition carbon_reportMetric :: "bool \<Rightarrow> time_point \<Rightarrow> int \<Rightarrow> InternalMetric \<Rightarrow> Connection_Impl \<Rightarrow> Connection_Impl" where
  "carbon_reportMetric room now CurrentValue m c =
     snd (sendMessage room (carbon_line (im_FullName m) CurrentValue now) c)"

section \<open>The reporter\<close>

record Reporter =
  rp_MetricSink :: MetricSink
  rp_MetricsToReportOn :: "(string \<times> InternalMetric) list"

definition getSinkType :: "Reporter \<Rightarrow> LogTo" where
  "getSinkType r = getType (rp_MetricSink r)"

definition addMetric :: "time_point \<Rightarrow> nat \<Rightarrow> registered_Metric \<Rightarrow> string \<Rightarrow> Reporter \<Rightarrow> bool \<times> Reporter" where
  "addMetric now a NewMetric NewName r =
     (if map_of (rp_MetricsToReportOn r) NewName = None
      then (True, r\<lparr>rp_MetricsToReportOn :=
                     smap_insert NewName (make_InternalMetric now a NewMetric NewName) (rp_MetricsToReportOn r)\<rparr>)
      else (False, r))"

definition tryRemoveMetric :: "string \<Rightarrow> Reporter \<Rightarrow> bool \<times> Reporter" where
  "tryRemoveMetric MetricName r =
     (map_of (rp_MetricsToReportOn r) MetricName \<noteq> None,
      r\<lparr>rp_MetricsToReportOn := filter (\<lambda>e. fst e \<noteq> MetricName) (rp_MetricsToReportOn r)\<rparr>)"

type_synonym metric_heap = "(nat \<times> registered_Metric) list"

text \<open>The loop over the counters; the environment gives a clock reading and the state of the queue for each.\<close>

fun report_each ::
  "(nat \<Rightarrow> time_point \<times> bool) \<Rightarrow> metric_heap \<Rightarrow> (string \<times> InternalMetric) list \<Rightarrow> MetricSink
     \<Rightarrow> (MetricSink \<times> (string \<times> InternalMetric) list \<times> log_line list) option" where
  "report_each env H [] s = Some (s, [], [])"
| "report_each env H ((k, m) # ms) s =
     (case map_of H (im_Counter m) of
        None \<Rightarrow> None
      | Some counter \<Rightarrow>
          (let (now, room) = env (length ms);
               (s, m, out) =
                 (case s of
                    LogSink \<Rightarrow> let (m, out) = log_reportMetric now (rm_Counter counter) m in (LogSink, m, out)
                  | CarbonSink c \<Rightarrow> (CarbonSink (carbon_reportMetric room now (rm_Counter counter) m c), m, []))
           in case report_each env H ms s of
                None \<Rightarrow> None
              | Some (s, ms, out') \<Rightarrow> Some (s, (k, m) # ms, out @ out')))"

fun sink_name :: "LogTo \<Rightarrow> string" where
  "sink_name CARBON = ''grafana/graphite''"
| "sink_name LOG_MSG = ''log-message''"

definition reportMetrics ::
  "(nat \<Rightarrow> time_point \<times> bool) \<Rightarrow> metric_heap \<Rightarrow> Reporter \<Rightarrow> (Reporter \<times> log_line list) option" where
  "reportMetrics env H r =
     (if isHealthy (rp_MetricSink r) then
        (case report_each env H (rp_MetricsToReportOn r) (rp_MetricSink r) of
           None \<Rightarrow> None
         | Some (s, ms, out) \<Rightarrow> Some (r\<lparr>rp_MetricSink := s, rp_MetricsToReportOn := ms\<rparr>, out))
      else Some (r, [Sink_Unhealthy (sink_name (getType (rp_MetricSink r)))]))"

definition destroy_Reporter :: "Reporter \<Rightarrow> log_line list" where
  "destroy_Reporter r =
     (if rp_MetricsToReportOn r = [] then []
      else [Still_Registered (concat (map (\<lambda>(name, m). name @ '', '') (rp_MetricsToReportOn r)))])"

section \<open>The registrar\<close>

record Registrar =
  rg_Prefix :: string
  rg_ReporterList :: "nat list"

definition prependPrefix :: "Registrar \<Rightarrow> string \<Rightarrow> string" where
  "prependPrefix g Name = (if rg_Prefix g = [] then Name else rg_Prefix g @ ''.'' @ Name)"

definition getNewRegistrar :: "Registrar \<Rightarrow> string \<Rightarrow> Registrar" where
  "getNewRegistrar g MetricsPrefix = \<lparr>rg_Prefix = prependPrefix g MetricsPrefix, rg_ReporterList = rg_ReporterList g\<rparr>"

fun register_each ::
  "time_point \<Rightarrow> nat \<Rightarrow> string \<Rightarrow> LogTo list \<Rightarrow> nat list \<Rightarrow> registered_Metric \<Rightarrow> Reporter list
     \<Rightarrow> exn option \<times> registered_Metric \<times> Reporter list" where
  "register_each now a NewName SinkTypes [] m rs = (None, m, rs)"
| "register_each now a NewName SinkTypes (i # is) m rs =
     (if getSinkType (rs ! i) \<in> set SinkTypes then
        let (added, r) = addMetric now a m NewName (rs ! i)
        in if \<not> added then (Some (Runtime_Error ''Metric with same full name is already registered''), m, rs)
           else register_each now a NewName SinkTypes is (setDeregistrationDetails NewName i m) (rs[i := r])
      else register_each now a NewName SinkTypes is m rs)"

definition registerMetric ::
  "time_point \<Rightarrow> Registrar \<Rightarrow> nat \<Rightarrow> LogTo list \<Rightarrow> registered_Metric \<Rightarrow> Reporter list
     \<Rightarrow> exn option \<times> registered_Metric \<times> Reporter list" where
  "registerMetric now g a SinkTypes NewMetric rs =
     (if rm_MName NewMetric = [] then (Some (Runtime_Error ''Metrics cannot be registered with an empty name''), NewMetric, rs)
      else register_each now a (prependPrefix g (rm_MName NewMetric)) SinkTypes (rg_ReporterList g) NewMetric rs)"

text \<open>The destructor of a metric.\<close>

fun deregister_each :: "string \<Rightarrow> nat list \<Rightarrow> Reporter list \<Rightarrow> Reporter list \<times> log_line list" where
  "deregister_each FullName [] rs = (rs, [])"
| "deregister_each FullName (i # is) rs =
     (let (removed, r) = tryRemoveMetric FullName (rs ! i);
          (rs, out) = deregister_each FullName is (rs[i := r])
      in (rs, (if removed then [] else [Removal_Failed FullName]) @ out))"

definition destroy_Metric :: "registered_Metric \<Rightarrow> Reporter list \<Rightarrow> Reporter list \<times> log_line list" where
  "destroy_Metric m rs = deregister_each (rm_FullName m) (rm_Reporters m) rs"

section \<open>Pointers to counters\<close>

record metrics_world =
  mx_heap :: metric_heap
  mx_reporters :: "Reporter list"
  mx_log :: "log_line list"

text \<open>What can happen: a metric is created, registered once, counted and destroyed, in any order with the reports. A registration
  that throws leaves what it has done so far.\<close>

inductive metrics_step :: "metrics_world \<Rightarrow> metrics_world \<Rightarrow> bool" where
  create: "metrics_step w (w\<lparr>mx_heap := (a, make_Metric Name Description Level) # mx_heap w\<rparr>)"
    if "map_of (mx_heap w) a = None"
| register: "metrics_step w (w\<lparr>mx_heap := (a, m') # mx_heap w, mx_reporters := rs\<rparr>)"
    if "map_of (mx_heap w) a = Some m" and "rm_Reporters m = []"
      and "distinct (rg_ReporterList g)" and "set (rg_ReporterList g) \<subseteq> {..<length (mx_reporters w)}"
      and "registerMetric now g a SinkTypes m (mx_reporters w) = (e, m', rs)"
| count: "metrics_step w (w\<lparr>mx_heap := (a, m\<lparr>rm_Counter := v\<rparr>) # mx_heap w\<rparr>)"
    if "map_of (mx_heap w) a = Some m"
| report: "metrics_step w (w\<lparr>mx_reporters := (mx_reporters w)[i := r], mx_log := mx_log w @ out\<rparr>)"
    if "i < length (mx_reporters w)" and "reportMetrics env (mx_heap w) (mx_reporters w ! i) = Some (r, out)"
| destroy: "metrics_step w (w\<lparr>mx_heap := filter (\<lambda>e. fst e \<noteq> a) (mx_heap w), mx_reporters := rs, mx_log := mx_log w @ out\<rparr>)"
    if "map_of (mx_heap w) a = Some m" and "destroy_Metric m (mx_reporters w) = (rs, out)"

definition new_reporters :: "MetricSink list \<Rightarrow> metrics_world" where
  "new_reporters sinks =
     \<lparr>mx_heap = [], mx_reporters = map (\<lambda>s. \<lparr>rp_MetricSink = s, rp_MetricsToReportOn = []\<rparr>) sinks, mx_log = []\<rparr>"

text \<open>The counter that a reporter has under a name.\<close>

definition counter_of :: "Reporter \<Rightarrow> string \<Rightarrow> nat option" where
  "counter_of r k = map_option im_Counter (map_of (rp_MetricsToReportOn r) k)"

definition linked :: "(nat \<Rightarrow> registered_Metric option) \<Rightarrow> nat \<Rightarrow> Reporter \<Rightarrow> bool" where
  "linked H i r \<longleftrightarrow>
     smap_ok (rp_MetricsToReportOn r) \<and>
     (\<forall>k a. counter_of r k = Some a \<longleftrightarrow> (\<exists>m. H a = Some m \<and> i \<in> set (rm_Reporters m) \<and> rm_FullName m = k))"

definition metric_ok :: "nat \<Rightarrow> registered_Metric \<Rightarrow> bool" where
  "metric_ok n m \<longleftrightarrow> distinct (rm_Reporters m) \<and> set (rm_Reporters m) \<subseteq> {..<n}"

definition all_linked :: "(nat \<Rightarrow> registered_Metric option) \<Rightarrow> Reporter list \<Rightarrow> bool" where
  "all_linked H rs \<longleftrightarrow> (\<forall>i < length rs. linked H i (rs ! i)) \<and> (\<forall>a m. H a = Some m \<longrightarrow> metric_ok (length rs) m)"

lemma map_of_filter_other: "map_of (filter (\<lambda>e. fst e \<noteq> k) xs) j = (if j = k then None else map_of xs j)"
  by (induction xs) auto

lemma counter_of_added:
  assumes "addMetric now a m k r = (True, r')"
  shows "counter_of r' = (counter_of r)(k \<mapsto> a)" and "counter_of r k = None"
  using assms by (auto simp: addMetric_def counter_of_def map_of_smap_insert make_InternalMetric_def fun_eq_iff split: if_splits)

lemma counter_of_removed: "counter_of (snd (tryRemoveMetric k r)) = (counter_of r)(k := None)"
  by (simp add: tryRemoveMetric_def counter_of_def fun_eq_iff map_of_filter_other)

lemma smap_ok_filter: "smap_ok m \<Longrightarrow> smap_ok (filter P m)"
  unfolding smap_ok_def by (induction m) auto

lemma sorted_kept [keeps]:
  "smap_ok (rp_MetricsToReportOn r) \<Longrightarrow> smap_ok (rp_MetricsToReportOn (snd (addMetric now a m k r)))"
  "smap_ok (rp_MetricsToReportOn r) \<Longrightarrow> smap_ok (rp_MetricsToReportOn (snd (tryRemoveMetric k r)))"
  by (simp_all add: addMetric_def tryRemoveMetric_def smap_ok_insert smap_ok_filter)

text \<open>A report changes neither names nor pointers.\<close>

lemma report_each_keeps:
  "report_each env H ms s = Some (s', ms', out) \<Longrightarrow>
     map fst ms' = map fst ms \<and> map_option im_Counter \<circ> map_of ms' = map_option im_Counter \<circ> map_of ms"
proof (induction ms arbitrary: s s' ms' out)
  case (Cons km ms)
  obtain k m where km: "km = (k, m)" by (cases km)
  from Cons.prems obtain s1 s2 m2 ms2 out2 where "report_each env H ms s1 = Some (s2, ms2, out2)"
    "ms' = (k, m2) # ms2" "im_Counter m2 = im_Counter m"
    by (auto simp: km log_reportMetric_def Let_def split: option.splits prod.splits MetricSink.splits if_splits)
  with Cons.IH show ?case by (auto simp: km fun_eq_iff)
qed simp

lemma report_each_defined:
  assumes "\<forall>(k, m) \<in> set ms. map_of H (im_Counter m) \<noteq> None"
  shows "report_each env H ms s \<noteq> None"
  using assms
  by (induction ms arbitrary: s)
    (auto split: option.splits prod.splits MetricSink.splits simp: Let_def, (metis option.distinct(1))+)

lemma report_keeps:
  assumes "reportMetrics env H r = Some (r', out)" and "linked G i r"
  shows "linked G i r'"
proof (cases "isHealthy (rp_MetricSink r)")
  case True
  then obtain s ms where "report_each env H (rp_MetricsToReportOn r) (rp_MetricSink r) = Some (s, ms, out)"
    "r' = r\<lparr>rp_MetricSink := s, rp_MetricsToReportOn := ms\<rparr>"
    using assms(1) by (auto simp: reportMetrics_def split: option.splits)
  moreover from this(1) have "map fst ms = map fst (rp_MetricsToReportOn r)"
    "map_option im_Counter \<circ> map_of ms = map_option im_Counter \<circ> map_of (rp_MetricsToReportOn r)"
    using report_each_keeps by blast+
  ultimately have "counter_of r' = counter_of r" "smap_ok (rp_MetricsToReportOn r') = smap_ok (rp_MetricsToReportOn r)"
    by (simp_all add: counter_of_def smap_ok_def fun_eq_iff)
  then show ?thesis using assms(2) by (simp add: linked_def)
next
  case False
  then show ?thesis using assms by (auto simp: reportMetrics_def)
qed

lemma report_defined:
  assumes "linked (map_of H) i r"
  shows "reportMetrics env H r \<noteq> None"
proof -
  have "map_of H (im_Counter m) \<noteq> None" if "(k, m) \<in> set (rp_MetricsToReportOn r)" for k m
  proof -
    have "counter_of r k = Some (im_Counter m)"
      using assms that smap_ok_in_set by (fastforce simp: linked_def counter_of_def)
    then show ?thesis using assms by (auto simp: linked_def)
  qed
  then have "report_each env H (rp_MetricsToReportOn r) (rp_MetricSink r) \<noteq> None" by (intro report_each_defined) auto
  then show ?thesis by (auto simp: reportMetrics_def)
qed

text \<open>Adding a metric to one more reporter, and removing it from one.\<close>

lemma add_linked:
  assumes "all_linked (H(a \<mapsto> m)) rs" and "i < length rs" and "i \<notin> set (rm_Reporters m)"
    and "rm_Reporters m \<noteq> [] \<longrightarrow> rm_FullName m = k" and "addMetric now a m k (rs ! i) = (True, r)"
  shows "all_linked (H(a \<mapsto> setDeregistrationDetails k i m)) (rs[i := r])"
proof -
  note c = counter_of_added [OF assms(5)]
  have "smap_ok (rp_MetricsToReportOn r)"
    using assms(1,2,5) sorted_kept(1) [of "rs ! i" now a m k] by (auto simp: all_linked_def linked_def)
  moreover have "linked (H(a \<mapsto> m)) j (rs ! j)" if "j < length rs" for j using assms(1) that by (simp add: all_linked_def)
  moreover have "metric_ok (length rs) (setDeregistrationDetails k i m)"
    using assms(1-3) by (auto simp: all_linked_def metric_ok_def setDeregistrationDetails_def split: if_splits)
  moreover have "\<forall>b n. H b = Some n \<longrightarrow> i \<in> set (rm_Reporters n) \<longrightarrow> rm_FullName n = k \<longrightarrow> b = a"
    using c(2) assms(1,2) unfolding all_linked_def linked_def by (metis fun_upd_apply option.distinct(1))
  ultimately show ?thesis
    using assms(1-4) c
    by (auto simp: all_linked_def linked_def setDeregistrationDetails_def nth_list_update split: if_splits)
qed

lemma remove_linked:
  assumes "all_linked (H(a \<mapsto> m\<lparr>rm_Reporters := i # is\<rparr>)) rs"
  shows "all_linked (H(a \<mapsto> m\<lparr>rm_Reporters := is\<rparr>)) (rs[i := snd (tryRemoveMetric (rm_FullName m) (rs ! i))])"
    and "fst (tryRemoveMetric (rm_FullName m) (rs ! i))"
proof -
  let ?k = "rm_FullName m" and ?r = "snd (tryRemoveMetric (rm_FullName m) (rs ! i))"
  have i: "i < length rs" "i \<notin> set is" "metric_ok (length rs) (m\<lparr>rm_Reporters := is\<rparr>)"
    using assms by (auto simp: all_linked_def metric_ok_def split: if_splits)
  have l: "linked (H(a \<mapsto> m\<lparr>rm_Reporters := i # is\<rparr>)) j (rs ! j)" if "j < length rs" for j
    using assms that by (simp add: all_linked_def)
  then have k: "counter_of (rs ! i) ?k = Some a" using i(1) by (simp add: linked_def)
  then show "fst (tryRemoveMetric ?k (rs ! i))" by (auto simp: tryRemoveMetric_def counter_of_def)
  have c: "counter_of ?r = (counter_of (rs ! i))(?k := None)" by (rule counter_of_removed)
  have "smap_ok (rp_MetricsToReportOn ?r)" using l [OF i(1)] sorted_kept(2) by (simp add: linked_def)
  moreover have "\<forall>b n. H b = Some n \<longrightarrow> i \<in> set (rm_Reporters n) \<longrightarrow> rm_FullName n = ?k \<longrightarrow> b = a"
    using k l [OF i(1)] unfolding linked_def by (metis fun_upd_apply option.inject)
  ultimately show "all_linked (H(a \<mapsto> m\<lparr>rm_Reporters := is\<rparr>)) (rs[i := ?r])"
    using assms i l c by (auto simp: all_linked_def linked_def nth_list_update split: if_splits)
qed

lemma register_each_linked:
  assumes "all_linked (H(a \<mapsto> m)) rs" and "set is \<subseteq> {..<length rs}" and "distinct is" and "set is \<inter> set (rm_Reporters m) = {}"
    and "rm_Reporters m \<noteq> [] \<longrightarrow> rm_FullName m = k" and "register_each now a k SinkTypes is m rs = (e, m', rs')"
  shows "all_linked (H(a \<mapsto> m')) rs' \<and> length rs' = length rs"
  using assms
proof (induction "is" arbitrary: m rs)
  case (Cons i "is")
  show ?case
  proof (cases "getSinkType (rs ! i) \<in> set SinkTypes \<and> fst (addMetric now a m k (rs ! i))")
    case True
    then obtain r where r: "addMetric now a m k (rs ! i) = (True, r)" by (cases "addMetric now a m k (rs ! i)") simp
    then have reg: "register_each now a k SinkTypes is (setDeregistrationDetails k i m) (rs[i := r]) = (e, m', rs')"
      using True Cons.prems(6) by simp
    have link: "all_linked (H(a \<mapsto> setDeregistrationDetails k i m)) (rs[i := r])"
      using Cons.prems(2-5) by (intro add_linked [OF Cons.prems(1) _ _ _ r]) simp_all
    have "set is \<inter> set (rm_Reporters (setDeregistrationDetails k i m)) = {}"
      "rm_Reporters (setDeregistrationDetails k i m) \<noteq> [] \<longrightarrow> rm_FullName (setDeregistrationDetails k i m) = k"
      "set is \<subseteq> {..<length (rs[i := r])}" "distinct is"
      using Cons.prems(2-4) by (auto simp: setDeregistrationDetails_def)
    from Cons.IH [OF link this(3,4,1,2) reg] show ?thesis unfolding length_list_update .
  next
    case False
    then show ?thesis
      using Cons.IH [of m rs] Cons.prems by (auto split: if_splits prod.splits)
  qed
qed simp

lemma deregister_each_linked:
  assumes "all_linked (H(a \<mapsto> m\<lparr>rm_Reporters := is\<rparr>)) rs" and "deregister_each (rm_FullName m) is rs = (rs', out)"
  shows "all_linked (H(a \<mapsto> m\<lparr>rm_Reporters := []\<rparr>)) rs' \<and> out = [] \<and> length rs' = length rs"
  using assms
proof (induction "is" arbitrary: rs out)
  case (Cons i "is")
  let ?r = "snd (tryRemoveMetric (rm_FullName m) (rs ! i))"
  note l = remove_linked [OF Cons.prems(1)]
  obtain rs2 out2 where d: "deregister_each (rm_FullName m) is (rs[i := ?r]) = (rs2, out2)" by fastforce
  then have "deregister_each (rm_FullName m) is (rs[i := ?r]) = (rs', out)"
    using Cons.prems(2) l(2) by (auto simp: Let_def split: prod.splits)
  then show ?case using Cons.IH [OF l(1)] by simp
qed simp

definition links_ok :: "metrics_world \<Rightarrow> bool" where
  "links_ok w \<longleftrightarrow> all_linked (map_of (mx_heap w)) (mx_reporters w) \<and> (\<forall>n. Removal_Failed n \<notin> set (mx_log w))"

lemma all_linked_cong:
  assumes "\<And>b i k. (\<exists>m. H' b = Some m \<and> i \<in> set (rm_Reporters m) \<and> rm_FullName m = k) =
      (\<exists>m. H b = Some m \<and> i \<in> set (rm_Reporters m) \<and> rm_FullName m = k)"
    and "\<And>b n. (\<forall>m. H' b = Some m \<longrightarrow> metric_ok n m) = (\<forall>m. H b = Some m \<longrightarrow> metric_ok n m)"
  shows "all_linked H' rs = all_linked H rs"
  unfolding all_linked_def linked_def assms by (rule refl)

lemma unregistered_linked:
  assumes "rm_Reporters m = []" and "\<forall>m'. H a = Some m' \<longrightarrow> rm_Reporters m' = []"
  shows "all_linked (H(a \<mapsto> m)) rs = all_linked H rs" and "all_linked (H(a := None)) rs = all_linked H rs"
  using assms by (intro all_linked_cong; auto simp: metric_ok_def)+

lemma counted_linked:
  assumes "H a = Some m" and "rm_Reporters m' = rm_Reporters m" and "rm_FullName m' = rm_FullName m"
  shows "all_linked (H(a \<mapsto> m')) rs = all_linked H rs"
  using assms by (intro all_linked_cong) (auto simp: metric_ok_def)

lemma report_log:
  assumes "reportMetrics env H r = Some (r', out)"
  shows "Removal_Failed n \<notin> set out"
proof -
  have "report_each env H ms s = Some (s', ms', out') \<Longrightarrow> Removal_Failed n \<notin> set out'" for ms s s' ms' out'
  proof (induction ms arbitrary: s s' ms' out')
    case (Cons km ms)
    then show ?case
      by (cases km) (auto simp: log_reportMetric_def Let_def split: option.splits prod.splits MetricSink.splits if_splits)
  qed simp
  then show ?thesis using assms by (auto simp: reportMetrics_def split: option.splits if_splits)
qed

lemma metrics_step_ok: "metrics_step w w' \<Longrightarrow> links_ok w \<Longrightarrow> links_ok w'"
proof (induction rule: metrics_step.induct)
  case (create w a Name Description Level)
  then show ?case using unregistered_linked [of "make_Metric Name Description Level" "map_of (mx_heap w)" a]
    by (simp add: links_ok_def make_Metric_def)
next
  case (register w a m g now SinkTypes e m' rs)
  have "map_of (mx_heap w) = (map_of (mx_heap w))(a \<mapsto> m)" using register.hyps(1) by (simp add: fun_upd_idem)
  then have "all_linked ((map_of (mx_heap w))(a \<mapsto> m)) (mx_reporters w)" using register.prems by (simp add: links_ok_def)
  then have "all_linked ((map_of (mx_heap w))(a \<mapsto> m')) rs"
    using register.hyps register_each_linked [of "map_of (mx_heap w)" a m "mx_reporters w" "rg_ReporterList g" "prependPrefix g (rm_MName m)"]
    by (auto simp: registerMetric_def split: if_splits)
  then show ?case using register.prems by (simp add: links_ok_def)
next
  case (count w a m v)
  then show ?case using counted_linked [of "map_of (mx_heap w)" a m "m\<lparr>rm_Counter := v\<rparr>"] by (simp add: links_ok_def)
next
  case (report i w env r out)
  then have "linked (map_of (mx_heap w)) i r" using report_keeps by (auto simp: links_ok_def all_linked_def)
  then show ?case using report report_log by (auto simp: links_ok_def all_linked_def nth_list_update)
next
  case (destroy w a m rs out)
  have "map_of (mx_heap w) = (map_of (mx_heap w))(a \<mapsto> m\<lparr>rm_Reporters := rm_Reporters m\<rparr>)"
    using destroy.hyps(1) by (simp add: fun_upd_idem)
  then have "all_linked ((map_of (mx_heap w))(a \<mapsto> m\<lparr>rm_Reporters := rm_Reporters m\<rparr>)) (mx_reporters w)"
    using destroy.prems by (simp add: links_ok_def)
  from deregister_each_linked [OF this] destroy.hyps(2)
  have d: "all_linked ((map_of (mx_heap w))(a \<mapsto> m\<lparr>rm_Reporters := []\<rparr>)) rs" "out = []" by (simp_all add: destroy_Metric_def)
  have "map_of (filter (\<lambda>e. fst e \<noteq> a) (mx_heap w)) = (map_of (mx_heap w))(a := None)"
    by (simp add: fun_eq_iff map_of_filter_other)
  moreover have "all_linked (((map_of (mx_heap w))(a \<mapsto> m\<lparr>rm_Reporters := []\<rparr>))(a := None)) rs"
    using d(1) by (subst unregistered_linked(2) [where m = "m\<lparr>rm_Reporters := []\<rparr>"]) simp_all
  ultimately show ?case using destroy.prems d(2) by (simp add: links_ok_def)
qed

lemma metrics_start_ok: "links_ok (new_reporters sinks)"
  by (auto simp: links_ok_def all_linked_def linked_def counter_of_def new_reporters_def smap_ok_def)

text \<open>C22: Reporters hold raw pointers to counters. If every metric is registered at most once, then in every state, whichever
  metrics have been created, registered (even unsuccessfully), counted, reported and destroyed, no reporter can read a counter that
  no longer exists, and the removal of a metric from its reporters has never failed.\<close>

theorem metrics_never_dangle:
  assumes "metrics_step\<^sup>*\<^sup>* (new_reporters sinks) w" and "i < length (mx_reporters w)"
  shows "reportMetrics env (mx_heap w) (mx_reporters w ! i) \<noteq> None \<and> Removal_Failed n \<notin> set (mx_log w)"
proof -
  from assms(1) have "links_ok w"
    by (induction rule: rtranclp_induct) (auto intro: metrics_step_ok metrics_start_ok)
  then show ?thesis using assms(2) report_defined [of "mx_heap w" i "mx_reporters w ! i" env] by (auto simp: links_ok_def all_linked_def)
qed

definition one_metric :: metrics_world where
  "one_metric =
     (let m = make_Metric ''errors'' ''Number of errors'' ERROR;
          g = getNewRegistrar \<lparr>rg_Prefix = ''k2n'', rg_ReporterList = [0]\<rparr> ''topic'';
          rs = mx_reporters (new_reporters [LogSink]);
          (e, m', rs') = registerMetric 0 g 7 [LOG_MSG] m rs
      in \<lparr>mx_heap = [(7, m'), (7, m)], mx_reporters = rs', mx_log = []\<rparr>)"

lemma one_metric_reached: "metrics_step\<^sup>*\<^sup>* (new_reporters [LogSink]) one_metric"
proof -
  let ?m = "make_Metric ''errors'' ''Number of errors'' ERROR"
  let ?g = "getNewRegistrar \<lparr>rg_Prefix = ''k2n'', rg_ReporterList = [0]\<rparr> ''topic''"
  let ?w = "new_reporters [LogSink]\<lparr>mx_heap := [(7, ?m)]\<rparr>"
  have "metrics_step (new_reporters [LogSink]) ?w"
    using metrics_step.create [of "new_reporters [LogSink]" 7] by (simp add: new_reporters_def)
  moreover obtain e m' rs where r: "registerMetric 0 ?g 7 [LOG_MSG] ?m (mx_reporters ?w) = (e, m', rs)"
    by (cases "registerMetric 0 ?g 7 [LOG_MSG] ?m (mx_reporters ?w)") (rule that)
  then have "metrics_step ?w (?w\<lparr>mx_heap := (7, m') # mx_heap ?w, mx_reporters := rs\<rparr>)"
    by (intro metrics_step.register [OF _ _ _ _ r]) (simp_all add: make_Metric_def getNewRegistrar_def new_reporters_def)
  moreover have "?w\<lparr>mx_heap := (7, m') # mx_heap ?w, mx_reporters := rs\<rparr> = one_metric"
    using r by (simp add: one_metric_def new_reporters_def Let_def)
  ultimately show ?thesis by (auto intro: rtranclp.rtrancl_into_rtrancl)
qed

theorem metrics_never_dangle_witness:
  "reportMetrics (\<lambda>_. (5, True)) (mx_heap one_metric) (mx_reporters one_metric ! 0) \<noteq> None \<and>
   map fst (rp_MetricsToReportOn (mx_reporters one_metric ! 0)) = [''k2n.topic.errors'']"
proof
  have n: "0 < length (mx_reporters one_metric)" by code_simp
  show "reportMetrics (\<lambda>_. (5, True)) (mx_heap one_metric) (mx_reporters one_metric ! 0) \<noteq> None"
    using metrics_never_dangle [OF one_metric_reached n] by blast
  show "map fst (rp_MetricsToReportOn (mx_reporters one_metric ! 0)) = [''k2n.topic.errors'']" by code_simp
qed

text \<open>A metric keeps one full name only. Registered under two names, it is removed under the second alone; the reporter is left
  with a pointer to a counter that has been destroyed.\<close>

lemma registered_twice:
  "let m = make_Metric ''errors'' ''Number of errors'' ERROR;
       rs = mx_reporters (new_reporters [LogSink]);
       (e1, m, rs) = registerMetric 0 \<lparr>rg_Prefix = ''a'', rg_ReporterList = [0]\<rparr> 7 [LOG_MSG] m rs;
       (e2, m, rs) = registerMetric 0 \<lparr>rg_Prefix = ''b'', rg_ReporterList = [0]\<rparr> 7 [LOG_MSG] m rs;
       (rs, out) = destroy_Metric m rs
   in e1 = None \<and> e2 = None \<and> out = [Removal_Failed ''b.errors''] \<and> reportMetrics (\<lambda>_. (5, True)) [] (rs ! 0) = None"
  by code_simp

text \<open>An empty prefix still adds a separator.\<close>

lemma empty_prefix:
  "prependPrefix (getNewRegistrar \<lparr>rg_Prefix = ''k2n'', rg_ReporterList = []\<rparr> []) ''topic'' = ''k2n..topic''"
  by code_simp

section \<open>What the log says\<close>

text \<open>The reports of one metric to the log, one per reading of clock and counter.\<close>

fun log_reports :: "(time_point \<times> int) list \<Rightarrow> InternalMetric \<Rightarrow> InternalMetric \<times> log_line list" where
  "log_reports [] m = (m, [])"
| "log_reports ((now, v) # readings) m =
     (let (m, out) = log_reportMetric now v m; (m, out') = log_reports readings m in (m, out @ out'))"

fun reported_events :: "log_line \<Rightarrow> int" where
  "reported_events (Events _ _ n _ _) = n"
| "reported_events _ = 0"

lemma s64_add: "s64 (s64 a + b) = s64 (a + b)"
proof -
  have "s64 a + b + 9223372036854775808 = (a + 9223372036854775808) mod 18446744073709551616 + b" by (simp add: s64_def)
  then have "(s64 a + b + 9223372036854775808) mod 18446744073709551616 =
      (a + 9223372036854775808 + b) mod 18446744073709551616" by (simp only: mod_add_left_eq)
  then show ?thesis unfolding s64_def [of "s64 a + b"] s64_def [of "a + b"] by (simp only: ac_simps)
qed

lemma s64_diff_add: "in_s64 b \<Longrightarrow> s64 (a + s64 (b - a)) = b"
  using s64_add [of "b - a" a] s64_eq_iff by (simp add: add.commute)

lemma log_report_value:
  assumes "in_s64 v" and "in_s64 (im_LastValue m)" and "log_reportMetric now v m = (m', out)"
  shows "im_LastValue m' = v \<and> im_LastTime m' = now \<and> s64 (im_LastValue m + sum_list (map reported_events out)) = v"
  using assms s64_diff_add [OF assms(1), of "im_LastValue m"] s64_eq_iff [of "im_LastValue m"]
  by (auto simp: log_reportMetric_def Let_def split: if_splits)

text \<open>The numbers of events that the log reports for a metric add up, modulo 2 ^ 64, to the increase of its counter since it
  was registered, however often the counter wraps around and however the reports fall.\<close>

theorem log_adds_up:
  assumes "\<forall>(t, v) \<in> set readings. in_s64 v" and "in_s64 (rm_Counter metric)"
    and "log_reports readings (make_InternalMetric now a metric name) = (m, out)"
  shows "s64 (rm_Counter metric + sum_list (map reported_events out)) = last (rm_Counter metric # map snd readings)"
proof -
  have "s64 (im_LastValue i + sum_list (map reported_events out)) = last (im_LastValue i # map snd readings)"
    if "in_s64 (im_LastValue i)" "log_reports readings i = (m, out)" for i
    using assms(1) that
  proof (induction readings arbitrary: i out)
    case Nil
    then show ?case by (simp add: s64_eq_iff)
  next
    case (Cons r rest)
    obtain t v where r: "r = (t, v)" by (cases r)
    obtain i1 out1 m2 out2 where s: "log_reportMetric t v i = (i1, out1)" "log_reports rest i1 = (m2, out2)" by fastforce
    then have o: "out = out1 @ out2" "m2 = m" using Cons.prems(3) by (simp_all add: r)
    have v: "in_s64 v" using Cons.prems(1) by (simp add: r)
    note l = log_report_value [OF v Cons.prems(2) s(1)]
    have "s64 (im_LastValue i1 + sum_list (map reported_events out2)) = last (im_LastValue i1 # map snd rest)"
      using Cons.IH [of i1 out2] Cons.prems(1) l v s(2) o(2) by simp
    moreover have "s64 (im_LastValue i + sum_list (map reported_events out)) =
        s64 (s64 (im_LastValue i + sum_list (map reported_events out1)) + sum_list (map reported_events out2))"
      by (simp add: s64_add o(1) add.assoc)
    ultimately show ?case using l by (simp add: r)
  qed
  from this [OF _ assms(3)] show ?thesis using assms(2) by (simp add: make_InternalMetric_def)
qed

theorem log_adds_up_witness:
  "let m = make_InternalMetric 0 0 (make_Metric ''n'' [] DEBUG) ''n'';
       out = snd (log_reports [(5, 3), (8, 3), (9, 10)] m)
   in length out = 2 \<and> s64 (sum_list (map reported_events out)) = 10"
proof -
  let ?m = "make_Metric ''n'' [] DEBUG"
  obtain m out where r: "log_reports [(5, 3), (8, 3), (9, 10)] (make_InternalMetric 0 0 ?m ''n'') = (m, out)" by fastforce
  have "length (snd (log_reports [(5, 3), (8, 3), (9, 10)] (make_InternalMetric 0 0 ?m ''n''))) = 2" by code_simp
  moreover have "s64 (rm_Counter ?m + sum_list (map reported_events out)) =
      last (rm_Counter ?m # map snd [(5 :: int, 3), (8, 3), (9, 10)])"
    by (rule log_adds_up [OF _ _ r]) (simp_all add: in_s64_def make_Metric_def)
  ultimately show ?thesis using r by (simp add: make_Metric_def)
qed

section \<open>The timer of the reporter\<close>

text \<open>The reporter's timer and thread: \<open>tm_expiry\<close> is the expiry of the steady timer, \<open>tm_waiting\<close> whether a wait is
  outstanding and \<open>tm_running\<close> whether the thread runs the io context. All times are in milliseconds.\<close>

record report_timer =
  tm_Period :: int
  tm_expiry :: int
  tm_waiting :: bool
  tm_running :: bool

definition reporter_start :: "report_timer \<Rightarrow> report_timer" where
  "reporter_start t = t\<lparr>tm_waiting := True, tm_running := True\<rparr>"

definition make_report_timer :: "int \<Rightarrow> int \<Rightarrow> report_timer" where
  "make_report_timer now Interval = reporter_start \<lparr>tm_Period = Interval, tm_expiry = now + Interval, tm_waiting = False, tm_running = False\<rparr>"

text \<open>The end of \<^verbatim>\<open>reportMetrics\<close>: the next expiry is counted from the last one and not from the current time.\<close>

definition rearm :: "report_timer \<Rightarrow> report_timer" where
  "rearm t = t\<lparr>tm_expiry := tm_expiry t + tm_Period t, tm_waiting := True\<rparr>"

definition waitForStop :: "report_timer \<Rightarrow> report_timer" where
  "waitForStop t = t\<lparr>tm_running := False\<rparr>"

text \<open>The loop of the thread: whenever the wait is over, at the time \<open>now\<close>, the handler reports and arms the timer again. The
  result has the expiries of the reports that were made.\<close>

fun run_timer :: "int list \<Rightarrow> report_timer \<Rightarrow> report_timer \<times> int list" where
  "run_timer [] t = (t, [])"
| "run_timer (now # nows) t =
     (if tm_running t \<and> tm_waiting t \<and> tm_expiry t \<le> now then
        let (t', reports) = run_timer nows (rearm (t\<lparr>tm_waiting := False\<rparr>)) in (t', tm_expiry t # reports)
      else run_timer nows t)"

text \<open>The k-th report is due \<open>k + 1\<close> periods after the start, however late the ones before it were.\<close>

lemma timer_reports:
  assumes "tm_running t" and "tm_waiting t"
  shows "snd (run_timer nows t) = map (\<lambda>k. tm_expiry t + int k * tm_Period t) [0..<length (snd (run_timer nows t))]"
  using assms
proof (induction nows arbitrary: t)
  case (Cons now nows)
  let ?t = "rearm (t\<lparr>tm_waiting := False\<rparr>)"
  have "tm_running ?t" "tm_waiting ?t" "tm_expiry ?t = tm_expiry t + tm_Period t" "tm_Period ?t = tm_Period t"
    using Cons.prems by (simp_all add: rearm_def)
  then have "snd (run_timer nows ?t) = map (\<lambda>k. tm_expiry t + int (Suc k) * tm_Period t) [0..<length (snd (run_timer nows ?t))]"
    using Cons.IH [of ?t] by (simp add: algebra_simps)
  then show ?case using Cons.IH [of t] Cons.prems
    by (cases "tm_expiry t \<le> now") (simp_all add: case_prod_beta map_upt_Suc del: upt_Suc)
qed simp

lemma reports_without_drift:
  "snd (run_timer nows (make_report_timer now Interval)) =
     map (\<lambda>k. now + int (k + 1) * Interval) [0..<length (snd (run_timer nows (make_report_timer now Interval)))]"
  using timer_reports [of "make_report_timer now Interval" nows]
  by (simp add: make_report_timer_def reporter_start_def algebra_simps)

text \<open>After \<^verbatim>\<open>waitForStop\<close> nothing is reported.\<close>

lemma no_reports_when_stopped: "run_timer nows (waitForStop t) = (waitForStop t, [])"
  by (induction nows) (simp_all add: waitForStop_def)

end
