(* ===== verification/Controller_System.thy ===== *)
theory Controller_System
  imports Stream_Controller
begin

text \<open>
  The controller, its executor, its topics and their executors running together, while the owner sets
  stop times and stops the job and the consumer threads proceed. The theory shows that a stop time set
  by the owner at any moment, also before the topics exist, reaches every topic. The executors take the
  tasks of one producer in first-in first-out order, which the locale \<open>controller_queues\<close> asks of the
  two queues.
\<close>

inductive controller_step ::
  "('q, topic_task task) cqueue \<Rightarrow> ('p, controller_task task) cqueue \<Rightarrow> ('d \<Rightarrow> bool)
     \<Rightarrow> (time_point \<Rightarrow> string)
     \<Rightarrow> 'p ThreadedExecutor \<times> ('d, 'q, 'h) StreamController option
     \<Rightarrow> 'p ThreadedExecutor \<times> ('d, 'q, 'h) StreamController option \<Rightarrow> bool"
  for Q P accepts utc where
  controller_task: "executor_step P (run_controller_task Q accepts env) (e, c) = (Some t, e', c') \<Longrightarrow>
    controller_step Q P accepts utc (e, c) (e', c')"
| topic_task: "i < length (sc_Streamers sc) \<Longrightarrow> sc_Streamers sc ! i = Some s \<Longrightarrow>
    executor_step Q (run_topic_task env) (st_Executor s, st_Topic s) = (Some t, te, tp) \<Longrightarrow>
    controller_step Q P accepts utc (e, Some sc)
      (e, Some (sc\<lparr>sc_Streamers := (sc_Streamers sc)[i := Some (s\<lparr>st_Topic := tp, st_Executor := te\<rparr>)]\<rparr>))"
| consumers_run: "i < length (sc_Streamers sc) \<Longrightarrow> sc_Streamers sc ! i = Some s \<Longrightarrow>
    controller_step Q P accepts utc (e, Some sc)
      (e, Some (sc\<lparr>sc_Streamers := (sc_Streamers sc)[i := Some (s\<lparr>st_Topic :=
             (st_Topic s)\<lparr>tc_ConsumerThreads := ths\<rparr>\<rparr>)]\<rparr>))"
| owner_setStopTime: "sc_setStopTime utc StopTime sc = (sc', ws) \<Longrightarrow>
    controller_step Q P accepts utc (e, Some sc) (fold (send P) ws e, Some sc')"
| owner_stop: "controller_step Q P accepts utc (e, Some sc) (e, sc_stop sc)"
| owner_asks: "isDoneWriting now file_size sc = (b, sc') \<Longrightarrow>
    controller_step Q P accepts utc (e, Some sc) (e, Some sc')"

inductive_cases controller_stepE: "controller_step Q P accepts utc (e, Some sc) (e', c')"

definition controller_initial ::
  "('p, controller_task task) cqueue \<Rightarrow> (time_point \<Rightarrow> string) \<Rightarrow> time_point \<Rightarrow> ('h, 'd) FileWriterTask
     \<Rightarrow> mdat_Writer \<Rightarrow> StreamerOptions \<Rightarrow> 'p ThreadedExecutor \<times> ('d, 'q, 'h) StreamController option" where
  "controller_initial P utc now task mdat opts =
     (let (sc, ws) = sc_start utc (make_StreamController now task mdat opts)
      in (fold (send P) ws (make_ThreadedExecutor P False), Some sc))"

section \<open>Stop times on their way\<close>

fun topic_stop_of :: "topic_task task \<Rightarrow> time_point list" where
  "topic_stop_of (Some (T_setStopTime s)) = [s]"
| "topic_stop_of _ = []"

fun controller_stop_of :: "controller_task task \<Rightarrow> time_point list" where
  "controller_stop_of (Some (C_setStopTime s)) = [s]"
| "controller_stop_of _ = []"

definition in_transit :: "('t \<Rightarrow> time_point list) \<Rightarrow> ('q \<Rightarrow> 't list) \<Rightarrow> 'q \<Rightarrow> time_point list" where
  "in_transit stop_of jobs q = concat (map stop_of (jobs q))"

text \<open>The stop time a topic has, or will have once it has taken the stop times queued for it.\<close>

definition streamer_stop :: "('q \<Rightarrow> topic_task task list) \<Rightarrow> ('d, 'q) streamer \<Rightarrow> time_point" where
  "streamer_stop jobs s =
     last (tc_StopConsumeTime (st_Topic s) # in_transit topic_stop_of jobs (ex_TaskQueue (st_Executor s)))"

definition streamer_quiet_low :: "('q \<Rightarrow> topic_task task list) \<Rightarrow> ('d, 'q) streamer \<Rightarrow> bool" where
  "streamer_quiet_low jobs s \<longleftrightarrow>
     in_transit topic_stop_of jobs (ex_LowPriorityTaskQueue (st_Executor s)) = []"

definition stop_inv ::
  "('q \<Rightarrow> topic_task task list) \<Rightarrow> ('p \<Rightarrow> controller_task task list) \<Rightarrow> 'p ThreadedExecutor
     \<Rightarrow> ('d, 'q, 'h) StreamController \<Rightarrow> bool" where
  "stop_inv jobs cjobs e sc \<longleftrightarrow>
     in_transit controller_stop_of cjobs (ex_LowPriorityTaskQueue e) = [] \<and>
     (\<forall>s. Some s \<in> set (sc_Streamers sc) \<longrightarrow> streamer_quiet_low jobs s) \<and>
     (let coming = in_transit controller_stop_of cjobs (ex_TaskQueue e);
          wanted = so_StopTimestamp (sc_StreamerOptions sc) in
      if coming \<noteq> [] then last coming = wanted
      else \<forall>s. Some s \<in> set (sc_Streamers sc) \<longrightarrow> streamer_stop jobs s = wanted)"

text \<open>Tasks that send no stop time.\<close>

definition sends_no_stop ::
  "('j task \<Rightarrow> time_point list) \<Rightarrow> ('j \<Rightarrow> 's \<Rightarrow> 's \<times> (bool \<times> 'j) list) \<Rightarrow> bool" where
  "sends_no_stop stop_of run \<longleftrightarrow> (\<forall>j s. \<forall>w \<in> set (snd (run j s)). stop_of (Some (snd w)) = [])"

context fifo_task_queue
begin

lemma jobs_send:
  "jobs (ex_TaskQueue (fold (send Q) ws e)) = jobs (ex_TaskQueue e) @ map (Some \<circ> snd) (filter fst ws)"
  "jobs (ex_LowPriorityTaskQueue (fold (send Q) ws e)) =
     jobs (ex_LowPriorityTaskQueue e) @ map (Some \<circ> snd) (filter (Not \<circ> fst) ws)"
  by (induction ws arbitrary: e)
    (auto simp: send_def sendWork_def sendLowPriorityWork_def jobs_enqueue)

text \<open>One pass of the executor: the first task of the high priority queue or, when that is empty, of
  the other one; what it sends goes to the ends of the queues.\<close>

lemma executor_step_fifo:
  assumes "executor_step Q run (e, s) = (Some t, e', s')"
  obtains ws where
    "case t of None \<Rightarrow> s' = s \<and> ws = [] | Some j \<Rightarrow> run j s = (s', ws)"
    "(\<exists>hs. jobs (ex_TaskQueue e) = t # hs \<and>
        jobs (ex_TaskQueue e') = hs @ map (Some \<circ> snd) (filter fst ws) \<and>
        jobs (ex_LowPriorityTaskQueue e') =
          jobs (ex_LowPriorityTaskQueue e) @ map (Some \<circ> snd) (filter (Not \<circ> fst) ws)) \<or>
     (\<exists>ls. jobs (ex_TaskQueue e) = [] \<and> jobs (ex_LowPriorityTaskQueue e) = t # ls \<and>
        jobs (ex_TaskQueue e') = map (Some \<circ> snd) (filter fst ws) \<and>
        jobs (ex_LowPriorityTaskQueue e') = ls @ map (Some \<circ> snd) (filter (Not \<circ> fst) ws))"
proof -
  have runs: "\<exists>ws. (case t of None \<Rightarrow> s' = s \<and> ws = [] | Some j \<Rightarrow> run j s = (s', ws)) \<and>
      jobs (ex_TaskQueue e') = jobs (ex_TaskQueue d) @ map (Some \<circ> snd) (filter fst ws) \<and>
      jobs (ex_LowPriorityTaskQueue e') =
        jobs (ex_LowPriorityTaskQueue d) @ map (Some \<circ> snd) (filter (Not \<circ> fst) ws)"
    if r: "run_task Q run t (d, s) = (e', s')" for d
    using r
  proof (cases t)
    case (Some j)
    obtain ws where "run j s = (s', ws)" and "e' = fold (send Q) ws d"
      using r Some by (auto simp: run_task_def split: prod.splits)
    then show ?thesis using Some jobs_send [of ws d] by auto
  qed (auto simp: run_task_def)
  show ?thesis
  proof (cases "cq_try_dequeue Q (ex_TaskQueue e)")
    case None
    with assms obtain q where q: "cq_try_dequeue Q (ex_LowPriorityTaskQueue e) = Some (t, q)"
      and r: "run_task Q run t (e\<lparr>ex_LowPriorityTaskQueue := q\<rparr>, s) = (e', s')"
      by (auto simp: executor_step_def split: option.splits)
    from runs [OF r] that show ?thesis
      using None fifo_dequeue_Some [OF q] by (auto simp: fifo_dequeue_None)
  next
    case (Some tq)
    with assms obtain q where q: "cq_try_dequeue Q (ex_TaskQueue e) = Some (t, q)"
      and r: "run_task Q run t (e\<lparr>ex_TaskQueue := q\<rparr>, s) = (e', s')"
      by (auto simp: executor_step_def split: option.splits prod.splits)
    from runs [OF r] that show ?thesis using fifo_dequeue_Some [OF q] by auto
  qed
qed

text \<open>The stop times in transit, when no task sends one and none is in the low priority queue.\<close>

lemma in_transit_step:
  assumes step: "executor_step Q run (e, s) = (Some t, e', s')"
    and low: "in_transit stop_of jobs (ex_LowPriorityTaskQueue e) = []"
    and silent: "sends_no_stop stop_of run"
  shows "in_transit stop_of jobs (ex_TaskQueue e) = stop_of t @ in_transit stop_of jobs (ex_TaskQueue e')"
    and "in_transit stop_of jobs (ex_LowPriorityTaskQueue e') = []"
    and "case t of None \<Rightarrow> s' = s | Some j \<Rightarrow> \<exists>ws. run j s = (s', ws)"
proof -
  obtain ws where w: "case t of None \<Rightarrow> s' = s \<and> ws = [] | Some j \<Rightarrow> run j s = (s', ws)"
    and q: "(\<exists>hs. jobs (ex_TaskQueue e) = t # hs \<and>
        jobs (ex_TaskQueue e') = hs @ map (Some \<circ> snd) (filter fst ws) \<and>
        jobs (ex_LowPriorityTaskQueue e') =
          jobs (ex_LowPriorityTaskQueue e) @ map (Some \<circ> snd) (filter (Not \<circ> fst) ws)) \<or>
     (\<exists>ls. jobs (ex_TaskQueue e) = [] \<and> jobs (ex_LowPriorityTaskQueue e) = t # ls \<and>
        jobs (ex_TaskQueue e') = map (Some \<circ> snd) (filter fst ws) \<and>
        jobs (ex_LowPriorityTaskQueue e') = ls @ map (Some \<circ> snd) (filter (Not \<circ> fst) ws))"
    by (rule executor_step_fifo [OF step])
  have "\<forall>x \<in> set ws. stop_of (Some (snd x)) = []"
    using w silent by (auto simp: sends_no_stop_def split: option.splits) (metis snd_conv)+
  then have none: "concat (map stop_of (map (Some \<circ> snd) (filter f ws))) = []" for f by auto
  show "case t of None \<Rightarrow> s' = s | Some j \<Rightarrow> \<exists>ws. run j s = (s', ws)"
    using w by (auto split: option.splits)
  show "in_transit stop_of jobs (ex_TaskQueue e) = stop_of t @ in_transit stop_of jobs (ex_TaskQueue e')"
    and "in_transit stop_of jobs (ex_LowPriorityTaskQueue e') = []"
    using q low unfolding in_transit_def
    by (elim disjE exE conjE; simp add: none del: map_map concat_eq_Nil_conv)+
qed

end

locale controller_queues =
  tq: fifo_task_queue Q jobs + cq: fifo_task_queue P cjobs
  for Q :: "('q, topic_task option) cqueue" and jobs and P :: "('p, controller_task option) cqueue" and cjobs
begin

lemma transit_send_stop [simp]:
  "streamer_stop jobs (send_stop_time Q st s) = st"
  "streamer_quiet_low jobs (send_stop_time Q st s) = streamer_quiet_low jobs s"
  by (simp_all add: streamer_stop_def streamer_quiet_low_def send_stop_time_def topic_setStopTime_def
      send_def sendWork_def in_transit_def tq.jobs_enqueue)

text \<open>A task of a topic keeps the stop time the topic has or is about to have.\<close>

lemma topic_task_keeps_stop:
  assumes "executor_step Q (run_topic_task env) (st_Executor s, st_Topic s) = (Some t, te, tp)"
    and "streamer_quiet_low jobs s"
  shows "streamer_stop jobs ((s :: ('d, 'q) streamer)\<lparr>st_Topic := tp, st_Executor := te\<rparr>) = streamer_stop jobs s \<and>
    streamer_quiet_low jobs (s\<lparr>st_Topic := tp, st_Executor := te\<rparr>)"
proof -
  have "\<forall>w \<in> set (snd (run_topic_task env j x)). topic_stop_of (Some (snd w)) = []" for j and x :: "'d Topic"
    by (cases j) (auto simp: getPartitionsForTopic_def getOffsetsForPartitions_def
        createStreams_def checkIfDone_def checkIfDoneTask_def split: sum.splits)
  then have silent: "sends_no_stop topic_stop_of (run_topic_task env :: _ \<Rightarrow> 'd Topic \<Rightarrow> _)"
    by (simp add: sends_no_stop_def)
  have keeps: "tc_StopConsumeTime y = last (tc_StopConsumeTime x # topic_stop_of (Some j))"
    if "run_topic_task env j x = (y, ws)" for j x y ws
    using that by (cases j) (auto simp: getPartitionsForTopic_def getOffsetsForPartitions_def
        createStreams_def checkIfDone_def setErrorState_def reset_timeout_def split: sum.splits if_splits)
  note step = tq.in_transit_step [OF assms(1) assms(2) [unfolded streamer_quiet_low_def] silent]
  have "tc_StopConsumeTime tp = last (tc_StopConsumeTime (st_Topic s) # topic_stop_of t)"
    using step(3) keeps by (cases t) force+
  with step(1,2) show ?thesis by (simp add: streamer_stop_def streamer_quiet_low_def)
qed

text \<open>What the other tasks of the controller leave of the streamers.\<close>

definition carried_over ::
  "('d, 'q, 'h) StreamController \<Rightarrow> ('d, 'q, 'h) StreamController \<Rightarrow> bool" where
  "carried_over sc sc' \<longleftrightarrow>
     so_StopTimestamp (sc_StreamerOptions sc') = so_StopTimestamp (sc_StreamerOptions sc) \<and>
     (\<forall>s'. Some s' \<in> set (sc_Streamers sc') \<longrightarrow>
        (\<exists>s. Some s \<in> set (sc_Streamers sc) \<and> streamer_stop jobs s' = streamer_stop jobs s \<and>
             streamer_quiet_low jobs s' = streamer_quiet_low jobs s) \<or>
        streamer_stop jobs s' = so_StopTimestamp (sc_StreamerOptions sc) \<and> streamer_quiet_low jobs s')"

lemma carried_over_refl: "sc_StreamerOptions sc' = sc_StreamerOptions sc \<Longrightarrow>
    (\<And>s. Some s \<in> set (sc_Streamers sc') \<Longrightarrow> Some s \<in> set (sc_Streamers sc)) \<Longrightarrow> carried_over sc sc'"
  by (auto simp: carried_over_def)

lemma for_each_result:
  "for_each f xs = Some ys \<Longrightarrow> Some y \<in> set ys \<Longrightarrow> \<exists>x. Some x \<in> set xs \<and> y = f x"
  by (induction f xs arbitrary: ys rule: for_each.induct) (auto, blast+)

lemma remove_if_result:
  "remove_if_ptrs p kept gap xs = Some (r, ys) \<Longrightarrow> Some y \<in> set ys \<Longrightarrow> Some y \<in> set (kept @ gap @ xs)"
proof (induction p kept gap xs arbitrary: r ys rule: remove_if_ptrs.induct)
  case (3 p kept gap x rest)
  show ?case
  proof (cases "p x")
    case (Inl e)
    with 3 show ?thesis by auto
  next
    case (Inr b)
    with 3 show ?thesis by (cases b; cases gap) auto
  qed
qed auto

lemma sc_stop_carries:
  assumes "sc_stop sc = Some sc'"
  shows "carried_over sc sc'"
proof -
  let ?f = "\<lambda>s :: ('d, 'q) streamer. s\<lparr>st_Topic := topic_stop (st_Topic s)\<rparr>"
  from assms obtain ss where f: "for_each ?f (sc_Streamers sc) = Some ss"
    and s: "sc_Streamers sc' = ss" "sc_StreamerOptions sc' = sc_StreamerOptions sc"
    by (auto simp: sc_stop_def split: option.splits)
  have same: "streamer_stop jobs (?f s) = streamer_stop jobs s \<and>
      streamer_quiet_low jobs (?f s) = streamer_quiet_low jobs s" for s :: "('d, 'q) streamer"
    by (simp add: streamer_stop_def streamer_quiet_low_def topic_stop_def)
  have "\<exists>s. Some s \<in> set (sc_Streamers sc) \<and> streamer_stop jobs s' = streamer_stop jobs s \<and>
      streamer_quiet_low jobs s' = streamer_quiet_low jobs s" if "Some s' \<in> set ss" for s'
    using for_each_result [OF f that] same by blast
  with s show ?thesis by (simp add: carried_over_def)
qed

lemma carried_over_trans:
  "carried_over sc sc1 \<Longrightarrow> carried_over sc1 sc2 \<Longrightarrow> carried_over sc sc2"
  unfolding carried_over_def by metis

lemma check_carries:
  assumes "checkIfStreamsAreDone sc = Some sc'"
  shows "carried_over sc sc'"
proof -
  from assms obtain r ss where r: "remove_if_ptrs (\<lambda>s. topic_isDone (st_Topic s)) [] [] (sc_Streamers sc) = Some (r, ss)"
    by (auto simp: checkIfStreamsAreDone_def split: option.splits)
  have sub: "Some s \<in> set ss \<Longrightarrow> Some s \<in> set (sc_Streamers sc)" for s
    using remove_if_result [OF r] by simp
  show ?thesis
  proof (cases r)
    case None
    with assms r sub show ?thesis by (auto simp: checkIfStreamsAreDone_def intro!: carried_over_refl)
  next
    case (Some E)
    let ?sc = "sc\<lparr>sc_Streamers := ss, sc_HasError := True,
        sc_ErrorMessage := ''Got stream error. The error message was: '' @ exn_what E\<rparr>"
    from assms r Some obtain sc1 where stop: "sc_stop ?sc = Some sc1"
      and s': "sc' = sc1\<lparr>sc_StreamersRemaining := False\<rparr>"
      by (auto simp: checkIfStreamsAreDone_def split: option.splits)
    have "carried_over sc ?sc" using sub by (intro carried_over_refl) auto
    moreover have "carried_over sc1 sc'" by (intro carried_over_refl) (simp_all add: s')
    ultimately show ?thesis using sc_stop_carries [OF stop] carried_over_trans by blast
  qed
qed

lemma new_streamer_stop:
  "streamer_stop jobs (new_streamer Q now opts entry) = so_StopTimestamp opts"
  "streamer_quiet_low jobs (new_streamer Q now opts entry)"
  by (simp_all add: streamer_stop_def streamer_quiet_low_def new_streamer_def topic_start_def in_transit_def
      make_Topic_def make_ThreadedExecutor_def tq.jobs_new send_def sendWork_def tq.jobs_enqueue)

lemma other_task_carries:
  assumes "run_controller_task Q accepts env j (Some sc) = (Some sc', ws)" and "controller_stop_of (Some j) = []"
  shows "carried_over sc sc'"
proof (cases j)
  case C_First_getTopicNames
  with assms show ?thesis
    by (auto simp: getTopicNames_def intro!: carried_over_refl split: sum.splits)
next
  case C_Retry_getTopicNames
  with assms show ?thesis
    by (auto simp: getTopicNames_def intro!: carried_over_refl split: sum.splits)
next
  case (C_initStreams names)
  then have "sc' = fst (initStreams Q accepts env names sc)" using assms by (cases "initStreams Q accepts env names sc") auto
  then show ?thesis
    by (auto simp: initStreams_def carried_over_def new_streamer_stop split: prod.splits if_splits)
next
  case C_performPeriodicChecks
  with assms obtain sc1 where c: "checkIfStreamsAreDone sc = Some sc1"
    and s': "sc' = throttleIfWriteQueueIsFull (ce_queued env) sc1"
    by (auto simp: performPeriodicChecks_def split: option.splits)
  have "carried_over sc1 sc'"
    by (intro carried_over_refl) (auto simp: s' throttleIfWriteQueueIsFull_def pauseStreamers_def
        resumeStreamers_def Let_def split: if_splits)
  then show ?thesis using check_carries [OF c] carried_over_trans by blast
qed (use assms in auto)

lemma carried_over_inv:
  assumes "stop_inv jobs cjobs e sc" and "carried_over sc sc'"
    and "in_transit controller_stop_of cjobs (ex_LowPriorityTaskQueue e') = []"
    and "in_transit controller_stop_of cjobs (ex_TaskQueue e') =
         in_transit controller_stop_of cjobs (ex_TaskQueue e)"
  shows "stop_inv jobs cjobs e' sc'"
  using assms unfolding stop_inv_def carried_over_def Let_def by (metis (no_types, lifting))

lemma carried_over_same:
  assumes "stop_inv jobs cjobs e sc" and "carried_over sc sc'"
  shows "stop_inv jobs cjobs e sc'"
proof -
  have "in_transit controller_stop_of cjobs (ex_LowPriorityTaskQueue e) = []"
    using assms(1) by (simp add: stop_inv_def)
  from carried_over_inv [OF assms this refl] show ?thesis .
qed

lemma controller_task_inv:
  assumes "executor_step P (run_controller_task Q accepts env) (e, Some sc) =
      (Some t, e', Some (sc' :: ('a, 'q, 'h) StreamController))"
    and "stop_inv jobs cjobs e sc"
  shows "stop_inv jobs cjobs e' sc'"
proof -
  have "\<forall>w \<in> set (snd (run_controller_task Q accepts env j c)). controller_stop_of (Some (snd w)) = []"
    for j and c :: "('a, 'q, 'h) StreamController option"
    by (cases c; cases j) (auto simp: getTopicNames_def initStreams_def performPeriodicChecks_def
        split: sum.splits prod.splits option.splits if_splits)
  then have silent: "sends_no_stop controller_stop_of
      (run_controller_task Q accepts env :: _ \<Rightarrow> ('a, 'q, 'h) StreamController option \<Rightarrow> _)"
    by (simp add: sends_no_stop_def)
  have low: "in_transit controller_stop_of cjobs (ex_LowPriorityTaskQueue e) = []"
    using assms(2) by (simp add: stop_inv_def)
  note step = cq.in_transit_step [OF assms(1) low silent]
  show ?thesis
  proof (cases "controller_stop_of t = []")
    case True
    have "carried_over sc sc'"
    proof (cases t)
      case None
      with step(3) show ?thesis by (auto intro: carried_over_refl)
    next
      case (Some j)
      with step(3) True other_task_carries show ?thesis by fastforce
    qed
    with carried_over_inv [OF assms(2)] step(1,2) True show ?thesis by simp
  next
    case False
    then obtain st where t: "t = Some (C_setStopTime st)" by (cases t rule: controller_stop_of.cases) auto
    with step(3) obtain ss where f: "for_each (send_stop_time Q st) (sc_Streamers sc) = Some ss"
      and sc': "sc' = sc\<lparr>sc_Streamers := ss\<rparr>" by auto
    have "streamer_stop jobs s = st \<and> streamer_quiet_low jobs s" if "Some s \<in> set ss" for s
      using for_each_result [OF f that] assms(2) by (auto simp: stop_inv_def)
    with step(1,2) t assms(2) show ?thesis
      by (auto simp: stop_inv_def sc' Let_def split: if_splits)
  qed
qed

lemma update_inv:
  assumes "stop_inv jobs cjobs e sc" and "i < length (sc_Streamers sc)" and "sc_Streamers sc ! i = Some s"
    and "streamer_stop jobs s' = streamer_stop jobs s" and "streamer_quiet_low jobs s'"
  shows "stop_inv jobs cjobs e (sc\<lparr>sc_Streamers := (sc_Streamers sc)[i := Some s']\<rparr>)"
proof -
  have "Some s \<in> set (sc_Streamers sc)" using assms(2,3) by (metis nth_mem)
  then have "carried_over sc (sc\<lparr>sc_Streamers := (sc_Streamers sc)[i := Some s']\<rparr>)"
    using assms(1,4,5) set_update_subset_insert [of "sc_Streamers sc" i "Some s'"]
    by (fastforce simp: carried_over_def stop_inv_def)
  from carried_over_same [OF assms(1) this] show ?thesis .
qed

lemma step_inv:
  assumes "controller_step Q P accepts utc (e, Some sc) (e', Some sc')" and "stop_inv jobs cjobs e sc"
  shows "stop_inv jobs cjobs e' sc'"
  using assms(1)
proof (cases rule: controller_step.cases)
  case (controller_task env t)
  then show ?thesis using controller_task_inv assms(2) by blast
next
  case (topic_task i s env t te tp)
  have "Some s \<in> set (sc_Streamers sc)" using topic_task(3,4) by (metis nth_mem)
  then have "streamer_quiet_low jobs s" using assms(2) by (simp add: stop_inv_def)
  with topic_task_keeps_stop [OF topic_task(5)] update_inv [OF assms(2)] topic_task show ?thesis by simp
next
  case (consumers_run i s ths)
  have "Some s \<in> set (sc_Streamers sc)" using consumers_run(3,4) by (metis nth_mem)
  then have "streamer_quiet_low jobs s" using assms(2) by (simp add: stop_inv_def)
  with update_inv [OF assms(2) consumers_run(3,4)] consumers_run show ?thesis
    by (simp add: streamer_stop_def streamer_quiet_low_def)
next
  case (owner_setStopTime StopTime ws)
  then have "ws = [(True, C_setStopTime StopTime)]" by (simp add: sc_setStopTime_def)
  with owner_setStopTime assms(2) show ?thesis
    by (auto simp: sc_setStopTime_def stop_inv_def in_transit_def Let_def send_def sendWork_def cq.jobs_enqueue)
next
  case owner_stop
  with carried_over_same [OF assms(2) sc_stop_carries] show ?thesis by simp
next
  case (owner_asks now file_size b)
  then have "carried_over sc sc'"
    by (intro carried_over_refl) (auto simp: isDoneWriting_def Let_def split: if_splits)
  with carried_over_same [OF assms(2)] owner_asks show ?thesis by simp
qed

lemma initial_inv: "stop_inv jobs cjobs (fst (controller_initial P utc now task mdat opts))
    (the (snd (controller_initial P utc now task mdat opts)))"
  by (simp add: controller_initial_def sc_start_def Let_def make_StreamController_def stop_inv_def
      make_ThreadedExecutor_def send_def sendLowPriorityWork_def in_transit_def cq.jobs_enqueue cq.jobs_new)

lemma crashed_stays:
  assumes "controller_step Q P accepts utc (e, None) (e', c)"
  shows "c = None"
  using assms
proof (cases rule: controller_step.cases)
  case (controller_task env t)
  obtain ws where "case t of None \<Rightarrow> c = None \<and> ws = [] | Some j \<Rightarrow> run_controller_task Q accepts env j None = (c, ws)"
    by (rule cq.executor_step_fifo [OF controller_task])
  then show ?thesis by (auto split: option.splits)
qed

lemma reachable_inv:
  assumes "(controller_step Q P accepts utc)\<^sup>*\<^sup>* (controller_initial P utc now task mdat opts) (e, Some sc)"
  shows "stop_inv jobs cjobs e sc"
proof -
  have "\<forall>sc. snd c = Some sc \<longrightarrow> stop_inv jobs cjobs (fst c) sc"
    if "(controller_step Q P accepts utc)\<^sup>*\<^sup>* (controller_initial P utc now task mdat opts) c" for c
    using that
  proof (induction rule: rtranclp_induct)
    case base
    show ?case using initial_inv [of utc now task mdat opts] by (metis option.sel)
  next
    case (step c c')
    show ?case
    proof (intro allI impI)
      fix sc'
      assume sc': "snd c' = Some sc'"
      with step(2) crashed_stays [of accepts utc "fst c" "fst c'" "snd c'"] obtain sc where "snd c = Some sc"
        by (cases "snd c") (metis option.distinct(1) prod.collapse, blast)
      with step sc' step_inv [of accepts utc "fst c" sc "fst c'" sc'] show "stop_inv jobs cjobs (fst c') sc'"
        by (metis prod.collapse)
    qed
  qed
  from this [OF assms] show ?thesis by simp
qed

end


interpretation lcq: controller_queues list_queue "\<lambda>q. q" list_queue "\<lambda>q. q" ..


definition sample_task :: "(unit, nat) FileWriterTask" where
  "sample_task = addSource (make_Source (\<lambda>x. 1) ''src'' ''f144'' ''f144'' ''motion'' 0)
     (make_FileWriterTask ''job'' ''/f.nxs'')"

definition sample_start ::
  "controller_task task list ThreadedExecutor \<times> (nat, topic_task task list, unit) StreamController option" where
  "sample_start = controller_initial list_queue (\<lambda>t. ''now'') 0 sample_task [] default_StreamerOptions"

definition sample_set ::
  "controller_task task list ThreadedExecutor \<times> (nat, topic_task task list, unit) StreamController option" where
  "sample_set =
     (let (sc, ws) = sc_setStopTime (\<lambda>t. ''now'') 7 (the (snd sample_start))
      in (fold (send list_queue) ws (fst sample_start), Some sc))"

text \<open>The owner sets the stop time 7 right after the start; then three tasks run: the stop time is
  handed to the topics, of which there are none, the broker is asked, and the topic is created.\<close>

definition sample_pass ::
  "controller_task task list ThreadedExecutor \<times> (nat, topic_task task list, unit) StreamController option
   \<Rightarrow> controller_task task option \<times> controller_task task list ThreadedExecutor \<times>
      (nat, topic_task task list, unit) StreamController option" where
  "sample_pass = executor_step list_queue (run_controller_task list_queue (\<lambda>d. True)
     \<lparr>ce_now = 0, ce_topics = Inr [''motion''], ce_queued = 0\<rparr>)"

definition sample_end ::
  "controller_task task list ThreadedExecutor \<times> (nat, topic_task task list, unit) StreamController option" where
  "sample_end = snd (sample_pass (snd (sample_pass (snd (sample_pass sample_set)))))"


end
