(* ===== verification/Command_Handler.thy ===== *)
theory Command_Handler
  imports Command_Messages Kafka_Client
begin

text \<open>
  \<^verbatim>\<open>src/CommandSystem\<close>: \<^verbatim>\<open>CommandListener\<close>, \<^verbatim>\<open>JobListener\<close>, \<^verbatim>\<open>FeedbackProducer\<close> and \<^verbatim>\<open>Handler\<close>. The handler
  polls the job pool while no file is written and the command topic while one is. What it sends is
  recorded, with the topic, in \<open>hd_sent\<close>.

  The functions that \<^verbatim>\<open>Master\<close> registers are the record \<open>callbacks\<close>; they act on a state \<open>'w\<close> and may
  raise. The record \<open>command_env\<close> collects the code that is not part of the repository: librdkafka,
  the flatbuffer accessors, the uuid library, date formatting, the clock, and whether a producer for a
  topic can be created. A result \<open>None\<close> is undefined behaviour: the dereference of an empty
  \<^verbatim>\<open>std::optional\<close> or of a null pointer.
\<close>

section \<open>Listeners\<close>

record 'k CommandListener =
  cl_CommandTopic :: string
  cl_KafkaSettings :: BrokerSettings
  cl_StartTimestamp :: time_point
  cl_Consumer :: "'k Consumer option"

definition make_CommandListener :: "string \<Rightarrow> BrokerSettings \<Rightarrow> time_point \<Rightarrow> 'k CommandListener" where
  "make_CommandListener command_topic settings start_timestamp =
     \<lparr>cl_CommandTopic = command_topic, cl_KafkaSettings = settings, cl_StartTimestamp = start_timestamp,
      cl_Consumer = None\<rparr>"

definition setUpConsumer ::
  "'k rdkafka \<Rightarrow> string \<Rightarrow> 'k CommandListener \<Rightarrow> exn option \<times> 'k CommandListener" where
  "setUpConsumer rd gid l =
     (case createConsumer rd gid (cl_KafkaSettings l) of
        Inl e \<Rightarrow> (Some e, l)
      | Inr c \<Rightarrow>
          let (r, c') =
                (if cl_StartTimestamp l < tp_max
                 then assignAllPartitions rd (cl_CommandTopic l) (cl_StartTimestamp l) c
                 else addTopic rd (cl_CommandTopic l) c)
          in (r, l\<lparr>cl_Consumer := Some c'\<rparr>))"

definition pollForCommand ::
  "'k rdkafka \<Rightarrow> string \<Rightarrow> 'k CommandListener \<Rightarrow> (exn + PollStatus \<times> Msg) \<times> 'k CommandListener" where
  "pollForCommand rd gid l =
     (if cl_CommandTopic l \<noteq> [] then
        (case cl_Consumer l of
           None \<Rightarrow>
             (case setUpConsumer rd gid l of
                (Some e, l) \<Rightarrow> (Inl e, l)
              | (None, l) \<Rightarrow> (Inr (PS_TimedOut, empty_Msg), l))
         | Some c \<Rightarrow> let (r, c') = consumer_poll rd c in (Inr r, l\<lparr>cl_Consumer := Some c'\<rparr>))
      else (Inr (PS_TimedOut, empty_Msg), l))"

definition try_connecting_to_topic ::
  "'k rdkafka \<Rightarrow> string \<Rightarrow> 'k CommandListener \<Rightarrow> exn option \<times> 'k CommandListener" where
  "try_connecting_to_topic rd gid l =
     (case setUpConsumer rd gid l of
        (None, l') \<Rightarrow> (None, l')
      | (Some e, l') \<Rightarrow>
          (Some (Metadata_Exception (''Could not connect to command topic '' @ cl_CommandTopic l @ '': '' @
             exn_what e)), l'))"

definition change_topic ::
  "'k rdkafka \<Rightarrow> string \<Rightarrow> string \<Rightarrow> time_point \<Rightarrow> 'k CommandListener \<Rightarrow> exn option \<times> 'k CommandListener" where
  "change_topic rd gid new_topic start_time l =
     try_connecting_to_topic rd gid (l\<lparr>cl_CommandTopic := new_topic, cl_StartTimestamp := start_time\<rparr>)"

definition make_JobListener :: "string \<Rightarrow> BrokerSettings \<Rightarrow> 'k CommandListener" where
  "make_JobListener job_pool_topic settings =
     (let l = make_CommandListener job_pool_topic settings tp_max;
          conf = bs_KafkaConfiguration settings;
          conf = smap_insert ''group.id'' ''kafka-to-nexus-worker-pool'' conf;
          conf = smap_insert ''queued.min.messages'' ''1'' conf;
          conf = smap_insert ''enable.auto.commit'' ''true'' conf
      in l\<lparr>cl_KafkaSettings := settings\<lparr>bs_KafkaConfiguration := conf\<rparr>\<rparr>)"

definition pollForJob ::
  "'k rdkafka \<Rightarrow> string \<Rightarrow> 'k CommandListener \<Rightarrow> (exn + PollStatus \<times> Msg) \<times> 'k CommandListener" where
  "pollForJob rd gid l = pollForCommand rd gid l"

definition disconnectFromPool :: "'k CommandListener \<Rightarrow> 'k CommandListener" where
  "disconnectFromPool l = l\<lparr>cl_Consumer := None\<rparr>"

section \<open>Feedback\<close>

datatype ActionResult = AR_Success | AR_Failure

datatype ActionResponse = AC_StartJob | AC_SetStopTime

datatype feedback =
    Action_Response string ActionResponse ActionResult string string int int string
  | Finished_Writing string string bool string string string
  | Echo bytes

record FeedbackProducer =
  fp_ServiceId :: string
  fp_Topic :: string

type_synonym sent = "(string \<times> feedback) list"

definition publishResponse ::
  "FeedbackProducer \<Rightarrow> ActionResponse \<Rightarrow> ActionResult \<Rightarrow> string \<Rightarrow> string \<Rightarrow> time_point \<Rightarrow> int \<Rightarrow> string
     \<Rightarrow> sent" where
  "publishResponse p Command Result JobId CommandId StopTime StatusCode Description =
     [(fp_Topic p, Action_Response (fp_ServiceId p) Command Result JobId CommandId
        (toMilliSeconds StopTime) StatusCode Description)]"

definition publishStoppedMsg ::
  "FeedbackProducer \<Rightarrow> ActionResult \<Rightarrow> string \<Rightarrow> string \<Rightarrow> string \<Rightarrow> string \<Rightarrow> sent" where
  "publishStoppedMsg p Result JobId Description FilePath Metadata =
     [(fp_Topic p, Finished_Writing (fp_ServiceId p) JobId (Result = AR_Failure) FilePath Metadata Description)]"

definition echo_message :: "FeedbackProducer \<Rightarrow> Msg \<Rightarrow> sent" where
  "echo_message p m = [(fp_Topic p, Echo (msg_Data m))]"

section \<open>Handler\<close>

record uuid =
  uuid_is_nil :: bool
  uuid_version_none :: bool
  uuid_variant_rfc :: bool

record 'k command_env =
  en_rd :: "'k rdkafka"
  en_group_id :: string
  en_producer :: "string \<Rightarrow> exn option"
  en_verify :: "string \<Rightarrow> bytes \<Rightarrow> bool"
  en_has_id :: "bytes \<Rightarrow> string \<Rightarrow> bool"
  en_GetRunStart :: "bytes \<Rightarrow> RunStart"
  en_GetRunStop :: "bytes \<Rightarrow> RunStop"
  en_uuid_from_string :: "string \<Rightarrow> uuid option"
  en_toUTCDateTime :: "time_point \<Rightarrow> string"
  en_now :: time_point

record 'w callbacks =
  cb_DoStart :: "StartMessage \<Rightarrow> 'w \<Rightarrow> exn option \<times> 'w"
  cb_DoSetStopTime :: "time_point \<Rightarrow> 'w \<Rightarrow> exn option \<times> 'w"
  cb_DoStopNow :: "'w \<Rightarrow> exn option \<times> 'w"
  cb_IsWritingNow :: "'w \<Rightarrow> bool"
  cb_GetJobId :: "'w \<Rightarrow> string"

record 'k Handler =
  hd_ServiceId :: string
  hd_JobPool :: "'k CommandListener"
  hd_CommandSource :: "'k CommandListener"
  hd_CommandResponse :: FeedbackProducer
  hd_AltCommandResponse :: "FeedbackProducer option"
  hd_CommandTopicAddress :: string
  hd_UsingAltTopic :: bool
  hd_sent :: sent

definition create_Handler :: "string \<Rightarrow> BrokerSettings \<Rightarrow> string \<Rightarrow> string \<Rightarrow> 'k Handler" where
  "create_Handler service_id settings job_pool_topic command_topic =
     \<lparr>hd_ServiceId = service_id, hd_JobPool = make_JobListener job_pool_topic settings,
      hd_CommandSource = make_CommandListener command_topic settings tp_max,
      hd_CommandResponse = \<lparr>fp_ServiceId = service_id, fp_Topic = command_topic\<rparr>,
      hd_AltCommandResponse = None, hd_CommandTopicAddress = command_topic, hd_UsingAltTopic = False,
      hd_sent = []\<rparr>"

definition isValidUUID :: "(string \<Rightarrow> uuid option) \<Rightarrow> string \<Rightarrow> bool option" where
  "isValidUUID from_string s =
     map_option (\<lambda>u. \<not> uuid_is_nil u \<and> \<not> uuid_version_none u \<and> uuid_variant_rfc u) (from_string s)"

text \<open>\<^verbatim>\<open>std::swap\<close> of the two producers: after a swap with no alternative the response is null; that
  cannot happen, which \<open>topics_ok\<close> below shows.\<close>

definition swap_responses :: "'k Handler \<Rightarrow> 'k Handler option" where
  "swap_responses h =
     map_option (\<lambda>alt. h\<lparr>hd_CommandResponse := alt, hd_AltCommandResponse := Some (hd_CommandResponse h)\<rparr>)
       (hd_AltCommandResponse h)"

definition revertCommandTopic :: "'k command_env \<Rightarrow> 'k Handler \<Rightarrow> (exn option \<times> 'k Handler) option" where
  "revertCommandTopic env h =
     (if hd_UsingAltTopic h then
        let (r, l) = change_topic (en_rd env) (en_group_id env) (hd_CommandTopicAddress h) tp_max
               (hd_CommandSource h);
            h = h\<lparr>hd_CommandSource := l\<rparr> in
        case r of
          Some e \<Rightarrow> Some (Some e, h)
        | None \<Rightarrow> map_option (\<lambda>h. (None, h\<lparr>hd_UsingAltTopic := False\<rparr>)) (swap_responses h)
      else Some (None, h))"

definition switchCommandTopic ::
  "'k command_env \<Rightarrow> string \<Rightarrow> time_point \<Rightarrow> 'k Handler \<Rightarrow> (exn option \<times> 'k Handler) option" where
  "switchCommandTopic env control_topic start_time h =
     (if control_topic \<noteq> [] \<and> control_topic \<noteq> hd_CommandTopicAddress h then
        let (r, l) = change_topic (en_rd env) (en_group_id env) control_topic start_time (hd_CommandSource h);
            h = h\<lparr>hd_CommandSource := l\<rparr> in
        case r of
          Some e \<Rightarrow> Some (Some e, h)
        | None \<Rightarrow>
            (case en_producer env control_topic of
               Some e \<Rightarrow> Some (Some e, h)
             | None \<Rightarrow>
                 map_option (\<lambda>h. (None, h\<lparr>hd_UsingAltTopic := True\<rparr>))
                   (swap_responses (h\<lparr>hd_AltCommandResponse :=
                      Some \<lparr>fp_ServiceId = hd_ServiceId h, fp_Topic = control_topic\<rparr>\<rparr>)))
      else Some (None, h))"

definition sendHasStoppedMessage ::
  "'k command_env \<Rightarrow> string \<Rightarrow> string \<Rightarrow> string \<Rightarrow> 'k Handler \<Rightarrow> (exn option \<times> 'k Handler) option" where
  "sendHasStoppedMessage env job_id file_path meta_data h =
     revertCommandTopic env (h\<lparr>hd_sent := hd_sent h @
       publishStoppedMsg (hd_CommandResponse h) AR_Success job_id [] file_path meta_data\<rparr>)"

definition sendErrorEncounteredMessage ::
  "'k command_env \<Rightarrow> string \<Rightarrow> string \<Rightarrow> string \<Rightarrow> string \<Rightarrow> 'k Handler \<Rightarrow> (exn option \<times> 'k Handler) option" where
  "sendErrorEncounteredMessage env job_id filename metadata error_message h =
     revertCommandTopic env (h\<lparr>hd_sent := hd_sent h @
       publishStoppedMsg (hd_CommandResponse h) AR_Failure job_id error_message filename metadata\<rparr>)"

record CmdResponse =
  cr_StatusCode :: int
  cr_Message :: string

definition extractStartMessage :: "'k command_env \<Rightarrow> Msg \<Rightarrow> string + StartMessage" where
  "extractStartMessage env m =
     map_sum exn_what id (parser_extractStartMessage (en_GetRunStart env) (en_now env) m)"

text \<open>The parsed message is a reference argument of the code; it is the first component of the result.
  The second is the response, or the exception that leaves the function.\<close>

definition startWritingProcess ::
  "'k command_env \<Rightarrow> 'w callbacks \<Rightarrow> Msg \<Rightarrow> 'k Handler \<Rightarrow> 'w
     \<Rightarrow> (StartMessage \<times> (exn + CmdResponse) \<times> 'k Handler \<times> 'w) option" where
  "startWritingProcess env cb command_message h w =
     (case extractStartMessage env command_message of
        Inl exception_message \<Rightarrow>
          Some (empty_StartMessage,
            Inr \<lparr>cr_StatusCode = 400,
                 cr_Message = ''Failed to extract start command from flatbuffer. The error was: '' @
                   exception_message\<rparr>, h, w)
      | Inr start_message \<Rightarrow>
          if cb_IsWritingNow cb w then
            Some (start_message,
              Inr \<lparr>cr_StatusCode = 400,
                   cr_Message =
                     ''Rejected start command as there is currently a write job in progress.''\<rparr>, h, w)
          else
            (case isValidUUID (en_uuid_from_string env) (sm_JobID start_message) of
               None \<Rightarrow> None
             | Some False \<Rightarrow>
                 Some (start_message,
                   Inr \<lparr>cr_StatusCode = 400,
                        cr_Message = ''Rejected start command as the job id was invalid (it was: \"'' @
                          sm_JobID start_message @ ''\").''\<rparr>, h, w)
             | Some True \<Rightarrow>
                 if sm_ControlTopic start_message = [] then
                   Some (start_message,
                     Inr \<lparr>cr_StatusCode = 400,
                          cr_Message = ''Rejected start job as control topic was empty.''\<rparr>, h, w)
                 else
                   (case switchCommandTopic env (sm_ControlTopic start_message)
                           (sm_StartTime start_message) h of
                      None \<Rightarrow> None
                    | Some (switched, h) \<Rightarrow>
                        let (r, w) = (case switched of
                              Some e \<Rightarrow> (Some e, w) | None \<Rightarrow> cb_DoStart cb start_message w) in
                        case r of
                          None \<Rightarrow>
                            Some (start_message,
                              Inr \<lparr>cr_StatusCode = 201,
                                   cr_Message = ''Started write job with start time '' @
                                     en_toUTCDateTime env (sm_StartTime start_message) @ '' and stop time '' @
                                     en_toUTCDateTime env (sm_StopTime start_message) @ ''.''\<rparr>, h, w)
                        | Some E \<Rightarrow>
                            (case revertCommandTopic env h of
                               None \<Rightarrow> None
                             | Some (Some E', h) \<Rightarrow> Some (start_message, Inl E', h, w)
                             | Some (None, h) \<Rightarrow>
                                 Some (start_message,
                                   Inr \<lparr>cr_StatusCode = 500,
                                        cr_Message = ''Failed to start filewriting job. The failure message was: '' @
                                          exn_what E\<rparr>, h, w)))))"

definition result_of :: "CmdResponse \<Rightarrow> ActionResult" where
  "result_of r = (if cr_StatusCode r \<ge> 400 then AR_Failure else AR_Success)"

definition handleStartCommand ::
  "'k command_env \<Rightarrow> 'w callbacks \<Rightarrow> Msg \<Rightarrow> 'k Handler \<Rightarrow> 'w \<Rightarrow> ('k Handler \<times> 'w) option" where
  "handleStartCommand env cb m h w =
     (case startWritingProcess env cb m h w of
        None \<Rightarrow> None
      | Some (_, Inl _, h, w) \<Rightarrow> Some (h, w)
      | Some (StartJob, Inr r, h, w) \<Rightarrow>
          Some (h\<lparr>hd_sent := hd_sent h @ echo_message (hd_CommandResponse h) m @
                   publishResponse (hd_CommandResponse h) AC_StartJob (result_of r) (sm_JobID StartJob)
                     (sm_JobID StartJob) (sm_StopTime StartJob) (cr_StatusCode r) (cr_Message r)\<rparr>, w))"

definition extractStopMessage :: "'k command_env \<Rightarrow> Msg \<Rightarrow> (string + StopMessage) option" where
  "extractStopMessage env m =
     map_option (map_sum exn_what id) (parser_extractStopMessage (en_GetRunStop env) m)"

definition stopWritingProcess ::
  "'k command_env \<Rightarrow> 'w callbacks \<Rightarrow> Msg \<Rightarrow> 'w \<Rightarrow> (StopMessage \<times> CmdResponse \<times> 'w) option" where
  "stopWritingProcess env cb command_message w =
     (case extractStopMessage env command_message of
        None \<Rightarrow> None
      | Some (Inl ExceptionMessage) \<Rightarrow>
          Some (empty_StopMessage,
            \<lparr>cr_StatusCode = 400,
             cr_Message = ''Failed to extract stop command from flatbuffer. The error was: '' @
               ExceptionMessage\<rparr>, w)
      | Some (Inr stop_message) \<Rightarrow>
          if \<not> cb_IsWritingNow cb w then
            Some (stop_message,
              \<lparr>cr_StatusCode = 400,
               cr_Message = ''Rejected stop command as there is currently no write job in progress.''\<rparr>, w)
          else if cb_GetJobId cb w \<noteq> sp_JobID stop_message then
            Some (stop_message,
              \<lparr>cr_StatusCode = 400,
               cr_Message = ''Rejected stop command as the job ID did not match (localID is '' @
                 cb_GetJobId cb w @ '', job ID was: '' @ sp_JobID stop_message @ '').''\<rparr>, w)
          else
            (case isValidUUID (en_uuid_from_string env) (sp_CommandID stop_message) of
               None \<Rightarrow> None
             | Some False \<Rightarrow>
                 Some (stop_message,
                   \<lparr>cr_StatusCode = 400,
                    cr_Message = ''Rejected stop command as the command ID was invalid (it was: '' @
                      sp_CommandID stop_message @ '').''\<rparr>, w)
             | Some True \<Rightarrow>
                 let ((r, w), ResponseMessage) =
                       (if sp_StopTime stop_message = 0
                        then (cb_DoStopNow cb w, ''Attempting to stop writing job now.'')
                        else (cb_DoSetStopTime cb (sp_StopTime stop_message) w,
                              ''File writing job stop time set to: '' @
                              en_toUTCDateTime env (sp_StopTime stop_message)))
                 in Some (stop_message,
                      (case r of
                         None \<Rightarrow> \<lparr>cr_StatusCode = 201, cr_Message = ResponseMessage\<rparr>
                       | Some E \<Rightarrow>
                           \<lparr>cr_StatusCode = 500,
                            cr_Message = ''Failed to execute stop command. The failure message was: '' @
                              exn_what E\<rparr>), w)))"

definition handleStopCommand ::
  "'k command_env \<Rightarrow> 'w callbacks \<Rightarrow> Msg \<Rightarrow> 'k Handler \<Rightarrow> 'w \<Rightarrow> ('k Handler \<times> 'w) option" where
  "handleStopCommand env cb m h w =
     (case stopWritingProcess env cb m w of
        None \<Rightarrow> None
      | Some (stop_message, r, w) \<Rightarrow>
          Some (h\<lparr>hd_sent := hd_sent h @
                   publishResponse (hd_CommandResponse h) AC_SetStopTime (result_of r)
                     (sp_JobID stop_message) (sp_CommandID stop_message) (sp_StopTime stop_message)
                     (cr_StatusCode r) (cr_Message r)\<rparr>, w))"

definition loopFunction ::
  "'k command_env \<Rightarrow> 'w callbacks \<Rightarrow> 'k Handler \<Rightarrow> 'w \<Rightarrow> (exn option \<times> 'k Handler \<times> 'w) option" where
  "loopFunction env cb h w =
     (if \<not> cb_IsWritingNow cb w then
        (case pollForJob (en_rd env) (en_group_id env) (hd_JobPool h) of
           (Inl e, l) \<Rightarrow> Some (Some e, h\<lparr>hd_JobPool := l\<rparr>, w)
         | (Inr (poll_status, message), l) \<Rightarrow>
             let h = h\<lparr>hd_JobPool := l\<rparr> in
             if poll_status = PS_Message \<and> isStartCommand (en_verify env) (en_has_id env) message then
               map_option (\<lambda>(h, w). (None, h\<lparr>hd_JobPool := disconnectFromPool (hd_JobPool h)\<rparr>, w))
                 (handleStartCommand env cb message h w)
             else Some (None, h, w))
      else
        (case pollForCommand (en_rd env) (en_group_id env) (hd_CommandSource h) of
           (Inl e, l) \<Rightarrow> Some (Some e, h\<lparr>hd_CommandSource := l\<rparr>, w)
         | (Inr (poll_status, message), l) \<Rightarrow>
             let h = h\<lparr>hd_CommandSource := l\<rparr> in
             if poll_status = PS_Message \<and> isStopCommand (en_verify env) (en_has_id env) message then
               map_option (\<lambda>(h, w). (None, h, w)) (handleStopCommand env cb message h w)
             else Some (None, h, w)))"

section \<open>Which topic answers go to\<close>

definition default_producer :: "'k Handler \<Rightarrow> FeedbackProducer" where
  "default_producer h = \<lparr>fp_ServiceId = hd_ServiceId h, fp_Topic = hd_CommandTopicAddress h\<rparr>"

text \<open>The handler listens and answers on the same topic: the default one, or that of the running job.\<close>

definition topics_consistent :: "'k Handler \<Rightarrow> bool" where
  "topics_consistent h \<longleftrightarrow>
     (if hd_UsingAltTopic h
      then fp_Topic (hd_CommandResponse h) = cl_CommandTopic (hd_CommandSource h) \<and>
           hd_AltCommandResponse h = Some (default_producer h)
      else hd_CommandResponse h = default_producer h \<and>
           cl_CommandTopic (hd_CommandSource h) = hd_CommandTopicAddress h)"

text \<open>A topic can be reached: connecting to it and creating a producer for it do not fail. A command can
  be answered when that holds of the control topic it names.\<close>

definition reachable :: "'k command_env \<Rightarrow> string \<Rightarrow> bool" where
  "reachable env t \<longleftrightarrow>
     (\<forall>s l. fst (change_topic (en_rd env) (en_group_id env) t s l) = None) \<and> en_producer env t = None"

definition answerable :: "'k command_env \<Rightarrow> Msg \<Rightarrow> bool" where
  "answerable env m \<longleftrightarrow>
     (case extractStartMessage env m of
        Inl _ \<Rightarrow> True
      | Inr s \<Rightarrow> sm_ControlTopic s = [] \<or> reachable env (sm_ControlTopic s))"

lemma topics_consistent_sent [simp]: "topics_consistent (h\<lparr>hd_sent := x\<rparr>) = topics_consistent h"
  by (simp add: topics_consistent_def default_producer_def)

lemma topics_consistent_pool [simp]: "topics_consistent (h\<lparr>hd_JobPool := l\<rparr>) = topics_consistent h"
  by (simp add: topics_consistent_def default_producer_def)

lemma setUpConsumer_topic [simp]: "cl_CommandTopic (snd (setUpConsumer rd gid l)) = cl_CommandTopic l"
  by (auto simp: setUpConsumer_def Let_def split: sum.splits prod.splits)

lemma change_topic_topic [simp]: "cl_CommandTopic (snd (change_topic rd gid t s l)) = t"
proof -
  let ?l = "l\<lparr>cl_CommandTopic := t, cl_StartTimestamp := s\<rparr>"
  have "snd (try_connecting_to_topic rd gid ?l) = snd (setUpConsumer rd gid ?l)"
    by (simp add: try_connecting_to_topic_def split: prod.splits option.splits)
  then show ?thesis by (simp add: change_topic_def)
qed

lemma pollForCommand_topic:
  "pollForCommand rd gid l = (r, l') \<Longrightarrow> cl_CommandTopic l' = cl_CommandTopic l"
  by (auto simp: pollForCommand_def Let_def split: if_splits option.splits prod.splits)
    (metis setUpConsumer_topic snd_conv)+

lemma switch_reachable:
  assumes "reachable env topic" and "topics_consistent h" and "\<not> hd_UsingAltTopic h" and "topic \<noteq> []"
  shows "\<exists>h'. switchCommandTopic env topic st h = Some (None, h') \<and> topics_consistent h' \<and>
     fp_Topic (hd_CommandResponse h') = topic \<and> fp_ServiceId (hd_CommandResponse h') = hd_ServiceId h \<and>
     hd_sent h' = hd_sent h \<and> hd_ServiceId h' = hd_ServiceId h \<and>
     hd_CommandTopicAddress h' = hd_CommandTopicAddress h"
proof (cases "topic = hd_CommandTopicAddress h")
  case True
  with assms show ?thesis by (simp add: switchCommandTopic_def topics_consistent_def default_producer_def)
next
  case False
  obtain l where c: "change_topic (en_rd env) (en_group_id env) topic st (hd_CommandSource h) = (None, l)"
    using assms(1) unfolding reachable_def by (metis prod.collapse)
  have "cl_CommandTopic l = topic"
    using change_topic_topic [of "en_rd env" "en_group_id env" topic st "hd_CommandSource h"] c by simp
  with False assms show ?thesis
    by (simp add: switchCommandTopic_def c reachable_def swap_responses_def topics_consistent_def
        default_producer_def)
qed

lemma revert_reachable:
  assumes "reachable env (hd_CommandTopicAddress h)" and "topics_consistent h"
  shows "\<exists>h'. revertCommandTopic env h = Some (None, h') \<and> topics_consistent h' \<and> \<not> hd_UsingAltTopic h' \<and>
     hd_CommandResponse h' = default_producer h \<and> hd_sent h' = hd_sent h \<and>
     hd_ServiceId h' = hd_ServiceId h \<and> hd_CommandTopicAddress h' = hd_CommandTopicAddress h"
proof (cases "hd_UsingAltTopic h")
  case False
  with assms(2) show ?thesis by (simp add: revertCommandTopic_def topics_consistent_def)
next
  case True
  obtain l where c: "change_topic (en_rd env) (en_group_id env) (hd_CommandTopicAddress h) tp_max
      (hd_CommandSource h) = (None, l)"
    using assms(1) unfolding reachable_def by (metis prod.collapse)
  have "cl_CommandTopic l = hd_CommandTopicAddress h"
    using change_topic_topic [of "en_rd env" "en_group_id env" "hd_CommandTopicAddress h" tp_max
        "hd_CommandSource h"] c by simp
  with True assms show ?thesis
    by (simp add: revertCommandTopic_def c swap_responses_def topics_consistent_def default_producer_def)
qed

section \<open>Start commands\<close>

definition start_accepted :: "'k command_env \<Rightarrow> 'w callbacks \<Rightarrow> Msg \<Rightarrow> 'w \<Rightarrow> StartMessage \<Rightarrow> bool" where
  "start_accepted env cb m w s \<longleftrightarrow>
     extractStartMessage env m = Inr s \<and> \<not> cb_IsWritingNow cb w \<and>
     isValidUUID (en_uuid_from_string env) (sm_JobID s) = Some True \<and> sm_ControlTopic s \<noteq> []"

text \<open>The answer of the handler as a function of the command alone: the result for the caller, the
  topic, the status code and the new state of the job.\<close>

lemma start_process_rejected:
  assumes "startWritingProcess env cb m h w = Some (s, r, h', w')" and "\<And>s. \<not> start_accepted env cb m w s"
  shows "\<exists>msg. r = Inr \<lparr>cr_StatusCode = 400, cr_Message = msg\<rparr> \<and> h' = h \<and> w' = w"
  using assms unfolding startWritingProcess_def start_accepted_def
  by (auto split: sum.splits if_splits option.splits bool.splits)

lemma start_process_accepted:
  assumes "start_accepted env cb m w s" and "topics_consistent h" and "\<not> hd_UsingAltTopic h"
    and "reachable env (hd_CommandTopicAddress h)" and "answerable env m"
  shows "\<exists>h' msg. startWritingProcess env cb m h w =
      Some (s, Inr \<lparr>cr_StatusCode = (if fst (cb_DoStart cb s w) = None then 201 else 500), cr_Message = msg\<rparr>,
        h', snd (cb_DoStart cb s w)) \<and> topics_consistent h' \<and>
      hd_CommandResponse h' = (if fst (cb_DoStart cb s w) = None
        then \<lparr>fp_ServiceId = hd_ServiceId h, fp_Topic = sm_ControlTopic s\<rparr> else default_producer h) \<and>
      (hd_UsingAltTopic h' \<longrightarrow> fst (cb_DoStart cb s w) = None) \<and> hd_sent h' = hd_sent h"
proof -
  have t: "sm_ControlTopic s \<noteq> []" "reachable env (sm_ControlTopic s)"
    using assms(1,5) by (auto simp: start_accepted_def answerable_def)
  obtain h1 where h1: "switchCommandTopic env (sm_ControlTopic s) (sm_StartTime s) h = Some (None, h1)"
    "topics_consistent h1" "fp_Topic (hd_CommandResponse h1) = sm_ControlTopic s"
    "fp_ServiceId (hd_CommandResponse h1) = hd_ServiceId h" "hd_sent h1 = hd_sent h"
    "hd_ServiceId h1 = hd_ServiceId h" "hd_CommandTopicAddress h1 = hd_CommandTopicAddress h"
    using switch_reachable [OF t(2) assms(2,3) t(1)] by blast
  obtain r w1 where d: "cb_DoStart cb s w = (r, w1)" by fastforce
  show ?thesis
  proof (cases r)
    case None
    with assms(1) t(1) h1 d show ?thesis by (simp add: startWritingProcess_def start_accepted_def)
  next
    case (Some e)
    obtain h2 where h2: "revertCommandTopic env h1 = Some (None, h2)" "topics_consistent h2"
      "\<not> hd_UsingAltTopic h2" "hd_CommandResponse h2 = default_producer h1" "hd_sent h2 = hd_sent h1"
      using revert_reachable [of env h1] assms(4) h1(2,7) by auto
    with Some assms(1) t(1) h1 d show ?thesis
      by (simp add: startWritingProcess_def start_accepted_def default_producer_def)
  qed
qed

text \<open>C5: Every start command taken from the job pool is answered, with a copy of the command and one
  response. The job is started exactly when the command can be parsed, no file is being written, the
  job id is a valid uuid and a control topic is given; the answer is then 201 on the control topic, or
  500 on the default topic when starting fails. Any other command is answered with 400 on the default
  topic and changes nothing. (The topics concerned can be reached; the command does not run into the undefined
  behaviour of a malformed uuid.)\<close>

theorem start_command_answer:
  assumes "handleStartCommand env cb m h w = Some (h', w')" and "topics_consistent h"
    and "\<not> hd_UsingAltTopic h" and "reachable env (hd_CommandTopicAddress h)" and "answerable env m"
  shows "\<exists>topic code id stop msg.
     hd_sent h' = hd_sent h @ [(topic, Echo (msg_Data m)),
       (topic, Action_Response (hd_ServiceId h) AC_StartJob (if code \<ge> 400 then AR_Failure else AR_Success)
          id id stop code msg)] \<and>
     (if \<exists>s. start_accepted env cb m w s
      then \<exists>s. start_accepted env cb m w s \<and> id = sm_JobID s \<and> w' = snd (cb_DoStart cb s w) \<and>
        (if fst (cb_DoStart cb s w) = None then code = 201 \<and> topic = sm_ControlTopic s
         else code = 500 \<and> topic = hd_CommandTopicAddress h)
      else code = 400 \<and> topic = hd_CommandTopicAddress h \<and> w' = w)"
proof (cases "\<exists>s. start_accepted env cb m w s")
  case True
  then obtain s where s: "start_accepted env cb m w s" by blast
  obtain h1 msg where "startWritingProcess env cb m h w =
      Some (s, Inr \<lparr>cr_StatusCode = (if fst (cb_DoStart cb s w) = None then 201 else 500), cr_Message = msg\<rparr>,
        h1, snd (cb_DoStart cb s w))"
    "hd_CommandResponse h1 = (if fst (cb_DoStart cb s w) = None
        then \<lparr>fp_ServiceId = hd_ServiceId h, fp_Topic = sm_ControlTopic s\<rparr> else default_producer h)"
    "hd_sent h1 = hd_sent h"
    using start_process_accepted [OF s assms(2-5)] by blast
  then have "hd_sent h' = hd_sent h @
      [((if fst (cb_DoStart cb s w) = None then sm_ControlTopic s else hd_CommandTopicAddress h), Echo (msg_Data m)),
       ((if fst (cb_DoStart cb s w) = None then sm_ControlTopic s else hd_CommandTopicAddress h),
        Action_Response (hd_ServiceId h) AC_StartJob
          (if (if fst (cb_DoStart cb s w) = None then 201 else 500) \<ge> (400::int) then AR_Failure else AR_Success)
          (sm_JobID s) (sm_JobID s) (toMilliSeconds (sm_StopTime s))
          (if fst (cb_DoStart cb s w) = None then 201 else 500) msg)]"
    and "w' = snd (cb_DoStart cb s w)"
    using assms(1)
    by (auto simp: handleStartCommand_def echo_message_def publishResponse_def result_of_def default_producer_def)
  with s show ?thesis
    by (intro exI [of _ "if fst (cb_DoStart cb s w) = None then sm_ControlTopic s else hd_CommandTopicAddress h"]
        exI [of _ "if fst (cb_DoStart cb s w) = None then 201 else 500"] exI [of _ "sm_JobID s"]
        exI [of _ "toMilliSeconds (sm_StopTime s)"] exI [of _ msg]) auto
next
  case False
  then have rejected: "\<And>s. \<not> start_accepted env cb m w s" by blast
  obtain s r h1 w1 where p: "startWritingProcess env cb m h w = Some (s, r, h1, w1)"
    using assms(1) by (auto simp: handleStartCommand_def split: option.splits)
  from start_process_rejected [OF p rejected]
  obtain msg where "r = Inr \<lparr>cr_StatusCode = 400, cr_Message = msg\<rparr>" "h1 = h" "w1 = w" by blast
  then have "hd_sent h' = hd_sent h @ [(hd_CommandTopicAddress h, Echo (msg_Data m)),
      (hd_CommandTopicAddress h, Action_Response (hd_ServiceId h) AC_StartJob AR_Failure
          (sm_JobID s) (sm_JobID s) (toMilliSeconds (sm_StopTime s)) 400 msg)]" and "w' = w"
    using p assms(1,2,3)
    by (simp_all add: handleStartCommand_def echo_message_def publishResponse_def result_of_def
        topics_consistent_def default_producer_def) auto
  with False show ?thesis
    by (intro exI [of _ "hd_CommandTopicAddress h"] exI [of _ 400] exI [of _ "sm_JobID s"]
        exI [of _ "toMilliSeconds (sm_StopTime s)"] exI [of _ msg]) simp
qed


text \<open>An environment with two topics, and a job state that is just the id of the job.\<close>

definition sample_rdkafka :: "topic_partition list rdkafka" where
  "sample_rdkafka = idle_rdkafka
     \<lparr>rk_metadata := (\<lambda>t k. (ERR_NO_ERROR, [(''commands'', [0]), (''ctrl'', [0])]))\<rparr>"

definition sample_env :: "topic_partition list command_env" where
  "sample_env =
     \<lparr>en_rd = sample_rdkafka, en_group_id = ''g'', en_producer = (\<lambda>t. None), en_verify = (\<lambda>s d. True),
      en_has_id = (\<lambda>d s. True), en_GetRunStart = (\<lambda>d. sample_run_start),
      en_GetRunStop = (\<lambda>d. \<lparr>rp_stop_time = 0, rp_job_id = Some ''job'', rp_service_id = None,
         rp_command_id = Some ''cmd''\<rparr>),
      en_uuid_from_string =
        (\<lambda>s. Some \<lparr>uuid_is_nil = False, uuid_version_none = False, uuid_variant_rfc = True\<rparr>),
      en_toUTCDateTime = (\<lambda>t. []), en_now = 0\<rparr>"

definition sample_callbacks :: "string callbacks" where
  "sample_callbacks =
     \<lparr>cb_DoStart = (\<lambda>s w. (None, sm_JobID s)), cb_DoSetStopTime = (\<lambda>t w. (None, w)),
      cb_DoStopNow = (\<lambda>w. (None, w)), cb_IsWritingNow = (\<lambda>w. w \<noteq> []), cb_GetJobId = (\<lambda>w. w)\<rparr>"

definition sample_handler :: "topic_partition list Handler" where
  "sample_handler = create_Handler ''svc'' default_BrokerSettings ''pool'' ''commands''"

lemma sample_reachable:
  "t \<in> {''commands'', ''ctrl''} \<Longrightarrow> reachable sample_env t"
  by (auto simp: reachable_def sample_env_def sample_rdkafka_def idle_rdkafka_def change_topic_def
      try_connecting_to_topic_def setUpConsumer_def createConsumer_def make_Consumer_def
      assignAllPartitions_def getTopicMetadata_def find_topic_def addTopic_def Let_def)

lemma sample_answerable: "answerable sample_env m"
proof -
  have "checkRequiredFieldsArePresent sample_run_start = None"
    by (simp add: required_fields_present sample_run_start_def)
  then show ?thesis using sample_reachable [of "''ctrl''"]
    by (simp add: answerable_def extractStartMessage_def parser_extractStartMessage_def sample_env_def
        sample_run_start_def Let_def)
qed

lemma sample_consistent: "topics_consistent sample_handler" "\<not> hd_UsingAltTopic sample_handler"
  "hd_CommandTopicAddress sample_handler = ''commands''"
  by (simp_all add: sample_handler_def create_Handler_def topics_consistent_def default_producer_def
      make_CommandListener_def)

theorem start_command_answer_witness:
  "\<exists>h' id stop msg. handleStartCommand sample_env sample_callbacks empty_Msg sample_handler [] = Some (h', ''job'') \<and>
     hd_sent h' = [(''ctrl'', Echo []),
       (''ctrl'', Action_Response ''svc'' AC_StartJob AR_Success id id stop 201 msg)]"
proof -
  let ?r = "handleStartCommand sample_env sample_callbacks empty_Msg sample_handler []"
  have "map_option snd ?r = Some ''job''" by code_simp
  then obtain h' where r: "?r = Some (h', ''job'')" by auto
  have "map fst (hd_sent (fst (the ?r))) = [''ctrl'', ''ctrl'']" by code_simp
  with r have t: "map fst (hd_sent h') = [''ctrl'', ''ctrl'']" by simp
  have e: "hd_sent sample_handler = []" "hd_ServiceId sample_handler = ''svc''" "msg_Data empty_Msg = []"
    by (simp_all add: sample_handler_def create_Handler_def empty_Msg_def)
  from start_command_answer [OF r sample_consistent(1,2) _ sample_answerable] sample_consistent(3)
    sample_reachable [of "''commands''"] r t e
  show ?thesis by (auto split: if_splits)
qed


section \<open>Stop commands\<close>

definition stop_accepted :: "'k command_env \<Rightarrow> 'w callbacks \<Rightarrow> Msg \<Rightarrow> 'w \<Rightarrow> StopMessage \<Rightarrow> bool" where
  "stop_accepted env cb m w s \<longleftrightarrow>
     extractStopMessage env m = Some (Inr s) \<and> cb_IsWritingNow cb w \<and> cb_GetJobId cb w = sp_JobID s \<and>
     isValidUUID (en_uuid_from_string env) (sp_CommandID s) = Some True"

definition stop_action :: "'w callbacks \<Rightarrow> StopMessage \<Rightarrow> 'w \<Rightarrow> exn option \<times> 'w" where
  "stop_action cb s w = (if sp_StopTime s = 0 then cb_DoStopNow cb w else cb_DoSetStopTime cb (sp_StopTime s) w)"

lemma stop_process_rejected:
  assumes "stopWritingProcess env cb m w = Some (s, r, w')" and "\<And>s. \<not> stop_accepted env cb m w s"
  shows "cr_StatusCode r = 400 \<and> w' = w"
  using assms unfolding stopWritingProcess_def stop_accepted_def
  by (auto split: option.splits sum.splits if_splits bool.splits)

lemma stop_process_accepted:
  assumes "stop_accepted env cb m w s"
  shows "\<exists>r. stopWritingProcess env cb m w = Some (s, r, snd (stop_action cb s w)) \<and>
     cr_StatusCode r = (if fst (stop_action cb s w) = None then 201 else 500)"
  using assms unfolding stopWritingProcess_def stop_accepted_def stop_action_def
  by (auto split: option.splits prod.splits)



section \<open>The handler over time\<close>

text \<open>What the handler relies on when it calls the functions of its owner: a job that was started is
  being written, a failed start changes nothing about that, and stop commands do not end the writing
  by themselves.\<close>

locale job_control =
  fixes cb :: "'w callbacks"
  assumes start_writes: "cb_DoStart cb s w = (r, w') \<Longrightarrow> cb_IsWritingNow cb w' \<longleftrightarrow> r = None \<or> cb_IsWritingNow cb w"
    and stop_keeps_writing: "cb_DoStopNow cb w = (r, w') \<Longrightarrow> cb_IsWritingNow cb w' = cb_IsWritingNow cb w"
    and set_keeps_writing: "cb_DoSetStopTime cb t w = (r, w') \<Longrightarrow> cb_IsWritingNow cb w' = cb_IsWritingNow cb w"
begin

text \<open>Listening and answering go together, and the topic of a job is in use only while it is written.\<close>

definition handler_inv :: "'k Handler \<Rightarrow> 'w \<Rightarrow> bool" where
  "handler_inv h w \<longleftrightarrow> topics_consistent h \<and> (hd_UsingAltTopic h \<longrightarrow> cb_IsWritingNow cb w)"

lemma handle_start_inv:
  assumes "handleStartCommand env cb m h w = Some (h', w')" and "handler_inv h w"
    and "\<not> cb_IsWritingNow cb w" and "reachable env (hd_CommandTopicAddress h)" and "answerable env m"
  shows "handler_inv h' w'"
proof -
  have c: "topics_consistent h" "\<not> hd_UsingAltTopic h" using assms(2,3) by (simp_all add: handler_inv_def)
  obtain s r h1 where p: "startWritingProcess env cb m h w = Some (s, r, h1, w')"
    and h': "topics_consistent h' = topics_consistent h1" "hd_UsingAltTopic h' = hd_UsingAltTopic h1"
    using assms(1) by (auto simp: handleStartCommand_def split: option.splits sum.splits)
  show ?thesis
  proof (cases "\<exists>s. start_accepted env cb m w s")
    case True
    then obtain s1 where a: "start_accepted env cb m w s1" by blast
    from start_process_accepted [OF a c assms(4,5)] p
    have "topics_consistent h1" "hd_UsingAltTopic h1 \<Longrightarrow> fst (cb_DoStart cb s1 w) = None"
      "w' = snd (cb_DoStart cb s1 w)" by auto
    with h' start_writes [of s1 w] show ?thesis unfolding handler_inv_def by (metis prod.collapse)
  next
    case False
    then have rejected: "\<And>s. \<not> start_accepted env cb m w s" by blast
    from start_process_rejected [OF p rejected] h' c show ?thesis by (auto simp: handler_inv_def)
  qed
qed

lemma stop_action_keeps: "cb_IsWritingNow cb (snd (stop_action cb s w)) = cb_IsWritingNow cb w"
  using stop_keeps_writing set_keeps_writing by (metis prod.collapse stop_action_def)

lemma handle_stop_inv:
  assumes "handleStopCommand env cb m h w = Some (h', w')" and "handler_inv h w"
  shows "handler_inv h' w'"
proof -
  obtain s r where p: "stopWritingProcess env cb m w = Some (s, r, w')"
    and h': "topics_consistent h' = topics_consistent h" "hd_UsingAltTopic h' = hd_UsingAltTopic h"
    using assms(1) by (auto simp: handleStopCommand_def split: option.splits)
  have "cb_IsWritingNow cb w' = cb_IsWritingNow cb w"
  proof (cases "\<exists>s. stop_accepted env cb m w s")
    case True
    then obtain s1 where a: "stop_accepted env cb m w s1" by blast
    from stop_process_accepted [OF a] p have "w' = snd (stop_action cb s1 w)" by auto
    then show ?thesis using stop_action_keeps by simp
  next
    case False
    then have rejected: "\<And>s. \<not> stop_accepted env cb m w s" by blast
    from stop_process_rejected [OF p rejected] show ?thesis by simp
  qed
  with assms(2) h' show ?thesis by (simp add: handler_inv_def)
qed

lemma loop_inv:
  assumes "loopFunction env cb h w = Some (r, h', w')" and "handler_inv h w"
    and "reachable env (hd_CommandTopicAddress h)" and "\<And>m. answerable env m"
  shows "handler_inv h' w'"
proof (cases "cb_IsWritingNow cb w")
  case False
  obtain pr l where p: "pollForJob (en_rd env) (en_group_id env) (hd_JobPool h) = (pr, l)" by fastforce
  have inv: "handler_inv (h\<lparr>hd_JobPool := l\<rparr>) w"
    using assms(2) by (simp add: handler_inv_def)
  have drop: "handler_inv (x\<lparr>hd_JobPool := k\<rparr>) v = handler_inv x v" for x :: "'a Handler" and k v
    by (simp add: handler_inv_def)
  show ?thesis
    using assms(1,3) False inv handle_start_inv [OF _ inv False _ assms(4)]
    by (auto simp: loopFunction_def p Let_def drop split: sum.splits if_splits prod.splits)
next
  case True
  obtain pr l where p: "pollForCommand (en_rd env) (en_group_id env) (hd_CommandSource h) = (pr, l)" by fastforce
  have inv: "handler_inv (h\<lparr>hd_CommandSource := l\<rparr>) w"
    using assms(2) pollForCommand_topic [OF p]
    by (simp add: handler_inv_def topics_consistent_def default_producer_def)
  show ?thesis
    using assms(1) True inv handle_stop_inv [OF _ inv]
    by (auto simp: loopFunction_def p Let_def split: sum.splits if_splits prod.splits)
qed

end


section \<open>A control topic that cannot be reached\<close>



end
