(* ===== verification/Status_Report.thy ===== *)
theory Status_Report
  imports Time_Utility Multi_Vector "HOL-Library.Word"
begin

text \<open>
  \<^verbatim>\<open>src/Status\<close>: the status of the service and the reporter that publishes it periodically. A producer for
  a topic is kept as the name of the topic, a published report as its fields with that name. The
  function \<^verbatim>\<open>StatusGetter\<close> is an argument: it is \<^verbatim>\<open>Master::getCurrentStatus\<close> once the master has been
  built, and raises before that. The timer is the flag \<open>sr_waiting\<close>, that a wait is pending, and the time
  it expires.
\<close>

section \<open>Status\<close>

datatype WorkerState = Idle | Writing

record JobStatusInfo =
  js_State :: WorkerState
  js_JobId :: string
  js_Filename :: string
  js_StartTime :: time_point
  js_StopTime :: time_point

definition default_JobStatusInfo :: JobStatusInfo where
  "default_JobStatusInfo =
     \<lparr>js_State = Idle, js_JobId = ''not_currently_writing'', js_Filename = [], js_StartTime = 0, js_StopTime = 0\<rparr>"

record ApplicationStatusInfo =
  ap_UpdateInterval :: duration
  ap_ApplicationName :: string
  ap_ApplicationVersion :: string
  ap_HostName :: string
  ap_ServiceName :: string
  ap_ServiceID :: string
  ap_ProcessID :: int

section \<open>Reporter\<close>

text \<open>The fields of the \<^verbatim>\<open>x5f2\<close> flatbuffer.\<close>

record status_message =
  sm_software_name :: string
  sm_software_version :: string
  sm_service_id :: string
  sm_host_name :: string
  sm_process_id :: "32 word"
  sm_update_interval :: "32 word"
  sm_status_json :: string

record StatusReporter =
  sr_StatusProducerTopic :: "string option"
  sr_AltStatusProducerTopic :: "string option"
  sr_UsingAlternativeStatusTopic :: bool
  sr_StaticStatusInformation :: ApplicationStatusInfo
  sr_Period :: duration
  sr_waiting :: bool
  sr_expires :: time_point
  sr_sent :: "(string \<times> status_message) list"

text \<open>The constructor, with the timer that the constructor of \<^verbatim>\<open>StatusReporter\<close> starts.\<close>

definition make_StatusReporter :: "string \<Rightarrow> ApplicationStatusInfo \<Rightarrow> time_point \<Rightarrow> StatusReporter" where
  "make_StatusReporter StatusTopic StatusInformation now =
     \<lparr>sr_StatusProducerTopic = Some StatusTopic, sr_AltStatusProducerTopic = None,
      sr_UsingAlternativeStatusTopic = False, sr_StaticStatusInformation = StatusInformation,
      sr_Period = ap_UpdateInterval StatusInformation, sr_waiting = True,
      sr_expires = now + ap_UpdateInterval StatusInformation, sr_sent = []\<rparr>"

definition status_getStopTime :: "exn + JobStatusInfo \<Rightarrow> exn + time_point" where
  "status_getStopTime StatusGetter = map_sum id js_StopTime StatusGetter"

text \<open>The process identifier and the interval in milliseconds are stored in \<^verbatim>\<open>uint32_t\<close>.\<close>

definition createReport :: "string \<Rightarrow> StatusReporter \<Rightarrow> status_message" where
  "createReport JSONReport r =
     (let i = sr_StaticStatusInformation r in
      \<lparr>sm_software_name = ap_ApplicationName i, sm_software_version = ap_ApplicationVersion i,
       sm_service_id = ap_ServiceID i, sm_host_name = ap_HostName i, sm_process_id = word_of_int (ap_ProcessID i),
       sm_update_interval = word_of_int (toMilliSeconds_duration (sr_Period r)), sm_status_json = JSONReport\<rparr>)"

fun state_name :: "WorkerState \<Rightarrow> string" where
  "state_name Idle = ''idle''"
| "state_name Writing = ''writing''"

text \<open>An object of the JSON library has its members sorted by key.\<close>

definition createJSONReport :: "JobStatusInfo \<Rightarrow> json" where
  "createJSONReport s = J_object
     [(''file_being_written'', J_string (js_Filename s)), (''job_id'', J_string (js_JobId s)),
      (''start_time'', J_int (toMilliSeconds (js_StartTime s))), (''state'', J_string (state_name (js_State s))),
      (''stop_time'', J_int (toMilliSeconds (js_StopTime s)))]"

definition postReportStatusActions :: "StatusReporter \<Rightarrow> StatusReporter" where
  "postReportStatusActions r = r\<lparr>sr_waiting := True, sr_expires := sr_expires r + sr_Period r\<rparr>"

text \<open>The result is an exception that is not a \<^verbatim>\<open>std::runtime_error\<close>, which leaves the function.\<close>

definition reportStatus :: "(json \<Rightarrow> string) \<Rightarrow> exn + JobStatusInfo \<Rightarrow> StatusReporter \<Rightarrow> exn option \<times> StatusReporter" where
  "reportStatus dump StatusGetter r =
     (case sr_StatusProducerTopic r of
        None \<Rightarrow> (None, r)
      | Some topic \<Rightarrow>
          (case StatusGetter of
             Inl e \<Rightarrow> (if is_runtime_error e then None else Some e, r)
           | Inr s \<Rightarrow>
               (None, postReportStatusActions
                 (r\<lparr>sr_sent := sr_sent r @ [(topic, createReport (dump (createJSONReport s)) r)]\<rparr>))))"

text \<open>The timer of \<^verbatim>\<open>StatusReporter\<close> expires.\<close>

definition timer_expires :: "(json \<Rightarrow> string) \<Rightarrow> exn + JobStatusInfo \<Rightarrow> StatusReporter \<Rightarrow> exn option \<times> StatusReporter" where
  "timer_expires dump StatusGetter r =
     (if sr_waiting r then reportStatus dump StatusGetter (r\<lparr>sr_waiting := False\<rparr>) else (None, r))"

text \<open>Creating the producer for the topic may raise; \<open>producer\<close> is the exception, if there is one.\<close>

definition useAlternativeStatusTopic :: "(string \<Rightarrow> exn option) \<Rightarrow> string \<Rightarrow> StatusReporter \<Rightarrow> exn option \<times> StatusReporter" where
  "useAlternativeStatusTopic producer AltTopicName r =
     (if \<not> sr_UsingAlternativeStatusTopic r then
        (case producer AltTopicName of
           Some e \<Rightarrow> (Some e, r)
         | None \<Rightarrow>
             (None, r\<lparr>sr_StatusProducerTopic := Some AltTopicName, sr_AltStatusProducerTopic := sr_StatusProducerTopic r,
                      sr_UsingAlternativeStatusTopic := True\<rparr>))
      else (None, r))"

definition revertToDefaultStatusTopic :: "StatusReporter \<Rightarrow> StatusReporter" where
  "revertToDefaultStatusTopic r =
     (if sr_UsingAlternativeStatusTopic r then
        r\<lparr>sr_StatusProducerTopic := sr_AltStatusProducerTopic r, sr_AltStatusProducerTopic := sr_StatusProducerTopic r,
          sr_UsingAlternativeStatusTopic := False\<rparr>
      else r)"

section \<open>Topics and timer\<close>

text \<open>The topic reports go to outside a job.\<close>

definition default_status_topic :: "StatusReporter \<Rightarrow> string option" where
  "default_status_topic r =
     (if sr_UsingAlternativeStatusTopic r then sr_AltStatusProducerTopic r else sr_StatusProducerTopic r)"

lemma make_default_topic [simp]: "default_status_topic (make_StatusReporter t i now) = Some t"
  by (simp add: default_status_topic_def make_StatusReporter_def)

lemma use_default_topic [simp]: "default_status_topic (snd (useAlternativeStatusTopic p t r)) = default_status_topic r"
  by (simp add: default_status_topic_def useAlternativeStatusTopic_def split: option.splits)

lemma revert_default_topic [simp]:
  "default_status_topic (revertToDefaultStatusTopic r) = default_status_topic r"
  "sr_StatusProducerTopic (revertToDefaultStatusTopic r) = default_status_topic r"
  "\<not> sr_UsingAlternativeStatusTopic (revertToDefaultStatusTopic r)"
  by (simp_all add: default_status_topic_def revertToDefaultStatusTopic_def)

lemma use_sent [simp]: "sr_sent (snd (useAlternativeStatusTopic p t r)) = sr_sent r"
  by (simp add: useAlternativeStatusTopic_def split: option.splits)

lemma revert_sent [simp]: "sr_sent (revertToDefaultStatusTopic r) = sr_sent r"
  by (simp add: revertToDefaultStatusTopic_def)

fun fire :: "(json \<Rightarrow> string) \<Rightarrow> (exn + JobStatusInfo) list \<Rightarrow> StatusReporter \<Rightarrow> StatusReporter" where
  "fire dump [] r = r"
| "fire dump (g # gs) r = fire dump gs (snd (timer_expires dump g r))"

lemma stopped_timer: "\<not> sr_waiting r \<Longrightarrow> fire dump gs r = r"
  by (induction gs arbitrary: r) (simp_all add: timer_expires_def)

lemma timer_ok:
  assumes "sr_waiting r" and "sr_StatusProducerTopic r = Some topic"
  shows "timer_expires dump (Inr s) r =
    (None, r\<lparr>sr_expires := sr_expires r + sr_Period r,
       sr_sent := sr_sent r @ [(topic, createReport (dump (createJSONReport s)) r)]\<rparr>)"
  using assms by (simp add: timer_expires_def reportStatus_def postReportStatusActions_def createReport_def)

text \<open>As long as the status can be read the reporter publishes one report per period, to its current topic:
  the \<open>n\<close>th expiry is \<open>n\<close> periods after the first.\<close>

lemma reports_periodic:
  assumes "sr_waiting r" and "sr_StatusProducerTopic r = Some topic"
  shows "fire dump (map Inr ss) r =
    r\<lparr>sr_expires := sr_expires r + int (length ss) * sr_Period r,
      sr_sent := sr_sent r @ map (\<lambda>s. (topic, createReport (dump (createJSONReport s)) r)) ss\<rparr>"
  using assms
proof (induction ss arbitrary: r)
  case (Cons s ss)
  let ?r = "snd (timer_expires dump (Inr s) r)"
  have r: "?r = r\<lparr>sr_expires := sr_expires r + sr_Period r,
       sr_sent := sr_sent r @ [(topic, createReport (dump (createJSONReport s)) r)]\<rparr>"
    using timer_ok [OF Cons.prems] by simp
  then have "createReport j ?r = createReport j r" for j by (simp add: createReport_def)
  moreover have "fire dump (map Inr ss) ?r = ?r\<lparr>sr_expires := sr_expires ?r + int (length ss) * sr_Period ?r,
      sr_sent := sr_sent ?r @ map (\<lambda>s. (topic, createReport (dump (createJSONReport s)) ?r)) ss\<rparr>"
    using Cons.prems r by (intro Cons.IH) simp_all
  ultimately show ?case by (simp add: r algebra_simps)
qed simp

text \<open>The reporter publishes one status report per period for as long as the status can be read. The first
  time that reading it raises an exception, as it does when the timer expires before the master has
  registered its status function, the timer is not started again and no report is ever
  published afterwards.\<close>

theorem status_reporting_stops:
  assumes "sr_waiting r" and "sr_StatusProducerTopic r = Some topic"
  shows "sr_sent (fire dump (map Inr ss @ Inl e # gs) r) =
    sr_sent r @ map (\<lambda>s. (topic, createReport (dump (createJSONReport s)) r)) ss"
proof -
  let ?r = "fire dump (map Inr ss) r"
  have split: "fire dump (xs @ ys) r = fire dump ys (fire dump xs r)" for xs ys
    by (induction xs arbitrary: r) simp_all
  have r: "?r = r\<lparr>sr_expires := sr_expires r + int (length ss) * sr_Period r,
      sr_sent := sr_sent r @ map (\<lambda>s. (topic, createReport (dump (createJSONReport s)) r)) ss\<rparr>"
    using reports_periodic [OF assms] .
  have "snd (timer_expires dump (Inl e) ?r) = ?r\<lparr>sr_waiting := False\<rparr>"
    using assms by (simp add: r timer_expires_def reportStatus_def)
  then have "fire dump (Inl e # gs) ?r = ?r\<lparr>sr_waiting := False\<rparr>" by (simp add: stopped_timer)
  then show ?thesis by (simp add: split r)
qed

definition sample_app :: ApplicationStatusInfo where
  "sample_app =
     \<lparr>ap_UpdateInterval = 2000000000, ap_ApplicationName = ''kafka-to-nexus'', ap_ApplicationVersion = ''1'',
      ap_HostName = ''host'', ap_ServiceName = ''fw'', ap_ServiceID = ''fw1'', ap_ProcessID = 7\<rparr>"

theorem status_reporting_stops_witness:
  "sr_sent (fire (\<lambda>_. ''report'') [Inr default_JobStatusInfo, Inl (Runtime_Error ''''), Inr default_JobStatusInfo]
     (make_StatusReporter ''status'' sample_app 0)) =
   [(''status'', createReport ''report'' (make_StatusReporter ''status'' sample_app 0))]"
  using status_reporting_stops [of "make_StatusReporter ''status'' sample_app 0" "''status''" "\<lambda>_. ''report''"
      "[default_JobStatusInfo]" "Runtime_Error ''''" "[Inr default_JobStatusInfo]"]
  by (simp add: make_StatusReporter_def)

end
