(* ===== verification/Master_Service.thy ===== *)
theory Master_Service
  imports Job_Creator Controller_System Command_Handler Status_Report
begin

text \<open>
  \<^verbatim>\<open>src/Master.cpp\<close>: the service that owns the job. The handler of \<^verbatim>\<open>CommandAndControl\<close> is kept beside the
  record \<open>Master\<close>, because the handler calls back into it; the functions the constructor registers are
  \<open>master_callbacks\<close>. The stream controller is a pair of its executor and its state, as in
  \<open>Controller_System\<close>; a state \<open>None\<close> marks undefined behaviour, from which on nothing is claimed. Code
  outside the repository and the clock reading of a call are collected in \<open>master_env\<close>.
\<close>

section \<open>Paths\<close>

text \<open>\<^verbatim>\<open>std::filesystem::path\<close> on POSIX: the relative part, and \<^verbatim>\<open>operator/\<close>.\<close>

definition relative_path :: "string \<Rightarrow> string" where
  "relative_path p = dropWhile (\<lambda>c. c = CHR ''/'') p"

definition path_append :: "string \<Rightarrow> string \<Rightarrow> string" where
  "path_append p q =
     (if q \<noteq> [] \<and> hd q = CHR ''/'' then q
      else if p \<noteq> [] \<and> last p \<noteq> CHR ''/'' then p @ ''/'' @ q
      else p @ q)"

definition construct_filepath :: "string \<Rightarrow> string \<Rightarrow> string" where
  "construct_filepath pfx filename = path_append pfx (relative_path filename)"

definition construct_template_path :: "string \<Rightarrow> string \<Rightarrow> string" where
  "construct_template_path pfx instrument_name =
     path_append pfx (instrument_name @ ''/'' @ instrument_name @ ''.hdf'')"

section \<open>State\<close>

type_synonym ('i, 'h, 't, 'p, 'q) controller =
  "'p ThreadedExecutor \<times> (('i, 'h, 't) instance_ptr, 'q, 'h HDFFile) StreamController option"

record ('i, 'h, 't, 'p, 'q) Master =
  ma_CurrentStreamController :: "('i, 'h, 't, 'p, 'q) controller option"
  ma_Reporter :: StatusReporter
  ma_CurrentStatus :: JobStatusInfo
  ma_CurrentStateMetric :: int
  ma_metadata_from_start_msg :: string
  ma_MetaDataTracker :: 't

record ('i, 'h, 't, 'p) master_env =
  me_job :: "('i, 'h, 't) job_env"
  me_fuel :: nat
  me_queue :: "('p, controller_task Work_Queue.task) cqueue"
  me_utc :: "time_point \<Rightarrow> string"
  me_clearMetaData :: "'t \<Rightarrow> 't"
  me_status_producer :: "string \<Rightarrow> exn option"
  me_file_size :: "string \<Rightarrow> nat option"
  me_HDFOutputPrefix :: string
  me_HDFTemplatePrefix :: string
  me_StreamerConfiguration :: StreamerOptions
  me_now :: time_point

fun state_number :: "WorkerState \<Rightarrow> int" where
  "state_number Idle = 0"
| "state_number Writing = 1"

definition make_Master :: "StatusReporter \<Rightarrow> 't \<Rightarrow> ('i, 'h, 't, 'p, 'q) Master" where
  "make_Master Reporter tracker =
     \<lparr>ma_CurrentStreamController = None, ma_Reporter = Reporter, ma_CurrentStatus = default_JobStatusInfo,
      ma_CurrentStateMetric = state_number Idle, ma_metadata_from_start_msg = [], ma_MetaDataTracker = tracker\<rparr>"

definition getCurrentState :: "('i, 'h, 't, 'p, 'q) Master \<Rightarrow> WorkerState" where
  "getCurrentState w = js_State (ma_CurrentStatus w)"

definition getCurrentFilePath :: "('i, 'h, 't, 'p) master_env \<Rightarrow> ('i, 'h, 't, 'p, 'q) Master \<Rightarrow> string" where
  "getCurrentFilePath env w = construct_filepath (me_HDFOutputPrefix env) (js_Filename (ma_CurrentStatus w))"

definition setStopTimeInternal :: "time_point \<Rightarrow> ('i, 'h, 't, 'p, 'q) Master \<Rightarrow> ('i, 'h, 't, 'p, 'q) Master" where
  "setStopTimeInternal NewStopTime w = w\<lparr>ma_CurrentStatus := (ma_CurrentStatus w)\<lparr>js_StopTime := NewStopTime\<rparr>\<rparr>"

definition setCurrentStatus :: "JobStatusInfo \<Rightarrow> ('i, 'h, 't, 'p, 'q) Master \<Rightarrow> ('i, 'h, 't, 'p, 'q) Master" where
  "setCurrentStatus NewStatus w =
     w\<lparr>ma_CurrentStatus := NewStatus, ma_CurrentStateMetric := state_number (js_State NewStatus)\<rparr>"

definition resetStatusInfo :: "('i, 'h, 't, 'p, 'q) Master \<Rightarrow> ('i, 'h, 't, 'p, 'q) Master" where
  "resetStatusInfo w = setCurrentStatus default_JobStatusInfo w"

section \<open>Operations\<close>

definition crashed :: "('i, 'h, 't, 'p) master_env \<Rightarrow> ('i, 'h, 't, 'p, 'q) controller option" where
  "crashed env = Some (make_ThreadedExecutor (me_queue env) False, None)"

text \<open>A call on the controller that queues tasks for its executor.\<close>

definition controller_call ::
  "('i, 'h, 't, 'p) master_env
     \<Rightarrow> ((('i, 'h, 't) instance_ptr, 'q, 'h HDFFile) StreamController
         \<Rightarrow> (('i, 'h, 't) instance_ptr, 'q, 'h HDFFile) StreamController \<times> (bool \<times> controller_task) list)
     \<Rightarrow> ('i, 'h, 't, 'p, 'q) controller \<Rightarrow> ('i, 'h, 't, 'p, 'q) controller" where
  "controller_call env f c =
     (case c of
        (e, None) \<Rightarrow> (e, None)
      | (e, Some sc) \<Rightarrow> let (sc, ws) = f sc in (fold (send (me_queue env)) ws e, Some sc))"

definition startWriting ::
  "('i, 'h, 't, 'p) master_env \<Rightarrow> StartMessage \<Rightarrow> ('i, 'h, 't, 'p, 'q) Master
     \<Rightarrow> exn option \<times> ('i, 'h, 't, 'p, 'q) Master" where
  "startWriting env StartInfo w =
     (if getCurrentState w = Writing then
        (Some (Runtime_Error (''Unable to start new writing job (with id: \"'' @ sm_JobID StartInfo @
           ''\") when waiting for the current one to finish.'')), w)
      else
        let w = w\<lparr>ma_MetaDataTracker := me_clearMetaData env (ma_MetaDataTracker w)\<rparr>;
            streamer_options = (me_StreamerConfiguration env)
              \<lparr>so_StartTimestamp := sm_StartTime StartInfo, so_StopTimestamp := sm_StopTime StartInfo\<rparr>;
            filepath = construct_filepath (me_HDFOutputPrefix env) (sm_Filename StartInfo);
            template_path = construct_template_path (me_HDFTemplatePrefix env) (sm_InstrumentName StartInfo);
            status = \<lparr>js_State = Writing, js_JobId = sm_JobID StartInfo, js_Filename = sm_Filename StartInfo,
              js_StartTime = sm_StartTime StartInfo, js_StopTime = sm_StopTime StartInfo\<rparr> in
        case createFileWritingJob (me_job env) (me_fuel env) StartInfo streamer_options filepath template_path
               (ma_MetaDataTracker w) of
          None \<Rightarrow> (None, setCurrentStatus status (w\<lparr>ma_CurrentStreamController := crashed env\<rparr>))
        | Some (Inl e, t) \<Rightarrow> (Some e, w\<lparr>ma_MetaDataTracker := t\<rparr>)
        | Some (Inr sc, t) \<Rightarrow>
            let c = controller_call env (sc_start (me_utc env))
                      (make_ThreadedExecutor (me_queue env) False, Some sc);
                w = w\<lparr>ma_MetaDataTracker := t, ma_CurrentStreamController := Some c,
                      ma_metadata_from_start_msg := sm_Metadata StartInfo\<rparr> in
            (case (if sm_ControlTopic StartInfo \<noteq> []
                   then useAlternativeStatusTopic (me_status_producer env) (sm_ControlTopic StartInfo) (ma_Reporter w)
                   else (None, ma_Reporter w)) of
               (Some e, r) \<Rightarrow> (Some e, w\<lparr>ma_Reporter := r\<rparr>)
             | (None, r) \<Rightarrow> (None, setCurrentStatus status (w\<lparr>ma_Reporter := r\<rparr>))))"

definition stopNow :: "('i, 'h, 't, 'p) master_env \<Rightarrow> ('i, 'h, 't, 'p, 'q) Master \<Rightarrow> exn option \<times> ('i, 'h, 't, 'p, 'q) Master" where
  "stopNow env w =
     (if getCurrentState w \<noteq> Writing then
        (Some (Runtime_Error ''Unable to stop writing when not in \"Writing\" state.''), w)
      else
        (None, setStopTimeInternal 0
           (w\<lparr>ma_CurrentStreamController := map_option (\<lambda>(e, c).
                controller_call env (sc_setStopTime (me_utc env) (me_now env)) (e, Option.bind c sc_stop))
              (ma_CurrentStreamController w)\<rparr>)))"

definition setStopTime ::
  "('i, 'h, 't, 'p) master_env \<Rightarrow> time_point \<Rightarrow> ('i, 'h, 't, 'p, 'q) Master \<Rightarrow> exn option \<times> ('i, 'h, 't, 'p, 'q) Master" where
  "setStopTime env NewStopTime w =
     (if getCurrentState w \<noteq> Writing then
        (Some (Runtime_Error ''Unable to set stop time when not in \"Writing\" state.''), w)
      else if js_StopTime (ma_CurrentStatus w) < me_now env then
        (Some (Runtime_Error
           ''Unable to set a new stop time as the stop time has already been passed.''), w)
      else
        (None, setStopTimeInternal NewStopTime
           (w\<lparr>ma_CurrentStreamController :=
                (case ma_CurrentStreamController w of
                   None \<Rightarrow> crashed env
                 | Some c \<Rightarrow> Some (controller_call env (sc_setStopTime (me_utc env) NewStopTime) c))\<rparr>)))"

text \<open>\<^verbatim>\<open>CurrentStreamController->isDoneWriting()\<close>, which may update the size of the file.\<close>

definition controller_isDoneWriting ::
  "('i, 'h, 't, 'p) master_env \<Rightarrow> ('i, 'h, 't, 'p, 'q) controller \<Rightarrow> bool \<times> ('i, 'h, 't, 'p, 'q) controller" where
  "controller_isDoneWriting env c =
     (case c of
        (e, None) \<Rightarrow> (False, c)
      | (e, Some sc) \<Rightarrow> let (b, sc) = isDoneWriting (me_now env) (me_file_size env) sc in (b, e, Some sc))"

definition hasWritingStopped ::
  "('i, 'h, 't, 'p) master_env \<Rightarrow> ('i, 'h, 't, 'p, 'q) Master \<Rightarrow> bool \<times> ('i, 'h, 't, 'p, 'q) Master" where
  "hasWritingStopped env w =
     (case ma_CurrentStreamController w of
        None \<Rightarrow> (False, w)
      | Some c \<Rightarrow> let (b, c) = controller_isDoneWriting env c in (b, w\<lparr>ma_CurrentStreamController := Some c\<rparr>))"

definition writingIsFinished ::
  "('i, 'h, 't, 'p) master_env \<Rightarrow> ('i, 'h, 't, 'p, 'q) Master \<Rightarrow> bool \<times> ('i, 'h, 't, 'p, 'q) Master" where
  "writingIsFinished env w =
     (case ma_CurrentStreamController w of
        None \<Rightarrow> (True, w)
      | Some c \<Rightarrow> let (b, c) = controller_isDoneWriting env c in (b, w\<lparr>ma_CurrentStreamController := Some c\<rparr>))"

definition master_callbacks :: "('i, 'h, 't, 'p) master_env \<Rightarrow> ('i, 'h, 't, 'p, 'q) Master callbacks" where
  "master_callbacks env =
     \<lparr>cb_DoStart = startWriting env, cb_DoSetStopTime = setStopTime env, cb_DoStopNow = stopNow env,
      cb_IsWritingNow = (\<lambda>w. Writing = getCurrentState w), cb_GetJobId = (\<lambda>w. js_JobId (ma_CurrentStatus w))\<rparr>"

text \<open>The end of a job. The exception of a failed \<^verbatim>\<open>revertCommandTopic\<close> leaves the function before the job is
  given up.\<close>

definition setToIdle ::
  "('i, 'h, 't, 'p) master_env \<Rightarrow> 'k command_env \<Rightarrow> 'k Handler \<Rightarrow> ('i, 'h, 't, 'p, 'q) Master
     \<Rightarrow> (exn option \<times> 'k Handler \<times> ('i, 'h, 't, 'p, 'q) Master) option" where
  "setToIdle env cenv h w =
     (case ma_CurrentStreamController w of
        Some (_, Some sc) \<Rightarrow>
          let writtenFilePath = getCurrentFilePath env w;
              job = cb_GetJobId (master_callbacks env) w;
              answer = (if sc_HasError sc
                then sendErrorEncounteredMessage cenv job writtenFilePath (ma_metadata_from_start_msg w)
                       (sc_ErrorMessage sc) h
                else sendHasStoppedMessage cenv job writtenFilePath (ma_metadata_from_start_msg w) h) in
          map_option (\<lambda>(r, h). case r of
              Some e \<Rightarrow> (Some e, h, w)
            | None \<Rightarrow>
                (None, h,
                 let w = resetStatusInfo (w\<lparr>ma_CurrentStreamController := None,
                           ma_MetaDataTracker := me_clearMetaData env (ma_MetaDataTracker w)\<rparr>)
                 in w\<lparr>ma_Reporter := revertToDefaultStatusTopic (ma_Reporter w)\<rparr>)) answer
      | _ \<Rightarrow> None)"

definition master_run ::
  "('i, 'h, 't, 'p) master_env \<Rightarrow> 'k command_env \<Rightarrow> 'k Handler \<Rightarrow> ('i, 'h, 't, 'p, 'q) Master
     \<Rightarrow> (exn option \<times> 'k Handler \<times> ('i, 'h, 't, 'p, 'q) Master) option" where
  "master_run env cenv h w =
     (case loopFunction cenv (master_callbacks env) h w of
        None \<Rightarrow> None
      | Some (Some e, h, w) \<Rightarrow> Some (Some e, h, w)
      | Some (None, h, w) \<Rightarrow>
          let (stopped, w) = hasWritingStopped env w in
          if stopped then setToIdle env cenv h w else Some (None, h, w))"

section \<open>The contract of the command handler\<close>

lemma startWriting_writes:
  "startWriting env s w = (r, w') \<Longrightarrow> getCurrentState w' = Writing \<longleftrightarrow> r = None \<or> getCurrentState w = Writing"
  by (auto simp: startWriting_def setCurrentStatus_def getCurrentState_def Let_def
      split: if_splits option.splits sum.splits prod.splits)

lemma stopNow_keeps: "stopNow env w = (r, w') \<Longrightarrow> getCurrentState w' = getCurrentState w"
  by (auto simp: stopNow_def setStopTimeInternal_def getCurrentState_def split: if_splits)

lemma setStopTime_keeps: "setStopTime env t w = (r, w') \<Longrightarrow> getCurrentState w' = getCurrentState w"
  by (auto simp: setStopTime_def setStopTimeInternal_def getCurrentState_def split: if_splits)

interpretation mc: job_control "master_callbacks env" for env :: "('i, 'h, 't, 'p) master_env"
  by unfold_locales
    (auto simp: master_callbacks_def dest: startWriting_writes stopNow_keeps setStopTime_keeps)

section \<open>The service over time\<close>

text \<open>What the registered functions keep, the handler keeps.\<close>

lemma handleStart_callback:
  "handleStartCommand env cb m h w = Some (h', w') \<Longrightarrow> w' = w \<or> (\<exists>s. w' = snd (cb_DoStart cb s w))"
  by (auto simp: handleStartCommand_def startWritingProcess_def Let_def
      split: option.splits sum.splits if_splits bool.splits prod.splits) (metis snd_conv)+

lemma handleStop_callback:
  assumes "handleStopCommand env cb m h w = Some (h', w')"
  shows "w' = w \<or> w' = snd (cb_DoStopNow cb w) \<or> (\<exists>t. w' = snd (cb_DoSetStopTime cb t w))"
proof -
  obtain s r where p: "stopWritingProcess env cb m w = Some (s, r, w')"
    using assms by (auto simp: handleStopCommand_def split: option.splits)
  show ?thesis
  proof (cases "\<exists>s. stop_accepted env cb m w s")
    case True
    then obtain s1 where a: "stop_accepted env cb m w s1" by blast
    from stop_process_accepted [OF a] p have "w' = snd (stop_action cb s1 w)" by auto
    then show ?thesis by (auto simp: stop_action_def split: if_splits)
  next
    case False
    then have "\<And>s. \<not> stop_accepted env cb m w s" by blast
    from stop_process_rejected [OF p this] show ?thesis by simp
  qed
qed

lemma loopFunction_callback:
  assumes "loopFunction env cb h w = Some (r, h', w')" and "I w"
    and "\<And>s. I (snd (cb_DoStart cb s w))" and "I (snd (cb_DoStopNow cb w))" and "\<And>t. I (snd (cb_DoSetStopTime cb t w))"
  shows "I w'"
  using assms
  by (auto simp: loopFunction_def Let_def split: if_splits sum.splits prod.splits
      dest!: handleStart_callback handleStop_callback)

text \<open>While the service is writing it has a controller; the metric follows the state; outside a job the status
  is that of an idle service, and reports go to the default topic.\<close>

definition service_ok :: "string \<Rightarrow> ('i, 'h, 't, 'p, 'q) Master \<Rightarrow> bool" where
  "service_ok topic w \<longleftrightarrow>
     (getCurrentState w = Writing \<longrightarrow> ma_CurrentStreamController w \<noteq> None) \<and>
     ma_CurrentStateMetric w = state_number (getCurrentState w) \<and>
     (getCurrentState w = Idle \<longrightarrow> ma_CurrentStatus w = default_JobStatusInfo) \<and>
     (sr_UsingAlternativeStatusTopic (ma_Reporter w) \<longrightarrow> getCurrentState w = Writing) \<and>
     default_status_topic (ma_Reporter w) = Some topic"

lemma startWriting_ok:
  assumes "service_ok topic w"
  shows "service_ok topic (snd (startWriting env s w))"
proof -
  have "default_status_topic (snd (useAlternativeStatusTopic p t r)) = default_status_topic r" for p t r by simp
  then show ?thesis using assms
    by (auto simp: startWriting_def service_ok_def setCurrentStatus_def getCurrentState_def Let_def crashed_def
        useAlternativeStatusTopic_def default_status_topic_def split: option.splits sum.splits prod.splits if_splits)
qed

lemma stopNow_ok: "service_ok topic w \<Longrightarrow> service_ok topic (snd (stopNow env w))"
  by (auto simp: stopNow_def service_ok_def setStopTimeInternal_def getCurrentState_def)

lemma setStopTime_ok: "service_ok topic w \<Longrightarrow> service_ok topic (snd (setStopTime env t w))"
  by (auto simp: setStopTime_def service_ok_def setStopTimeInternal_def getCurrentState_def crashed_def
      split: option.splits)

lemma controller_ok: "service_ok topic w \<Longrightarrow> service_ok topic (w\<lparr>ma_CurrentStreamController := Some c\<rparr>)"
  by (simp add: service_ok_def getCurrentState_def)

lemma hasWritingStopped_ok: "service_ok topic w \<Longrightarrow> service_ok topic (snd (hasWritingStopped env w))"
  by (auto simp: hasWritingStopped_def Let_def controller_ok split: option.splits prod.splits)

lemma setToIdle_ok:
  "service_ok topic w \<Longrightarrow> setToIdle env cenv h w = Some (r, h', w') \<Longrightarrow> service_ok topic w'"
  by (auto simp: setToIdle_def service_ok_def resetStatusInfo_def setCurrentStatus_def getCurrentState_def Let_def
      default_JobStatusInfo_def split: option.splits prod.splits if_splits)

lemma master_run_ok:
  assumes "master_run env cenv h w = Some (r, h', w')" and "service_ok topic w"
  shows "service_ok topic w'"
proof -
  obtain r1 h1 w1 where l: "loopFunction cenv (master_callbacks env) h w = Some (r1, h1, w1)"
    using assms(1) by (auto simp: master_run_def split: option.splits)
  have w1: "service_ok topic w1"
    using loopFunction_callback [OF l, of "service_ok topic"] assms(2)
    by (simp add: master_callbacks_def startWriting_ok stopNow_ok setStopTime_ok)
  show ?thesis
    using assms(1) l w1 hasWritingStopped_ok [OF w1, of env] setToIdle_ok
    by (auto simp: master_run_def Let_def split: option.splits prod.splits if_splits)
qed

text \<open>Steps of the service: an iteration of \<^verbatim>\<open>Master::run\<close>, in any environment and also when it raises, and a
  step of the threads of the running job.\<close>

inductive service_step ::
  "('q, topic_task Work_Queue.task) cqueue \<Rightarrow> ('p, controller_task Work_Queue.task) cqueue
     \<Rightarrow> (('i, 'h, 't) instance_ptr \<Rightarrow> bool)
     \<Rightarrow> 'k Handler \<times> ('i, 'h, 't, 'p, 'q) Master \<Rightarrow> 'k Handler \<times> ('i, 'h, 't, 'p, 'q) Master \<Rightarrow> bool"
  for Q P accepts where
  run: "master_run env cenv h w = Some (r, h', w') \<Longrightarrow> me_queue env = P \<Longrightarrow>
    service_step Q P accepts (h, w) (h', w')"
| job: "ma_CurrentStreamController w = Some c \<Longrightarrow> controller_step Q P accepts utc c c' \<Longrightarrow>
    service_step Q P accepts (h, w) (h, w\<lparr>ma_CurrentStreamController := Some c'\<rparr>)"

lemma service_step_ok:
  "service_step Q P accepts (h, w) (h', w') \<Longrightarrow> service_ok topic w \<Longrightarrow> service_ok topic w'"
  by (erule service_step.cases) (auto intro: master_run_ok controller_ok)

text \<open>C6: Whatever commands arrive and whatever fails, the service keeps its status consistent: it never claims to
  be writing without a controller, so that \<^verbatim>\<open>setStopTime\<close> never dereferences a null pointer; the metric
  follows the state; an idle service reports an idle status; and status reports go to the topic of a job
  only while that job is written.\<close>

theorem service_status_consistent:
  assumes "(service_step Q P accepts)\<^sup>*\<^sup>* (h, make_Master (make_StatusReporter topic info now) t) (h', w)"
  shows "service_ok topic w"
proof -
  have "service_ok topic w'" if "(service_step Q P accepts)\<^sup>*\<^sup>* (h, w) (h', w')" "service_ok topic w" for h w h' w'
    using that by (induction rule: rtranclp_induct2) (auto intro: service_step_ok)
  moreover have "service_ok topic (make_Master (make_StatusReporter topic info now) t)"
    by (simp add: service_ok_def make_Master_def getCurrentState_def default_JobStatusInfo_def
        make_StatusReporter_def default_status_topic_def)
  ultimately show ?thesis using assms by blast
qed

definition sample_master_env :: "(unit, unit, unit, controller_task Work_Queue.task list) master_env" where
  "sample_master_env =
     \<lparr>me_job = sample_job_env\<lparr>je_exists := \<lambda>p. p = ''/data''\<rparr>, me_fuel = 1, me_queue = list_queue, me_utc = (\<lambda>_. ''time''), me_clearMetaData = (\<lambda>t. t),
      me_status_producer = (\<lambda>_. None), me_file_size = (\<lambda>_. None), me_HDFOutputPrefix = ''/data'',
      me_HDFTemplatePrefix = ''/templates'', me_StreamerConfiguration = default_StreamerOptions, me_now = 1000\<rparr>"

definition sample_master :: "(unit, unit, unit, controller_task Work_Queue.task list, topic_task Work_Queue.task list) Master" where
  "sample_master = make_Master (make_StatusReporter ''status'' sample_app 0) ()"

theorem service_status_consistent_witness:
  "\<exists>r h w. master_run sample_master_env sample_env sample_handler sample_master = Some (r, h, w) \<and>
     service_ok ''status'' w"
proof -
  have "\<not> Option.is_none (master_run sample_master_env sample_env sample_handler sample_master)" by code_simp
  then obtain r h w where r: "master_run sample_master_env sample_env sample_handler sample_master = Some (r, h, w)"
    unfolding Option.is_none_def by (metis option.exhaust prod_cases3)
  have "service_step list_queue list_queue (\<lambda>_. True) (sample_handler, sample_master) (h, w)"
    by (rule service_step.run [OF r]) (simp add: sample_master_env_def)
  then have "service_ok ''status'' w"
    unfolding sample_master_def by (intro service_status_consistent) (rule r_into_rtranclp)
  with r show ?thesis by blast
qed

section \<open>The end of a job\<close>

text \<open>The message that a job has ended.\<close>

definition end_message ::
  "('i, 'h, 't, 'p) master_env \<Rightarrow> 'k Handler \<Rightarrow> (('i, 'h, 't) instance_ptr, 'q, 'h HDFFile) StreamController
     \<Rightarrow> ('i, 'h, 't, 'p, 'q) Master \<Rightarrow> string \<times> feedback" where
  "end_message env h sc w =
     (fp_Topic (hd_CommandResponse h),
      Finished_Writing (fp_ServiceId (hd_CommandResponse h)) (js_JobId (ma_CurrentStatus w)) (sc_HasError sc)
        (construct_filepath (me_HDFOutputPrefix env) (js_Filename (ma_CurrentStatus w)))
        (ma_metadata_from_start_msg w) (if sc_HasError sc then sc_ErrorMessage sc else []))"

lemma setToIdle_reachable:
  assumes "ma_CurrentStreamController w = Some (e, Some sc)" and "topics_consistent h"
    and "reachable cenv (hd_CommandTopicAddress h)"
  shows "\<exists>h' w'. setToIdle env cenv h w = Some (None, h', w') \<and> hd_sent h' = hd_sent h @ [end_message env h sc w] \<and>
    topics_consistent h' \<and> \<not> hd_UsingAltTopic h' \<and> ma_CurrentStreamController w' = None \<and>
    ma_CurrentStatus w' = default_JobStatusInfo \<and>
    ma_Reporter w' = revertToDefaultStatusTopic (ma_Reporter w)"
proof -
  let ?h = "h\<lparr>hd_sent := hd_sent h @ [end_message env h sc w]\<rparr>"
  obtain h' where h': "revertCommandTopic cenv ?h = Some (None, h')" "topics_consistent h'" "\<not> hd_UsingAltTopic h'"
    "hd_sent h' = hd_sent ?h"
    using revert_reachable [of cenv ?h] assms(2,3) by auto
  have "(if sc_HasError sc
      then sendErrorEncounteredMessage cenv (js_JobId (ma_CurrentStatus w)) (getCurrentFilePath env w)
             (ma_metadata_from_start_msg w) (sc_ErrorMessage sc) h
      else sendHasStoppedMessage cenv (js_JobId (ma_CurrentStatus w)) (getCurrentFilePath env w)
             (ma_metadata_from_start_msg w) h) = Some (None, h')"
    using h'(1) by (cases "sc_HasError sc") (simp_all add: sendErrorEncounteredMessage_def sendHasStoppedMessage_def publishStoppedMsg_def
        end_message_def getCurrentFilePath_def)
  then show ?thesis using assms(1) h'
    by (simp add: setToIdle_def master_callbacks_def resetStatusInfo_def setCurrentStatus_def)
qed

lemma revert_address: "revertCommandTopic env h = Some (r, h') \<Longrightarrow> hd_CommandTopicAddress h' = hd_CommandTopicAddress h"
  by (auto simp: revertCommandTopic_def swap_responses_def Let_def split: if_splits option.splits prod.splits)

lemma switch_address: "switchCommandTopic env t st h = Some (r, h') \<Longrightarrow> hd_CommandTopicAddress h' = hd_CommandTopicAddress h"
  by (auto simp: switchCommandTopic_def swap_responses_def Let_def split: if_splits option.splits prod.splits)

lemma start_address:
  "startWritingProcess env cb m h w = Some (s, r, h', w') \<Longrightarrow> hd_CommandTopicAddress h' = hd_CommandTopicAddress h"
  by (auto simp: startWritingProcess_def Let_def dest!: switch_address revert_address
      split: sum.splits if_splits option.splits bool.splits prod.splits)

lemma loop_address:
  "loopFunction env cb h w = Some (r, h', w') \<Longrightarrow> hd_CommandTopicAddress h' = hd_CommandTopicAddress h"
  by (auto simp: loopFunction_def handleStartCommand_def handleStopCommand_def Let_def dest!: start_address
      split: sum.splits if_splits option.splits prod.splits)


definition sample_stopped :: "((unit, unit, unit) instance_ptr, topic_task Work_Queue.task list, unit HDFFile) StreamController" where
  "sample_stopped =
     (make_StreamController 0 (make_FileWriterTask ''job'' ''/data/f.nxs'') [] default_StreamerOptions)\<lparr>sc_StopNow := True\<rparr>"

definition sample_writing :: "(unit, unit, unit, controller_task Work_Queue.task list, topic_task Work_Queue.task list) Master" where
  "sample_writing =
     (setCurrentStatus \<lparr>js_State = Writing, js_JobId = ''job'', js_Filename = ''/f.nxs'', js_StartTime = 0, js_StopTime = 0\<rparr>
        sample_master)\<lparr>ma_CurrentStreamController := Some (make_ThreadedExecutor list_queue False, Some sample_stopped)\<rparr>"


section \<open>A start that fails late\<close>

text \<open>C40: When the file has been created and the controller started, but the producer for the status topic of the
  job cannot be made, the start command fails, yet the job goes on: the controller stays, while the
  service is idle, so that no stop command is accepted for it.\<close>

theorem failed_start_keeps_job:
  fixes w :: "('i, 'h, 't, 'p, 'q) Master" and sc :: "(('i, 'h, 't) instance_ptr, 'q, 'h HDFFile) StreamController"
  assumes "getCurrentState w = Idle" and "\<not> sr_UsingAlternativeStatusTopic (ma_Reporter w)"
    and "createFileWritingJob (me_job env) (me_fuel env) s
       ((me_StreamerConfiguration env)\<lparr>so_StartTimestamp := sm_StartTime s, so_StopTimestamp := sm_StopTime s\<rparr>)
       (construct_filepath (me_HDFOutputPrefix env) (sm_Filename s))
       (construct_template_path (me_HDFTemplatePrefix env) (sm_InstrumentName s))
       (me_clearMetaData env (ma_MetaDataTracker w)) = Some (Inr sc, t)"
    and "sm_ControlTopic s \<noteq> []" and "me_status_producer env (sm_ControlTopic s) = Some x"
  shows "\<exists>w'. startWriting env s w = (Some x, w') \<and> getCurrentState w' = Idle \<and>
    ma_CurrentStreamController w' \<noteq> None \<and>
    fst (stopNow env' w') \<noteq> None \<and> fst (setStopTime env' stop w') \<noteq> None"
  using assms
  by (auto simp: startWriting_def useAlternativeStatusTopic_def getCurrentState_def Let_def stopNow_def setStopTime_def)

definition failing_env :: "(unit, unit, unit, controller_task Work_Queue.task list) master_env" where
  "failing_env = sample_master_env\<lparr>me_status_producer := \<lambda>_. Some (Runtime_Error ''no topic'')\<rparr>"

definition ctrl_start_message :: StartMessage where
  "ctrl_start_message = sample_start_message\<lparr>sm_ControlTopic := ''ctrl'', sm_Filename := ''f.nxs''\<rparr>"

theorem failed_start_keeps_job_witness:
  "\<exists>w. startWriting failing_env ctrl_start_message sample_master = (Some (Runtime_Error ''no topic''), w) \<and>
     getCurrentState w = Idle \<and> ma_CurrentStreamController w \<noteq> None"
proof -
  let ?job = "createFileWritingJob (me_job failing_env) (me_fuel failing_env) ctrl_start_message
       ((me_StreamerConfiguration failing_env)
          \<lparr>so_StartTimestamp := sm_StartTime ctrl_start_message, so_StopTimestamp := sm_StopTime ctrl_start_message\<rparr>)
       (construct_filepath (me_HDFOutputPrefix failing_env) (sm_Filename ctrl_start_message))
       (construct_template_path (me_HDFTemplatePrefix failing_env) (sm_InstrumentName ctrl_start_message))
       (me_clearMetaData failing_env (ma_MetaDataTracker sample_master)) ::
       ((exn + ((unit, unit, unit) instance_ptr, topic_task Work_Queue.task list, unit HDFFile) StreamController) \<times> unit) option"
  have "map_option (map_prod (map_sum (\<lambda>_. ()) (\<lambda>_. ())) id) ?job = Some (Inr (), ())" by code_simp
  then obtain sc where sc: "?job = Some (Inr sc, ())" by (cases "fst (the ?job)") auto
  have "getCurrentState sample_master = Idle" "\<not> sr_UsingAlternativeStatusTopic (ma_Reporter sample_master)"
    "sm_ControlTopic ctrl_start_message \<noteq> []"
    "me_status_producer failing_env (sm_ControlTopic ctrl_start_message) = Some (Runtime_Error ''no topic'')"
    by (simp_all add: sample_master_def make_Master_def getCurrentState_def default_JobStatusInfo_def
        make_StatusReporter_def ctrl_start_message_def failing_env_def)
  from failed_start_keeps_job [OF this(1,2) sc this(3,4)] show ?thesis by blast
qed

end
