(* ===== verification/Service_Main.thy ===== *)
theory Service_Main
  imports Master_Service
begin

text \<open>
  \<^verbatim>\<open>src/RunState.h\<close> and the run loop of \<^verbatim>\<open>apps/kafka-to-nexus.cpp\<close>: signals, the decision to stop, the search
  for the topics and the loop around \<^verbatim>\<open>Master::run\<close>; and three helpers that prepare the command line.

  Every iteration of the loop has its own environment \<open>main_env\<close>: the clock and the libraries, the topics
  the broker reports, the signals delivered before the iteration and those delivered between reading
  and writing the run state. A result \<open>None\<close> is undefined behaviour.
\<close>

section \<open>Signals\<close>

datatype RunStates = Running | Stopping | SIGINT_Received | SIGINT_Waiting | SIGINT_KafkaWait | SIGHUP_Received

datatype posix_signal = SIGINT | SIGTERM | SIGHUP | Unknown_Signal int

fun signal_handler :: "posix_signal \<Rightarrow> RunStates \<Rightarrow> RunStates" where
  "signal_handler SIGINT s = (if s = Running \<or> s = SIGHUP_Received then SIGINT_Received else Stopping)"
| "signal_handler SIGTERM s = Stopping"
| "signal_handler SIGHUP s = (if s = Running then SIGHUP_Received else s)"
| "signal_handler (Unknown_Signal n) s = s"

section \<open>The decision to stop\<close>

abbreviation WaitForStop :: duration where
  "WaitForStop \<equiv> 5000000000"

text \<open>The result, the master, the run state and the static variable \<^verbatim>\<open>SIGINTStart\<close>. The signals \<open>during\<close> are
  delivered while the writing is being stopped, before the run state is stored.\<close>

definition shouldStop ::
  "('i, 'h, 't, 'p) master_env \<Rightarrow> bool \<Rightarrow> posix_signal list \<Rightarrow> ('i, 'h, 't, 'p, 'q) Master option \<Rightarrow> RunStates \<Rightarrow> time_point
     \<Rightarrow> ((exn + bool) \<times> ('i, 'h, 't, 'p, 'q) Master option \<times> RunStates \<times> time_point) option" where
  "shouldStop env FindTopicMode during MasterPtr RunState SIGINTStart =
     (case RunState of
        Stopping \<Rightarrow> Some (Inr True, MasterPtr, RunState, SIGINTStart)
      | SIGINT_Received \<Rightarrow>
          if FindTopicMode then Some (Inr True, MasterPtr, RunState, SIGINTStart)
          else
            (case MasterPtr of
               None \<Rightarrow> None
             | Some w \<Rightarrow>
                 let (finished, w) = writingIsFinished env w in
                 if finished then Some (Inr True, Some w, RunState, SIGINTStart)
                 else
                   (case stopNow env w of
                      (Some e, w) \<Rightarrow> Some (Inl e, Some w, fold signal_handler during RunState, SIGINTStart)
                    | (None, w) \<Rightarrow> Some (Inr False, Some w, SIGINT_Waiting, me_now env)))
      | SIGINT_Waiting \<Rightarrow>
          if me_now env > s64 (SIGINTStart + WaitForStop) then Some (Inr True, MasterPtr, RunState, SIGINTStart)
          else
            (case MasterPtr of
               None \<Rightarrow> None
             | Some w \<Rightarrow>
                 let (finished, w) = writingIsFinished env w in
                 Some (Inr finished, Some w, if finished then SIGINT_KafkaWait else RunState, SIGINTStart))
      | SIGHUP_Received \<Rightarrow>
          if FindTopicMode then Some (Inr True, MasterPtr, RunState, SIGINTStart)
          else
            (case MasterPtr of
               None \<Rightarrow> None
             | Some w \<Rightarrow>
                 let (finished, w) = writingIsFinished env w in
                 Some (Inr finished, Some w, if finished then SIGINT_KafkaWait else RunState, SIGINTStart))
      | _ \<Rightarrow> Some (Inr False, MasterPtr, RunState, SIGINTStart))"

section \<open>The run loop\<close>

text \<open>The result of \<^verbatim>\<open>getTopicList\<close> is an argument; a \<^verbatim>\<open>MetadataException\<close> is caught.\<close>

definition try_to_find_topics :: "exn + string list \<Rightarrow> string \<Rightarrow> string \<Rightarrow> exn + bool" where
  "try_to_find_topics topics pool_topic command_topic =
     (case topics of
        Inl (Metadata_Exception _) \<Rightarrow> Inr False
      | Inl e \<Rightarrow> Inl e
      | Inr ts \<Rightarrow>
          if pool_topic \<notin> set ts then
            Inl (Runtime_Error (''Unable to find job pool topic with name \"'' @ pool_topic @ ''\".''))
          else if command_topic \<notin> set ts then
            Inl (Runtime_Error (''Unable to find command topic with name \"'' @ command_topic @ ''\".''))
          else Inr True)"

record main_options =
  mo_ServiceId :: string
  mo_ServiceName :: string
  mo_job_pool_topic :: string
  mo_command_topic :: string
  mo_BrokerSettings :: BrokerSettings
  mo_StatusMasterInterval :: duration
  mo_HostName :: string
  mo_PID :: int
  mo_app_name :: string
  mo_app_version :: string

definition create_status_reporter :: "main_options \<Rightarrow> time_point \<Rightarrow> StatusReporter" where
  "create_status_reporter opts now =
     make_StatusReporter (mo_command_topic opts)
       \<lparr>ap_UpdateInterval = mo_StatusMasterInterval opts, ap_ApplicationName = mo_app_name opts,
        ap_ApplicationVersion = mo_app_version opts, ap_HostName = mo_HostName opts, ap_ServiceName = mo_ServiceName opts,
        ap_ServiceID = mo_ServiceId opts, ap_ProcessID = mo_PID opts\<rparr> now"

record ('i, 'h, 't, 'p, 'k) main_env =
  mv_master :: "('i, 'h, 't, 'p) master_env"
  mv_command :: "'k command_env"
  mv_topics :: "exn + string list"
  mv_before :: "posix_signal list"
  mv_during :: "posix_signal list"
  mv_tracker :: 't

record ('i, 'h, 't, 'p, 'q, 'k) main_state =
  mn_RunState :: RunStates
  mn_SIGINTStart :: time_point
  mn_find_topic_mode :: bool
  mn_metadata_timeout :: duration
  mn_handler :: "'k Handler"
  mn_master :: "('i, 'h, 't, 'p, 'q) Master option"

definition generate_master ::
  "main_options \<Rightarrow> ('i, 'h, 't, 'p, 'k) main_env \<Rightarrow> 'k Handler \<times> ('i, 'h, 't, 'p, 'q) Master" where
  "generate_master opts env =
     (create_Handler (mo_ServiceId opts) (mo_BrokerSettings opts) (mo_job_pool_topic opts) (mo_command_topic opts),
      make_Master (create_status_reporter opts (me_now (mv_master env))) (mv_tracker env))"

definition next_metadata_timeout :: "BrokerSettings \<Rightarrow> duration \<Rightarrow> duration" where
  "next_metadata_timeout b t =
     (let t = s64 (t * 2) in if t > bs_MaxMetadataTimeout b then bs_MaxMetadataTimeout b else t)"

text \<open>What an iteration leads to: the next one, the end of the loop, or an exception that nothing catches.\<close>

datatype 's loop_result = Next 's | Loop_Left 's | Uncaught exn

text \<open>The body of the loop, inside its \<^verbatim>\<open>try\<close>; every exception ends the loop.\<close>

definition main_body ::
  "main_options \<Rightarrow> ('i, 'h, 't, 'p, 'k) main_env \<Rightarrow> ('i, 'h, 't, 'p, 'q, 'k) main_state
     \<Rightarrow> ('i, 'h, 't, 'p, 'q, 'k) main_state loop_result option" where
  "main_body opts env st =
     (if mn_find_topic_mode st then
        (case try_to_find_topics (mv_topics env) (mo_job_pool_topic opts) (mo_command_topic opts) of
           Inl e \<Rightarrow> Some (Loop_Left st)
         | Inr True \<Rightarrow>
             let (h, w) = generate_master opts env in
             Some (Next (st\<lparr>mn_handler := h, mn_master := Some w, mn_find_topic_mode := False\<rparr>))
         | Inr False \<Rightarrow>
             Some (Next (st\<lparr>mn_metadata_timeout :=
               next_metadata_timeout (mo_BrokerSettings opts) (mn_metadata_timeout st)\<rparr>)))
      else
        (case mn_master st of
           None \<Rightarrow> None
         | Some w \<Rightarrow>
             (case master_run (mv_master env) (mv_command env) (mn_handler st) w of
                None \<Rightarrow> None
              | Some (r, h, w) \<Rightarrow>
                  let st = st\<lparr>mn_handler := h, mn_master := Some w\<rparr> in
                  Some (case r of None \<Rightarrow> Next st | Some e \<Rightarrow> Loop_Left st))))"

definition main_iteration ::
  "main_options \<Rightarrow> ('i, 'h, 't, 'p, 'k) main_env \<Rightarrow> ('i, 'h, 't, 'p, 'q, 'k) main_state
     \<Rightarrow> ('i, 'h, 't, 'p, 'q, 'k) main_state loop_result option" where
  "main_iteration opts env st =
     (case shouldStop (mv_master env) (mn_find_topic_mode st) (mv_during env) (mn_master st)
             (fold signal_handler (mv_before env) (mn_RunState st)) (mn_SIGINTStart st) of
        None \<Rightarrow> None
      | Some (r, w, run_state, start) \<Rightarrow>
          let st = st\<lparr>mn_master := w, mn_RunState := run_state, mn_SIGINTStart := start\<rparr> in
          (case r of
             Inl e \<Rightarrow> Some (Uncaught e)
           | Inr True \<Rightarrow> Some (Loop_Left st)
           | Inr False \<Rightarrow> main_body opts env st))"

fun main_loop ::
  "main_options \<Rightarrow> ('i, 'h, 't, 'p, 'k) main_env list \<Rightarrow> ('i, 'h, 't, 'p, 'q, 'k) main_state
     \<Rightarrow> ('i, 'h, 't, 'p, 'q, 'k) main_state loop_result option" where
  "main_loop opts [] st = Some (Next st)"
| "main_loop opts (env # envs) st =
     (case main_iteration opts env st of
        Some (Next st) \<Rightarrow> main_loop opts envs st
      | r \<Rightarrow> r)"

section \<open>Shutting down\<close>

text \<open>The loop is over, or its behaviour is undefined.\<close>

fun ended :: "'s loop_result option \<Rightarrow> bool" where
  "ended (Some (Next _)) = False"
| "ended (Some (Uncaught _)) = False"
| "ended _ = True"

text \<open>The service can be stopped: a job that is not finished belongs to a writing service. This is where
  \<^verbatim>\<open>stopNow\<close> would raise.\<close>

definition stoppable :: "('i, 'h, 't, 'p, 'q, 'k) main_state \<Rightarrow> bool" where
  "stoppable st \<longleftrightarrow> (\<not> mn_find_topic_mode st \<longrightarrow>
     (\<forall>w. mn_master st = Some w \<longrightarrow> ma_CurrentStreamController w = None \<or> getCurrentState w = Writing))"

lemma writingIsFinished_state: "writingIsFinished env w = (b, w') \<Longrightarrow> getCurrentState w' = getCurrentState w"
  by (auto simp: writingIsFinished_def Let_def getCurrentState_def split: option.splits prod.splits)

lemma writingIsFinished_none: "ma_CurrentStreamController w = None \<Longrightarrow> writingIsFinished env w = (True, w)"
  by (simp add: writingIsFinished_def)

lemma body_run_state:
  "main_body opts env st = Some (Next st') \<Longrightarrow>
     mn_RunState st' = mn_RunState st \<and> mn_SIGINTStart st' = mn_SIGINTStart st"
  by (auto simp: main_body_def Let_def split: if_splits sum.splits bool.splits option.splits prod.splits)

lemma body_not_uncaught: "main_body opts env st \<noteq> Some (Uncaught e)"
  by (auto simp: main_body_def Let_def split: if_splits sum.splits bool.splits option.splits prod.splits)

lemma body_result:
  "ended (main_body opts env st) \<or> (\<exists>st'. main_body opts env st = Some (Next st') \<and>
     mn_RunState st' = mn_RunState st \<and> mn_SIGINTStart st' = mn_SIGINTStart st)"
proof (cases "main_body opts env st")
  case (Some r)
  then show ?thesis
    using body_run_state [of opts env st] body_not_uncaught [of opts env st] by (cases r) auto
qed simp

text \<open>One iteration while the service waits for its job.\<close>

lemma waiting_step:
  assumes "mn_RunState st = SIGINT_Waiting" and "mv_before env = []"
  shows "ended (main_iteration opts env st) \<or>
    (\<exists>st'. main_iteration opts env st = Some (Next st') \<and> mn_RunState st' = SIGINT_Waiting \<and>
       mn_SIGINTStart st' = mn_SIGINTStart st \<and> me_now (mv_master env) \<le> s64 (mn_SIGINTStart st + WaitForStop))"
proof (cases "me_now (mv_master env) > s64 (mn_SIGINTStart st + WaitForStop)")
  case True
  with assms show ?thesis by (simp add: main_iteration_def shouldStop_def)
next
  case late: False
  show ?thesis
  proof (cases "mn_master st")
    case None
    with assms late show ?thesis by (simp add: main_iteration_def shouldStop_def)
  next
    case (Some w)
    obtain b w' where f: "writingIsFinished (mv_master env) w = (b, w')" by fastforce
    show ?thesis
      using assms late Some f
        body_result [of opts env "st\<lparr>mn_master := Some w', mn_RunState := SIGINT_Waiting,
           mn_SIGINTStart := mn_SIGINTStart st\<rparr>"]
      by (cases b) (simp_all add: main_iteration_def shouldStop_def)
  qed
qed

lemma waiting_ends:
  assumes "mn_RunState st = SIGINT_Waiting" and "\<And>env. env \<in> set envs \<Longrightarrow> mv_before env = []"
    and "\<exists>env \<in> set envs. me_now (mv_master env) > s64 (mn_SIGINTStart st + WaitForStop)"
  shows "ended (main_loop opts envs st)"
  using assms
proof (induction envs arbitrary: st)
  case (Cons env envs)
  from waiting_step [OF Cons.prems(1), of env opts] Cons.prems(2) [of env]
  consider "ended (main_iteration opts env st)"
    | st' where "main_iteration opts env st = Some (Next st')" "mn_RunState st' = SIGINT_Waiting"
        "mn_SIGINTStart st' = mn_SIGINTStart st" "me_now (mv_master env) \<le> s64 (mn_SIGINTStart st + WaitForStop)"
    by auto
  then show ?case
  proof cases
    case 1
    then show ?thesis by (auto split: option.splits loop_result.splits)
  next
    case 2
    with Cons.prems have "ended (main_loop opts envs st')" by (intro Cons.IH) auto
    with 2(1) show ?thesis by simp
  qed
qed simp

lemma received_step:
  assumes "fold signal_handler (mv_before env) (mn_RunState st) = SIGINT_Received" and "stoppable st"
  shows "ended (main_iteration opts env st) \<or>
    (\<exists>st'. main_iteration opts env st = Some (Next st') \<and> mn_RunState st' = SIGINT_Waiting \<and>
       mn_SIGINTStart st' = me_now (mv_master env))"
proof (cases "mn_find_topic_mode st \<or> mn_master st = None")
  case True
  with assms show ?thesis by (auto simp: main_iteration_def shouldStop_def)
next
  case False
  then obtain w where w: "mn_master st = Some w" and mode: "\<not> mn_find_topic_mode st" by auto
  obtain b w' where f: "writingIsFinished (mv_master env) w = (b, w')" by fastforce
  show ?thesis
  proof (cases b)
    case True
    with assms w mode f show ?thesis by (simp add: main_iteration_def shouldStop_def)
  next
    case b: False
    with f have "ma_CurrentStreamController w \<noteq> None" using writingIsFinished_none [of w "mv_master env"]
      by (cases "ma_CurrentStreamController w") auto
    with assms(2) w mode have "getCurrentState w' = Writing"
      using writingIsFinished_state [OF f] by (simp add: stoppable_def)
    then obtain w2 where "stopNow (mv_master env) w' = (None, w2)" by (simp add: stopNow_def)
    then show ?thesis
      using assms w mode f b
        body_result [of opts env "st\<lparr>mn_master := Some w2, mn_RunState := SIGINT_Waiting,
           mn_SIGINTStart := me_now (mv_master env)\<rparr>"]
      by (simp add: main_iteration_def shouldStop_def)
  qed
qed


definition sample_main_env :: "time_point \<Rightarrow> posix_signal list
    \<Rightarrow> (unit, unit, unit, controller_task Work_Queue.task list, topic_partition list) main_env" where
  "sample_main_env now sigs =
     \<lparr>mv_master = sample_master_env\<lparr>me_now := now\<rparr>, mv_command = sample_env, mv_topics = Inr [], mv_before = sigs,
      mv_during = [], mv_tracker = ()\<rparr>"

definition sample_options :: main_options where
  "sample_options =
     \<lparr>mo_ServiceId = ''fw1'', mo_ServiceName = ''fw'', mo_job_pool_topic = ''pool'', mo_command_topic = ''commands'',
      mo_BrokerSettings = default_BrokerSettings, mo_StatusMasterInterval = 2000000000, mo_HostName = ''host'',
      mo_PID = 7, mo_app_name = ''kafka-to-nexus'', mo_app_version = ''1''\<rparr>"

definition sample_main :: "(unit, unit, unit, controller_task Work_Queue.task list, topic_task Work_Queue.task list,
    topic_partition list) main_state" where
  "sample_main =
     \<lparr>mn_RunState = Running, mn_SIGINTStart = 0, mn_find_topic_mode = False, mn_metadata_timeout = 0,
      mn_handler = sample_handler, mn_master = Some sample_writing\<rparr>"


text \<open>A \<^verbatim>\<open>SIGTERM\<close> that is delivered while \<^verbatim>\<open>shouldStop\<close> is stopping the job is overwritten, and the program keeps
  waiting.\<close>

lemma sigterm_can_be_lost:
  assumes "writingIsFinished env w = (False, w1)" and "getCurrentState w1 = Writing"
  shows "\<exists>w2. shouldStop env False [SIGTERM] (Some w) SIGINT_Received start =
    Some (Inr False, Some w2, SIGINT_Waiting, me_now env)"
  using assms by (simp add: shouldStop_def stopNow_def)

text \<open>With the job that \<open>failed_start_keeps_job\<close> leaves behind, an interrupt ends the program by an exception
  that is thrown outside of the \<^verbatim>\<open>try\<close> block.\<close>

lemma interrupt_with_orphaned_job:
  assumes "mn_RunState st = SIGINT_Received" and "mv_before env = []" and "\<not> mn_find_topic_mode st"
    and "mn_master st = Some w" and "getCurrentState w = Idle" and "writingIsFinished (mv_master env) w = (False, w1)"
  shows "\<exists>e. main_iteration opts env st = Some (Uncaught e)"
  using assms writingIsFinished_state [OF assms(6)] by (simp add: main_iteration_def shouldStop_def stopNow_def)

section \<open>The command line\<close>

definition vector_to_comma_separated_string :: "string list \<Rightarrow> exn + string" where
  "vector_to_comma_separated_string v =
     (case v of
        [] \<Rightarrow> Inl (Out_Of_Range ''vector::_M_range_check'')
      | x # xs \<Rightarrow> Inr (foldl (\<lambda>a b. a @ '','' @ b) x xs))"

text \<open>\<^verbatim>\<open>wrap_lines\<close>: the position of the last blank in a window of 50 characters becomes a line break. Without a
  blank \<^verbatim>\<open>find_last_of\<close> is \<^verbatim>\<open>npos\<close>, and the sum is one less than the start of the window; at the start of the text
  that is outside of it, here \<open>None\<close>. The first argument bounds the number of iterations.\<close>

definition find_last_blank :: "string \<Rightarrow> nat option" where
  "find_last_blank s =
     (let bs = filter (\<lambda>i. s ! i = CHR '' '') [0..<length s] in if bs = [] then None else Some (last bs))"

fun wrap_from :: "nat \<Rightarrow> nat \<Rightarrow> string \<Rightarrow> string option" where
  "wrap_from 0 beginning input = None"
| "wrap_from (Suc n) beginning input =
     (if beginning + 50 < length input then
        (case find_last_blank (take 50 (drop beginning input)) of
           Some k \<Rightarrow> wrap_from n (beginning + k) (input[beginning + k := CHR 0x0A])
         | None \<Rightarrow>
             if beginning = 0 then None else wrap_from n (beginning - 1) (input[beginning - 1 := CHR 0x0A]))
      else Some input)"

definition wrap_lines :: "nat \<Rightarrow> string \<Rightarrow> string option" where
  "wrap_lines n input = wrap_from n 0 input"

text \<open>A text whose words are shorter than 49 characters is wrapped, in at most as many iterations as it has
  characters, and nothing but blanks is replaced.\<close>

definition blanks_after :: "nat \<Rightarrow> string \<Rightarrow> bool" where
  "blanks_after b s \<longleftrightarrow> (\<forall>i. b < i \<and> i + 49 \<le> length s \<longrightarrow> (\<exists>j. i \<le> j \<and> j < i + 49 \<and> s ! j = CHR '' ''))"

definition only_blanks_replaced :: "string \<Rightarrow> string \<Rightarrow> bool" where
  "only_blanks_replaced s t \<longleftrightarrow>
     length t = length s \<and> (\<forall>i < length s. t ! i = s ! i \<or> s ! i = CHR '' '' \<and> t ! i = CHR 0x0A)"

lemma find_last_blank_Some:
  assumes "j < length s" and "s ! j = CHR '' ''"
  shows "\<exists>k. find_last_blank s = Some k \<and> j \<le> k \<and> k < length s \<and> s ! k = CHR '' ''"
proof -
  let ?bs = "filter (\<lambda>i. s ! i = CHR '' '') [0..<length s]"
  have j: "j \<in> set ?bs" using assms by simp
  then have ne: "?bs \<noteq> []" by (rule length_pos_if_in_set [THEN length_greater_0_conv [THEN iffD1]])
  then have last: "last ?bs \<in> set ?bs" by (rule last_in_set)
  have "sorted ?bs" by (rule sorted_wrt_filter) simp
  then have "sorted (butlast ?bs @ [last ?bs])" by (simp only: append_butlast_last_id [OF ne])
  moreover have "j \<in> set (butlast ?bs @ [last ?bs])" using j by (simp only: append_butlast_last_id [OF ne])
  ultimately have "j \<le> last ?bs" unfolding sorted_append by auto
  with last show ?thesis using ne by (auto simp: find_last_blank_def)
qed

lemma wrap_from_terminates:
  assumes "length input < n + b" and "blanks_after b input" and "b \<le> length input"
  shows "\<exists>t. wrap_from n b input = Some t \<and> only_blanks_replaced input t"
  using assms
proof (induction n arbitrary: b input)
  case (Suc n)
  show ?case
  proof (cases "b + 50 < length input")
    case True
    let ?w = "take 50 (drop b input)"
    obtain j where j: "b < j" "j < b + 50" "input ! j = CHR '' ''"
    proof -
      have "b < b + 1" "b + 1 + 49 \<le> length input" using True by simp_all
      then obtain j where "b + 1 \<le> j" "j < b + 1 + 49" "input ! j = CHR '' ''"
        using Suc.prems(2) unfolding blanks_after_def by blast
      then show ?thesis using that [of j] by simp
    qed
    then have "j - b < length ?w" "?w ! (j - b) = CHR '' ''" using True by auto
    from find_last_blank_Some [OF this] obtain k where k: "find_last_blank ?w = Some k" "j - b \<le> k"
      "k < length ?w" "?w ! k = CHR '' ''" by blast
    let ?in = "input[b + k := CHR 0x0A]"
    have blank: "input ! (b + k) = CHR '' ''" "b + k < length input" "0 < k" using k True j by auto
    have "blanks_after (b + k) ?in"
      unfolding blanks_after_def
    proof (intro allI impI)
      fix i assume i: "b + k < i \<and> i + 49 \<le> length ?in"
      then have "b < i" "i + 49 \<le> length input" by simp_all
      then obtain l where "i \<le> l" "l < i + 49" "input ! l = CHR '' ''"
        using Suc.prems(2) unfolding blanks_after_def by blast
      with i show "\<exists>j. i \<le> j \<and> j < i + 49 \<and> ?in ! j = CHR '' ''" by (intro exI [of _ l]) simp
    qed
    moreover have "length ?in < n + (b + k)" "b + k \<le> length ?in" using Suc.prems(1) blank by simp_all
    ultimately obtain t where t: "wrap_from n (b + k) ?in = Some t" "only_blanks_replaced ?in t"
      using Suc.IH by blast
    have "only_blanks_replaced input t"
      using t(2) blank unfolding only_blanks_replaced_def by (auto simp: nth_list_update split: if_splits)
    then show ?thesis using True k t by simp
  next
    case False
    then show ?thesis by (simp add: only_blanks_replaced_def)
  qed
qed simp

text \<open>\<^verbatim>\<open>std::stoi\<close> for base 10.\<close>

definition is_digit :: "char \<Rightarrow> bool" where
  "is_digit c \<longleftrightarrow> 48 \<le> (of_char c :: nat) \<and> (of_char c :: nat) \<le> 57"

definition stoi :: "string \<Rightarrow> exn + int" where
  "stoi s =
     (let s = dropWhile (\<lambda>c. of_char c \<in> {9, 10, 11, 12, 13, 32 :: nat}) s;
          neg = (s \<noteq> [] \<and> hd s = CHR ''-'');
          s = (if s \<noteq> [] \<and> hd s \<in> {CHR ''-'', CHR ''+''} then tl s else s);
          ds = takeWhile is_digit s;
          v = foldl (\<lambda>a c. 10 * a + (int (of_char c) - 48)) 0 ds;
          v = (if neg then - v else v) in
      if ds = [] then Inl (Std_Exception ''stoi'')
      else if v < - (2 ^ 31) \<or> v \<ge> 2 ^ 31 then Inl (Out_Of_Range ''stoi'')
      else Inr v)"

definition to_lower :: "string \<Rightarrow> string" where
  "to_lower s = map (\<lambda>c. if 65 \<le> (of_char c :: nat) \<and> (of_char c :: nat) \<le> 90 then char_of ((of_char c :: nat) + 32) else c) s"

definition string_to_level :: "(string \<times> int) list" where
  "string_to_level =
     [(''critical'', 0), (''error'', 1), (''warning'', 2), (''info'', 3), (''debug'', 4), (''trace'', 5)]"

text \<open>The new level, if the argument is accepted. Only \<^verbatim>\<open>std::invalid_argument\<close> is caught.\<close>

definition parse_log_level :: "string list \<Rightarrow> exn + int option" where
  "parse_log_level input =
     (case input of
        [s] \<Rightarrow>
          (case map_of string_to_level (to_lower s) of
             Some l \<Rightarrow> Inr (Some l)
           | None \<Rightarrow>
               (case stoi s of
                  Inl (Out_Of_Range m) \<Rightarrow> Inl (Out_Of_Range m)
                | Inl _ \<Rightarrow> Inr None
                | Inr temp_level \<Rightarrow> Inr (if temp_level < 0 \<or> temp_level > 6 then None else Some temp_level)))
      | _ \<Rightarrow> Inr None)"

lemma parse_log_level_range:
  "parse_log_level input = Inr (Some l) \<Longrightarrow> 0 \<le> l \<and> l \<le> 6"
  by (auto simp: parse_log_level_def string_to_level_def split: list.splits option.splits sum.splits exn.splits if_splits
      dest!: map_of_SomeD)

text \<open>The value 6 is accepted although there is no such level, and a number too large for \<^verbatim>\<open>int\<close> raises.\<close>

lemma parse_log_level_oddities:
  "parse_log_level [''6''] = Inr (Some 6)" "parse_log_level [''99999999999''] = Inl (Out_Of_Range ''stoi'')"
  by code_simp+

end
