(* ===== verification/Program_Options.thy ===== *)
theory Program_Options
  imports Regex_Match Metrics_Registry Service_Main
begin

text \<open>
  What the program does with its command line before it starts to work: \<^verbatim>\<open>src/URI.{h,cpp}\<close>, \<^verbatim>\<open>src/MainOpt.{h,cpp}\<close>,
  \<^verbatim>\<open>src/helper.cpp\<close>, \<^verbatim>\<open>src/HDFVersionCheck.cpp\<close>, the callbacks of the options in \<^verbatim>\<open>apps/kafka-to-nexus.cpp\<close> and the set-up of
  the metrics there. The command line library calls the callbacks with the strings it has found. The name of the host, its addresses, the process id and
  random numbers are arguments, as is \<^verbatim>\<open>std::stod\<close>.
\<close>

section \<open>Addresses\<close>

record URI =
  uri_HostPort :: string
  uri_Host :: string
  uri_Port :: int
  uri_Topic :: string

definition default_URI :: URI where
  "default_URI = \<lparr>uri_HostPort = [], uri_Host = [], uri_Port = 0, uri_Topic = []\<rparr>"

definition is_space :: "char \<Rightarrow> bool" where
  "is_space ch \<longleftrightarrow> of_char ch \<in> {9, 10, 11, 12, 13, 32 :: nat}"

definition host_char :: "char \<Rightarrow> bool" where
  "host_char ch \<longleftrightarrow> ch \<notin> {CHR ''/'', CHR ''?'', CHR ''#'', CHR '':''}"

definition topic_char :: "char \<Rightarrow> bool" where
  "topic_char ch \<longleftrightarrow>
     (let n = (of_char ch :: nat) in 97 \<le> n \<and> n \<le> 122 \<or> 65 \<le> n \<and> n \<le> 90 \<or> 48 \<le> n \<and> n \<le> 57) \<or> ch \<in> {CHR ''.'', CHR ''_'', CHR ''-''}"

definition scheme_regex :: regex where
  "scheme_regex =
     RGroup 1 (RAlt (RGroup 2 (RSeq (RGroup 3 (RPlus (RClass host_char))) (RString ''://'')))
                (RAlt (RGroup 4 (RString ''//'')) (RGroup 5 REmpty)))"

definition port_regex :: regex where
  "port_regex = RGroup 9 (RSeq (RChar (CHR '':'')) (RGroup 10 (RPlus (RClass is_digit))))"

definition host_regex :: regex where
  "host_regex = RGroup 7 (RPlus (RGroup 8 (RPlus (RClass host_char))))"

definition uri_regex :: regex where
  "uri_regex =
     RSeq (RStar (RClass is_space))
       (RSeq scheme_regex
         (RSeq (RGroup 6 (RSeq host_regex (ROpt port_regex)))
           (RSeq (ROpt (RChar (CHR ''/'')))
             (RSeq (ROpt (RGroup 11 (RPlus (RClass topic_char)))) (RStar (RClass is_space))))))"

text \<open>The object keeps what has been assigned when the conversion of the port throws.\<close>

definition URI_parse :: "string \<Rightarrow> URI \<Rightarrow> exn option \<times> URI" where
  "URI_parse URIString u =
     (if URIString = [] then (None, u)
      else case regex_match uri_regex URIString of
          None \<Rightarrow> (Some (Runtime_Error (''Unable to extract host from the URI: \"'' @ URIString @ ''\".'')), u)
        | Some Matches \<Rightarrow>
            (let u = u\<lparr>uri_HostPort := group_str Matches 6, uri_Host := group_str Matches 7\<rparr>;
                 port = (if group_matched Matches 10 then stoi (group_str Matches 10) else Inr (uri_Port u))
             in case port of
                  Inl e \<Rightarrow> (Some e, u)
                | Inr p \<Rightarrow>
                    (let u = u\<lparr>uri_Port := p mod 4294967296\<rparr>
                     in (None, if group_matched Matches 11 then u\<lparr>uri_Topic := group_str Matches 11\<rparr> else u))))"

definition getURIString :: "URI \<Rightarrow> string" where
  "getURIString u = uri_HostPort u @ ''/'' @ uri_Topic u"

text \<open>The callback of \<^verbatim>\<open>add_uri_option\<close>, which catches \<^verbatim>\<open>std::runtime_error\<close> only.\<close>

definition URI_of_string :: "string \<Rightarrow> exn + URI" where
  "URI_of_string URIString =
     (case URI_parse URIString default_URI of (Some e, u) \<Rightarrow> Inl e | (None, u) \<Rightarrow> Inr u)"

definition URI_with_topic :: "URI \<Rightarrow> string \<Rightarrow> URI" where
  "URI_with_topic Template NewTopic = Template\<lparr>uri_Topic := NewTopic\<rparr>"

definition uri_callback :: "string list \<Rightarrow> URI \<Rightarrow> (exn + bool) \<times> URI" where
  "uri_callback results u =
     (case URI_parse (hd results) u of
        (None, u) \<Rightarrow> (Inr True, u)
      | (Some e, u) \<Rightarrow> (if is_runtime_error e then Inr False else Inl e, u))"

section \<open>Durations and Kafka settings\<close>

definition duration_regex :: regex where
  "duration_regex =
     RSeq (RGroup 1 (RSeq (RPlus (RClass is_digit)) (RSeq (ROpt (RChar (CHR ''.''))) (RStar (RClass is_digit)))))
       (RSeq (ROpt (RClass is_space))
         (RStar (RGroup 2 (RAlts (map RString [''ms'', ''min'', ''m'', ''h'', ''sec'', ''s''])))))"

definition unit_factor :: "string \<Rightarrow> int option" where
  "unit_factor found_unit =
     (if found_unit = ''s'' \<or> found_unit = ''sec'' \<or> found_unit = [] then Some 1000
      else if found_unit = ''ms'' then Some 1
      else if found_unit = ''m'' \<or> found_unit = ''min'' then Some (1000 * 60)
      else if found_unit = ''h'' then Some (1000 * 60 * 60)
      else None)"

text \<open>The callback of \<^verbatim>\<open>add_duration_option\<close>. \<open>rounded x f\<close> is \<^verbatim>\<open>std::round(std::stod(x) * f)\<close>. The result
  \<open>None\<close> is the conversion of a number to an \<^verbatim>\<open>int\<close> that cannot hold it, which is undefined.\<close>

definition duration_callback ::
  "(string \<Rightarrow> int \<Rightarrow> exn + int) \<Rightarrow> string list \<Rightarrow> duration \<Rightarrow> ((exn + bool) \<times> duration) option" where
  "duration_callback rounded results value =
     (case regex_match duration_regex (hd results) of
        None \<Rightarrow> Some (Inr False, value)
      | Some match \<Rightarrow>
          (case unit_factor (group_str match 2) of
             None \<Rightarrow> Some (Inr False, value)
           | Some f \<Rightarrow>
               (case rounded (group_str match 1) f of
                  Inl e \<Rightarrow> Some (Inl e, value)
                | Inr total_milliseconds \<Rightarrow>
                    if total_milliseconds < - (2 ^ 31) \<or> total_milliseconds \<ge> 2 ^ 31 then None
                    else Some (Inr True, millis total_milliseconds))))"

fun kafka_callback :: "string list \<Rightarrow> (string \<times> string) list \<Rightarrow> (string \<times> string) list" where
  "kafka_callback (k # v # results) config_map = kafka_callback results (smap_insert k v config_map)"
| "kafka_callback _ config_map = config_map"

section \<open>Names\<close>

definition randomHexString :: "nat list \<Rightarrow> nat \<Rightarrow> string" where
  "randomHexString draws n = map (\<lambda>d. ''0123456789abcdef'' ! (d mod 16)) (take n draws)"

definition getHostName :: "string option \<Rightarrow> string" where
  "getHostName result = (case result of None \<Rightarrow> [] | Some name \<Rightarrow> take 1023 name)"

fun longest :: "string list \<Rightarrow> string option" where
  "longest [] = None"
| "longest (x # xs) = Some (foldl (\<lambda>best y. if length best < length y then y else best) x xs)"

definition getFQDN :: "string option \<Rightarrow> string option list option \<Rightarrow> string" where
  "getFQDN hostname info =
     (case info of
        None \<Rightarrow> getHostName hostname
      | Some canonnames \<Rightarrow>
          (case longest (List.map_filter id canonnames) of None \<Rightarrow> getHostName hostname | Some name \<Rightarrow> name))"

record service_names =
  so_ServiceName :: string
  so_ServiceId :: string

record identity =
  id_host :: "string option"
  id_pid :: int
  id_random :: "nat list"

definition getDefaultServiceId :: "identity \<Rightarrow> string" where
  "getDefaultServiceId i =
     ''kafka-to-nexus:'' @ getHostName (id_host i) @ ''-pid:'' @ to_string (id_pid i) @ ''-'' @ randomHexString (id_random i) 4"

definition default_service_names :: "identity \<Rightarrow> service_names" where
  "default_service_names i = \<lparr>so_ServiceName = [], so_ServiceId = getDefaultServiceId i\<rparr>"

definition setServiceName :: "identity \<Rightarrow> string \<Rightarrow> service_names \<Rightarrow> service_names" where
  "setServiceName i NewServiceName sn =
     (let sn = sn\<lparr>so_ServiceName := NewServiceName\<rparr>
      in if so_ServiceName sn = [] then sn\<lparr>so_ServiceId := getDefaultServiceId i\<rparr>
         else sn\<lparr>so_ServiceId := so_ServiceName sn @ ''-pid:'' @ to_string (id_pid i) @ ''-'' @ randomHexString (id_random i) 4\<rparr>)"

definition getServiceId :: "service_names \<Rightarrow> exn + string" where
  "getServiceId sn = (if so_ServiceId sn = [] then Inl (Runtime_Error ''Service id is empty.'') else Inr (so_ServiceId sn))"

section \<open>The check of the HDF5 version\<close>

definition H5VersionString :: "nat \<times> nat \<times> nat \<Rightarrow> string" where
  "H5VersionString v =
     (case v of (major, minor, release) \<Rightarrow> to_string (int major) @ ''.'' @ to_string (int minor) @ ''.'' @ to_string (int release))"

datatype version_log = No_Mismatch | Mismatch_Critical string string | Mismatch_Error string string

definition versionOfHDF5IsOk :: "nat \<times> nat \<times> nat \<Rightarrow> nat \<times> nat \<times> nat \<Rightarrow> bool \<times> version_log" where
  "versionOfHDF5IsOk compiled runtime =
     (case (compiled, runtime) of
        ((cmajor, cminor, crelease), (lmajor, lminor, lrelease)) \<Rightarrow>
          if lmajor \<noteq> cmajor then (False, Mismatch_Critical (H5VersionString compiled) (H5VersionString runtime))
          else if lminor \<noteq> cminor then (False, Mismatch_Critical (H5VersionString compiled) (H5VersionString runtime))
          else (True, if lrelease \<noteq> crelease then Mismatch_Error (H5VersionString compiled) (H5VersionString runtime) else No_Mismatch))"

section \<open>The set-up of the metrics\<close>

definition metric_sinks :: "URI \<Rightarrow> MetricSink list" where
  "metric_sinks GrafanaCarbonAddress =
     [LogSink] @
     (if uri_HostPort GrafanaCarbonAddress \<noteq> []
      then [CarbonSink (make_Connection (uri_Host GrafanaCarbonAddress) (uri_Port GrafanaCarbonAddress mod 65536))] else [])"

definition metric_prefix :: "string \<Rightarrow> service_names \<Rightarrow> exn + string" where
  "metric_prefix fqdn sn =
     (let fqdn = map (\<lambda>ch. if ch = CHR ''.'' then CHR ''_'' else ch) fqdn;
          path = ''kafka-to-nexus'' @ ''.'' @ fqdn
      in case (if so_ServiceName sn = [] then getServiceId sn else Inr (so_ServiceName sn)) of
           Inl e \<Rightarrow> Inl e
         | Inr component \<Rightarrow> Inr (path @ ''.'' @ component))"

definition setup_metrics :: "URI \<Rightarrow> string \<Rightarrow> service_names \<Rightarrow> exn + (metrics_world \<times> Registrar)" where
  "setup_metrics address fqdn sn =
     (let w = new_reporters (metric_sinks address)
      in case metric_prefix fqdn sn of
           Inl e \<Rightarrow> Inl e
         | Inr path \<Rightarrow> Inr (w, \<lparr>rg_Prefix = path, rg_ReporterList = [0..<length (mx_reporters w)]\<rparr>))"

section \<open>Addresses are read back\<close>

definition port_text :: "string option \<Rightarrow> string" where
  "port_text port = (case port of None \<Rightarrow> [] | Some ds \<Rightarrow> CHR '':'' # ds)"

definition topic_text :: "string option \<Rightarrow> string" where
  "topic_text topic = (case topic of None \<Rightarrow> [] | Some t \<Rightarrow> CHR ''/'' # t)"

lemma not_classes [simp]:
  "\<not> host_char (CHR '':'')" "\<not> host_char (CHR ''/'')" "\<not> is_digit (CHR ''/'')" "\<not> is_digit (CHR '':'')" "\<not> is_space (CHR ''/'')"
  "\<not> is_space (CHR '':'')"
  by (simp_all add: host_char_def is_digit_def is_space_def)

lemma first_host:
  assumes "list_all host_char h" and "h \<noteq> []" and "s = [] \<or> \<not> host_char (hd s)"
  shows "tries_first host_regex (h @ s) c s ((7, h) # (8, h) # c)"
proof -
  have "tries_first (RGroup 8 (RPlus (RClass host_char))) (h @ s) c s ((8, h) # c)"
    using assms by (intro first_group first_plus_class)
  moreover have "matches (RGroup 8 (RPlus (RClass host_char))) s ((8, h) # c) = []"
    using assms(3) by (cases s) (simp_all add: RPlus_def)
  ultimately have "tries_first (RPlus (RGroup 8 (RPlus (RClass host_char)))) (h @ s) c s ((8, h) # c)"
    unfolding RPlus_def [of "RGroup 8 _"] by (rule first_seq [OF _ first_star_none])
  then show ?thesis unfolding host_regex_def by (rule first_group)
qed

lemma first_port:
  assumes "list_all is_digit ds" and "ds \<noteq> []" and "s = [] \<or> \<not> is_digit (hd s)"
  shows "tries_first (ROpt port_regex) (port_text (Some ds) @ s) c s ((9, CHR '':'' # ds) # (10, ds) # c)"
proof -
  have "tries_first (RSeq (RChar (CHR '':'')) (RGroup 10 (RPlus (RClass is_digit)))) (CHR '':'' # ds @ s) c s ((10, ds) # c)"
    unfolding RChar_def using assms by (intro first_seq [OF first_class] first_group first_plus_class) simp_all
  then show ?thesis
    unfolding port_regex_def port_text_def
    using first_opt [OF first_group [of _ "CHR '':'' # ds" s c _ 9]] by simp
qed

lemma first_no_port:
  assumes "s = [] \<or> hd s \<noteq> CHR '':''"
  shows "tries_first (ROpt port_regex) s c s c"
  unfolding port_regex_def using assms by (intro first_opt_none group_none seq_none) (auto simp: RChar_def split: list.split)

lemma first_path:
  assumes "case topic of None \<Rightarrow> True | Some t \<Rightarrow> list_all topic_char t \<and> t \<noteq> []"
  shows "tries_first (RSeq (ROpt (RChar (CHR ''/''))) (RSeq (ROpt (RGroup 11 (RPlus (RClass topic_char)))) (RStar (RClass is_space))))
    (topic_text topic) c [] (case topic of None \<Rightarrow> c | Some t \<Rightarrow> (11, t) # c)"
proof (cases topic)
  case None
  have "tries_first (ROpt (RChar (CHR ''/''))) [] c [] c" "tries_first (ROpt (RGroup 11 (RPlus (RClass topic_char)))) [] c [] c"
    "tries_first (RStar (RClass is_space)) [] c [] c"
    by (rule first_opt_none first_star_none; simp add: RChar_def RPlus_def)+
  then show ?thesis by (simp add: None topic_text_def first_seq)
next
  case (Some t)
  have "tries_first (RGroup 11 (RPlus (RClass topic_char))) (t @ []) c [] ((11, t) # c)"
    using assms Some by (intro first_group first_plus_class) simp_all
  then have "tries_first (ROpt (RGroup 11 (RPlus (RClass topic_char)))) t c [] ((11, t) # c)" by (simp add: first_opt)
  moreover have "tries_first (ROpt (RChar (CHR ''/''))) (CHR ''/'' # t) c t c"
    unfolding RChar_def by (intro first_opt first_class) simp
  moreover have "tries_first (RStar (RClass is_space)) [] ((11, t) # c) [] ((11, t) # c)" by (intro first_star_none) simp
  ultimately show ?thesis by (simp add: Some topic_text_def first_seq)
qed

text \<open>The three forms of the beginning.\<close>

lemma first_scheme:
  assumes "list_all host_char scheme" and "scheme \<noteq> []"
  shows "\<exists>c'. tries_first scheme_regex (scheme @ ''://'' @ s) c s (c' @ c) \<and> fst ` set c' \<subseteq> {1, 2, 3, 4, 5}"
proof -
  have "tries_first (RGroup 3 (RPlus (RClass host_char))) (scheme @ ''://'' @ s) c (''://'' @ s) ((3, scheme) # c)"
    using assms by (intro first_group first_plus_class) simp_all
  then have "tries_first (RSeq (RGroup 3 (RPlus (RClass host_char))) (RString ''://'')) ((scheme @ ''://'') @ s) c s ((3, scheme) # c)"
    using first_seq first_string [of "''://''" s] by fastforce
  from first_group [OF first_alt [OF first_group [OF this]]]
  have "tries_first scheme_regex ((scheme @ ''://'') @ s) c s ((1, scheme @ ''://'') # (2, scheme @ ''://'') # (3, scheme) # c)"
    unfolding scheme_regex_def .
  then show ?thesis by (intro exI [of _ "[(1, scheme @ ''://''), (2, scheme @ ''://''), (3, scheme)]"]) simp
qed

lemma no_scheme:
  assumes "\<And>k. 0 < k \<Longrightarrow> k \<le> length (takeWhile host_char s) \<Longrightarrow> take 3 (drop k s) \<noteq> ''://''"
  shows "matches (RGroup 2 (RSeq (RGroup 3 (RPlus (RClass host_char))) (RString ''://''))) s c = []"
  using assms by (intro group_none group_plus_class_none string_none) (simp add: numeral_3_eq_3)

lemma first_slashes: "\<exists>c'. tries_first scheme_regex (''//'' @ s) c s (c' @ c) \<and> fst ` set c' \<subseteq> {1, 2, 3, 4, 5}"
proof -
  have "matches (RGroup 2 (RSeq (RGroup 3 (RPlus (RClass host_char))) (RString ''://''))) (''//'' @ s) c = []"
    by (intro no_scheme) simp
  from first_group [OF first_alt_other [OF this first_alt [OF first_group [OF first_string]]]]
  have "tries_first scheme_regex (''//'' @ s) c s ((1, ''//'') # (4, ''//'') # c)" unfolding scheme_regex_def .
  then show ?thesis by (intro exI [of _ "[(1, ''//''), (4, ''//'')]"]) simp
qed

lemma first_no_scheme:
  assumes "list_all host_char h" and "h \<noteq> []" and "s = [] \<or> \<not> host_char (hd s)" and "take 3 s \<noteq> ''://''"
  shows "\<exists>c'. tries_first scheme_regex (h @ s) c (h @ s) (c' @ c) \<and> fst ` set c' \<subseteq> {1, 2, 3, 4, 5}"
proof -
  have run: "takeWhile host_char (h @ s) = h"
    using assms(1,3) by (cases s) (auto simp: list_all_iff takeWhile_append)
  have "take 3 (drop k (h @ s)) \<noteq> ''://''" if "0 < k" "k \<le> length h" for k
  proof (cases "k = length h")
    case False
    then have "k < length h" using that by simp
    then have "drop k (h @ s) = h ! k # drop (Suc k) h @ s" "host_char (h ! k)"
      using assms(1) by (simp_all add: Cons_nth_drop_Suc [symmetric] list_all_length)
    then show ?thesis by auto
  qed (use assms(4) in simp)
  then have n2: "matches (RGroup 2 (RSeq (RGroup 3 (RPlus (RClass host_char))) (RString ''://''))) (h @ s) c = []"
    using run by (intro no_scheme) simp
  have n4: "matches (RGroup 4 (RString ''//'')) (h @ s) c = []"
    using assms(1,2) by (intro group_none string_none) (cases h; auto)
  have "tries_first (RGroup 5 REmpty) ([] @ h @ s) c (h @ s) ((5, []) # c)" by (intro first_group) (simp add: first_empty)
  then have "tries_first (RGroup 5 REmpty) (h @ s) c (h @ s) ((5, []) # c)" by simp
  from first_alt_other [OF n2 first_alt_other [OF n4 this]]
  have "tries_first scheme_regex ([] @ h @ s) c (h @ s) ((1, []) # (5, []) # c)"
    unfolding scheme_regex_def by (intro first_group) simp
  then show ?thesis by (intro exI [of _ "[(1, []), (5, [])]"]) simp
qed

lemma first_uri:
  assumes "b = [] \<or> \<not> is_space (hd b)" and "b @ s \<noteq> [] \<longrightarrow> \<not> is_space (hd (b @ s))"
    and "tries_first scheme_regex (b @ s) [] s c'" and "s = h @ port_text port @ topic_text topic"
    and "list_all host_char h" and "h \<noteq> []" and "case port of None \<Rightarrow> True | Some ds \<Rightarrow> list_all is_digit ds \<and> ds \<noteq> []"
    and "case topic of None \<Rightarrow> True | Some t \<Rightarrow> list_all topic_char t \<and> t \<noteq> []"
  shows "regex_match uri_regex (b @ s) = Some
    ((case topic of None \<Rightarrow> [] | Some t \<Rightarrow> [(11, t)]) @ (6, h @ port_text port) #
     (case port of None \<Rightarrow> [] | Some ds \<Rightarrow> [(9, CHR '':'' # ds), (10, ds)]) @ (7, h) # (8, h) # c')"
proof -
  let ?r = "port_text port @ topic_text topic" and ?c = "(7, h) # (8, h) # c'"
  let ?p = "case port of None \<Rightarrow> [] | Some ds \<Rightarrow> [(9 :: nat, CHR '':'' # ds), (10, ds)]"
  have t: "topic_text topic = [] \<or> hd (topic_text topic) = CHR ''/''" by (cases topic) (simp_all add: topic_text_def)
  then have "?r = [] \<or> \<not> host_char (hd ?r)" by (cases port) (auto simp: port_text_def)
  then have "tries_first host_regex (h @ ?r) c' ?r ?c" using assms(5,6) by (intro first_host)
  moreover have "tries_first (ROpt port_regex) ?r ?c (topic_text topic) (?p @ ?c)"
  proof (cases port)
    case None
    then show ?thesis using first_no_port [of "topic_text topic" ?c] t by (auto simp: port_text_def)
  next
    case (Some ds)
    then show ?thesis using first_port [of ds "topic_text topic" ?c] assms(7) t by auto
  qed
  ultimately have "tries_first (RSeq host_regex (ROpt port_regex)) ((h @ port_text port) @ topic_text topic) c' (topic_text topic) (?p @ ?c)"
    by (simp add: first_seq)
  note hp = first_group [OF this, of 6]
  have "tries_first (RStar (RClass is_space)) (b @ s) [] (b @ s) []"
    using assms(2) by (intro first_star_none) (cases "b @ s"; simp)
  from first_full [OF first_seq [OF this first_seq [OF assms(3)]]] show ?thesis
    unfolding uri_regex_def using first_seq [OF hp first_path [OF assms(8)]] assms(4)
    by (cases topic) simp_all
qed

text \<open>What may stand before the host: nothing, two slashes, or a scheme.\<close>

definition uri_beginning :: "string \<Rightarrow> bool" where
  "uri_beginning b \<longleftrightarrow>
     b = [] \<or> b = ''//'' \<or>
     (\<exists>scheme. b = scheme @ ''://'' \<and> scheme \<noteq> [] \<and> list_all host_char scheme \<and> \<not> is_space (hd scheme))"

lemma map_of_scheme_groups:
  assumes "fst ` set c' \<subseteq> {1, 2, 3, 4, 5 :: nat}" and "n \<notin> {1, 2, 3, 4, 5}"
  shows "map_of c' n = None"
  using assms by (auto simp: map_of_eq_None_iff)



text \<open>A port that does not fit an \<^verbatim>\<open>int\<close> raises an exception that the callback does not catch, after host and \<open>host:port\<close> have
  been assigned.\<close>

lemma uri_port_too_large:
  "uri_callback [''a:99999999999''] default_URI = (Inl (Out_Of_Range ''stoi''), default_URI\<lparr>uri_HostPort := ''a:99999999999'', uri_Host := ''a''\<rparr>)"
  by code_simp

section \<open>Durations\<close>

definition unit_regex :: regex where
  "unit_regex = RGroup 2 (RAlts (map RString [''ms'', ''min'', ''m'', ''h'', ''sec'', ''s'']))"

lemma first_unit:
  assumes "un \<in> {[], ''s'', ''sec'', ''ms'', ''m'', ''min'', ''h''}"
  shows "tries_first (RStar unit_regex) un c [] (if un = [] then c else (2, un) # c)"
  using assms
  by (auto simp: tries_first_def star_unfold unit_regex_def RAlts_def RString_def RChar_def)

text \<open>A duration is a number, with or without a fraction, followed by a unit; without a unit it counts seconds. The option is set to
  the number of milliseconds rounded to the nearest, if an \<^verbatim>\<open>int\<close> can hold it.\<close>

theorem duration_units:
  assumes "list_all is_digit ds" and "ds \<noteq> []" and "list_all is_digit fraction"
    and "number = ds @ (if fraction = [] then [] else CHR ''.'' # fraction)"
    and "map_of [([], 1000), (''s'', 1000), (''sec'', 1000), (''ms'', 1), (''m'', 60000), (''min'', 60000), (''h'', 3600000)] un = Some f"
    and "rounded number f = Inr ms" and "0 \<le> ms" and "ms < 2 ^ 31"
  shows "duration_callback rounded [number @ un] value = Some (Inr True, 1000000 * ms)"
proof -
  have un: "un \<in> {[], ''s'', ''sec'', ''ms'', ''m'', ''min'', ''h''}" "unit_factor un = Some f"
    using assms(5) by (auto simp: unit_factor_def split: if_splits)
  then have hd: "un = [] \<or> \<not> is_digit (hd un) \<and> hd un \<noteq> CHR ''.'' \<and> \<not> is_space (hd un)" by (auto simp: is_digit_def is_space_def)
  have "tries_first (RSeq (RPlus (RClass is_digit)) (RSeq (ROpt (RChar (CHR ''.''))) (RStar (RClass is_digit)))) (number @ un) [] un []"
  proof (cases "fraction = []")
    case True
    have "tries_first (RPlus (RClass is_digit)) (ds @ un) [] un []" using assms(1,2) hd by (intro first_plus_class) auto
    moreover have "tries_first (ROpt (RChar (CHR ''.''))) un [] un []"
      using hd unfolding RChar_def by (intro first_opt_none class_none) auto
    moreover have "tries_first (RStar (RClass is_digit)) un [] un []" using hd by (intro first_star_none class_none) auto
    ultimately show ?thesis using True assms(4) by (simp add: first_seq)
  next
    case False
    have "tries_first (RPlus (RClass is_digit)) (ds @ CHR ''.'' # fraction @ un) [] (CHR ''.'' # fraction @ un) []"
      using assms(1,2) by (intro first_plus_class) (simp_all add: is_digit_def)
    moreover have "tries_first (ROpt (RChar (CHR ''.''))) (CHR ''.'' # fraction @ un) [] (fraction @ un) []"
      unfolding RChar_def by (intro first_opt first_class) simp
    moreover have "tries_first (RStar (RClass is_digit)) (fraction @ un) [] un []" using assms(3) hd by (intro first_star_class) auto
    ultimately show ?thesis using False assms(4) by (simp add: first_seq)
  qed
  note n = first_group [OF this, of 1]
  have "tries_first (ROpt (RClass is_space)) un [(1, number)] un [(1, number)]" using hd by (intro first_opt_none class_none) auto
  from first_full [OF first_seq [OF n first_seq [OF this first_unit [OF un(1)]]]]
  have "regex_match duration_regex (number @ un) = Some (if un = [] then [(1, number)] else [(2, un), (1, number)])"
    unfolding duration_regex_def unit_regex_def .
  moreover have "millis ms = 1000000 * ms" using assms(7,8) by (simp add: millis_def s64_id)
  ultimately show ?thesis
    using un(2) assms(6-8) by (cases "un = []") (simp_all add: duration_callback_def group_str_def)
qed

theorem duration_units_witness:
  "duration_callback (\<lambda>x f. Inr (if x = ''1.5'' then (3 * f) div 2 else 0)) [''1.5min''] 0 = Some (Inr True, 90000000000)"
  using duration_units [of "''1''" "''5''" "''1.5''" "''min''" 60000 "\<lambda>x f. Inr (if x = ''1.5'' then (3 * f) div 2 else 0)" 90000 0]
  by (simp add: is_digit_def)

text \<open>Units may follow each other, and the last one counts; an hour count of five hundred and ninety-seven overflows.\<close>

lemma duration_oddities:
  "duration_callback (\<lambda>x f. Inr f) [''1hms''] 0 = Some (Inr True, 1000000)"
  "duration_callback (\<lambda>x f. Inr (597 * f)) [''597h''] 0 = None"
  by code_simp+

end
