(* ===== verification/Command_Line.thy ===== *)
theory Command_Line
  imports Program_Options
begin

text \<open>
  The options of \<^verbatim>\<open>apps/kafka-to-nexus.cpp\<close>, the struct \<^verbatim>\<open>MainOpt\<close> they fill, and the start of \<^verbatim>\<open>main\<close> up to the run
  loop. The command line library, CLI11, is the list of calls it makes, each an option with the strings it has found for it, and
  its verdict on the command line as a whole; a callback that returns false ends the parse with an error. \<^verbatim>\<open>main\<close> parses the command line twice, the first
  time only to look for the version flag.
\<close>

section \<open>The options\<close>

record MainOpt =
  opt_names :: service_names
  opt_StreamerConfiguration :: StreamerOptions
  opt_PrintVersion :: bool
  opt_LoggingLevel :: int
  opt_GrafanaCarbonAddress :: URI
  opt_command_topic :: string
  opt_job_pool_topic :: string
  opt_HDFOutputPrefix :: string
  opt_HDFTemplatePrefix :: string
  opt_StatusMasterInterval :: duration
  opt_brokers :: "string list"

definition default_MainOpt :: "identity \<Rightarrow> string \<Rightarrow> MainOpt" where
  "default_MainOpt i current_path =
     \<lparr>opt_names = default_service_names i, opt_StreamerConfiguration = default_StreamerOptions, opt_PrintVersion = False,
      opt_LoggingLevel = 3, opt_GrafanaCarbonAddress = default_URI, opt_command_topic = [], opt_job_pool_topic = [],
      opt_HDFOutputPrefix = current_path, opt_HDFTemplatePrefix = current_path, opt_StatusMasterInterval = millis 2000,
      opt_brokers = []\<rparr>"

datatype text_option = Command_Status_Topic | Job_Pool_Topic | Hdf_Output_Prefix | Hdf_Template_Prefix

datatype duration_option =
    Status_Master_Interval | Time_Before_Start | Time_After_Stop | Kafka_Metadata_Max_Timeout | Kafka_Error_Timeout
  | Kafka_Poll_Timeout | Data_Flush_Interval

datatype cli_option =
    Version_Flag
  | Brokers
  | Text_Option text_option
  | Grafana_Carbon_Address
  | Verbosity
  | Max_Queued_Writes
  | Service_Name
  | Duration_Option duration_option
  | Kafka_Config

text \<open>The name of each option on the command line.\<close>

fun option_name :: "cli_option \<Rightarrow> string" where
  "option_name Version_Flag = ''--version''"
| "option_name Brokers = ''--brokers''"
| "option_name (Text_Option Command_Status_Topic) = ''--command-status-topic''"
| "option_name (Text_Option Job_Pool_Topic) = ''--job-pool-topic''"
| "option_name (Text_Option Hdf_Output_Prefix) = ''--hdf-output-prefix''"
| "option_name (Text_Option Hdf_Template_Prefix) = ''--hdf-template-prefix''"
| "option_name Grafana_Carbon_Address = ''--grafana-carbon-address''"
| "option_name Verbosity = ''--verbosity''"
| "option_name Max_Queued_Writes = ''--max-queued-writes''"
| "option_name Service_Name = ''--service-name''"
| "option_name (Duration_Option Status_Master_Interval) = ''--status-master-interval''"
| "option_name (Duration_Option Time_Before_Start) = ''--time-before-start''"
| "option_name (Duration_Option Time_After_Stop) = ''--time-after-stop''"
| "option_name (Duration_Option Kafka_Metadata_Max_Timeout) = ''--kafka-metadata-max-timeout''"
| "option_name (Duration_Option Kafka_Error_Timeout) = ''--kafka-error-timeout''"
| "option_name (Duration_Option Kafka_Poll_Timeout) = ''--kafka-poll-timeout''"
| "option_name (Duration_Option Data_Flush_Interval) = ''--data-flush-interval''"
| "option_name Kafka_Config = ''--kafka-config''"

section \<open>Where the values go\<close>

definition change_config :: "(StreamerOptions \<Rightarrow> StreamerOptions) \<Rightarrow> MainOpt \<Rightarrow> MainOpt" where
  "change_config f opts = opts\<lparr>opt_StreamerConfiguration := f (opt_StreamerConfiguration opts)\<rparr>"

definition change_settings :: "(BrokerSettings \<Rightarrow> BrokerSettings) \<Rightarrow> MainOpt \<Rightarrow> MainOpt" where
  "change_settings f = change_config (\<lambda>s. s\<lparr>so_BrokerSettings := f (so_BrokerSettings s)\<rparr>)"

abbreviation settings :: "MainOpt \<Rightarrow> BrokerSettings" where
  "settings opts \<equiv> so_BrokerSettings (opt_StreamerConfiguration opts)"

fun get_text :: "text_option \<Rightarrow> MainOpt \<Rightarrow> string" where
  "get_text Command_Status_Topic = opt_command_topic"
| "get_text Job_Pool_Topic = opt_job_pool_topic"
| "get_text Hdf_Output_Prefix = opt_HDFOutputPrefix"
| "get_text Hdf_Template_Prefix = opt_HDFTemplatePrefix"

fun set_text :: "text_option \<Rightarrow> string \<Rightarrow> MainOpt \<Rightarrow> MainOpt" where
  "set_text Command_Status_Topic v opts = opts\<lparr>opt_command_topic := v\<rparr>"
| "set_text Job_Pool_Topic v opts = opts\<lparr>opt_job_pool_topic := v\<rparr>"
| "set_text Hdf_Output_Prefix v opts = opts\<lparr>opt_HDFOutputPrefix := v\<rparr>"
| "set_text Hdf_Template_Prefix v opts = opts\<lparr>opt_HDFTemplatePrefix := v\<rparr>"

fun get_duration :: "duration_option \<Rightarrow> MainOpt \<Rightarrow> duration" where
  "get_duration Status_Master_Interval opts = opt_StatusMasterInterval opts"
| "get_duration Time_Before_Start opts = so_BeforeStartTime (opt_StreamerConfiguration opts)"
| "get_duration Time_After_Stop opts = so_AfterStopTime (opt_StreamerConfiguration opts)"
| "get_duration Kafka_Metadata_Max_Timeout opts = bs_MaxMetadataTimeout (settings opts)"
| "get_duration Kafka_Error_Timeout opts = bs_KafkaErrorTimeout (settings opts)"
| "get_duration Kafka_Poll_Timeout opts = bs_PollTimeout (settings opts)"
| "get_duration Data_Flush_Interval opts = so_DataFlushInterval (opt_StreamerConfiguration opts)"

fun set_duration :: "duration_option \<Rightarrow> duration \<Rightarrow> MainOpt \<Rightarrow> MainOpt" where
  "set_duration Status_Master_Interval v opts = opts\<lparr>opt_StatusMasterInterval := v\<rparr>"
| "set_duration Time_Before_Start v opts = change_config (\<lambda>s. s\<lparr>so_BeforeStartTime := v\<rparr>) opts"
| "set_duration Time_After_Stop v opts = change_config (\<lambda>s. s\<lparr>so_AfterStopTime := v\<rparr>) opts"
| "set_duration Kafka_Metadata_Max_Timeout v opts = change_settings (\<lambda>b. b\<lparr>bs_MaxMetadataTimeout := v\<rparr>) opts"
| "set_duration Kafka_Error_Timeout v opts = change_settings (\<lambda>b. b\<lparr>bs_KafkaErrorTimeout := v\<rparr>) opts"
| "set_duration Kafka_Poll_Timeout v opts = change_settings (\<lambda>b. b\<lparr>bs_PollTimeout := v\<rparr>) opts"
| "set_duration Data_Flush_Interval v opts = change_config (\<lambda>s. s\<lparr>so_DataFlushInterval := v\<rparr>) opts"

section \<open>The callbacks\<close>

text \<open>The library converts the text of \<^verbatim>\<open>--max-queued-writes\<close> and rounds numbers.\<close>

record cli_env =
  ce_size :: "string \<Rightarrow> nat option"
  ce_rounded :: "string \<Rightarrow> int \<Rightarrow> exn + int"

fun option_callback ::
  "cli_env \<Rightarrow> identity \<Rightarrow> cli_option \<Rightarrow> string list \<Rightarrow> MainOpt \<Rightarrow> ((exn + bool) \<times> MainOpt) option" where
  "option_callback env i Version_Flag results opts = Some (Inr True, opts\<lparr>opt_PrintVersion := True\<rparr>)"
| "option_callback env i Brokers results opts = Some (Inr True, opts\<lparr>opt_brokers := results\<rparr>)"
| "option_callback env i (Text_Option t) results opts =
     (if results = [] then None else Some (Inr True, set_text t (hd results) opts))"
| "option_callback env i Grafana_Carbon_Address results opts =
     (if results = [] then None
      else let (r, u) = uri_callback results (opt_GrafanaCarbonAddress opts) in Some (r, opts\<lparr>opt_GrafanaCarbonAddress := u\<rparr>))"
| "option_callback env i Verbosity results opts =
     (case parse_log_level results of
        Inl e \<Rightarrow> Some (Inl e, opts)
      | Inr None \<Rightarrow> Some (Inr False, opts)
      | Inr (Some level) \<Rightarrow> Some (Inr True, opts\<lparr>opt_LoggingLevel := level\<rparr>))"
| "option_callback env i Max_Queued_Writes results opts =
     (if results = [] then None
      else case ce_size env (hd results) of
        None \<Rightarrow> Some (Inr False, opts)
      | Some n \<Rightarrow> Some (Inr True, change_config (\<lambda>s. s\<lparr>so_MaxQueuedWrites := n\<rparr>) opts))"
| "option_callback env i Service_Name results opts =
     (if results = [] then None
      else Some (Inr True, opts\<lparr>opt_names := setServiceName i (last results) (opt_names opts)\<rparr>))"
| "option_callback env i (Duration_Option d) results opts =
     (if results = [] then None
      else case duration_callback (ce_rounded env) results (get_duration d opts) of
        None \<Rightarrow> None
      | Some (r, v) \<Rightarrow> Some (r, set_duration d v opts))"
| "option_callback env i Kafka_Config results opts =
     Some (Inr True,
       change_settings (\<lambda>b. b\<lparr>bs_KafkaConfiguration := kafka_callback results (bs_KafkaConfiguration b)\<rparr>) opts)"

text \<open>A pass over the command line.\<close>

fun run_callbacks ::
  "cli_env \<Rightarrow> identity \<Rightarrow> (cli_option \<times> string list) list \<Rightarrow> MainOpt \<Rightarrow> ((exn + bool) \<times> MainOpt) option" where
  "run_callbacks env i [] opts = Some (Inr True, opts)"
| "run_callbacks env i ((op, results) # calls) opts =
     (case option_callback env i op results opts of
        Some (Inr True, opts) \<Rightarrow> run_callbacks env i calls opts
      | r \<Rightarrow> r)"

section \<open>The start of main\<close>

datatype startup =
    Terminated exn
  | Printed_Version
  | Parse_Error
  | Wrong_HDF5_Version
  | Started MainOpt metrics_world Registrar

text \<open>What follows when the options have been read: the version check, the set-up of the metrics and the address of the brokers.\<close>

definition finish_startup :: "(nat \<times> nat \<times> nat) \<times> (nat \<times> nat \<times> nat) \<Rightarrow> string \<Rightarrow> MainOpt \<Rightarrow> startup" where
  "finish_startup versions fqdn opts =
     (if \<not> fst (versionOfHDF5IsOk (fst versions) (snd versions)) then Wrong_HDF5_Version
      else
        (case setup_metrics (opt_GrafanaCarbonAddress opts) fqdn (opt_names opts) of
           Inl e \<Rightarrow> Terminated e
         | Inr (w, registrar) \<Rightarrow>
             (case vector_to_comma_separated_string (opt_brokers opts) of
                Inl e \<Rightarrow> Terminated e
              | Inr address \<Rightarrow> Started (change_settings (\<lambda>b. b\<lparr>bs_Address := address\<rparr>) opts) w registrar)))"

definition main_startup ::
  "cli_env \<Rightarrow> identity \<times> identity \<Rightarrow> (cli_option \<times> string list) list \<Rightarrow> bool \<Rightarrow> (nat \<times> nat \<times> nat) \<times> (nat \<times> nat \<times> nat) \<Rightarrow> string
     \<Rightarrow> MainOpt \<Rightarrow> startup option" where
  "main_startup env ids calls accepts versions fqdn opts =
     (case run_callbacks env (fst ids) calls opts of
        None \<Rightarrow> None
      | Some (Inl e, opts) \<Rightarrow> Some (Terminated e)
      | Some (Inr _, opts) \<Rightarrow>
          if opt_PrintVersion opts then Some Printed_Version
          else
            (case run_callbacks env (snd ids) calls opts of
               None \<Rightarrow> None
             | Some (Inl e, opts) \<Rightarrow> Some (Terminated e)
             | Some (Inr parsed, opts) \<Rightarrow>
                 if \<not> parsed \<or> \<not> accepts then Some Parse_Error else Some (finish_startup versions fqdn opts)))"

section \<open>Fields do not interfere\<close>

lemma get_set_text [simp]: "get_text t (set_text t' v opts) = (if t = t' then v else get_text t opts)"
  by (cases t; cases t') simp_all

lemma get_set_duration [simp]: "get_duration d (set_duration d' v opts) = (if d = d' then v else get_duration d opts)"
  by (cases d; cases d') (simp_all add: change_config_def change_settings_def)

lemma set_text_same [simp]: "set_text t (get_text t opts) opts = opts"
  by (cases t) simp_all

lemma set_duration_same [simp]: "set_duration d (get_duration d opts) opts = opts"
  by (cases d) (simp_all add: change_config_def change_settings_def)

lemma text_frame [simp]:
  "get_text t (opts\<lparr>opt_names := n\<rparr>) = get_text t opts" "get_text t (opts\<lparr>opt_PrintVersion := b\<rparr>) = get_text t opts"
  "get_text t (opts\<lparr>opt_LoggingLevel := l\<rparr>) = get_text t opts" "get_text t (opts\<lparr>opt_GrafanaCarbonAddress := u\<rparr>) = get_text t opts"
  "get_text t (opts\<lparr>opt_brokers := bs\<rparr>) = get_text t opts" "get_text t (change_config f opts) = get_text t opts"
  "get_text t (set_duration d v opts) = get_text t opts"
  by (cases t; cases d; simp add: change_config_def change_settings_def)+

lemma duration_frame [simp]:
  "get_duration d (opts\<lparr>opt_names := n\<rparr>) = get_duration d opts" "get_duration d (opts\<lparr>opt_PrintVersion := b\<rparr>) = get_duration d opts"
  "get_duration d (opts\<lparr>opt_LoggingLevel := l\<rparr>) = get_duration d opts"
  "get_duration d (opts\<lparr>opt_GrafanaCarbonAddress := u\<rparr>) = get_duration d opts"
  "get_duration d (opts\<lparr>opt_brokers := bs\<rparr>) = get_duration d opts" "get_duration d (set_text t v opts) = get_duration d opts"
  "get_duration d (change_config (\<lambda>s. s\<lparr>so_MaxQueuedWrites := k\<rparr>) opts) = get_duration d opts"
  "get_duration d (change_settings (\<lambda>b. b\<lparr>bs_KafkaConfiguration := g b\<rparr>) opts) = get_duration d opts"
  by (cases d; cases t; simp add: change_config_def change_settings_def)+

lemma set_text_frame [simp]:
  "opt_names (set_text t v opts) = opt_names opts" "opt_PrintVersion (set_text t v opts) = opt_PrintVersion opts"
  "opt_LoggingLevel (set_text t v opts) = opt_LoggingLevel opts"
  "opt_GrafanaCarbonAddress (set_text t v opts) = opt_GrafanaCarbonAddress opts"
  "opt_brokers (set_text t v opts) = opt_brokers opts"
  "opt_StreamerConfiguration (set_text t v opts) = opt_StreamerConfiguration opts"
  by (cases t; simp)+

lemma set_duration_frame [simp]:
  "opt_names (set_duration d v opts) = opt_names opts" "opt_PrintVersion (set_duration d v opts) = opt_PrintVersion opts"
  "opt_LoggingLevel (set_duration d v opts) = opt_LoggingLevel opts"
  "opt_GrafanaCarbonAddress (set_duration d v opts) = opt_GrafanaCarbonAddress opts"
  "opt_brokers (set_duration d v opts) = opt_brokers opts"
  "so_MaxQueuedWrites (opt_StreamerConfiguration (set_duration d v opts)) = so_MaxQueuedWrites (opt_StreamerConfiguration opts)"
  "bs_KafkaConfiguration (settings (set_duration d v opts)) = bs_KafkaConfiguration (settings opts)"
  by (cases d; simp add: change_config_def change_settings_def)+

lemma change_frame [simp]:
  "opt_names (change_config f opts) = opt_names opts" "opt_PrintVersion (change_config f opts) = opt_PrintVersion opts"
  "opt_LoggingLevel (change_config f opts) = opt_LoggingLevel opts"
  "opt_GrafanaCarbonAddress (change_config f opts) = opt_GrafanaCarbonAddress opts"
  "opt_brokers (change_config f opts) = opt_brokers opts"
  "opt_StreamerConfiguration (change_config f opts) = f (opt_StreamerConfiguration opts)"
  by (simp_all add: change_config_def)

lemma change_settings_frame [simp]:
  "settings (change_settings f opts) = f (settings opts)" "opt_names (change_settings f opts) = opt_names opts"
  "opt_PrintVersion (change_settings f opts) = opt_PrintVersion opts" "opt_LoggingLevel (change_settings f opts) = opt_LoggingLevel opts"
  "opt_GrafanaCarbonAddress (change_settings f opts) = opt_GrafanaCarbonAddress opts"
  "opt_brokers (change_settings f opts) = opt_brokers opts" "get_text t (change_settings f opts) = get_text t opts"
  "so_MaxQueuedWrites (opt_StreamerConfiguration (change_settings f opts)) = so_MaxQueuedWrites (opt_StreamerConfiguration opts)"
  by (simp_all add: change_settings_def)

section \<open>Callbacks that are called again\<close>

lemma smap_ext:
  assumes "smap_ok m" and "smap_ok m'" and "map_of m = map_of m'"
  shows "m = m'"
proof -
  have keys: "fst ` set m = fst ` set m'" using assms(3) by (metis dom_map_of_conv_image_fst)
  note smap_ok_entries [OF assms(1)]
  also have "map (\<lambda>k. (k, the (map_of m k))) (sorted_list_of_set (fst ` set m)) =
    map (\<lambda>k. (k, the (map_of m' k))) (sorted_list_of_set (fst ` set m'))" by (simp only: keys assms(3))
  also note smap_ok_entries [OF assms(2), symmetric]
  finally show ?thesis .
qed

lemma kafka_callback_ok: "smap_ok m \<Longrightarrow> smap_ok (kafka_callback results m)"
  by (induction results m rule: kafka_callback.induct) (simp_all add: smap_ok_insert)

lemma kafka_callback_map: "map_of (kafka_callback results m) = map_of m ++ map_of (kafka_callback results [])"
proof (induction "length results" arbitrary: results m rule: less_induct)
  case less
  show ?case
  proof (cases "(results, m)" rule: kafka_callback.cases)
    case (1 k v rest m')
    have "map_of (smap_insert k v m) = map_of m ++ map_of [(k, v)]" by (simp add: map_of_smap_insert fun_eq_iff)
    then show ?thesis using 1 less [of rest "smap_insert k v m"] less [of rest "[(k, v)]"] by simp
  qed auto
qed

lemma kafka_callback_again:
  assumes "smap_ok m"
  shows "kafka_callback results (kafka_callback results m) = kafka_callback results m"
  using assms kafka_callback_map [of results "kafka_callback results m"] kafka_callback_map [of results m]
  by (intro smap_ext) (simp_all add: kafka_callback_ok map_add_def fun_eq_iff split: option.split)

lemma URI_parse_again: "URI_parse s u = (None, u') \<Longrightarrow> URI_parse s u' = (None, u')"
  by (auto simp: URI_parse_def Let_def split: if_splits option.splits sum.splits)

lemma uri_callback_again: "uri_callback results u = (Inr True, u') \<Longrightarrow> uri_callback results u' = (Inr True, u')"
  using URI_parse_again by (auto simp: uri_callback_def split: prod.splits option.splits if_splits)

lemma duration_callback_again:
  "duration_callback rounded results v = Some (Inr True, v') \<Longrightarrow> duration_callback rounded results w = Some (Inr True, v')"
  by (auto simp: duration_callback_def split: option.splits sum.splits if_splits)

text \<open>A callback has settled when the options have the values that it sets.\<close>

fun settled :: "cli_env \<Rightarrow> cli_option \<Rightarrow> string list \<Rightarrow> MainOpt \<Rightarrow> bool" where
  "settled env Version_Flag results opts \<longleftrightarrow> opt_PrintVersion opts"
| "settled env Brokers results opts \<longleftrightarrow> opt_brokers opts = results"
| "settled env (Text_Option t) results opts \<longleftrightarrow> results \<noteq> [] \<and> get_text t opts = hd results"
| "settled env Grafana_Carbon_Address results opts \<longleftrightarrow>
     results \<noteq> [] \<and> uri_callback results (opt_GrafanaCarbonAddress opts) = (Inr True, opt_GrafanaCarbonAddress opts)"
| "settled env Verbosity results opts \<longleftrightarrow> parse_log_level results = Inr (Some (opt_LoggingLevel opts))"
| "settled env Max_Queued_Writes results opts \<longleftrightarrow>
     results \<noteq> [] \<and> ce_size env (hd results) = Some (so_MaxQueuedWrites (opt_StreamerConfiguration opts))"
| "settled env Service_Name results opts \<longleftrightarrow> results \<noteq> [] \<and> so_ServiceName (opt_names opts) = last results"
| "settled env (Duration_Option d) results opts \<longleftrightarrow>
     results \<noteq> [] \<and> duration_callback (ce_rounded env) results (get_duration d opts) = Some (Inr True, get_duration d opts)"
| "settled env Kafka_Config results opts \<longleftrightarrow>
     kafka_callback results (bs_KafkaConfiguration (settings opts)) = bs_KafkaConfiguration (settings opts)"

abbreviation config_ok :: "MainOpt \<Rightarrow> bool" where
  "config_ok opts \<equiv> smap_ok (bs_KafkaConfiguration (settings opts))"

lemma callback_settles:
  assumes "option_callback env i op results opts = Some (Inr True, opts')" and "config_ok opts"
  shows "settled env op results opts'" and "config_ok opts'"
proof -
  show "config_ok opts'" using assms by (cases op)
    (auto simp: kafka_callback_ok split: if_splits option.splits sum.splits prod.splits)
  show "settled env op results opts'" using assms
    by (cases op) (auto simp: kafka_callback_again setServiceName_def Let_def split: if_splits option.splits sum.splits prod.splits
      dest: uri_callback_again duration_callback_again)
qed

lemma settled_frame:
  assumes "option_callback env i op' results' opts = Some (Inr True, opts')" and "op \<noteq> op'" and "settled env op results opts"
  shows "settled env op results opts'"
  using assms by (cases op'; cases op) (auto split: if_splits option.splits sum.splits prod.splits)

lemma run_callbacks_keeps:
  assumes "run_callbacks env i calls opts = Some (Inr True, opts')" and "settled env op results opts" and "op \<notin> fst ` set calls"
  shows "settled env op results opts'"
  using assms
proof (induction calls arbitrary: opts)
  case (Cons call calls)
  obtain op' results' where c: "call = (op', results')" by (cases call)
  obtain opts1 where o: "option_callback env i op' results' opts = Some (Inr True, opts1)"
    "run_callbacks env i calls opts1 = Some (Inr True, opts')"
    using Cons.prems(1) c by (auto split: option.splits sum.splits bool.splits)
  then show ?case using settled_frame [OF o(1) _ Cons.prems(2)] Cons.IH [of opts1] Cons.prems(3) c by auto
qed simp

lemma first_pass_settles:
  assumes "run_callbacks env i calls opts = Some (Inr True, opts')" and "distinct (map fst calls)" and "config_ok opts"
  shows "(op, results) \<in> set calls \<Longrightarrow> settled env op results opts'"
  using assms
proof (induction calls arbitrary: opts)
  case (Cons call calls)
  obtain op' results' where c: "call = (op', results')" by (cases call)
  obtain opts1 where o: "option_callback env i op' results' opts = Some (Inr True, opts1)"
    "run_callbacks env i calls opts1 = Some (Inr True, opts')"
    using Cons.prems(2) c by (auto split: option.splits sum.splits bool.splits)
  note s = callback_settles [OF o(1) Cons.prems(4)]
  show ?case
    using Cons.prems(1,3) c run_callbacks_keeps [OF o(2) s(1)] Cons.IH [of opts1] o(2) s(2) by auto
qed simp

lemma settled_names:
  "so_ServiceName n = so_ServiceName (opt_names opts) \<Longrightarrow> settled env op results (opts\<lparr>opt_names := n\<rparr>) = settled env op results opts"
  by (cases op) simp_all

lemma settled_again:
  assumes "settled env op results opts"
  shows "\<exists>n. option_callback env i op results opts = Some (Inr True, opts\<lparr>opt_names := n\<rparr>) \<and>
    so_ServiceName n = so_ServiceName (opt_names opts)"
proof (cases op)
  case Service_Name
  then show ?thesis using assms by (auto simp: setServiceName_def Let_def)
next
  case (Text_Option t)
  then show ?thesis using assms set_text_same [of t opts] by (intro exI [of _ "opt_names opts"]) (simp del: set_text_same)
qed (use assms in \<open>auto simp: change_config_def change_settings_def intro!: exI [of _ "opt_names opts"]\<close>)

lemma second_pass_settled:
  assumes "\<And>op results. (op, results) \<in> set calls \<Longrightarrow> settled env op results opts"
  shows "\<exists>n. run_callbacks env i calls opts = Some (Inr True, opts\<lparr>opt_names := n\<rparr>) \<and>
    so_ServiceName n = so_ServiceName (opt_names opts)"
  using assms
proof (induction calls arbitrary: opts)
  case Nil
  show ?case by (intro exI [of _ "opt_names opts"]) simp
next
  case (Cons call calls)
  obtain op results where c: "call = (op, results)" by (cases call)
  obtain n where n: "option_callback env i op results opts = Some (Inr True, opts\<lparr>opt_names := n\<rparr>)"
    "so_ServiceName n = so_ServiceName (opt_names opts)"
    using settled_again [of env op results opts i] Cons.prems [of op results] c by auto
  with Cons.IH [of "opts\<lparr>opt_names := n\<rparr>"] Cons.prems show ?case by (auto simp: c settled_names)
qed

text \<open>Whether a callback accepts its strings does not depend on the options.\<close>

lemma uri_verdict: "fst (uri_callback results u) = fst (uri_callback results u')"
  by (auto simp: uri_callback_def URI_parse_def Let_def split: option.splits sum.splits)

lemma duration_verdict: "map_option fst (duration_callback rounded results v) = map_option fst (duration_callback rounded results v')"
  by (auto simp: duration_callback_def split: option.splits sum.splits)

lemma callback_verdict:
  "map_option fst (option_callback env i op results opts) = map_option fst (option_callback env j op results opts')"
proof (cases op)
  case (Duration_Option d)
  then show ?thesis using duration_verdict [of "ce_rounded env" results "get_duration d opts" "get_duration d opts'"]
    by (auto split: option.splits)
qed (auto simp: case_prod_beta uri_verdict [of results "opt_GrafanaCarbonAddress opts" "opt_GrafanaCarbonAddress opts'"]
      split: option.splits sum.splits)

lemma run_verdict: "map_option fst (run_callbacks env i calls opts) = map_option fst (run_callbacks env j calls opts')"
proof (induction calls arbitrary: opts opts')
  case (Cons call calls)
  obtain op results where c: "call = (op, results)" by (cases call)
  show ?case using callback_verdict [of env i op results opts j opts'] Cons.IH
    by (cases "option_callback env i op results opts"; cases "option_callback env j op results opts'")
      (auto simp: c split: sum.splits bool.splits)
qed simp


definition sample_identity :: identity where
  "sample_identity = \<lparr>id_host = None, id_pid = 7, id_random = [1, 2, 3, 4]\<rparr>"

definition sample_calls :: "(cli_option \<times> string list) list" where
  "sample_calls = [(Brokers, [''broker:9092'']), (Verbosity, [''Debug'']), (Service_Name, [''writer''])]"

lemma default_config_ok: "config_ok (default_MainOpt i path)"
proof -
  have "smap_ok (bs_KafkaConfiguration default_BrokerSettings)" by code_simp
  then show ?thesis by (simp add: default_MainOpt_def default_StreamerOptions_def)
qed


end
