(* ===== verification/Task_File.thy ===== *)
theory Task_File
  imports Hdf_File File_Writer_Task Time_Utility
begin

text \<open>
  The operations of \<^verbatim>\<open>src/FileWriterTask.cpp\<close> that pass on to the file, over the model of \<^verbatim>\<open>HDFFile\<close>: the
  task holds the file in a pointer that is null until \<^verbatim>\<open>InitialiseHdf\<close> has succeeded, and most of them dereference it without a
  check. \<open>None\<close> is that undefined behaviour. Then \<^verbatim>\<open>src/TimeUtility.cpp\<close>, which writes a time as text; the date
  library is an argument.
\<close>

section \<open>The task and its file\<close>

type_synonym ('h, 'd) task = "('h HDFFile, 'd) FileWriterTask"

definition with_file :: "('h HDFFile \<Rightarrow> 'a \<times> 'h HDFFile) \<Rightarrow> ('h, 'd) task \<Rightarrow> ('a \<times> ('h, 'd) task) option" where
  "with_file act t =
     (case fw_File t of
        None \<Rightarrow> None
      | Some f \<Rightarrow> (case act f of (r, f) \<Rightarrow> Some (r, t\<lparr>fw_File := Some f\<rparr>)))"

definition task_switchToWriteMode :: "'h hdf5_io \<Rightarrow> ('h, 'd) task \<Rightarrow> (exn option \<times> ('h, 'd) task) option" where
  "task_switchToWriteMode io = with_file (switchToWriteMode io)"

definition isInWriteMode :: "('h, 'd) task \<Rightarrow> bool option" where
  "isInWriteMode t = map_option isSWMRMode (fw_File t)"

definition writeLinks ::
  "'h hdf5_io \<Rightarrow> 'h hdf5_links \<Rightarrow> 'b ModuleSettings list \<Rightarrow> ('h, 'd) task \<Rightarrow> (unit \<times> ('h, 'd) task) option" where
  "writeLinks io ll LinkSettingsList = with_file (\<lambda>f. ((), file_addLinks io ll LinkSettingsList f))"

definition writeMetaData ::
  "'h hdf5_io \<Rightarrow> ('h \<Rightarrow> exn option \<times> 'h) \<Rightarrow> ('h, 'd) task \<Rightarrow> (unit \<times> ('h, 'd) task) option" where
  "writeMetaData io write_tracker = with_file (\<lambda>f. ((), addMetaData io write_tracker f))"

text \<open>Flushing checks the pointer.\<close>

definition task_flushDataToFile :: "'h hdf5_io \<Rightarrow> ('h, 'd) task \<Rightarrow> exn option \<times> ('h, 'd) task" where
  "task_flushDataToFile io t =
     (case with_file (hdf_flush io) t of None \<Rightarrow> (None, t) | Some r \<Rightarrow> r)"

definition task_jobID :: "('h, 'd) FileWriterTask \<Rightarrow> string" where
  "task_jobID t = fw_job_id t"

definition task_filename :: "('h, 'd) FileWriterTask \<Rightarrow> string" where
  "task_filename t = fw_filepath t"

lemma with_file_open: "fw_File t = Some f \<Longrightarrow> with_file act t = Some (fst (act f), t\<lparr>fw_File := Some (snd (act f))\<rparr>)"
  by (simp add: with_file_def case_prod_beta)

text \<open>Once the file has been created, no operation finds the pointer null, whatever is called in which order.\<close>

datatype ('h, 'b) task_call =
    Switch_To_Write_Mode
  | Write_Links "'h hdf5_links" "'b ModuleSettings list"
  | Write_Meta_Data "'h \<Rightarrow> exn option \<times> 'h"
  | Flush_File

fun run_call :: "'h hdf5_io \<Rightarrow> ('h, 'b) task_call \<Rightarrow> ('h, 'd) task \<Rightarrow> ('h, 'd) task option" where
  "run_call io Switch_To_Write_Mode t = map_option snd (task_switchToWriteMode io t)"
| "run_call io (Write_Links ll ls) t = map_option snd (writeLinks io ll ls t)"
| "run_call io (Write_Meta_Data wt) t = map_option snd (writeMetaData io wt t)"
| "run_call io Flush_File t = Some (snd (task_flushDataToFile io t))"

fun run_calls :: "'h hdf5_io \<Rightarrow> ('h, 'b) task_call list \<Rightarrow> ('h, 'd) task \<Rightarrow> ('h, 'd) task option" where
  "run_calls io [] t = Some t"
| "run_calls io (c # cs) t = (case run_call io c t of None \<Rightarrow> None | Some t \<Rightarrow> run_calls io cs t)"

lemma call_keeps_file:
  assumes "fw_File t = Some f"
  shows "\<exists>g. run_call io c t = Some (t\<lparr>fw_File := Some g\<rparr>)"
  using assms by (cases c)
    (auto simp: task_switchToWriteMode_def writeLinks_def writeMetaData_def task_flushDataToFile_def with_file_open)

lemma calls_keep_file:
  assumes "fw_File t = Some f"
  shows "\<exists>g. run_calls io cs t = Some (t\<lparr>fw_File := Some g\<rparr>)"
  using assms
proof (induction cs arbitrary: t f)
  case Nil
  then show ?case by (auto intro: exI [of _ f])
next
  case (Cons c cs)
  from call_keeps_file [OF Cons.prems, of io c] obtain g where g: "run_call io c t = Some (t\<lparr>fw_File := Some g\<rparr>)" by blast
  with Cons.IH [of "t\<lparr>fw_File := Some g\<rparr>" g] show ?case by simp
qed

lemma initialised_task_is_safe:
  assumes "InitialiseHdf exists mk_file t = Inr (t', info)"
  shows "\<exists>g. run_calls io cs t' = Some (t\<lparr>fw_File := Some g\<rparr>)"
proof -
  from assms obtain f where f: "t' = t\<lparr>fw_File := Some f\<rparr>" unfolding InitialiseHdf_def Let_def by (auto split: if_splits sum.splits)
  then show ?thesis using calls_keep_file [of t' f io cs] by simp
qed

text \<open>Before that, everything but flushing is undefined.\<close>

lemma uninitialised_task:
  assumes "fw_File t = None"
  shows "run_call io c t = (if c = Flush_File then Some t else None) \<and> isInWriteMode t = None"
  using assms by (cases c)
    (simp_all add: task_switchToWriteMode_def writeLinks_def writeMetaData_def task_flushDataToFile_def with_file_def isInWriteMode_def)

section \<open>Times as text\<close>

record 'z date_lib =
  dt_locate_UTC :: 'z
  dt_current_zone :: "'z option"
  dt_format :: "string \<Rightarrow> 'z \<Rightarrow> int \<Rightarrow> string"

text \<open>\<^verbatim>\<open>date::floor\<close> to milliseconds rounds towards minus infinity.\<close>

definition floor_ms :: "time_point \<Rightarrow> int" where
  "floor_ms t = t div 1000000"

definition zonedToZuluString :: "'z date_lib \<Rightarrow> 'z \<Rightarrow> int \<Rightarrow> string" where
  "zonedToZuluString D z t = dt_format D ''%Y-%m-%dT%H:%M:%SZ'' z t"

definition zonedToLocalString :: "'z date_lib \<Rightarrow> 'z \<Rightarrow> int \<Rightarrow> string" where
  "zonedToLocalString D z t = dt_format D ''%Y-%m-%dT%H:%M:%S%z'' z t"

definition toUTCDateTime :: "'z date_lib \<Rightarrow> time_point \<Rightarrow> string" where
  "toUTCDateTime D TimeStamp = zonedToZuluString D (dt_locate_UTC D) (floor_ms TimeStamp)"

definition toLocalDateTime :: "'z date_lib \<Rightarrow> time_point \<Rightarrow> string" where
  "toLocalDateTime D TimeStamp =
     (case dt_current_zone D of
        None \<Rightarrow> toUTCDateTime D TimeStamp
      | Some CurrentTimeZone \<Rightarrow> zonedToLocalString D CurrentTimeZone (floor_ms TimeStamp))"

text \<open>Times are written to the millisecond. Below that, times before 1970 are rounded down, while \<^verbatim>\<open>toMilliSeconds\<close> rounds
  them up: the two agree on every time from 1970 on.\<close>

lemma text_of_time_agrees:
  assumes "0 \<le> t"
  shows "floor_ms t = toMilliSeconds t"
  using assms by (simp add: floor_ms_def toMilliSeconds_def signed_divide_int_def sgn_if)

lemma text_to_the_millisecond:
  assumes "floor_ms t = floor_ms u"
  shows "toUTCDateTime D t = toUTCDateTime D u" and "toLocalDateTime D t = toLocalDateTime D u"
  using assms by (simp_all add: toUTCDateTime_def toLocalDateTime_def split: option.split)

end
