(* ===== verification/Logging.thy ===== *)
theory Logging
  imports Task_File Service_Main
begin

text \<open>
  \<^verbatim>\<open>src/logger.{h,cpp}\<close> and \<^verbatim>\<open>src/SetThreadName.cpp\<close>: the level of the logger, the severity of a message, and how vectors, JSON values and times
  look in messages. The logger of spdlog is its level and the messages it has passed on; a message passes when its level is
  at least that of the logger, as spdlog documents. Severities are the numbers of \<^verbatim>\<open>LogSeverity\<close>, since the command line can produce a number that has no name.
\<close>

section \<open>The logger\<close>

datatype spd_level = spd_trace | spd_debug | spd_info | spd_warn | spd_err | spd_critical

fun spd_rank :: "spd_level \<Rightarrow> nat" where
  "spd_rank spd_trace = 0"
| "spd_rank spd_debug = 1"
| "spd_rank spd_info = 2"
| "spd_rank spd_warn = 3"
| "spd_rank spd_err = 4"
| "spd_rank spd_critical = 5"

instantiation spd_level :: linorder
begin

definition less_eq_spd_level :: "spd_level \<Rightarrow> spd_level \<Rightarrow> bool" where
  "less_eq_spd_level a b \<longleftrightarrow> spd_rank a \<le> spd_rank b"

definition less_spd_level :: "spd_level \<Rightarrow> spd_level \<Rightarrow> bool" where
  "less_spd_level a b \<longleftrightarrow> spd_rank a < spd_rank b"

instance
proof
  show "a = b" if "a \<le> b" "b \<le> a" for a b :: spd_level
    using that by (cases a; cases b) (simp_all add: less_eq_spd_level_def)
qed (auto simp: less_eq_spd_level_def less_spd_level_def)

end

record spd_logger =
  sl_level :: spd_level
  sl_passed :: "(spd_level \<times> string) list"

definition spd_log :: "spd_level \<Rightarrow> string \<Rightarrow> spd_logger \<Rightarrow> spd_logger" where
  "spd_log l text s = (if sl_level s \<le> l then s\<lparr>sl_passed := sl_passed s @ [(l, text)]\<rparr> else s)"

text \<open>The level that the switch of \<^verbatim>\<open>setUpLogging\<close> chooses; it has no default. The call after the switch then sets the lowest
  level.\<close>

definition chosen_level :: "int \<Rightarrow> spd_level option" where
  "chosen_level logging_level =
     map_of [(0, spd_critical), (1, spd_err), (2, spd_warn), (3, spd_info), (4, spd_debug), (5, spd_trace)] logging_level"

definition setUpLogging :: "int \<Rightarrow> spd_logger \<Rightarrow> spd_logger" where
  "setUpLogging logging_level s =
     (let s = (case chosen_level logging_level of None \<Rightarrow> s | Some l \<Rightarrow> s\<lparr>sl_level := l\<rparr>)
      in s\<lparr>sl_level := spd_trace\<rparr>)"

text \<open>\<^verbatim>\<open>Logger::Log\<close>: a severity without a name counts as information.\<close>

definition Log :: "int \<Rightarrow> string \<Rightarrow> spd_logger \<Rightarrow> spd_logger" where
  "Log severity text s = spd_log (case chosen_level severity of None \<Rightarrow> spd_info | Some l \<Rightarrow> l) text s"

section \<open>Values in messages\<close>

definition format_vector :: "('a \<Rightarrow> string) \<Rightarrow> 'a list \<Rightarrow> string" where
  "format_vector show_element Data =
     (case Data of
        [] \<Rightarrow> ''[]''
      | x # xs \<Rightarrow>
          let Suffix = (if 10 < length Data then ''...'' else []);
              ReturnString = foldl (\<lambda>a b. a @ '', '' @ show_element b) (show_element x) (take 9 xs)
          in ''['' @ ReturnString @ Suffix @ '']'')"

definition format_json :: "json_lib \<Rightarrow> json \<Rightarrow> string" where
  "format_json jl Data =
     (let DataString = jl_dump jl Data in
      if DataString = [] then [CHR 0x22, CHR 0x22]
      else
        let DataString = (if 30 < length DataString then take 30 DataString @ ''...'' else DataString)
        in CHR 0x22 # DataString @ [CHR 0x22])"

definition format_time_point :: "'z date_lib \<Rightarrow> time_point \<Rightarrow> string" where
  "format_time_point D TimeStamp = toUTCDateTime D TimeStamp"

text \<open>A message shows at most ten elements, each in its own words.\<close>

lemma foldl_show: "foldl (\<lambda>a b. a @ CHR '','' # CHR '' '' # f b) s xs = s @ concat (map (\<lambda>b. '', '' @ f b) xs)"
  by (induction xs arbitrary: s) simp_all

lemma format_vector_first:
  assumes "x # xs = take 10 Data"
  shows "format_vector f Data =
    ''['' @ f x @ concat (map (\<lambda>b. '', '' @ f b) xs) @ (if 10 < length Data then ''...'' else []) @ '']''"
proof -
  obtain ys where "Data = x # ys" and "xs = take 9 ys" using assms by (cases Data) (simp_all add: take_Cons')
  then show ?thesis by (simp add: format_vector_def foldl_show)
qed

text \<open>A JSON value takes at most 35 characters.\<close>

lemma format_json_length: "length (format_json jl j) \<le> 35"
  by (simp add: format_json_def Let_def)

section \<open>The verbosity has no effect\<close>

text \<open>C18: Whatever level is asked for on the command line, the logger passes messages of every severity on: the level that the switch has
  chosen is overwritten by the statement that follows it.\<close>

theorem verbosity_ignored:
  assumes "parse_log_level input = Inr (Some level)"
  shows "sl_passed (fold (\<lambda>(sev, text). Log sev text) messages (setUpLogging level s)) =
    sl_passed s @ map (\<lambda>(sev, text). (case chosen_level sev of None \<Rightarrow> spd_info | Some l \<Rightarrow> l, text)) messages"
proof -
  have "sl_level t = spd_trace \<Longrightarrow> sl_passed (fold (\<lambda>(sev, text). Log sev text) messages t) =
    sl_passed t @ map (\<lambda>(sev, text). (case chosen_level sev of None \<Rightarrow> spd_info | Some l \<Rightarrow> l, text)) messages" for t
    by (induction messages arbitrary: t) (auto simp: Log_def spd_log_def less_eq_spd_level_def)
  from this [of "setUpLogging level s"] show ?thesis
    by (simp add: setUpLogging_def Let_def split: option.splits)
qed

theorem verbosity_ignored_witness:
  "sl_passed (Log 4 ''details'' (setUpLogging 0 \<lparr>sl_level = spd_info, sl_passed = []\<rparr>)) = [(spd_debug, ''details'')]"
proof -
  have "parse_log_level [''Critical''] = Inr (Some 0)" by code_simp
  from verbosity_ignored [OF this, of "[(4, ''details'')]" "\<lparr>sl_level = spd_info, sl_passed = []\<rparr>"] show ?thesis
    by (simp add: chosen_level_def)
qed

section \<open>Names of threads\<close>

text \<open>\<open>pthread_setname\<close> is the system call: it gives an error for a name it does not take, which nobody looks at.\<close>

definition setThreadName :: "(string \<Rightarrow> string option) \<Rightarrow> string \<Rightarrow> string \<Rightarrow> string" where
  "setThreadName pthread_setname NewName current =
     (case pthread_setname NewName of None \<Rightarrow> current | Some n \<Rightarrow> n)"

text \<open>Linux takes names of up to 15 characters. Of the names in the program, that of the thread of the Carbon connection is longer, and
  the thread keeps the name it has inherited.\<close>

lemma thread_names:
  assumes "\<And>n. linux_setname n = (if length n \<le> 15 then Some n else None)"
  shows "setThreadName linux_setname ''status_update'' c = ''status_update''" "setThreadName linux_setname ''writer'' c = ''writer''"
    "setThreadName linux_setname ''metric_reporter'' c = ''metric_reporter''" "setThreadName linux_setname ''carbon_connection'' c = c"
  by (simp_all add: setThreadName_def assms)

section \<open>The end of a consumer\<close>

text \<open>The destructor of \<^verbatim>\<open>Kafka::Consumer\<close>: what it logs, and the library calls it makes in order, whose results it ignores.\<close>

datatype closing_call = Call_unassign | Call_unsubscribe | Call_close

definition destroy_Consumer :: "'k rdkafka \<Rightarrow> (closing_call \<Rightarrow> 'k \<Rightarrow> 'k) \<Rightarrow> 'k option \<Rightarrow> string option \<times> 'k option" where
  "destroy_Consumer rd call KafkaConsumer =
     (case KafkaConsumer of
        None \<Rightarrow> (None, None)
      | Some k \<Rightarrow>
          (let (ErrorCode, Topics) = rk_subscription rd k
           in (if ErrorCode = ERR_NO_ERROR
               then Some (''Consumer consuming from topic(s) '' @ format_vector id Topics @ '' closed.'') else None,
               Some (call Call_close (call Call_unsubscribe (call Call_unassign k))))))"

end
