(* ===== verification/Spec2Isabelle.thy ===== *)
theory Spec2Isabelle
  imports Message_Writer Event_Writer Message_Generators Command_Line Logging
begin

text \<open>
  \<^bold>\<open>A model of kafka-to-nexus.\<close>

  The program is a service that listens to Kafka for jobs, writes the data of chosen Kafka streams into an HDF5 file
  in the NeXus format while a job runs, and reports what it does. This development models it from the messages up to
  the main loop. Names of definitions are those of the source; a prefix such as \<open>sf_\<close>, \<open>pt_\<close> or \<open>sc_\<close> tells
  apart methods of the same name of different classes, and record fields carry a short prefix of their class.

  \<^bold>\<open>Conventions.\<close> A method takes the state of its object last and returns the new state. An exception is a value of
  \<^typ>\<open>exn\<close>: a method that can throw returns \<^typ>\<open>exn option\<close> or a sum beside the state it leaves behind. Undefined
  behaviour (null pointer, division by zero, read beyond a buffer) is the result \<^term>\<open>None\<close>. Times are integers of
  nanoseconds. Readings of the clock, messages from Kafka and the steps of other threads are arguments. Libraries
  (librdkafka, HDF5 through h5cpp, the JSON library, the generated flatbuffers code, the lock-free queue) are records
  of functions or arguments; what the code relies on is a locale, and each locale has an interpretation.

  \<^bold>\<open>Theories and sources\<close> (below \<^verbatim>\<open>src/src\<close> unless said otherwise).

  \<^item> \<open>K2N_Prelude\<close>: exceptions, times, strings and lists shared by all.
  \<^item> \<open>Time_Utility\<close> (\<^verbatim>\<open>TimeUtility.h\<close>): conversions between clock resolutions; times as text are in \<open>Task_File\<close>.
  \<^item> \<open>Flatbuffer\<close> (\<^verbatim>\<open>Msg.h\<close>, \<^verbatim>\<open>FlatbufferMessage\<close>, \<^verbatim>\<open>FlatbufferReader\<close>, \<^verbatim>\<open>Source\<close>): messages, their
    verification by a registered reader, and sources with their hashes.
  \<^item> \<open>Filter_Interfaces\<close>: the locales that the partition asks of a source filter and of the stop decision.
  \<^item> \<open>Source_Filter\<close>, \<open>Partition_Filter\<close>, \<open>Stream_Partition\<close>, \<open>Partition_Thread\<close>, \<open>Stream_Topic\<close>
    (\<^verbatim>\<open>Stream/\<close>): from a polled message to the write queue. A source filter lets the messages of one source
    through that lie in the time window of the job; a partition polls, routes a message to its filters and decides when
    it is finished; its thread takes requests from other threads; a topic finds its partitions and offsets, with
    retries, and waits for them.
  \<^item> \<open>Work_Queue\<close> (\<^verbatim>\<open>ThreadedExecutor.h\<close>), \<open>Message_Writer\<close> (\<^verbatim>\<open>Stream/MessageWriter\<close>): the worker threads
    and their queues.
  \<^item> \<open>Stream_Controller\<close>, \<open>Controller_System\<close> (\<^verbatim>\<open>StreamController\<close>), \<open>File_Writer_Task\<close> (\<^verbatim>\<open>FileWriterTask\<close>,
    \<^verbatim>\<open>WriterModule/mdat\<close>): one job, its topics, throttling, and the interleaving of the controller with the caller
    and the topics.
  \<^item> \<open>Kafka_Settings\<close>, \<open>Kafka_Client\<close>, \<open>Kafka_Producer\<close> (\<^verbatim>\<open>Kafka/\<close>): settings, consumer, metadata queries, the producer
    with its delivery callback, and the stub consumer that plays a list of messages back.
  \<^item> \<open>Command_Messages\<close>, \<open>Command_Handler\<close> (\<^verbatim>\<open>CommandSystem/\<close>): commands, listeners, answers.
  \<^item> \<open>Multi_Vector\<close> (\<^verbatim>\<open>MultiVector.h\<close>, \<^verbatim>\<open>JsonConfig\<close> arrays), \<open>Json_Config\<close> (\<^verbatim>\<open>JsonConfig/\<close>):
    arrays of any number of dimensions and configuration fields.
  \<^item> \<open>Hdf_Attributes\<close>, \<open>Nexus_Structure\<close> (\<^verbatim>\<open>HDFOperations\<close>), \<open>Hdf_File\<close> (\<^verbatim>\<open>HDFFile\<close>),
    \<open>Nexus_Dataset\<close> (\<^verbatim>\<open>NeXusDataset/\<close>): the structure of the file and the datasets that grow.
  \<^item> \<open>Writer_Registry\<close> (\<^verbatim>\<open>WriterRegistrar\<close>, \<^verbatim>\<open>WriterModuleBase\<close>), \<open>Job_Creator\<close> (\<^verbatim>\<open>JobCreator\<close>): from a start
    message to a running controller.
  \<^item> \<open>Meta_Data\<close> (\<^verbatim>\<open>MetaData/\<close>): values that writer modules update and the tracker writes at the end.
  \<^item> \<open>Log_Writers\<close> (f144), \<open>Event_Writer\<close> (ev44), \<open>Sample_Writers\<close> (se00, tdct, al00, ep01, ad00 and the readers
    of \<^verbatim>\<open>AccessMessageMetadata/\<close>), \<open>Da00_Config\<close>, \<open>Da00_Datasets\<close>, \<open>Da00_Writer\<close> (\<^verbatim>\<open>WriterModule/da00/\<close>: the configuration of
    variables and constants, their datasets, and the module itself): the writer modules.
  \<^item> \<open>Task_File\<close> (\<^verbatim>\<open>FileWriterTask.cpp\<close>, \<^verbatim>\<open>TimeUtility.cpp\<close>): the operations of the task that pass on to its file.
  \<^item> \<open>Carbon_Connection\<close>, \<open>Metrics_Registry\<close> (\<^verbatim>\<open>Metrics/\<close>): the connection to the Carbon server as a machine of asynchronous
    operations and handlers, and metrics with their registrar, sinks and reporters, over a heap of counters.
  \<^item> \<open>Regex_Match\<close>, \<open>Program_Options\<close> (\<^verbatim>\<open>URI\<close>, \<^verbatim>\<open>MainOpt\<close>, \<^verbatim>\<open>helper.cpp\<close>, \<^verbatim>\<open>HDFVersionCheck.cpp\<close>, the callbacks of
    \<^verbatim>\<open>apps/kafka-to-nexus.cpp\<close>): regular expressions as \<^verbatim>\<open>std::regex\<close> matches them, first alternative first, and what
    the command line and the set-up of the metrics make of them.
  \<^item> \<open>Command_Line\<close> (\<^verbatim>\<open>MainOpt.h\<close>, \<^verbatim>\<open>main\<close> of \<^verbatim>\<open>apps/kafka-to-nexus.cpp\<close> up to its loop): every option with what it sets, and
    the two passes over the command line. CLI11 is the list of calls it makes and its verdict.
  \<^item> \<open>Logging\<close> (\<^verbatim>\<open>logger\<close>, \<^verbatim>\<open>SetThreadName.cpp\<close>, the destructor of \<^verbatim>\<open>Kafka::Consumer\<close>): levels, severities and the texts of
    values in messages.
  \<^item> \<open>Message_Generators\<close> (\<^verbatim>\<open>FlatBufferGenerators.h\<close>, \<^verbatim>\<open>apps/file-maker.cpp\<close>, \<^verbatim>\<open>apps/template-maker.cpp\<close>, and the
    comparison of types in the writer modules): messages made from JSON descriptions.
  \<^item> \<open>Status_Report\<close> (\<^verbatim>\<open>Status/\<close>), \<open>Master_Service\<close> (\<^verbatim>\<open>Master\<close>), \<open>Service_Main\<close> (\<^verbatim>\<open>RunState.h\<close> and
    \<^verbatim>\<open>apps/kafka-to-nexus.cpp\<close>): the service around a job.

  \<^bold>\<open>Interfaces.\<close> \<open>source_filter\<close> and \<open>partition_filter\<close> (what a partition needs of its filters) are interpreted on the two
  filters; \<open>std_map\<close> on sorted association lists; \<open>concurrent_queue\<close> and \<open>fifo_queue\<close> (a queue keeps its elements, or keeps
  them in order), with the clients \<open>task_queue\<close>, \<open>fifo_task_queue\<close>, \<open>writer_queue\<close> and \<open>controller_queues\<close>, on lists, the
  behaviour of the lock-free queue for one producer; \<open>job_control\<close> (what the command handler needs of the service) on the
  callbacks of the master; \<open>hdf5_datasets\<close> and \<open>hdf5_extents\<close> (what the writer modules need of HDF5) on files that are lists of
  datasets and on files that are the extents of their datasets; \<open>address_sort\<close> (what \<^verbatim>\<open>std::sort\<close> promises) on a stable
  sort; \<open>delivery_reports\<close> (what the producer needs of librdkafka) on a queue that reports one message at each poll.

  \<^bold>\<open>What is shown.\<close>

  \<^item> \<^emph>\<open>Data path\<close>: which messages of a source reach the writer, in which order and how often, for every sequence of messages;
    routing and counting in a partition; the stop decision against an independent description; the grouping of sources;
    the writer thread performs every queued write before it ends.
  \<^item> \<^emph>\<open>Job control\<close>: the stop time reaches every topic in every interleaving; no stop request is lost by a partition thread;
    retries of metadata calls; throttling; the answers to start and stop commands; the status of the service agrees with
    the job it runs; the end of a job is announced once; an interrupt ends the service.
  \<^item> \<^emph>\<open>File\<close>: the structure description yields exactly its stream modules; links, attributes and datasets; sources of a job;
    the set-up of streams with extra modules ends.
  \<^item> \<^emph>\<open>Contents\<close>: positions of events in the file refer to the events of their pulse; times and values of a log belong
    together; all variables of a data array have one row for each message; statistics reported by the tracker are current; the
    copies of the dataset functions in da00 do what the originals do; mismatched types are reported.
  \<^item> \<^emph>\<open>Surroundings\<close>: the bytes sent to the Carbon server are those accepted, in order and once, over all connections, and a
    connection can always recover; reporters never read a counter that is gone; the reported numbers add up; the memory of a
    message given to librdkafka is freed exactly once; addresses are taken apart into what they were put together from; reading the
    command line twice is the same as reading it once; the verbosity that is asked for has no effect.
  \<^item> \<^emph>\<open>Composition\<close>, below: the part of the file of a module is what the module makes of the messages of its source that lie in
    the time window, through source filter, queue and writer thread; a partition that is fed from a list of messages finishes.
  \<^item> \<^emph>\<open>Faults\<close>: where the code deviates from what it means to do, a theorem states what happens (for instance a lost stop
    time, a crash when a topic fails, a service that is idle while a job runs).

  \<^bold>\<open>Loops and fuel.\<close> Recursion is structural or has a termination proof except for the loops that run until an outside
  event: worker and main loops take a list of events or a number of turns, and the theorems about them say which number is
  enough. \<open>wrap_lines\<close> takes fuel because it does not end for every text; it is shown to end for texts with enough
  blanks.

  \<^bold>\<open>Not modelled.\<close> How CLI11 splits the command line and a configuration file; unit tests; the template modules, skeletons to
  copy whose functions do nothing; in the demonstration programs, reading files and waiting for the end; functions that only
  tests call (reading datasets back) and the traits that tell h5cpp the type of a C++ type. Data races on plain variables are not part of the
  model: a step of a thread is atomic up to the accesses to shared state that are written out.
\<close>

section \<open>From a source to its module\<close>

text \<open>Every writer module has its own part of the file. A call of \<^verbatim>\<open>write\<close> reads and changes the part of the module it is made
  for and no other.\<close>

definition own_part ::
  "('d \<Rightarrow> FlatbufferMessage \<Rightarrow> bool \<Rightarrow> 'v \<Rightarrow> exn option \<times> 'v) \<Rightarrow> 'd \<Rightarrow> FlatbufferMessage \<Rightarrow> bool \<Rightarrow> ('d \<Rightarrow> 'v) \<Rightarrow> exn option \<times> ('d \<Rightarrow> 'v)" where
  "own_part wr d m b parts = (let (r, v) = wr d m b (parts d) in (r, parts(d := v)))"

definition job_of :: "'d add_message \<Rightarrow> ('d, 'w) job" where
  "job_of x = Write_Msg (fst x) (snd x)"

definition for_module :: "'d \<Rightarrow> ('d, 'w) job \<Rightarrow> bool" where
  "for_module d j = (case j of Write_Msg m _ \<Rightarrow> message_DestPtr m = d | Run_Job _ \<Rightarrow> False)"

text \<open>What the module makes of a sequence of messages, each with the flag that says whether it was buffered.\<close>

definition written ::
  "('d \<Rightarrow> FlatbufferMessage \<Rightarrow> bool \<Rightarrow> 'v \<Rightarrow> exn option \<times> 'v) \<Rightarrow> 'd \<Rightarrow> (FlatbufferMessage \<times> bool) list \<Rightarrow> 'v \<Rightarrow> 'v" where
  "written wr d = fold (\<lambda>(m, b) v. snd (wr d m b v))"

text \<open>The messages that belong into the file: the newest one from before the start, and those from the start to the end.\<close>

definition window :: "time_point \<Rightarrow> time_point \<Rightarrow> FlatbufferMessage list \<Rightarrow> (FlatbufferMessage \<times> bool) list" where
  "window start_time stop_time msgs =
     (let time = (\<lambda>m. to_timepoint (fm_Timestamp m)); before = filter (\<lambda>m. time m < start_time) msgs
      in (if before = [] then [] else [(last before, True)]) @
         map (\<lambda>m. (m, False)) (filter (\<lambda>m. start_time \<le> time m \<and> time m \<le> stop_time) msgs))"

text \<open>The calls of \<^verbatim>\<open>addMessage\<close> of a source filter, from its construction to its destruction.\<close>

definition filter_life :: "FlatbufferMessage list \<Rightarrow> 'd SourceFilter \<Rightarrow> 'd add_message list" where
  "filter_life msgs f = (let (f', out) = sf_run msgs f in out @ destroy_SourceFilter f')"

lemma for_module_simps [simp]: "for_module d (Write_Msg m b) \<longleftrightarrow> message_DestPtr m = d" "\<not> for_module d (Run_Job f)"
  by (simp_all add: for_module_def)

text \<open>Jobs for other modules do not matter for the part of a module.\<close>

lemma fold_own_part:
  assumes "list_all is_write js" and "filter (for_module d) js = map (\<lambda>(m, b). Write_Msg \<lparr>message_DestPtr = d, message_FbMsg = m\<rparr> b) xs"
  shows "fold (job_world (own_part wr)) js parts d = written wr d xs (parts d)"
  using assms
proof (induction js arbitrary: xs parts)
  case Nil
  then show ?case by (simp add: written_def)
next
  case (Cons j js)
  then obtain m b where j: "j = Write_Msg m b" by (cases j) (auto simp: is_write_def)
  let ?parts = "job_world (own_part wr) j parts"
  show ?case
  proof (cases "message_DestPtr m = d")
    case True
    with Cons.prems(2) j obtain xs' where xs: "xs = (message_FbMsg m, b) # xs'"
      and rest: "filter (for_module d) js = map (\<lambda>(m, b). Write_Msg \<lparr>message_DestPtr = d, message_FbMsg = m\<rparr> b) xs'"
      by (cases xs; cases m) auto
    have "?parts d = snd (wr d (message_FbMsg m) b (parts d))"
      using True j by (simp add: job_world_def own_part_def split: prod.split)
    with Cons.IH [OF _ rest, of ?parts] Cons.prems(1) xs show ?thesis by (simp add: written_def)
  next
    case False
    then have "?parts d = parts d" using j by (simp add: job_world_def own_part_def split: prod.split)
    with Cons.IH [of xs ?parts] Cons.prems False j show ?thesis by simp
  qed
qed

lemma deliver_jobs: "map job_of (deliver ds b m) = map (\<lambda>e. Write_Msg \<lparr>message_DestPtr = e, message_FbMsg = m\<rparr> b) ds"
  by (simp add: deliver_def job_of_def)

lemma deliver_for_module:
  assumes "d \<in> set ds" and "distinct ds"
  shows "filter (for_module d) (map job_of (deliver ds b m)) = [Write_Msg \<lparr>message_DestPtr = d, message_FbMsg = m\<rparr> b]"
proof -
  have "filter (\<lambda>e. e = d) ds = [d]" using assms by (induction ds) (auto simp: filter_empty_conv)
  then show ?thesis by (simp add: deliver_jobs filter_map comp_def)
qed

lemma deliver_all_for_module:
  assumes "d \<in> set ds" and "distinct ds"
  shows "filter (for_module d) (map job_of (concat (map (deliver ds b) ms))) =
    map (\<lambda>m. Write_Msg \<lparr>message_DestPtr = d, message_FbMsg = m\<rparr> b) ms"
  by (induction ms) (simp_all add: deliver_for_module [OF assms])

lemma filter_life_window:
  assumes "sorted (map fm_Timestamp msgs)" and "allow \<or> distinct (map fm_Timestamp msgs)"
    and "\<And>m. m \<in> set msgs \<Longrightarrow> fm_ok h items m \<and> fm_SourceNameIDHash m = hsh" and "d \<in> set ds" and "distinct ds"
  shows "filter (for_module d) (map job_of (filter_life msgs (new_filter start_time stop_time allow hsh ds))) =
    map (\<lambda>(m, b). Write_Msg \<lparr>message_DestPtr = d, message_FbMsg = m\<rparr> b) (window start_time stop_time msgs)"
proof -
  let ?f = "new_filter start_time stop_time allow hsh ds"
  have "run_ready msgs ?f"
    using assms(1,2)
    by (auto simp: run_ready_def new_filter_eq make_SourceFilter_def sf_inv_def dest!: assms(3) dest: fm_okD)
  then have life: "filter_life msgs ?f = handed_over ?f msgs"
    using sf_run_handed_over [of msgs ?f] by (simp add: filter_life_def split: prod.split)
  show ?thesis unfolding life
    by (simp add: handed_over_def early_def [abs_def] in_window_def [abs_def] flushed_def window_def Let_def
        new_filter_eq make_SourceFilter_def comp_def deliver_for_module [OF assms(4,5)] deliver_all_for_module [OF assms(4,5)]
        split: list.splits)
qed



section \<open>Playing messages back\<close>

text \<open>The demonstration program runs a partition on a stub consumer: the thread of the partition polls until the partition has
  finished. The list has the readings of the clock, one triple for each poll.\<close>

fun play_back ::
  "(string \<Rightarrow> hash) \<Rightarrow> readers \<Rightarrow> (time_point \<times> time_point \<times> time_point) list \<Rightarrow> StubConsumer \<Rightarrow> 'd Partition
     \<Rightarrow> 'd Partition \<times> 'd add_message list" where
  "play_back h items [] c p = (p, [])"
| "play_back h items (nows # rest) c p =
     (if hasFinished p then (p, [])
      else
        let (res, c) = stub_poll c;
            (p, out) = pollForMessage h items False nows res p;
            (p, out') = play_back h items rest c p
        in (p, out @ out'))"

text \<open>How many polls are left: one for each message of the topic, one for the end of the partition and one for a timeout.\<close>

abbreviation messages_left :: "StubConsumer \<Rightarrow> Msg list" where
  "messages_left c \<equiv> filter (of_topic (sc_topic c)) (drop (sc_offset c) (sc_messages c))"

definition polls_left :: "StubConsumer \<Rightarrow> nat" where
  "polls_left c = length (messages_left c) + (if sc_at_end_of_partition c then 1 else 2)"

definition playing :: "time_point \<Rightarrow> StubConsumer \<Rightarrow> 'd Partition \<Rightarrow> bool" where
  "playing limit c p \<longleftrightarrow>
     (let f = pt_partition_filter p in
      \<not> pt_force_stop p \<and> s64 (pf_stop_time f + pf_stop_leeway f) = limit \<and>
      (sc_at_end_of_partition c \<longrightarrow> messages_left c = [] \<and> pf_at_end_of_partition f))"

lemma processMessage_filter: "processMessage h items m p = (p', out) \<Longrightarrow> pt_partition_filter p' = pt_partition_filter p"
  by (auto simp: processMessage_def count_fb_error_def Let_def split: sum.splits prod.splits fb_error.splits if_splits)

lemma poll_partition_filter:
  assumes "\<not> pt_force_stop p"
  shows "pt_partition_filter (fst (pollForMessage h items False (n0, n1, n2) (st, m) p)) =
    snd (shouldStopPartition n1 n2 st (pt_partition_filter p))"
proof -
  have "pt_partition_filter (count_poll st p) = pt_partition_filter p" by (cases st) simp_all
  then show ?thesis using assms
    by (auto simp: pollForMessage_def shouldStop_eq Let_def split: prod.splits dest!: processMessage_filter)
qed

lemma stub_poll_cases:
  obtains (message) m c' where "stub_poll c = ((PS_Message, m), c')" "messages_left c = m # messages_left c'"
      "sc_at_end_of_partition c' = sc_at_end_of_partition c"
  | (at_end) c' where "stub_poll c = ((if sc_at_end_of_partition c then PS_TimedOut else PS_EndOfPartition, empty_Msg), c')"
      "messages_left c = []" "messages_left c' = []" "sc_at_end_of_partition c'"
proof (cases "messages_left c")
  case Nil
  then have none: "\<not> list_ex (of_topic (sc_topic c)) (drop (sc_offset c) (sc_messages c))" by (auto simp: filter_empty_conv list_ex_iff)
  show ?thesis by (rule at_end [OF stub_end [OF none] Nil]) simp_all
next
  case (Cons m ms)
  from filter_eq_ConsD [OF Cons] obtain before after where
    d: "drop (sc_offset c) (sc_messages c) = before @ m # after" "\<not> list_ex (of_topic (sc_topic c)) before"
    "of_topic (sc_topic c) m" "ms = filter (of_topic (sc_topic c)) after" by (auto simp: list_ex_iff)
  have "drop (sc_offset c + Suc (length before)) (sc_messages c) = after"
    using arg_cong [OF d(1), of "drop (Suc (length before))"] by (simp add: add.commute)
  then show ?thesis using message [of m "c\<lparr>sc_offset := sc_offset c + Suc (length before)\<rparr>"] Cons d next_of_topic_some [OF d(2,3)]
    by (simp add: stub_poll_def)
qed

lemma playing_step:
  assumes "playing limit c p" and "\<not> hasFinished p" and "limit < n2" and "stub_poll c = (res, c')"
    and "pollForMessage h items False (n0, n1, n2) res p = (p', out)"
  shows "hasFinished p' \<or> playing limit c' p' \<and> polls_left c = Suc (polls_left c')"
proof -
  let ?f = "pt_partition_filter p"
  obtain st m where res: "res = (st, m)" by (cases res)
  have nf: "\<not> pt_force_stop p" and lim: "s64 (pf_stop_time ?f + pf_stop_leeway ?f) = limit"
    and e: "sc_at_end_of_partition c \<Longrightarrow> messages_left c = [] \<and> pf_at_end_of_partition ?f"
    using assms(1) by (simp_all add: playing_def Let_def)
  have f: "pt_partition_filter p' = snd (shouldStopPartition n1 n2 st ?f)"
    using poll_partition_filter [OF nf, of h items n0 n1 n2 st m] assms(5) res by simp
  have nf': "\<not> pt_force_stop p'"
    using pollForMessage_not_forced [of h items False "(n0, n1, n2)" res p] assms(5) nf by simp
  have fin: "hasFinished p'" if "fst (shouldStopPartition n1 n2 st ?f)"
    using that assms(5) nf unfolding res by (cases st) (auto simp: hasFinished_def pollForMessage_def shouldStop_eq Let_def)
  show ?thesis
  proof (cases c rule: stub_poll_cases)
    case (message m' c'')
    then have st: "st = PS_Message" "c'' = c'" using assms(4) res by simp_all
    then show ?thesis using message e f nf' lim by (auto simp: playing_def polls_left_def)
  next
    case (at_end c'')
    then have c: "c'' = c'" "st = (if sc_at_end_of_partition c then PS_TimedOut else PS_EndOfPartition)" using assms(4) res by simp_all
    show ?thesis
    proof (cases "sc_at_end_of_partition c")
      case True
      then have "fst (shouldStopPartition n1 n2 st ?f)" using c e assms(3) lim by (simp add: updateStatusOccurrenceTime_def Let_def)
      with fin show ?thesis by simp
    next
      case False
      have l: "length (messages_left c) = 0" "length (messages_left c') = 0" "sc_at_end_of_partition c'"
        using at_end(2-4) c(1) by (simp_all only: list.size)
      then show ?thesis using False c(2) f nf' lim by (auto simp: playing_def polls_left_def)
    qed
  qed
qed

lemma play_back_finishes:
  assumes "playing limit c p" and "polls_left c \<le> length nows" and "list_all (\<lambda>(n0, n1, n2). limit < n2) nows"
  shows "hasFinished (fst (play_back h items nows c p))"
  using assms
proof (induction nows arbitrary: c p)
  case Nil
  then show ?case by (simp add: polls_left_def split: if_splits)
next
  case (Cons now nows)
  obtain n0 n1 n2 where n: "now = (n0, n1, n2)" by (cases now)
  obtain res c' where c: "stub_poll c = (res, c')" by fastforce
  obtain p' out where p: "pollForMessage h items False now res p = (p', out)" by fastforce
  show ?case
  proof (cases "hasFinished p")
    case False
    have "hasFinished p' \<or> playing limit c' p' \<and> polls_left c = Suc (polls_left c')"
      using playing_step [OF Cons.prems(1) False _ c p [unfolded n]] Cons.prems(3) n by simp
    then have "hasFinished (fst (play_back h items nows c' p'))"
    proof
      assume "hasFinished p'"
      then show ?thesis by (cases nows) simp_all
    next
      assume "playing limit c' p' \<and> polls_left c = Suc (polls_left c')"
      then show ?thesis using Cons.IH [of c' p'] Cons.prems(2,3) by simp
    qed
    then show ?thesis using False c p by (simp add: case_prod_beta)
  qed simp
qed

text \<open>C37: A partition that is played back ends: when the clock is past the stop time and the leeway, it has finished after at most
  two polls more than there are messages of its topic, whatever the messages are, however the job is configured and whatever reads them.\<close>

theorem playback_ends:
  assumes "stub_createConsumerAtOffset messages topic partition_id = (e, c)"
    and "0 \<le> leeway" and "leeway \<le> tp_max" and "0 \<le> stop" and "stop \<le> tp_max"
    and "list_all (\<lambda>(n0, n1, n2). sanitise_stop_time leeway stop + leeway < n2) nows"
    and "length (filter (of_topic topic) messages) + 2 \<le> length nows"
  shows "hasFinished (fst (play_back h items nows c (create_Partition partition_id topic src_map start stop leeway error_timeout)))"
proof (rule play_back_finishes)
  have c: "c = (make_StubConsumer messages [])\<lparr>sc_topic := topic, sc_partition := partition_id\<rparr>"
    using stub_consumer_at_offset [of messages topic partition_id] assms(1) by simp
  show "playing (sanitise_stop_time leeway stop + leeway) c (create_Partition partition_id topic src_map start stop leeway error_timeout)"
    using sanitise_no_overflow(1) [OF assms(2-5)] unfolding c
    by (simp add: playing_def create_Partition_def make_Partition_def make_PartitionFilter_def pf_setStopTime_def make_StubConsumer_def
        in_s64_def s64_id Let_def)
  show "polls_left c \<le> length nows" using assms(7) unfolding c by (simp add: polls_left_def make_StubConsumer_def)
qed (rule assms(6))

theorem playback_ends_witness:
  "hasFinished (fst (play_back (\<lambda>_. 0) [] [(16, 16, 16), (17, 17, 17), (18, 18, 18)]
     (snd (stub_createConsumerAtOffset [empty_Msg\<lparr>msg_MetaData := empty_MetaData\<lparr>md_topic := ''t''\<rparr>\<rparr>] ''t'' 0))
     (create_Partition 0 ''t'' ([] :: string SrcDstKey list) 0 10 5 30)))"
  by (rule playback_ends [where messages = "[empty_Msg\<lparr>msg_MetaData := empty_MetaData\<lparr>md_topic := ''t''\<rparr>\<rparr>]" and
        e = "fst (stub_createConsumerAtOffset [empty_Msg\<lparr>msg_MetaData := empty_MetaData\<lparr>md_topic := ''t''\<rparr>\<rparr>] ''t'' 0)"])
    (simp_all add: sanitise_stop_time_def s64_def)

end
